(* ===== verification/Prelude.thy ===== *)
theory Prelude
  imports Complex_Main "HOL-Library.Word"
begin

text \<open>
  Shared ground of the development: the pieces of Go and of its standard library that several
  components use, with the generic lemmas about them.

  \<^item> \<open>time\<close> and \<open>duration\<close>: a \<^verbatim>\<open>time.Time\<close> is an instant in nanoseconds, counted from
    Go's zero time (1 January of year 1, UTC), so that \<open>0\<close> is the value whose
    \<^verbatim>\<open>IsZero()\<close> holds; \<^verbatim>\<open>UTC()\<close> changes the location of a value, not its instant, and
    leaves the model's value alone. A \<^verbatim>\<open>time.Duration\<close> is an \<^verbatim>\<open>int64\<close> of nanoseconds.
  \<^item> \<open>wrap64\<close>: two's complement wrap-around of \<^verbatim>\<open>int64\<close> arithmetic.
  \<^item> \<open>TrimSpace\<close>: \<^verbatim>\<open>strings.TrimSpace\<close> on the bytes of a UTF-8 string, all the Unicode white
    space runes included.
  \<^item> decimal numerals: reading and printing of digit strings.
  \<^item> \<open>uuid\<close>: the 16 bytes of a \<^verbatim>\<open>uuid.UUID\<close> read as one 128-bit number.
\<close>

named_theorems go_simps "equations that evaluate the model's operations"
named_theorems val_simps "values of the decimal operations"

type_synonym time = int
type_synonym duration = int
type_synonym uuid = "128 word"

abbreviation (input) uuid_Nil :: uuid where
  "uuid_Nil \<equiv> 0"

abbreviation (input) IsZeroTime :: "time \<Rightarrow> bool" where
  "IsZeroTime t \<equiv> t = 0"

abbreviation (input) Second :: duration where
  "Second \<equiv> 1000000000"

abbreviation (input) Minute :: duration where
  "Minute \<equiv> 60 * Second"

abbreviation (input) Hour :: duration where
  "Hour \<equiv> 60 * Minute"

section \<open>Integers of 64 bits\<close>

definition wrap64 :: "int \<Rightarrow> int" where
  "wrap64 x = (x + 2 ^ 63) mod 2 ^ 64 - 2 ^ 63"

definition in_int64 :: "int \<Rightarrow> bool" where
  "in_int64 x \<longleftrightarrow> - (2 ^ 63) \<le> x \<and> x < 2 ^ 63"

section \<open>Strings\<close>

text \<open>
  The number of bytes of the white space rune a string starts with, \<open>0\<close> when it starts with
  none: the ASCII white space, U+0085, U+00A0, U+1680, U+2000 to U+200A, U+2028, U+2029, U+202F,
  U+205F and U+3000 (Go's \<^verbatim>\<open>unicode.IsSpace\<close>).
\<close>

fun space_len3 :: "nat \<Rightarrow> nat \<Rightarrow> nat \<Rightarrow> bool" where
  "space_len3 a b c =
     ((a = 225 \<and> b = 154 \<and> c = 128) \<or>
      (a = 226 \<and> b = 128 \<and> (128 \<le> c \<and> c \<le> 138 \<or> c = 168 \<or> c = 169 \<or> c = 175)) \<or>
      (a = 226 \<and> b = 129 \<and> c = 159) \<or>
      (a = 227 \<and> b = 128 \<and> c = 128))"

definition ascii_space :: "nat \<Rightarrow> bool" where
  "ascii_space a \<longleftrightarrow> (9 \<le> a \<and> a \<le> 13) \<or> a = 32"

definition space_len2 :: "nat \<Rightarrow> nat \<Rightarrow> bool" where
  "space_len2 a b \<longleftrightarrow> a = 194 \<and> (b = 133 \<or> b = 160)"

fun space_prefix :: "string \<Rightarrow> nat" where
  "space_prefix [] = 0"
| "space_prefix [a] = (if ascii_space (of_char a) then 1 else 0)"
| "space_prefix [a, b] =
     (if ascii_space (of_char a) then 1
      else if space_len2 (of_char a) (of_char b) then 2 else 0)"
| "space_prefix (a # b # c # s) =
     (if ascii_space (of_char a) then 1
      else if space_len2 (of_char a) (of_char b) then 2
      else if space_len3 (of_char a) (of_char b) (of_char c) then 3 else 0)"

text \<open>The same on the reversed string: the white space rune it ends with.\<close>

fun space_suffix :: "string \<Rightarrow> nat" where
  "space_suffix [] = 0"
| "space_suffix [a] = (if ascii_space (of_char a) then 1 else 0)"
| "space_suffix [b, a] =
     (if ascii_space (of_char b) then 1
      else if space_len2 (of_char a) (of_char b) then 2 else 0)"
| "space_suffix (c # b # a # s) =
     (if ascii_space (of_char c) then 1
      else if space_len2 (of_char b) (of_char c) then 2
      else if space_len3 (of_char a) (of_char b) (of_char c) then 3 else 0)"

function trim_left :: "string \<Rightarrow> string" where
  "trim_left s = (if space_prefix s = 0 \<or> s = [] then s else trim_left (drop (space_prefix s) s))"
  by pat_completeness auto
termination
  by (relation "measure length") (auto simp: neq_Nil_conv)

function trim_left_rev :: "string \<Rightarrow> string" where
  "trim_left_rev s = (if space_suffix s = 0 \<or> s = [] then s else trim_left_rev (drop (space_suffix s) s))"
  by pat_completeness auto
termination
  by (relation "measure length") (auto simp: neq_Nil_conv)

definition TrimSpace :: "string \<Rightarrow> string" where
  "TrimSpace s = rev (trim_left_rev (rev (trim_left s)))"

section \<open>Decimal numerals\<close>

definition is_digit :: "char \<Rightarrow> bool" where
  "is_digit c \<longleftrightarrow> 48 \<le> (of_char c :: nat) \<and> (of_char c :: nat) \<le> 57"

definition is_upper :: "char \<Rightarrow> bool" where
  "is_upper c \<longleftrightarrow> 65 \<le> (of_char c :: nat) \<and> (of_char c :: nat) \<le> 90"

definition digit_val :: "char \<Rightarrow> nat" where
  "digit_val c = of_char c - 48"

definition digit_char :: "nat \<Rightarrow> char" where
  "digit_char n = char_of (n + 48)"

fun digits_val :: "nat \<Rightarrow> string \<Rightarrow> nat" where
  "digits_val acc [] = acc"
| "digits_val acc (c # s) = digits_val (10 * acc + digit_val c) s"

fun nat_str :: "nat \<Rightarrow> string" where
  "nat_str n = (if n < 10 then [digit_char n] else nat_str (n div 10) @ [digit_char (n mod 10)])"

text \<open>The fixed-point text, with two decimal places, of \<open>n\<close> hundredths.\<close>

definition fixed2 :: "int \<Rightarrow> string" where
  "fixed2 n =
     (if n < 0 then ''-'' else []) @ nat_str (nat \<bar>n\<bar> div 100) @ ''.'' @
     [digit_char (nat \<bar>n\<bar> div 10 mod 10), digit_char (nat \<bar>n\<bar> mod 10)]"

declare trim_left.simps [simp del] trim_left_rev.simps [simp del] nat_str.simps [simp del]

section \<open>Lemmas\<close>

lemma wrap64_id [simp]: "in_int64 x \<Longrightarrow> wrap64 x = x"
  by (simp add: wrap64_def in_int64_def)

lemma in_int64_wrap64 [simp]: "in_int64 (wrap64 x)"
proof -
  have "0 \<le> (x + 2 ^ 63) mod 2 ^ 64" "(x + 2 ^ 63) mod 2 ^ 64 < (2::int) ^ 64"
    by simp_all
  then show ?thesis by (simp add: wrap64_def in_int64_def)
qed

lemma trim_left_Nil [simp]: "trim_left [] = []"
  by (simp add: trim_left.simps)

lemma trim_left_rev_Nil [simp]: "trim_left_rev [] = []"
  by (simp add: trim_left_rev.simps)

lemma TrimSpace_Nil [simp]: "TrimSpace [] = []"
  by (simp add: TrimSpace_def)

text \<open>
  A string that starts with a byte that opens no white space rune and ends with one that closes
  none is not trimmed.
\<close>

definition plain_byte :: "char \<Rightarrow> bool" where
  "plain_byte c \<longleftrightarrow> 33 \<le> (of_char c :: nat) \<and> (of_char c :: nat) < 128"

lemma space_prefix_plain: "plain_byte c \<Longrightarrow> space_prefix (c # s) = 0"
  by (cases "c # s" rule: space_prefix.cases)
    (auto simp: plain_byte_def ascii_space_def space_len2_def)

lemma space_suffix_plain: "plain_byte c \<Longrightarrow> space_suffix (c # s) = 0"
  by (cases "c # s" rule: space_suffix.cases)
    (auto simp: plain_byte_def ascii_space_def space_len2_def)

lemma trim_left_plain: "plain_byte c \<Longrightarrow> trim_left (c # s) = c # s"
  by (simp add: trim_left.simps [of "c # s"] space_prefix_plain)

lemma trim_left_rev_plain: "plain_byte c \<Longrightarrow> trim_left_rev (c # s) = c # s"
  by (simp add: trim_left_rev.simps [of "c # s"] space_suffix_plain)

lemma TrimSpace_plain:
  assumes "s \<noteq> []" "plain_byte (hd s)" "plain_byte (last s)"
  shows "TrimSpace s = s"
proof -
  obtain c t where s: "s = c # t" using assms(1) by (cases s) auto
  have "trim_left s = s" using assms(2) by (simp add: s trim_left_plain)
  moreover obtain d u where r: "rev s = d # u" using assms(1) by (cases "rev s") auto
  moreover have "last s = d" using r assms(1) by (metis last_rev list.sel(1) rev_rev_ident)
  ultimately show ?thesis
    using assms(3) by (metis TrimSpace_def rev_rev_ident trim_left_rev_plain)
qed

lemma TrimSpace_plain_ne: "\<lbrakk>s \<noteq> []; plain_byte (hd s); plain_byte (last s)\<rbrakk> \<Longrightarrow> TrimSpace s \<noteq> []"
  by (simp add: TrimSpace_plain)

lemma digit_char_val [simp]: "n < 10 \<Longrightarrow> digit_val (digit_char n) = n"
  by (simp add: digit_val_def digit_char_def)

lemma is_digit_digit_char [simp]: "n < 10 \<Longrightarrow> is_digit (digit_char n)"
  by (simp add: is_digit_def digit_char_def)

lemma digits_val_append: "digits_val a (s @ t) = digits_val (digits_val a s) t"
  by (induction s arbitrary: a) auto

lemma digits_val_acc: "digits_val a s = a * 10 ^ length s + digits_val 0 s"
proof (induction s arbitrary: a)
  case (Cons c s)
  show ?case
    using Cons.IH [of "10 * a + digit_val c"] Cons.IH [of "digit_val c"]
    by (simp add: algebra_simps)
qed simp

lemma nat_str_ne [simp]: "nat_str n \<noteq> []"
  by (subst nat_str.simps) simp

lemma nat_str_digits: "\<forall>c \<in> set (nat_str n). is_digit c"
proof (induction n rule: nat_str.induct)
  case (1 n)
  then show ?case by (cases "n < 10") (auto simp: nat_str.simps [of n])
qed

lemma digits_val_nat_str [simp]: "digits_val 0 (nat_str n) = n"
proof (induction n rule: nat_str.induct)
  case (1 n)
  then show ?case
    by (cases "n < 10") (auto simp: nat_str.simps [of n] digits_val_append)
qed

lemma length_nat_str: "length (nat_str n) \<le> Suc k \<longleftrightarrow> n < 10 ^ Suc k"
proof (induction k arbitrary: n)
  case 0
  then show ?case by (subst nat_str.simps) (auto simp: neq_Nil_conv)
next
  case (Suc k)
  show ?case
  proof (cases "n < 10")
    case True
    moreover have "(10::nat) \<le> 10 ^ Suc (Suc k)"
      by simp
    ultimately show ?thesis by (auto simp: nat_str.simps [of n] intro: less_le_trans)
  next
    case False
    have "n div 10 < 10 ^ Suc k \<longleftrightarrow> n < 10 ^ Suc (Suc k)"
      by (simp add: div_less_iff_less_mult mult.commute)
    with False Suc show ?thesis by (simp add: nat_str.simps [of n])
  qed
qed

lemma nat_str_hd: "0 < n \<Longrightarrow> hd (nat_str n) \<noteq> CHR ''0''"
proof (induction n rule: nat_str.induct)
  case (1 n)
  show ?case
  proof (cases "n < 10")
    case True
    then have "digit_val (digit_char n) = n" by simp
    moreover have "digit_val (CHR ''0'') = 0" by (simp add: digit_val_def)
    ultimately have "digit_char n \<noteq> CHR ''0''" using "1.prems" by (metis less_irrefl)
    then show ?thesis using True by (simp add: nat_str.simps [of n])
  next
    case False
    with 1 show ?thesis by (simp add: nat_str.simps [of n])
  qed
qed

lemma div_100: "(n::nat) div 100 = n div 10 div 10"
  by (simp add: div_mult2_eq [symmetric])

lemma split_two_digits:
  assumes "a < 10" "b < (10::nat)"
  shows "(10 * (10 * i + a) + b) div 100 = i" "(10 * (10 * i + a) + b) div 10 mod 10 = a"
    "(10 * (10 * i + a) + b) mod 10 = b"
proof -
  let ?k = "10 * i + a"
  have k: "(10 * ?k + b) div 10 = ?k" "(10 * ?k + b) mod 10 = b"
    using assms(2) mod_mult_self2 [of b 10 ?k] div_mult_self2 [of 10 b ?k]
    by (simp_all only: add.commute mod_less div_less)
  have "?k div 10 = i" "?k mod 10 = a"
    using assms(1) by simp_all
  with k show "(10 * ?k + b) div 100 = i" "(10 * ?k + b) div 10 mod 10 = a" "(10 * ?k + b) mod 10 = b"
    by (simp_all only: div_100)
qed

lemma join_two_digits: "10 * (10 * (n div 100) + n div 10 mod 10) + n mod 10 = (n::nat)"
  by (simp add: div_100)

lemma length_2_list:
  assumes "length xs = 2"
  obtains a b where "xs = [a, b]"
  using assms by (cases xs; cases "tl xs") auto

lemma in_set_find: "find P xs = Some x \<Longrightarrow> x \<in> set xs \<and> P x"
  by (induction xs) (auto split: if_splits)

end
