(* ===== verification/Errors.thy ===== *)
theory Errors
  imports Prelude
begin

text \<open>
  Go error values of the service: the sentinels of \<^verbatim>\<open>internal/domain/errors.go\<close>,
  \<^verbatim>\<open>internal/application/errors.go\<close>, \<^verbatim>\<open>internal/infrastructure/sqs/errors.go\<close>,
  \<^verbatim>\<open>internal/auth/errors.go\<close> and of the repositories, the errors the database driver and the
  contexts return, and the two ways the code combines errors (\<^verbatim>\<open>fmt.Errorf\<close> with \<^verbatim>\<open>%w\<close>,
  \<^verbatim>\<open>errors.Join\<close>). \<open>errors_Is\<close> and \<open>as_PgError\<close> are \<^verbatim>\<open>errors.Is\<close> and \<^verbatim>\<open>errors.As\<close> on
  these trees. On top of them the classifications of
  \<^verbatim>\<open>internal/infrastructure/postgres/errors.go\<close> and \<open>IsTransient\<close>.

  What the driver knows about one of its errors (is it a \<^verbatim>\<open>net.Error\<close>, a timeout for
  \<^verbatim>\<open>pgconn.Timeout\<close>, safe to retry for \<^verbatim>\<open>pgconn.SafeToRetry\<close>) is carried by the error value
  \<open>DriverError\<close> and chosen by the environment.
\<close>

datatype domain_error =
    ErrInvalidCurrency
  | ErrInvalidMoney
  | ErrCurrencyMismatch
  | ErrAmountMustBePositive
  | ErrInvalidWalletID
  | ErrInvalidPlayerID
  | ErrInvalidWalletVersion
  | ErrInsufficientFunds
  | ErrInvalidTimestamp
  | ErrInvalidTransactionID
  | ErrInvalidProviderID
  | ErrInvalidExternalTransactionID
  | ErrInvalidIdempotencyKey
  | ErrInvalidPayloadHash
  | ErrInvalidRoundID
  | ErrInvalidGameID
  | ErrInvalidWagerType
  | ErrInvalidWagerStatus
  | ErrInvalidWagerAmount
  | ErrInvalidWagerReference
  | ErrWagerReferenceMismatch
  | ErrWagerReferenceNotProcessed
  | ErrInvalidWagerTransition
  | ErrWagerTransactionTerminal
  | ErrInvalidFailureCode
  | ErrInvalidFinancialResult
  | ErrInvalidWagerState
  | ErrInvalidLedgerEntry
  | ErrInvalidLedgerDirection

datatype application_error =
    ErrInvalidCorrelationID
  | ErrNotFound
  | ErrAlreadyExists
  | ErrIdempotencyConflict
  | ErrExternalTransactionConflict
  | ErrWalletNotFound
  | ErrWalletAlreadyExists
  | ErrWalletMismatch
  | ErrInvalidWalletReference
  | ErrInboxMessageConflict
  | ErrInboxMessageNotFound
  | ErrConcurrentUpdate
  | ErrUnavailable

datatype sqs_error =
    ErrInvalidMessageBody
  | ErrInvalidGroupID
  | ErrInvalidDedupID
  | ErrInvalidMessageID
  | ErrInvalidSQSMessageID
  | ErrInvalidSQSBody
  | ErrInvalidReceipt
  | ErrInvalidWagerMessageID
  | ErrInvalidWagerMessageType
  | ErrInvalidWagerMessageOccurredAt
  | ErrProviderNotAllowed

text \<open>
  The errors of the runtime around the service: no row for a query, a PostgreSQL error with its
  SQLSTATE and the constraint it names, another error of the driver, an unexpected end of the
  connection, the two errors of a context.
\<close>

datatype infra_error =
    ErrNoRows
  | PgError (pg_code: string) (pg_constraint: string)
  | DriverError (is_net: bool) (is_timeout: bool) (is_safe_to_retry: bool)
  | ErrUnexpectedEOF
  | ContextCanceled
  | ContextDeadlineExceeded

datatype err =
    DomainErr domain_error
  | AppErr application_error
  | SqsErr sqs_error
  | InfraErr infra_error
  | ErrTransactionRequired
  | ErrInvalidToken
  | OtherError string
  | Wrapped err err

fun errors_Is :: "err \<Rightarrow> err \<Rightarrow> bool" where
  "errors_Is e target =
     (e = target \<or> (case e of Wrapped a b \<Rightarrow> errors_Is a target \<or> errors_Is b target | _ \<Rightarrow> False))"

fun as_PgError :: "err \<Rightarrow> (string \<times> string) option" where
  "as_PgError (InfraErr i) = (case i of PgError c k \<Rightarrow> Some (c, k) | _ \<Rightarrow> None)"
| "as_PgError (Wrapped a b) = (case as_PgError a of Some r \<Rightarrow> Some r | None \<Rightarrow> as_PgError b)"
| "as_PgError _ = None"

text \<open>\<^verbatim>\<open>errors.As\<close> to \<^verbatim>\<open>net.Error\<close>: \<^verbatim>\<open>context.DeadlineExceeded\<close> implements it too.\<close>

fun as_NetError :: "err \<Rightarrow> bool" where
  "as_NetError (InfraErr i) =
     (case i of DriverError n t s \<Rightarrow> n | ContextDeadlineExceeded \<Rightarrow> True | _ \<Rightarrow> False)"
| "as_NetError (Wrapped a b) = (as_NetError a \<or> as_NetError b)"
| "as_NetError _ = False"

text \<open>What \<^verbatim>\<open>pgconn.Timeout\<close> and \<^verbatim>\<open>pgconn.SafeToRetry\<close> answer for a driver error.\<close>

fun pgconn_Timeout :: "err \<Rightarrow> bool" where
  "pgconn_Timeout (InfraErr i) = (case i of DriverError n t s \<Rightarrow> t | _ \<Rightarrow> False)"
| "pgconn_Timeout (Wrapped a b) = (pgconn_Timeout a \<or> pgconn_Timeout b)"
| "pgconn_Timeout _ = False"

fun pgconn_SafeToRetry :: "err \<Rightarrow> bool" where
  "pgconn_SafeToRetry (InfraErr i) = (case i of DriverError n t s \<Rightarrow> s | _ \<Rightarrow> False)"
| "pgconn_SafeToRetry (Wrapped a b) = (pgconn_SafeToRetry a \<or> pgconn_SafeToRetry b)"
| "pgconn_SafeToRetry _ = False"

definition IsTransient :: "err \<Rightarrow> bool" where
  "IsTransient e \<longleftrightarrow> errors_Is e (AppErr ErrUnavailable) \<or> errors_Is e (InfraErr ContextDeadlineExceeded) \<or> as_NetError e"

definition isRetryableConflict :: "err \<Rightarrow> bool" where
  "isRetryableConflict e =
     (case as_PgError e of
        Some (code, _) \<Rightarrow> code = ''40001'' \<or> code = ''40P01''
      | None \<Rightarrow> False)"

definition HasPrefix :: "string \<Rightarrow> string \<Rightarrow> bool" where
  "HasPrefix s p \<longleftrightarrow> take (length p) s = p"

definition isUnavailable :: "err \<Rightarrow> bool" where
  "isUnavailable e =
     (case as_PgError e of
        Some (code, _) \<Rightarrow>
          isRetryableConflict e \<or>
          HasPrefix code ''08'' \<or>
          HasPrefix code ''53'' \<or>
          code = ''55P03'' \<or>
          code = ''57014'' \<or>
          code = ''57P01'' \<or>
          code = ''57P02'' \<or>
          code = ''57P03''
      | None \<Rightarrow> pgconn_Timeout e \<or> pgconn_SafeToRetry e \<or> errors_Is e (InfraErr ErrUnexpectedEOF))"

definition isUniqueViolation :: "err \<Rightarrow> bool" where
  "isUniqueViolation e =
     (case as_PgError e of Some (code, _) \<Rightarrow> code = ''23505'' | None \<Rightarrow> False)"

definition sqlState :: "err \<Rightarrow> string" where
  "sqlState e = (case as_PgError e of Some (code, _) \<Rightarrow> code | None \<Rightarrow> '''')"

section \<open>Lemmas\<close>

declare errors_Is.simps [simp del]

lemma errors_Is_refl [simp]: "errors_Is e e"
  by (simp add: errors_Is.simps)

lemma errors_Is_Wrapped [simp]:
  "errors_Is (Wrapped a b) t \<longleftrightarrow> t = Wrapped a b \<or> errors_Is a t \<or> errors_Is b t"
  by (auto simp: errors_Is.simps [of "Wrapped a b"])

lemma errors_Is_leaf [simp]: "(\<And>a b. e \<noteq> Wrapped a b) \<Longrightarrow> errors_Is e t \<longleftrightarrow> e = t"
  by (auto simp: errors_Is.simps [of e] split: err.splits)

lemma retryable_unavailable: "isRetryableConflict e \<Longrightarrow> isUnavailable e"
  by (auto simp: isRetryableConflict_def isUnavailable_def split: option.splits)

text \<open>An error marked unavailable by the transaction manager is transient whatever it wraps.\<close>

lemma unavailable_transient [simp]: "IsTransient (Wrapped (AppErr ErrUnavailable) e)"
  by (simp add: IsTransient_def)

end
