(* ===== verification/Money.thy ===== *)
theory Money
  imports Errors
begin

text \<open>
  \<^verbatim>\<open>internal/domain/currency.go\<close> and \<^verbatim>\<open>internal/domain/money.go\<close>.

  The amounts are values of \<^verbatim>\<open>github.com/shopspring/decimal\<close>, a package outside the
  repository: its type is the type variable \<open>'d\<close> and the functions the code calls are the fields
  of the record \<open>Decimal\<close>, passed as an argument to every definition that needs them. What the
  code relies on (the documented meaning of these functions) is the locale \<open>decimal_pkg\<close>: every
  decimal has a rational value, arithmetic and comparison are exact on values,
  \<^verbatim>\<open>NewFromString\<close> reads a fixed-point numeral and \<^verbatim>\<open>StringFixed(2)\<close> prints a value with two
  places. Equality of representations is not assumed: \<open>0\<close> and \<open>0.00\<close> may differ.
\<close>

record 'd Decimal =
  dNewFromString :: "string \<Rightarrow> 'd option"
  dRequireFromString :: "string \<Rightarrow> 'd"
  dZero :: 'd
  dAdd :: "'d \<Rightarrow> 'd \<Rightarrow> 'd"
  dSub :: "'d \<Rightarrow> 'd \<Rightarrow> 'd"
  dNeg :: "'d \<Rightarrow> 'd"
  dAbs :: "'d \<Rightarrow> 'd"
  dCmp :: "'d \<Rightarrow> 'd \<Rightarrow> int"
  dEqual :: "'d \<Rightarrow> 'd \<Rightarrow> bool"
  dIsZero :: "'d \<Rightarrow> bool"
  dIsPositive :: "'d \<Rightarrow> bool"
  dIsNegative :: "'d \<Rightarrow> bool"
  dStringFixed :: "'d \<Rightarrow> nat \<Rightarrow> string"

section \<open>Currency\<close>

record Currency =
  currency_code :: string

text \<open>The pattern \<^verbatim>\<open>^[A-Z]{3}$\<close>.\<close>

definition currencyCodePattern :: "string \<Rightarrow> bool" where
  "currencyCodePattern code \<longleftrightarrow> length code = 3 \<and> list_all is_upper code"

definition NewCurrency :: "string \<Rightarrow> err + Currency" where
  "NewCurrency code =
     (if \<not> currencyCodePattern code then Inl (DomainErr ErrInvalidCurrency)
      else Inr \<lparr>currency_code = code\<rparr>)"

definition Currency_IsValid :: "Currency \<Rightarrow> bool" where
  "Currency_IsValid c = currencyCodePattern (currency_code c)"

definition Currency_Code :: "Currency \<Rightarrow> string" where
  "Currency_Code c = currency_code c"

definition Currency_Equal :: "Currency \<Rightarrow> Currency \<Rightarrow> bool" where
  "Currency_Equal c other \<longleftrightarrow> currency_code c = currency_code other"

section \<open>Money\<close>

record 'd Money =
  money_amount :: 'd
  money_currency :: Currency

text \<open>The pattern \<^verbatim>\<open>^(0|[1-9][0-9]{0,17})\.[0-9]{2}$\<close>.\<close>

definition integerPart :: "string \<Rightarrow> bool" where
  "integerPart ip \<longleftrightarrow>
     ip = ''0'' \<or>
     (ip \<noteq> [] \<and> length ip \<le> 18 \<and> list_all is_digit ip \<and> hd ip \<noteq> CHR ''0'')"

definition moneyAmountPattern :: "string \<Rightarrow> bool" where
  "moneyAmountPattern s \<longleftrightarrow>
     4 \<le> length s \<and>
     (let n = length s - 3
      in integerPart (take n s) \<and> s ! n = CHR ''.'' \<and> list_all is_digit (drop (Suc n) s))"

definition maxMoneyAmount :: "'d Decimal \<Rightarrow> 'd" where
  "maxMoneyAmount D = dRequireFromString D ''999999999999999999.99''"

definition isMoneyAmountInRange :: "'d Decimal \<Rightarrow> 'd \<Rightarrow> bool" where
  "isMoneyAmountInRange D amount \<longleftrightarrow> dCmp D (dAbs D amount) (maxMoneyAmount D) \<le> 0"

definition newMoney :: "'d Decimal \<Rightarrow> 'd \<Rightarrow> Currency \<Rightarrow> err + 'd Money" where
  "newMoney D amount currency =
     (if \<not> Currency_IsValid currency then Inl (DomainErr ErrInvalidCurrency)
      else if \<not> isMoneyAmountInRange D amount then Inl (DomainErr ErrInvalidMoney)
      else Inr \<lparr>money_amount = amount, money_currency = currency\<rparr>)"

definition ParseMoney :: "'d Decimal \<Rightarrow> string \<Rightarrow> Currency \<Rightarrow> err + 'd Money" where
  "ParseMoney D amount currency =
     (if \<not> Currency_IsValid currency then Inl (DomainErr ErrInvalidCurrency)
      else if \<not> moneyAmountPattern amount then Inl (DomainErr ErrInvalidMoney)
      else (case dNewFromString D amount of
              None \<Rightarrow> Inl (DomainErr ErrInvalidMoney)
            | Some value \<Rightarrow> newMoney D value currency))"

definition Zero :: "'d Decimal \<Rightarrow> Currency \<Rightarrow> err + 'd Money" where
  "Zero D currency =
     (if \<not> Currency_IsValid currency then Inl (DomainErr ErrInvalidCurrency)
      else Inr \<lparr>money_amount = dZero D, money_currency = currency\<rparr>)"

definition Money_IsValid :: "'d Decimal \<Rightarrow> 'd Money \<Rightarrow> bool" where
  "Money_IsValid D m \<longleftrightarrow> Currency_IsValid (money_currency m) \<and> isMoneyAmountInRange D (money_amount m)"

definition validateOperation :: "'d Decimal \<Rightarrow> 'd Money \<Rightarrow> 'd Money \<Rightarrow> err option" where
  "validateOperation D m other =
     (if \<not> Money_IsValid D m \<or> \<not> Money_IsValid D other then Some (DomainErr ErrInvalidMoney)
      else if \<not> Currency_Equal (money_currency m) (money_currency other)
      then Some (DomainErr ErrCurrencyMismatch)
      else None)"

definition Money_Add :: "'d Decimal \<Rightarrow> 'd Money \<Rightarrow> 'd Money \<Rightarrow> err + 'd Money" where
  "Money_Add D m other =
     (case validateOperation D m other of
        Some e \<Rightarrow> Inl e
      | None \<Rightarrow> newMoney D (dAdd D (money_amount m) (money_amount other)) (money_currency m))"

definition Money_Sub :: "'d Decimal \<Rightarrow> 'd Money \<Rightarrow> 'd Money \<Rightarrow> err + 'd Money" where
  "Money_Sub D m other =
     (case validateOperation D m other of
        Some e \<Rightarrow> Inl e
      | None \<Rightarrow> newMoney D (dSub D (money_amount m) (money_amount other)) (money_currency m))"

definition Money_Negate :: "'d Decimal \<Rightarrow> 'd Money \<Rightarrow> err + 'd Money" where
  "Money_Negate D m =
     (if \<not> Money_IsValid D m then Inl (DomainErr ErrInvalidMoney)
      else newMoney D (dNeg D (money_amount m)) (money_currency m))"

definition Money_Compare :: "'d Decimal \<Rightarrow> 'd Money \<Rightarrow> 'd Money \<Rightarrow> err + int" where
  "Money_Compare D m other =
     (case validateOperation D m other of
        Some e \<Rightarrow> Inl e
      | None \<Rightarrow> Inr (dCmp D (money_amount m) (money_amount other)))"

definition Money_Equal :: "'d Decimal \<Rightarrow> 'd Money \<Rightarrow> 'd Money \<Rightarrow> bool" where
  "Money_Equal D m other \<longleftrightarrow>
     Currency_Equal (money_currency m) (money_currency other) \<and>
     dEqual D (money_amount m) (money_amount other)"

definition Money_IsZero :: "'d Decimal \<Rightarrow> 'd Money \<Rightarrow> bool" where
  "Money_IsZero D m = dIsZero D (money_amount m)"

definition Money_IsPositive :: "'d Decimal \<Rightarrow> 'd Money \<Rightarrow> bool" where
  "Money_IsPositive D m = dIsPositive D (money_amount m)"

definition Money_IsNegative :: "'d Decimal \<Rightarrow> 'd Money \<Rightarrow> bool" where
  "Money_IsNegative D m = dIsNegative D (money_amount m)"

definition Money_Amount :: "'d Decimal \<Rightarrow> 'd Money \<Rightarrow> string" where
  "Money_Amount D m = dStringFixed D (money_amount m) 2"

text \<open>\<^verbatim>\<open>MarshalJSON\<close>: the two string fields of the external contract, or an error.\<close>

definition Money_MarshalJSON :: "'d Decimal \<Rightarrow> 'd Money \<Rightarrow> err + (string \<times> string)" where
  "Money_MarshalJSON D m =
     (if \<not> Money_IsValid D m then Inl (DomainErr ErrInvalidMoney)
      else Inr (Money_Amount D m, Currency_Code (money_currency m)))"

section \<open>The contract of the decimal package\<close>

text \<open>The value, in hundredths, of a numeral with two places: its digits without the point.\<close>

definition numeral_value :: "string \<Rightarrow> string \<Rightarrow> rat" where
  "numeral_value ip fp = of_nat (digits_val 0 (ip @ fp)) / 10 ^ length fp"

locale decimal_pkg =
  fixes D :: "'d Decimal"
    and val :: "'d \<Rightarrow> rat"
  assumes new_from_string:
      "\<lbrakk>ip \<noteq> []; list_all is_digit ip; list_all is_digit fp\<rbrakk> \<Longrightarrow>
         \<exists>d. dNewFromString D (ip @ CHR ''.'' # fp) = Some d \<and> val d = numeral_value ip fp"
    and require_from_string:
      "dNewFromString D s = Some d \<Longrightarrow> val (dRequireFromString D s) = val d"
    and val_Zero [val_simps]: "val (dZero D) = 0"
    and val_Add [val_simps]: "val (dAdd D a b) = val a + val b"
    and val_Sub [val_simps]: "val (dSub D a b) = val a - val b"
    and val_Neg [val_simps]: "val (dNeg D a) = - val a"
    and val_Abs [val_simps]: "val (dAbs D a) = \<bar>val a\<bar>"
    and cmp [val_simps]:
      "dCmp D a b = (if val a < val b then -1 else if val a = val b then 0 else 1)"
    and equal [val_simps]: "dEqual D a b \<longleftrightarrow> val a = val b"
    and is_zero [val_simps]: "dIsZero D a \<longleftrightarrow> val a = 0"
    and is_positive [val_simps]: "dIsPositive D a \<longleftrightarrow> 0 < val a"
    and is_negative [val_simps]: "dIsNegative D a \<longleftrightarrow> val a < 0"
    and string_fixed: "val a = of_int n / 100 \<Longrightarrow> dStringFixed D a 2 = fixed2 n"

text \<open>
  The value of an amount in hundredths. A \<^verbatim>\<open>Money\<close> is well-formed (\<open>money_ok\<close>) when the code
  considers it valid and its amount is a whole number of hundredths, which is what every
  constructor of the package \<^verbatim>\<open>domain\<close> gives.
\<close>

definition cents :: "('d \<Rightarrow> rat) \<Rightarrow> 'd Money \<Rightarrow> int" where
  "cents val m = \<lfloor>val (money_amount m) * 100\<rfloor>"

definition whole_cents :: "('d \<Rightarrow> rat) \<Rightarrow> 'd Money \<Rightarrow> bool" where
  "whole_cents val m \<longleftrightarrow> val (money_amount m) = of_int (cents val m) / 100"

definition money_ok :: "'d Decimal \<Rightarrow> ('d \<Rightarrow> rat) \<Rightarrow> 'd Money \<Rightarrow> bool" where
  "money_ok D val m \<longleftrightarrow> Money_IsValid D m \<and> whole_cents val m"

abbreviation max_cents :: int where
  "max_cents \<equiv> 99999999999999999999"

section \<open>Lemmas\<close>

lemma Currency_Equal_eq [simp]: "Currency_Equal a b \<longleftrightarrow> a = b"
  by (cases a, cases b) (simp add: Currency_Equal_def)

lemma moneyAmountPattern_split:
  assumes "moneyAmountPattern s"
  obtains ip a b where "s = ip @ CHR ''.'' # [a, b]" "integerPart ip" "is_digit a" "is_digit b"
proof -
  let ?n = "length s - 3"
  have n: "4 \<le> length s" and ip: "integerPart (take ?n s)" and dot: "s ! ?n = CHR ''.''"
    and fp: "list_all is_digit (drop (Suc ?n) s)"
    using assms by (auto simp: moneyAmountPattern_def Let_def)
  have "length (drop (Suc ?n) s) = 2" using n by simp
  then obtain a b where ab: "drop (Suc ?n) s = [a, b]" by (rule length_2_list)
  have "s = take ?n s @ s ! ?n # drop (Suc ?n) s"
    using n by (intro id_take_nth_drop) simp
  then have "s = take ?n s @ CHR ''.'' # [a, b]" using dot ab by simp
  with ip fp ab that show ?thesis by (metis list.pred_inject(2))
qed

lemma moneyAmountPattern_join:
  assumes "integerPart ip" "is_digit a" "is_digit b"
  shows "moneyAmountPattern (ip @ CHR ''.'' # [a, b])"
  using assms by (auto simp: moneyAmountPattern_def Let_def integerPart_def neq_Nil_conv nth_append)

lemma integerPart_digits: "integerPart ip \<Longrightarrow> ip \<noteq> [] \<and> list_all is_digit ip \<and> length ip \<le> 18"
  by (auto simp: integerPart_def is_digit_def)

lemma digits_val_bound: "list_all is_digit s \<Longrightarrow> digits_val 0 s < 10 ^ length s"
proof (induction s)
  case (Cons c s)
  have "is_digit c" using Cons.prems by simp
  then have "digit_val c \<le> 9" unfolding is_digit_def digit_val_def by linarith
  then have "digit_val c * 10 ^ length s \<le> 9 * 10 ^ length s" by (rule mult_right_mono) simp
  moreover have "digits_val 0 (c # s) = digit_val c * 10 ^ length s + digits_val 0 s"
    using digits_val_acc [of "digit_val c" s] by simp
  moreover have "digits_val 0 s < 10 ^ length s" using Cons by simp
  ultimately show ?case unfolding length_Cons power_Suc by linarith
qed simp

text \<open>The hundredths a numeral of the pattern stands for.\<close>

definition parsed_cents :: "string \<Rightarrow> int" where
  "parsed_cents s = int (digits_val 0 (filter is_digit s))"

lemma parsed_cents_split:
  assumes "integerPart ip" "is_digit a" "is_digit b"
  shows "parsed_cents (ip @ CHR ''.'' # [a, b]) = int (digits_val 0 (ip @ [a, b]))"
proof -
  have "filter is_digit ip = ip" using integerPart_digits [OF assms(1)] by (simp add: list_all_iff)
  moreover have "\<not> is_digit (CHR ''.'')" by (simp add: is_digit_def)
  ultimately show ?thesis using assms by (simp add: parsed_cents_def)
qed

lemma parsed_cents_range: "moneyAmountPattern s \<Longrightarrow> 0 \<le> parsed_cents s \<and> parsed_cents s \<le> max_cents"
proof (erule moneyAmountPattern_split)
  fix ip a b
  assume s: "s = ip @ CHR ''.'' # [a, b]" and *: "integerPart ip" "is_digit a" "is_digit b"
  have l: "list_all is_digit (ip @ [a, b])" "length (ip @ [a, b]) \<le> 20"
    using integerPart_digits [OF *(1)] * by auto
  have "digits_val 0 (ip @ [a, b]) < 10 ^ length (ip @ [a, b])" by (rule digits_val_bound [OF l(1)])
  also have "\<dots> \<le> (10::nat) ^ 20" by (rule power_increasing [OF l(2)]) simp
  finally have "int (digits_val 0 (ip @ [a, b])) < 10 ^ 20"
    by (metis of_nat_less_iff of_nat_numeral of_nat_power)
  then show ?thesis unfolding s parsed_cents_split [OF *] by simp
qed

lemma digit_char_digit_val: "is_digit c \<Longrightarrow> digit_char (digit_val c) = c"
  by (simp add: is_digit_def digit_val_def digit_char_def)

lemma digit_char_0: "digit_char 0 = CHR ''0''"
  using digit_char_digit_val [of "CHR ''0''"] by (simp add: is_digit_def digit_val_def)

lemma digit_val_less: "is_digit c \<Longrightarrow> digit_val c < 10"
  unfolding is_digit_def digit_val_def by linarith

lemma digits_val_pos:
  "\<lbrakk>s \<noteq> []; list_all is_digit s; hd s \<noteq> CHR ''0''\<rbrakk> \<Longrightarrow> 0 < digits_val 0 s"
proof (cases s)
  case (Cons c t)
  moreover assume "list_all is_digit s" "hd s \<noteq> CHR ''0''"
  ultimately have c: "is_digit c" "c \<noteq> CHR ''0''" by auto
  have "digit_val c \<noteq> 0"
  proof
    assume "digit_val c = 0"
    then have "digit_char 0 = c" using digit_char_digit_val [OF c(1)] by simp
    with c(2) show False by (simp add: digit_char_0)
  qed
  then show ?thesis using digits_val_acc [of "digit_val c" t] Cons by simp
qed simp

lemma nat_str_digits_val:
  "\<lbrakk>s \<noteq> []; list_all is_digit s; s = ''0'' \<or> hd s \<noteq> CHR ''0''\<rbrakk> \<Longrightarrow> nat_str (digits_val 0 s) = s"
proof (induction s rule: rev_induct)
  case (snoc c t)
  have c: "is_digit c" using snoc.prems by simp
  note d = digit_val_less [OF c]
  show ?case
  proof (cases "t = []")
    case True
    then show ?thesis using d c by (simp add: nat_str.simps digit_char_digit_val)
  next
    case False
    then have t: "list_all is_digit t" "hd t \<noteq> CHR ''0''" using snoc.prems by auto
    have pos: "0 < digits_val 0 t" by (rule digits_val_pos [OF False t])
    have v: "digits_val 0 (t @ [c]) = 10 * digits_val 0 t + digit_val c"
      by (simp add: digits_val_append)
    have "nat_str (digits_val 0 t) = t" using snoc.IH False t by blast
    then show ?thesis
      unfolding v using pos d c by (simp add: nat_str.simps [of "10 * _ + _"] digit_char_digit_val)
  qed
qed simp

lemma fixed2_parsed: "moneyAmountPattern s \<Longrightarrow> fixed2 (parsed_cents s) = s"
proof (erule moneyAmountPattern_split)
  fix ip a b
  assume s: "s = ip @ CHR ''.'' # [a, b]" and *: "integerPart ip" "is_digit a" "is_digit b"
  let ?i = "digits_val 0 ip" and ?n = "digits_val 0 (ip @ [a, b])"
  have n: "?n = 10 * (10 * ?i + digit_val a) + digit_val b"
    by (simp add: digits_val_append)
  have d: "digit_val a < 10" "digit_val b < 10" using * digit_val_less by auto
  have "?n div 100 = ?i" "?n div 10 mod 10 = digit_val a" "?n mod 10 = digit_val b"
    unfolding n by (rule split_two_digits [OF d])+
  moreover have "nat_str ?i = ip"
    using integerPart_digits [OF *(1)] *(1)
    by (intro nat_str_digits_val) (auto simp: integerPart_def)
  ultimately show ?thesis
    unfolding s parsed_cents_split [OF *] fixed2_def using * by (simp add: digit_char_digit_val)
qed

lemma fixed2_pattern:
  assumes "0 \<le> n" "n \<le> max_cents"
  shows "moneyAmountPattern (fixed2 n)" and "parsed_cents (fixed2 n) = n"
proof -
  let ?i = "nat n div 100" and ?a = "nat n div 10 mod 10" and ?b = "nat n mod 10"
  have f: "fixed2 n = nat_str ?i @ CHR ''.'' # [digit_char ?a, digit_char ?b]"
    using assms by (simp add: fixed2_def)
  have "nat n < 10 ^ 20" using assms by simp
  then have "?i < 10 ^ Suc 17" by simp
  then have l: "length (nat_str ?i) \<le> 18" unfolding length_nat_str [symmetric] by simp
  have *: "integerPart (nat_str ?i)" "is_digit (digit_char ?a)" "is_digit (digit_char ?b)"
  proof -
    show "integerPart (nat_str ?i)"
    proof (cases "?i = 0")
      case True
      then show ?thesis by (simp add: nat_str.simps integerPart_def digit_char_0)
    next
      case False
      then show ?thesis
        using l nat_str_digits [of ?i] nat_str_hd [of ?i] by (simp add: integerPart_def list_all_iff)
    qed
  qed simp_all
  show "moneyAmountPattern (fixed2 n)" unfolding f by (rule moneyAmountPattern_join [OF *])
  have "digits_val 0 (nat_str ?i @ [digit_char ?a, digit_char ?b]) = 10 * (10 * ?i + ?a) + ?b"
    by (simp add: digits_val_append)
  also have "\<dots> = nat n" by (rule join_two_digits)
  finally show "parsed_cents (fixed2 n) = n"
    unfolding f parsed_cents_split [OF *] using assms by simp
qed

context decimal_pkg
begin

lemma parse_value:
  assumes "moneyAmountPattern s"
  obtains d where "dNewFromString D s = Some d" "val d = of_int (parsed_cents s) / 100"
proof -
  obtain ip a b where s: "s = ip @ CHR ''.'' # [a, b]" and *: "integerPart ip" "is_digit a" "is_digit b"
    using moneyAmountPattern_split [OF assms] by metis
  obtain d where d: "dNewFromString D s = Some d" "val d = numeral_value ip [a, b]"
    using new_from_string [of ip "[a, b]"] integerPart_digits [OF *(1)] * s by auto
  have "val d = of_int (parsed_cents s) / 100"
    unfolding d(2) s parsed_cents_split [OF *] by (simp add: numeral_value_def)
  with d(1) that show ?thesis by blast
qed

lemma val_max: "val (maxMoneyAmount D) = of_int max_cents / 100"
proof -
  have p: "moneyAmountPattern ''999999999999999999.99''"
    by (simp add: moneyAmountPattern_def integerPart_def is_digit_def Let_def)
  obtain d where d: "dNewFromString D ''999999999999999999.99'' = Some d"
    "val d = of_int (parsed_cents ''999999999999999999.99'') / 100"
    using parse_value [OF p] by metis
  have "parsed_cents ''999999999999999999.99'' = max_cents"
    by (simp add: parsed_cents_def is_digit_def digit_val_def)
  with d show ?thesis by (simp add: maxMoneyAmount_def require_from_string)
qed

lemma in_range_iff: "isMoneyAmountInRange D a \<longleftrightarrow> \<bar>val a\<bar> \<le> of_int max_cents / 100"
  by (simp add: isMoneyAmountInRange_def val_max val_simps)

text \<open>A money value known by its hundredths.\<close>

lemma whole_centsI: "val (money_amount m) = of_int n / 100 \<Longrightarrow> whole_cents val m \<and> cents val m = n"
  by (simp add: whole_cents_def cents_def)

lemma whole_centsD: "whole_cents val m \<Longrightarrow> val (money_amount m) = of_int (cents val m) / 100"
  by (simp add: whole_cents_def)

lemma valid_iff:
  "whole_cents val m \<Longrightarrow>
     Money_IsValid D m \<longleftrightarrow> Currency_IsValid (money_currency m) \<and> \<bar>cents val m\<bar> \<le> max_cents"
proof -
  assume "whole_cents val m"
  then have v: "val (money_amount m) = of_int (cents val m) / 100" by (rule whole_centsD)
  have "isMoneyAmountInRange D (money_amount m) \<longleftrightarrow> \<bar>of_int (cents val m) :: rat\<bar> \<le> of_int max_cents"
    by (simp add: in_range_iff v field_simps)
  also have "\<dots> \<longleftrightarrow> \<bar>cents val m\<bar> \<le> max_cents"
    by (metis of_int_abs of_int_le_iff)
  finally show ?thesis by (simp add: Money_IsValid_def)
qed

lemma money_ok_iff:
  "money_ok D val m \<longleftrightarrow>
     whole_cents val m \<and> Currency_IsValid (money_currency m) \<and> \<bar>cents val m\<bar> \<le> max_cents"
  using valid_iff by (auto simp: money_ok_def)

lemma newMoney_cents:
  assumes "val d = of_int n / 100" "Currency_IsValid c"
  shows "newMoney D d c =
    (if \<bar>n\<bar> \<le> max_cents then Inr \<lparr>money_amount = d, money_currency = c\<rparr> else Inl (DomainErr ErrInvalidMoney))"
proof -
  have "isMoneyAmountInRange D d \<longleftrightarrow> \<bar>of_int n :: rat\<bar> \<le> of_int max_cents"
    by (simp add: in_range_iff assms field_simps)
  also have "\<dots> \<longleftrightarrow> \<bar>n\<bar> \<le> max_cents" by (metis of_int_abs of_int_le_iff)
  finally show ?thesis using assms by (simp add: newMoney_def)
qed

lemma sign_cents:
  assumes "whole_cents val m"
  shows "Money_IsZero D m \<longleftrightarrow> cents val m = 0"
    and "Money_IsPositive D m \<longleftrightarrow> 0 < cents val m"
    and "Money_IsNegative D m \<longleftrightarrow> cents val m < 0"
  unfolding Money_IsZero_def Money_IsPositive_def Money_IsNegative_def val_simps whole_centsD [OF assms]
  by simp_all

lemma Equal_cents:
  "\<lbrakk>whole_cents val a; whole_cents val b\<rbrakk> \<Longrightarrow>
     Money_Equal D a b \<longleftrightarrow> money_currency a = money_currency b \<and> cents val a = cents val b"
  by (auto simp: Money_Equal_def val_simps whole_centsD)

lemma cents_Add:
  "\<lbrakk>whole_cents val a; whole_cents val b\<rbrakk> \<Longrightarrow>
     whole_cents val \<lparr>money_amount = dAdd D (money_amount a) (money_amount b), money_currency = c\<rparr> \<and>
     cents val \<lparr>money_amount = dAdd D (money_amount a) (money_amount b), money_currency = c\<rparr> =
       cents val a + cents val b"
  by (rule whole_centsI) (simp add: val_simps whole_centsD add_divide_distrib)

lemma cents_Sub:
  "\<lbrakk>whole_cents val a; whole_cents val b\<rbrakk> \<Longrightarrow>
     whole_cents val \<lparr>money_amount = dSub D (money_amount a) (money_amount b), money_currency = c\<rparr> \<and>
     cents val \<lparr>money_amount = dSub D (money_amount a) (money_amount b), money_currency = c\<rparr> =
       cents val a - cents val b"
  by (rule whole_centsI) (simp add: val_simps whole_centsD diff_divide_distrib)

lemma cents_Neg:
  "whole_cents val a \<Longrightarrow>
     whole_cents val \<lparr>money_amount = dNeg D (money_amount a), money_currency = c\<rparr> \<and>
     cents val \<lparr>money_amount = dNeg D (money_amount a), money_currency = c\<rparr> = - cents val a"
  by (rule whole_centsI) (simp add: val_simps whole_centsD)

lemma cents_zero:
  "whole_cents val \<lparr>money_amount = dZero D, money_currency = c\<rparr>"
  "cents val \<lparr>money_amount = dZero D, money_currency = c\<rparr> = 0"
  using whole_centsI [of "\<lparr>money_amount = dZero D, money_currency = c\<rparr>" 0] by (simp_all add: val_simps)

lemma validateOperation_ok:
  "\<lbrakk>Money_IsValid D a; Money_IsValid D b\<rbrakk> \<Longrightarrow>
     validateOperation D a b =
       (if money_currency a = money_currency b then None else Some (DomainErr ErrCurrencyMismatch))"
  by (simp add: validateOperation_def)

lemma Money_Add_ok:
  assumes "money_ok D val a" "money_ok D val b"
  shows "Money_Add D a b =
    (if money_currency a \<noteq> money_currency b then Inl (DomainErr ErrCurrencyMismatch)
     else if \<bar>cents val a + cents val b\<bar> \<le> max_cents
     then Inr \<lparr>money_amount = dAdd D (money_amount a) (money_amount b), money_currency = money_currency a\<rparr>
     else Inl (DomainErr ErrInvalidMoney))"
proof -
  have v: "val (dAdd D (money_amount a) (money_amount b)) = of_int (cents val a + cents val b) / 100"
    using assms by (simp add: val_simps money_ok_def whole_centsD add_divide_distrib)
  have "Currency_IsValid (money_currency a)" using assms by (simp add: money_ok_iff)
  from newMoney_cents [OF v this] show ?thesis
    using assms by (cases "money_currency a = money_currency b")
      (simp_all add: Money_Add_def money_ok_def validateOperation_ok)
qed

lemma Money_Sub_ok:
  assumes "money_ok D val a" "money_ok D val b"
  shows "Money_Sub D a b =
    (if money_currency a \<noteq> money_currency b then Inl (DomainErr ErrCurrencyMismatch)
     else if \<bar>cents val a - cents val b\<bar> \<le> max_cents
     then Inr \<lparr>money_amount = dSub D (money_amount a) (money_amount b), money_currency = money_currency a\<rparr>
     else Inl (DomainErr ErrInvalidMoney))"
proof -
  have v: "val (dSub D (money_amount a) (money_amount b)) = of_int (cents val a - cents val b) / 100"
    using assms by (simp add: val_simps money_ok_def whole_centsD diff_divide_distrib)
  have "Currency_IsValid (money_currency a)" using assms by (simp add: money_ok_iff)
  from newMoney_cents [OF v this] show ?thesis
    using assms by (cases "money_currency a = money_currency b")
      (simp_all add: Money_Sub_def money_ok_def validateOperation_ok)
qed

lemma Money_Negate_ok:
  assumes "money_ok D val a"
  shows "Money_Negate D a =
    Inr \<lparr>money_amount = dNeg D (money_amount a), money_currency = money_currency a\<rparr>"
proof -
  have v: "val (dNeg D (money_amount a)) = of_int (- cents val a) / 100"
    using assms by (simp add: val_simps money_ok_def whole_centsD)
  have "Currency_IsValid (money_currency a)" "\<bar>- cents val a\<bar> \<le> max_cents"
    using assms by (simp_all add: money_ok_iff)
  with newMoney_cents [OF v this(1)] show ?thesis
    using assms by (simp add: Money_Negate_def money_ok_def)
qed

lemma Money_Compare_ok:
  assumes "money_ok D val a" "money_ok D val b" "money_currency a = money_currency b"
  shows "Money_Compare D a b = Inr (sgn (cents val a - cents val b))"
  using assms by (auto simp: Money_Compare_def money_ok_def validateOperation_ok cmp whole_centsD sgn_if)

lemma Money_Zero_ok:
  "Currency_IsValid c \<Longrightarrow> Zero D c = Inr \<lparr>money_amount = dZero D, money_currency = c\<rparr>"
  "Currency_IsValid c \<Longrightarrow> money_ok D val \<lparr>money_amount = dZero D, money_currency = c\<rparr>"
  by (simp_all add: Zero_def money_ok_iff cents_zero)

lemma ParseMoney_ok:
  assumes "Currency_IsValid c" "moneyAmountPattern s"
  obtains m where "ParseMoney D s c = Inr m" "money_ok D val m" "money_currency m = c"
    "cents val m = parsed_cents s" "Money_Amount D m = s"
proof -
  obtain d where d: "dNewFromString D s = Some d" and v: "val d = of_int (parsed_cents s) / 100"
    using parse_value [OF assms(2)] by metis
  let ?m = "\<lparr>money_amount = d, money_currency = c\<rparr>"
  have r: "\<bar>parsed_cents s\<bar> \<le> max_cents" using parsed_cents_range [OF assms(2)] by simp
  have w: "whole_cents val ?m" "cents val ?m = parsed_cents s" using whole_centsI [of ?m] v by simp_all
  show ?thesis
  proof (rule that [of ?m])
    show "ParseMoney D s c = Inr ?m"
      using assms d r newMoney_cents [OF v assms(1)] by (simp add: ParseMoney_def)
    show "money_ok D val ?m" using w r assms(1) by (simp add: money_ok_iff)
    show "cents val ?m = parsed_cents s" by (rule w)
    show "Money_Amount D ?m = s"
      using string_fixed [OF v] fixed2_parsed [OF assms(2)] by (simp add: Money_Amount_def)
  qed simp
qed

lemma ParseMoney_InrD:
  assumes "ParseMoney D s c = Inr m"
  shows "Currency_IsValid c" "moneyAmountPattern s" "money_ok D val m" "money_currency m = c"
    "cents val m = parsed_cents s" "0 \<le> cents val m" "Money_Amount D m = s"
proof -
  show c: "Currency_IsValid c" and s: "moneyAmountPattern s"
    using assms by (auto simp: ParseMoney_def split: if_splits)
  obtain m' where "ParseMoney D s c = Inr m'" "money_ok D val m'" "money_currency m' = c"
    "cents val m' = parsed_cents s" "Money_Amount D m' = s"
    using ParseMoney_ok [OF c s] by metis
  with assms parsed_cents_range [OF s] show "money_ok D val m" "money_currency m = c"
    "cents val m = parsed_cents s" "0 \<le> cents val m" "Money_Amount D m = s" by simp_all
qed

lemma Money_Amount_fixed2: "whole_cents val m \<Longrightarrow> Money_Amount D m = fixed2 (cents val m)"
  by (simp add: Money_Amount_def string_fixed whole_centsD)

lemma ParseMoney_fixed2:
  assumes "Currency_IsValid c" "0 \<le> n" "n \<le> max_cents"
  obtains m where "ParseMoney D (fixed2 n) c = Inr m" "money_ok D val m" "money_currency m = c"
    "cents val m = n"
  using ParseMoney_ok [OF assms(1) fixed2_pattern(1) [OF assms(2,3)]] fixed2_pattern(2) [OF assms(2,3)]
  by metis

end

end
