(* ===== verification/Fixed_Decimal.thy ===== *)
theory Fixed_Decimal
  imports Money
begin

text \<open>
  A concrete decimal package, in the representation the package \<^verbatim>\<open>shopspring/decimal\<close>
  documents: a coefficient and an exponent, here the number of places \<open>e\<close> of the decimal
  \<open>c / 10 ^ e\<close>. It meets the contract \<open>decimal_pkg\<close>, so the contract can hold, and it is
  executable, so that operations on money can be evaluated.
\<close>

type_synonym fixed = "int \<times> nat"

fun fixed_val :: "fixed \<Rightarrow> rat" where
  "fixed_val (c, e) = of_int c / 10 ^ e"

text \<open>Two decimals brought to the same number of places.\<close>

fun rescale :: "fixed \<Rightarrow> nat \<Rightarrow> int" where
  "rescale (c, e) k = c * 10 ^ (k - e)"

definition places :: "fixed \<Rightarrow> fixed \<Rightarrow> nat" where
  "places a b = max (snd a) (snd b)"

definition fixed_cmp :: "fixed \<Rightarrow> fixed \<Rightarrow> int" where
  "fixed_cmp a b =
     (let k = places a b; x = rescale a k; y = rescale b k
      in if x < y then -1 else if x = y then 0 else 1)"

definition fixed_parse :: "string \<Rightarrow> fixed option" where
  "fixed_parse s =
     (let ip = takeWhile (\<lambda>c. c \<noteq> CHR ''.'') s; fp = tl (dropWhile (\<lambda>c. c \<noteq> CHR ''.'') s)
      in if ip \<noteq> [] \<and> list_all is_digit ip \<and> list_all is_digit fp
         then Some (int (digits_val 0 (ip @ fp)), length fp) else None)"

text \<open>The hundredths of a decimal, rounded half away from zero.\<close>

fun hundredths :: "fixed \<Rightarrow> int" where
  "hundredths (c, e) =
     (if e \<le> 2 then c * 10 ^ (2 - e)
      else sgn c * ((2 * \<bar>c\<bar> + 10 ^ (e - 2)) div (2 * 10 ^ (e - 2))))"

definition fixed_decimal :: "fixed Decimal" where
  "fixed_decimal =
     \<lparr>dNewFromString = fixed_parse,
      dRequireFromString = (\<lambda>s. case fixed_parse s of Some d \<Rightarrow> d | None \<Rightarrow> (0, 0)),
      dZero = (0, 0),
      dAdd = (\<lambda>a b. (rescale a (places a b) + rescale b (places a b), places a b)),
      dSub = (\<lambda>a b. (rescale a (places a b) - rescale b (places a b), places a b)),
      dNeg = (\<lambda>a. (- fst a, snd a)),
      dAbs = (\<lambda>a. (\<bar>fst a\<bar>, snd a)),
      dCmp = fixed_cmp,
      dEqual = (\<lambda>a b. fixed_cmp a b = 0),
      dIsZero = (\<lambda>a. fst a = 0),
      dIsPositive = (\<lambda>a. 0 < fst a),
      dIsNegative = (\<lambda>a. fst a < 0),
      dStringFixed = (\<lambda>a p. fixed2 (hundredths a))\<rparr>"

lemma fixed_val_rescale:
  assumes "snd a \<le> k"
  shows "fixed_val a = of_int (rescale a k) / 10 ^ k"
proof -
  obtain j where "k = snd a + j" using assms le_Suc_ex by blast
  then show ?thesis by (cases a) (simp add: power_add)
qed

lemma fixed_val_places:
  "fixed_val a = of_int (rescale a (places a b)) / 10 ^ places a b"
  "fixed_val b = of_int (rescale b (places a b)) / 10 ^ places a b"
  by (simp_all add: fixed_val_rescale places_def)

lemma fixed_cmp_val:
  "fixed_cmp a b =
     (if fixed_val a < fixed_val b then -1 else if fixed_val a = fixed_val b then 0 else 1)"
  by (subst (1 2) fixed_val_places(1) [of a b], subst (1 2) fixed_val_places(2) [of b a])
    (simp add: fixed_cmp_def Let_def divide_less_cancel)

lemma fixed_parse_numeral:
  assumes "ip \<noteq> []" "list_all is_digit ip" "list_all is_digit fp"
  shows "fixed_parse (ip @ CHR ''.'' # fp) = Some (int (digits_val 0 (ip @ fp)), length fp)"
proof -
  have "\<forall>c \<in> set ip. c \<noteq> CHR ''.''" using assms(2) by (auto simp: list_all_iff is_digit_def)
  then have "takeWhile (\<lambda>c. c \<noteq> CHR ''.'') (ip @ CHR ''.'' # fp) = ip"
    "dropWhile (\<lambda>c. c \<noteq> CHR ''.'') (ip @ CHR ''.'' # fp) = CHR ''.'' # fp"
    by (simp_all add: takeWhile_append2 dropWhile_append2)
  then show ?thesis using assms by (simp add: fixed_parse_def Let_def)
qed

lemma hundredths_exact: "fixed_val a = of_int n / 100 \<Longrightarrow> hundredths a = n"
proof (cases a)
  case (Pair c e)
  assume "fixed_val a = of_int n / 100"
  then have v: "of_int c * (100::rat) = of_int n * 10 ^ e" by (simp add: Pair field_simps)
  then have "of_int (c * 100) = (of_int (n * 10 ^ e) :: rat)" by simp
  then have v: "c * 100 = n * 10 ^ e" by (simp only: of_int_eq_iff)
  show ?thesis
  proof (cases "e \<le> 2")
    case True
    then have "(100::int) = 10 ^ (2 - e) * 10 ^ e" by (simp flip: power_add)
    with v have "c * 10 ^ (2 - e) * 10 ^ e = n * 10 ^ e" by simp
    then show ?thesis using True by (simp add: Pair)
  next
    case False
    then have "(10::int) ^ e = 10 ^ (e - 2) * 10 ^ 2"
      by (metis le_add_diff_inverse2 linorder_le_cases power_add)
    with v have c: "c = n * 10 ^ (e - 2)" by simp
    let ?k = "(10::int) ^ (e - 2)"
    have "(?k + \<bar>n\<bar> * (2 * ?k)) div (2 * ?k) = \<bar>n\<bar> + ?k div (2 * ?k)"
      by (rule div_mult_self1) simp
    then have "(2 * (\<bar>n\<bar> * ?k) + ?k) div (2 * ?k) = \<bar>n\<bar>"
      by (simp add: algebra_simps div_pos_pos_trivial)
    then show ?thesis using False c by (simp add: Pair abs_mult sgn_mult sgn_mult_abs)
  qed
qed

interpretation fixed: decimal_pkg fixed_decimal fixed_val
proof
  fix ip fp :: string
  assume "ip \<noteq> []" "list_all is_digit ip" "list_all is_digit fp"
  then show "\<exists>d. dNewFromString fixed_decimal (ip @ CHR ''.'' # fp) = Some d \<and>
      fixed_val d = numeral_value ip fp"
    by (simp add: fixed_decimal_def fixed_parse_numeral numeral_value_def)
next
  fix a b :: fixed
  show "fixed_val (dAdd fixed_decimal a b) = fixed_val a + fixed_val b"
    "fixed_val (dSub fixed_decimal a b) = fixed_val a - fixed_val b"
    using fixed_val_places(1) [of a b] fixed_val_places(2) [of b a]
    by (simp_all add: fixed_decimal_def add_divide_distrib diff_divide_distrib)
  show "fixed_val (dNeg fixed_decimal a) = - fixed_val a"
    "fixed_val (dAbs fixed_decimal a) = \<bar>fixed_val a\<bar>"
    "dIsZero fixed_decimal a \<longleftrightarrow> fixed_val a = 0"
    "dIsPositive fixed_decimal a \<longleftrightarrow> 0 < fixed_val a"
    "dIsNegative fixed_decimal a \<longleftrightarrow> fixed_val a < 0"
    by (cases a, simp add: fixed_decimal_def divide_less_0_iff zero_less_divide_iff)+
qed (auto simp: fixed_decimal_def fixed_cmp_val hundredths_exact)

end
