(* ===== verification/Wallet.thy ===== *)
theory Wallet
  imports Fixed_Decimal
begin

text \<open>
  \<^verbatim>\<open>internal/domain/wallet.go\<close> and \<^verbatim>\<open>internal/domain/wallet_ledger_entry.go\<close>: the wallet
  aggregate, its two movements, and the immutable ledger entry that records a movement. A method
  that mutates its receiver returns the updated record, or the error and nothing changed.
\<close>

section \<open>Wallet\<close>

record 'd Wallet =
  wallet_id :: uuid
  wallet_playerID :: uuid
  wallet_balance :: "'d Money"
  wallet_version :: int
  wallet_createdAt :: time
  wallet_updatedAt :: time

definition initialWalletVersion :: int where
  "initialWalletVersion = 1"

definition NewWallet ::
  "'d Decimal \<Rightarrow> uuid \<Rightarrow> uuid \<Rightarrow> 'd Money \<Rightarrow> time \<Rightarrow> err + 'd Wallet" where
  "NewWallet D uid playerID balance createdAt =
     (if uid = uuid_Nil then Inl (DomainErr ErrInvalidWalletID)
      else if playerID = uuid_Nil then Inl (DomainErr ErrInvalidPlayerID)
      else if \<not> Money_IsValid D balance \<or> Money_IsNegative D balance then Inl (DomainErr ErrInvalidMoney)
      else if IsZeroTime createdAt then Inl (DomainErr ErrInvalidTimestamp)
      else Inr \<lparr>wallet_id = uid, wallet_playerID = playerID, wallet_balance = balance,
                wallet_version = initialWalletVersion,
                wallet_createdAt = createdAt, wallet_updatedAt = createdAt\<rparr>)"

definition RehydrateWallet ::
  "'d Decimal \<Rightarrow> uuid \<Rightarrow> uuid \<Rightarrow> 'd Money \<Rightarrow> int \<Rightarrow> time \<Rightarrow> time \<Rightarrow> err + 'd Wallet" where
  "RehydrateWallet D uid playerID balance version createdAt updatedAt =
     (if uid = uuid_Nil then Inl (DomainErr ErrInvalidWalletID)
      else if playerID = uuid_Nil then Inl (DomainErr ErrInvalidPlayerID)
      else if \<not> Money_IsValid D balance \<or> Money_IsNegative D balance then Inl (DomainErr ErrInvalidMoney)
      else if version < initialWalletVersion then Inl (DomainErr ErrInvalidWalletVersion)
      else if IsZeroTime createdAt \<or> IsZeroTime updatedAt \<or> updatedAt < createdAt
      then Inl (DomainErr ErrInvalidTimestamp)
      else Inr \<lparr>wallet_id = uid, wallet_playerID = playerID, wallet_balance = balance,
                wallet_version = version,
                wallet_createdAt = createdAt, wallet_updatedAt = updatedAt\<rparr>)"

definition validateMovement :: "'d Decimal \<Rightarrow> 'd Wallet \<Rightarrow> 'd Money \<Rightarrow> time \<Rightarrow> err option" where
  "validateMovement D w amount updatedAt =
     (if \<not> Money_IsValid D amount then Some (DomainErr ErrInvalidMoney)
      else if \<not> Money_IsPositive D amount then Some (DomainErr ErrAmountMustBePositive)
      else if \<not> Currency_Equal (money_currency (wallet_balance w)) (money_currency amount)
      then Some (DomainErr ErrCurrencyMismatch)
      else if IsZeroTime updatedAt \<or> updatedAt < wallet_updatedAt w
      then Some (DomainErr ErrInvalidTimestamp)
      else None)"

definition applyBalance :: "'d Wallet \<Rightarrow> 'd Money \<Rightarrow> time \<Rightarrow> 'd Wallet" where
  "applyBalance w balance updatedAt =
     w\<lparr>wallet_balance := balance,
       wallet_version := wrap64 (wallet_version w + 1),
       wallet_updatedAt := updatedAt\<rparr>"

definition Wallet_Credit :: "'d Decimal \<Rightarrow> 'd Wallet \<Rightarrow> 'd Money \<Rightarrow> time \<Rightarrow> err + 'd Wallet" where
  "Wallet_Credit D w amount updatedAt =
     (case validateMovement D w amount updatedAt of
        Some e \<Rightarrow> Inl e
      | None \<Rightarrow>
          (case Money_Add D (wallet_balance w) amount of
             Inl e \<Rightarrow> Inl e
           | Inr newBalance \<Rightarrow> Inr (applyBalance w newBalance updatedAt)))"

definition Wallet_Debit :: "'d Decimal \<Rightarrow> 'd Wallet \<Rightarrow> 'd Money \<Rightarrow> time \<Rightarrow> err + 'd Wallet" where
  "Wallet_Debit D w amount updatedAt =
     (case validateMovement D w amount updatedAt of
        Some e \<Rightarrow> Inl e
      | None \<Rightarrow>
          (case Money_Compare D (wallet_balance w) amount of
             Inl e \<Rightarrow> Inl e
           | Inr comparison \<Rightarrow>
               if comparison < 0 then Inl (DomainErr ErrInsufficientFunds)
               else (case Money_Sub D (wallet_balance w) amount of
                       Inl e \<Rightarrow> Inl e
                     | Inr newBalance \<Rightarrow> Inr (applyBalance w newBalance updatedAt))))"

section \<open>Ledger entry\<close>

datatype WalletLedgerDirection = DEBIT | CREDIT | UnknownDirection string

fun Direction_IsValid :: "WalletLedgerDirection \<Rightarrow> bool" where
  "Direction_IsValid DEBIT = True"
| "Direction_IsValid CREDIT = True"
| "Direction_IsValid (UnknownDirection s) = False"

record 'd WalletLedgerEntry =
  entry_id :: uuid
  entry_walletID :: uuid
  entry_transactionID :: uuid
  entry_direction :: WalletLedgerDirection
  entry_amount :: "'d Money"
  entry_balanceBefore :: "'d Money"
  entry_balanceAfter :: "'d Money"
  entry_createdAt :: time

definition validateLedgerBalance ::
  "'d Decimal \<Rightarrow> WalletLedgerDirection \<Rightarrow> 'd Money \<Rightarrow> 'd Money \<Rightarrow> 'd Money \<Rightarrow> err option" where
  "validateLedgerBalance D direction amount balanceBefore balanceAfter =
     (let check = (\<lambda>r. case r of
                     Inl e \<Rightarrow> Some e
                   | Inr expected \<Rightarrow>
                       if \<not> Money_Equal D expected balanceAfter
                       then Some (DomainErr ErrInvalidFinancialResult) else None)
      in case direction of
           DEBIT \<Rightarrow> check (Money_Sub D balanceBefore amount)
         | CREDIT \<Rightarrow> check (Money_Add D balanceBefore amount)
         | UnknownDirection s \<Rightarrow> Some (DomainErr ErrInvalidLedgerDirection))"

definition buildWalletLedgerEntry ::
  "'d Decimal \<Rightarrow> uuid \<Rightarrow> uuid \<Rightarrow> uuid \<Rightarrow> WalletLedgerDirection \<Rightarrow>
   'd Money \<Rightarrow> 'd Money \<Rightarrow> 'd Money \<Rightarrow> time \<Rightarrow> err + 'd WalletLedgerEntry" where
  "buildWalletLedgerEntry D uid walletID transactionID direction amount balanceBefore balanceAfter createdAt =
     (if uid = uuid_Nil then Inl (DomainErr ErrInvalidLedgerEntry)
      else if walletID = uuid_Nil then Inl (DomainErr ErrInvalidWalletID)
      else if transactionID = uuid_Nil then Inl (DomainErr ErrInvalidTransactionID)
      else if \<not> Direction_IsValid direction then Inl (DomainErr ErrInvalidLedgerDirection)
      else if \<not> Money_IsValid D amount \<or> \<not> Money_IsValid D balanceBefore \<or> \<not> Money_IsValid D balanceAfter
      then Inl (DomainErr ErrInvalidMoney)
      else if \<not> Money_IsPositive D amount then Inl (DomainErr ErrAmountMustBePositive)
      else if Money_IsNegative D balanceBefore \<or> Money_IsNegative D balanceAfter
      then Inl (DomainErr ErrInvalidFinancialResult)
      else if \<not> Currency_Equal (money_currency amount) (money_currency balanceBefore) \<or>
              \<not> Currency_Equal (money_currency amount) (money_currency balanceAfter)
      then Inl (DomainErr ErrCurrencyMismatch)
      else if IsZeroTime createdAt then Inl (DomainErr ErrInvalidTimestamp)
      else (case validateLedgerBalance D direction amount balanceBefore balanceAfter of
              Some e \<Rightarrow> Inl e
            | None \<Rightarrow>
                Inr \<lparr>entry_id = uid, entry_walletID = walletID, entry_transactionID = transactionID,
                     entry_direction = direction, entry_amount = amount,
                     entry_balanceBefore = balanceBefore, entry_balanceAfter = balanceAfter,
                     entry_createdAt = createdAt\<rparr>))"

definition NewWalletLedgerEntry ::
  "'d Decimal \<Rightarrow> uuid \<Rightarrow> uuid \<Rightarrow> uuid \<Rightarrow> WalletLedgerDirection \<Rightarrow>
   'd Money \<Rightarrow> 'd Money \<Rightarrow> 'd Money \<Rightarrow> time \<Rightarrow> err + 'd WalletLedgerEntry" where
  "NewWalletLedgerEntry = buildWalletLedgerEntry"

definition RehydrateWalletLedgerEntry ::
  "'d Decimal \<Rightarrow> uuid \<Rightarrow> uuid \<Rightarrow> uuid \<Rightarrow> WalletLedgerDirection \<Rightarrow>
   'd Money \<Rightarrow> 'd Money \<Rightarrow> 'd Money \<Rightarrow> time \<Rightarrow> err + 'd WalletLedgerEntry" where
  "RehydrateWalletLedgerEntry = buildWalletLedgerEntry"

section \<open>Well-formed wallets and entries\<close>

definition wallet_ok :: "'d Decimal \<Rightarrow> ('d \<Rightarrow> rat) \<Rightarrow> 'd Wallet \<Rightarrow> bool" where
  "wallet_ok D val w \<longleftrightarrow>
     wallet_id w \<noteq> uuid_Nil \<and> wallet_playerID w \<noteq> uuid_Nil \<and>
     money_ok D val (wallet_balance w) \<and> 0 \<le> cents val (wallet_balance w) \<and>
     1 \<le> wallet_version w \<and> wallet_version w < 2 ^ 63 \<and>
     wallet_createdAt w \<noteq> 0 \<and> wallet_updatedAt w \<noteq> 0 \<and> wallet_createdAt w \<le> wallet_updatedAt w"

text \<open>The signed hundredths a movement adds to a balance.\<close>

fun signed :: "WalletLedgerDirection \<Rightarrow> int \<Rightarrow> int" where
  "signed DEBIT n = - n"
| "signed CREDIT n = n"
| "signed (UnknownDirection s) n = 0"

definition entry_ok :: "'d Decimal \<Rightarrow> ('d \<Rightarrow> rat) \<Rightarrow> 'd WalletLedgerEntry \<Rightarrow> bool" where
  "entry_ok D val e \<longleftrightarrow>
     entry_id e \<noteq> uuid_Nil \<and> entry_walletID e \<noteq> uuid_Nil \<and> entry_transactionID e \<noteq> uuid_Nil \<and>
     Direction_IsValid (entry_direction e) \<and>
     money_ok D val (entry_amount e) \<and> money_ok D val (entry_balanceBefore e) \<and>
     money_ok D val (entry_balanceAfter e) \<and>
     money_currency (entry_balanceBefore e) = money_currency (entry_amount e) \<and>
     money_currency (entry_balanceAfter e) = money_currency (entry_amount e) \<and>
     0 < cents val (entry_amount e) \<and>
     0 \<le> cents val (entry_balanceBefore e) \<and> 0 \<le> cents val (entry_balanceAfter e) \<and>
     cents val (entry_balanceAfter e) =
       cents val (entry_balanceBefore e) + signed (entry_direction e) (cents val (entry_amount e)) \<and>
     entry_createdAt e \<noteq> 0"

text \<open>The movement of a direction, as \<^verbatim>\<open>applyMovement\<close> of the wager service chooses it.\<close>

definition Wallet_Move ::
  "'d Decimal \<Rightarrow> WalletLedgerDirection \<Rightarrow> 'd Wallet \<Rightarrow> 'd Money \<Rightarrow> time \<Rightarrow> err + 'd Wallet" where
  "Wallet_Move D direction w amount t =
     (case direction of
        DEBIT \<Rightarrow> Wallet_Debit D w amount t
      | CREDIT \<Rightarrow> Wallet_Credit D w amount t
      | UnknownDirection s \<Rightarrow> Inl (DomainErr ErrInvalidLedgerDirection))"

section \<open>Lemmas\<close>

context decimal_pkg
begin

lemma wallet_okD:
  assumes "wallet_ok D val w"
  shows "money_ok D val (wallet_balance w)" "whole_cents val (wallet_balance w)"
    "0 \<le> cents val (wallet_balance w)" "cents val (wallet_balance w) \<le> max_cents"
  using assms by (auto simp: wallet_ok_def money_ok_iff)

lemma validateMovement_ok:
  "money_ok D val amount \<Longrightarrow>
     validateMovement D w amount t =
       (if cents val amount \<le> 0 then Some (DomainErr ErrAmountMustBePositive)
        else if money_currency (wallet_balance w) \<noteq> money_currency amount
        then Some (DomainErr ErrCurrencyMismatch)
        else if t = 0 \<or> t < wallet_updatedAt w then Some (DomainErr ErrInvalidTimestamp)
        else None)"
  by (auto simp: validateMovement_def money_ok_def sign_cents)

lemma Credit_ok:
  assumes "wallet_ok D val w" "money_ok D val amount"
  shows "Wallet_Credit D w amount t =
    (case validateMovement D w amount t of
       Some e \<Rightarrow> Inl e
     | None \<Rightarrow>
         if cents val (wallet_balance w) + cents val amount \<le> max_cents
         then Inr (applyBalance w
                \<lparr>money_amount = dAdd D (money_amount (wallet_balance w)) (money_amount amount),
                 money_currency = money_currency (wallet_balance w)\<rparr> t)
         else Inl (DomainErr ErrInvalidMoney))"
  using assms wallet_okD [OF assms(1)]
  by (auto simp: Wallet_Credit_def validateMovement_ok Money_Add_ok split: option.splits)

lemma Debit_ok:
  assumes "wallet_ok D val w" "money_ok D val amount"
  shows "Wallet_Debit D w amount t =
    (case validateMovement D w amount t of
       Some e \<Rightarrow> Inl e
     | None \<Rightarrow>
         if cents val (wallet_balance w) < cents val amount
         then Inl (DomainErr ErrInsufficientFunds)
         else Inr (applyBalance w
                \<lparr>money_amount = dSub D (money_amount (wallet_balance w)) (money_amount amount),
                 money_currency = money_currency (wallet_balance w)\<rparr> t))"
  using assms wallet_okD [OF assms(1)]
  by (auto simp: Wallet_Debit_def validateMovement_ok Money_Compare_ok Money_Sub_ok sgn_if
      split: option.splits)

text \<open>A successful movement, whatever its direction.\<close>

lemma Move_InrD:
  assumes "Wallet_Move D dir w amount t = Inr w'" "wallet_ok D val w" "money_ok D val amount"
  shows "w' = applyBalance w (wallet_balance w') t"
    and "money_ok D val (wallet_balance w')"
    and "money_currency (wallet_balance w') = money_currency (wallet_balance w)"
    and "money_currency amount = money_currency (wallet_balance w)"
    and "cents val (wallet_balance w') = cents val (wallet_balance w) + signed dir (cents val amount)"
    and "0 \<le> cents val (wallet_balance w')"
    and "0 < cents val amount" "t \<noteq> 0" "wallet_updatedAt w \<le> t" "Direction_IsValid dir"
proof -
  note w = wallet_okD [OF assms(2)]
  have a: "whole_cents val amount" using assms(3) by (simp add: money_ok_def)
  have c: "Currency_IsValid (money_currency (wallet_balance w))" using w by (simp add: money_ok_iff)
  have "validateMovement D w amount t = None"
    using assms by (auto simp: Wallet_Move_def Credit_ok Debit_ok
        split: WalletLedgerDirection.splits option.splits)
  then show v: "money_currency amount = money_currency (wallet_balance w)" "0 < cents val amount"
    "t \<noteq> 0" "wallet_updatedAt w \<le> t"
    using assms(3) by (auto simp: validateMovement_ok split: if_splits)
  show "Direction_IsValid dir" using assms(1) by (cases dir) (auto simp: Wallet_Move_def)
  show "w' = applyBalance w (wallet_balance w') t"
    "money_currency (wallet_balance w') = money_currency (wallet_balance w)"
    using assms by (auto simp: Wallet_Move_def Credit_ok Debit_ok applyBalance_def
        split: WalletLedgerDirection.splits option.splits if_splits)
  have *: "whole_cents val (wallet_balance w') \<and>
      cents val (wallet_balance w') = cents val (wallet_balance w) + signed dir (cents val amount) \<and>
      0 \<le> cents val (wallet_balance w') \<and> cents val (wallet_balance w') \<le> max_cents"
    using assms w a v cents_Add [OF w(2) a] cents_Sub [OF w(2) a]
    by (auto simp: Wallet_Move_def Credit_ok Debit_ok applyBalance_def
        split: WalletLedgerDirection.splits option.splits if_splits)
  then show "cents val (wallet_balance w') = cents val (wallet_balance w) + signed dir (cents val amount)"
    "0 \<le> cents val (wallet_balance w')" by auto
  show "money_ok D val (wallet_balance w')"
    using * c \<open>money_currency (wallet_balance w') = _\<close> by (simp add: money_ok_iff)
qed

lemma build_entry_iff:
  assumes "money_ok D val amount" "money_ok D val before" "money_ok D val after"
  shows "buildWalletLedgerEntry D uid wid tid dir amount before after t = Inr e \<longleftrightarrow>
    e = \<lparr>entry_id = uid, entry_walletID = wid, entry_transactionID = tid, entry_direction = dir,
         entry_amount = amount, entry_balanceBefore = before, entry_balanceAfter = after,
         entry_createdAt = t\<rparr> \<and> entry_ok D val e"
proof -
  have w: "whole_cents val amount" "whole_cents val before" "whole_cents val after"
    "Money_IsValid D amount" "Money_IsValid D before" "Money_IsValid D after"
    using assms by (auto simp: money_ok_def)
  have m: "\<bar>cents val after\<bar> \<le> max_cents" using assms by (simp add: money_ok_iff)
  show ?thesis
    using assms w m cents_Add [OF w(2,1)] cents_Sub [OF w(2,1)]
    by (cases dir)
      (auto simp: buildWalletLedgerEntry_def entry_ok_def validateLedgerBalance_def Let_def
        Money_Add_ok Money_Sub_ok Equal_cents sign_cents split: if_splits)
qed

end

end
