(* ===== verification/Wager_Transaction.thy ===== *)
theory Wager_Transaction
  imports Wallet
begin

text \<open>
  \<^verbatim>\<open>internal/domain/wager_transaction.go\<close>: the wager transaction aggregate, its constructors,
  the validation of persisted state, the resolution of references, the movement a transaction
  requires, and the state machine of its status. The string types of the code are datatypes with
  one constructor per constant and \<open>UnknownType\<close>, \<open>UnknownStatus\<close> for any other string; the
  empty string, which the code uses for "no reference type", is \<open>UnknownType ''''\<close>.
\<close>

datatype WagerTransactionType =
  OPENING | BET | WIN | LOSS | REFUND | ROLLBACK | UnknownType string

datatype WagerTransactionStatus =
  PENDING | PENDING_REFERENCE | PROCESSED | REJECTED | FAILED | UnknownStatus string

abbreviation NoType :: WagerTransactionType where
  "NoType \<equiv> UnknownType []"

text \<open>The conversions \<^verbatim>\<open>WagerTransactionType(s)\<close> and \<^verbatim>\<open>string(t)\<close>.\<close>

definition type_of_string :: "string \<Rightarrow> WagerTransactionType" where
  "type_of_string s =
     (if s = ''OPENING'' then OPENING else if s = ''BET'' then BET else if s = ''WIN'' then WIN
      else if s = ''LOSS'' then LOSS else if s = ''REFUND'' then REFUND
      else if s = ''ROLLBACK'' then ROLLBACK else UnknownType s)"

fun string_of_type :: "WagerTransactionType \<Rightarrow> string" where
  "string_of_type OPENING = ''OPENING''"
| "string_of_type BET = ''BET''"
| "string_of_type WIN = ''WIN''"
| "string_of_type LOSS = ''LOSS''"
| "string_of_type REFUND = ''REFUND''"
| "string_of_type ROLLBACK = ''ROLLBACK''"
| "string_of_type (UnknownType s) = s"

definition maxIdentifierLength :: nat where
  "maxIdentifierLength = 255"

section \<open>Types and statuses\<close>

definition Type_IsValid :: "WagerTransactionType \<Rightarrow> bool" where
  "Type_IsValid t = (case t of UnknownType s \<Rightarrow> False | _ \<Rightarrow> True)"

definition Type_IsExternal :: "WagerTransactionType \<Rightarrow> bool" where
  "Type_IsExternal t \<longleftrightarrow> Type_IsValid t \<and> t \<noteq> OPENING"

definition RequiresReference :: "WagerTransactionType \<Rightarrow> bool" where
  "RequiresReference t \<longleftrightarrow> t = REFUND \<or> t = ROLLBACK"

definition AllowsReference :: "WagerTransactionType \<Rightarrow> bool" where
  "AllowsReference t \<longleftrightarrow> t = WIN \<or> RequiresReference t"

definition Status_IsValid :: "WagerTransactionStatus \<Rightarrow> bool" where
  "Status_IsValid s = (case s of UnknownStatus x \<Rightarrow> False | _ \<Rightarrow> True)"

definition IsTerminal :: "WagerTransactionStatus \<Rightarrow> bool" where
  "IsTerminal s \<longleftrightarrow> s = PROCESSED \<or> s = REJECTED \<or> s = FAILED"

definition isAllowedReferenceType :: "WagerTransactionType \<Rightarrow> WagerTransactionType \<Rightarrow> bool" where
  "isAllowedReferenceType transactionType referenceType =
     (case transactionType of
        WIN \<Rightarrow> referenceType = BET
      | REFUND \<Rightarrow> referenceType = BET
      | ROLLBACK \<Rightarrow> referenceType = BET \<or> referenceType = WIN \<or> referenceType = REFUND
      | _ \<Rightarrow> False)"

definition isAllowedWagerTransition :: "WagerTransactionStatus \<Rightarrow> WagerTransactionStatus \<Rightarrow> bool" where
  "isAllowedWagerTransition from to =
     (case from of
        PENDING \<Rightarrow> to = PENDING_REFERENCE \<or> to = PROCESSED \<or> to = REJECTED \<or> to = FAILED
      | PENDING_REFERENCE \<Rightarrow> to = PENDING \<or> to = REJECTED \<or> to = FAILED
      | _ \<Rightarrow> False)"

definition isValidIdentifier :: "string \<Rightarrow> bool" where
  "isValidIdentifier value \<longleftrightarrow> TrimSpace value \<noteq> [] \<and> length value \<le> maxIdentifierLength"

definition validateWagerAmount :: "'d Decimal \<Rightarrow> WagerTransactionType \<Rightarrow> 'd Money \<Rightarrow> err option" where
  "validateWagerAmount D transactionType amount =
     (if transactionType = LOSS
      then (if \<not> Money_IsZero D amount then Some (DomainErr ErrInvalidWagerAmount) else None)
      else if \<not> Money_IsPositive D amount then Some (DomainErr ErrAmountMustBePositive)
      else None)"

definition validateExternalReference :: "WagerTransactionType \<Rightarrow> string \<Rightarrow> err option" where
  "validateExternalReference transactionType ref =
     (let hasReference = (TrimSpace ref \<noteq> [])
      in if RequiresReference transactionType \<and> \<not> hasReference then Some (DomainErr ErrInvalidWagerReference)
         else if \<not> AllowsReference transactionType \<and> hasReference then Some (DomainErr ErrInvalidWagerReference)
         else None)"

section \<open>The transaction and its parameters\<close>

record 'd NewExternalWagerTransactionParams =
  np_ID :: uuid
  np_ProviderID :: string
  np_ExternalTransactionID :: string
  np_IdempotencyKey :: string
  np_PayloadHash :: string
  np_WalletID :: uuid
  np_PlayerID :: uuid
  np_RoundID :: string
  np_GameID :: string
  np_Type :: WagerTransactionType
  np_Amount :: "'d Money"
  np_ReferenceExternalTransactionID :: string
  np_CreatedAt :: time

record 'd NewOpeningWagerTransactionParams =
  op_ID :: uuid
  op_WalletID :: uuid
  op_PlayerID :: uuid
  op_Amount :: "'d Money"
  op_CreatedAt :: time

record 'd RehydrateWagerTransactionParams =
  rp_ID :: uuid
  rp_ProviderID :: string
  rp_ExternalTransactionID :: string
  rp_IdempotencyKey :: string
  rp_PayloadHash :: string
  rp_WalletID :: uuid
  rp_PlayerID :: uuid
  rp_RoundID :: string
  rp_GameID :: string
  rp_Type :: WagerTransactionType
  rp_Amount :: "'d Money"
  rp_ReferenceExternalTransactionID :: string
  rp_ReferenceTransactionID :: uuid
  rp_ReferenceTransactionType :: WagerTransactionType
  rp_Status :: WagerTransactionStatus
  rp_FailureCode :: string
  rp_FailureMessage :: string
  rp_BalanceBefore :: "'d Money option"
  rp_BalanceAfter :: "'d Money option"
  rp_CreatedAt :: time
  rp_UpdatedAt :: time
  rp_CompletedAt :: "time option"

record 'd WagerTransaction =
  tx_id :: uuid
  tx_providerID :: string
  tx_externalTransactionID :: string
  tx_idempotencyKey :: string
  tx_payloadHash :: string
  tx_walletID :: uuid
  tx_playerID :: uuid
  tx_roundID :: string
  tx_gameID :: string
  tx_type :: WagerTransactionType
  tx_amount :: "'d Money"
  tx_referenceExternalTransactionID :: string
  tx_referenceTransactionID :: uuid
  tx_referenceTransactionType :: WagerTransactionType
  tx_status :: WagerTransactionStatus
  tx_failureCode :: string
  tx_failureMessage :: string
  tx_balanceBefore :: "'d Money option"
  tx_balanceAfter :: "'d Money option"
  tx_createdAt :: time
  tx_updatedAt :: time
  tx_completedAt :: "time option"

section \<open>Constructors\<close>

definition validateExternalWager :: "'d Decimal \<Rightarrow> 'd NewExternalWagerTransactionParams \<Rightarrow> err option" where
  "validateExternalWager D p =
     (if np_ID p = uuid_Nil then Some (DomainErr ErrInvalidTransactionID)
      else if \<not> isValidIdentifier (np_ProviderID p) then Some (DomainErr ErrInvalidProviderID)
      else if \<not> isValidIdentifier (np_ExternalTransactionID p)
      then Some (DomainErr ErrInvalidExternalTransactionID)
      else if \<not> isValidIdentifier (np_IdempotencyKey p) then Some (DomainErr ErrInvalidIdempotencyKey)
      else if TrimSpace (np_PayloadHash p) = [] then Some (DomainErr ErrInvalidPayloadHash)
      else if np_WalletID p = uuid_Nil then Some (DomainErr ErrInvalidWalletID)
      else if np_PlayerID p = uuid_Nil then Some (DomainErr ErrInvalidPlayerID)
      else if \<not> isValidIdentifier (np_RoundID p) then Some (DomainErr ErrInvalidRoundID)
      else if \<not> isValidIdentifier (np_GameID p) then Some (DomainErr ErrInvalidGameID)
      else if \<not> Type_IsExternal (np_Type p) then Some (DomainErr ErrInvalidWagerType)
      else if \<not> Money_IsValid D (np_Amount p) then Some (DomainErr ErrInvalidMoney)
      else (case validateWagerAmount D (np_Type p) (np_Amount p) of
              Some e \<Rightarrow> Some e
            | None \<Rightarrow>
           (case validateExternalReference (np_Type p) (np_ReferenceExternalTransactionID p) of
              Some e \<Rightarrow> Some e
            | None \<Rightarrow>
                if maxIdentifierLength < length (np_ReferenceExternalTransactionID p) \<or>
                   np_ReferenceExternalTransactionID p = np_ExternalTransactionID p
                then Some (DomainErr ErrInvalidWagerReference)
                else if IsZeroTime (np_CreatedAt p) then Some (DomainErr ErrInvalidTimestamp)
                else None)))"

definition NewExternalWagerTransaction ::
  "'d Decimal \<Rightarrow> 'd NewExternalWagerTransactionParams \<Rightarrow> err + 'd WagerTransaction" where
  "NewExternalWagerTransaction D p =
     (case validateExternalWager D p of
        Some e \<Rightarrow> Inl e
      | None \<Rightarrow>
          Inr \<lparr>tx_id = np_ID p,
               tx_providerID = np_ProviderID p,
               tx_externalTransactionID = np_ExternalTransactionID p,
               tx_idempotencyKey = np_IdempotencyKey p,
               tx_payloadHash = np_PayloadHash p,
               tx_walletID = np_WalletID p,
               tx_playerID = np_PlayerID p,
               tx_roundID = np_RoundID p,
               tx_gameID = np_GameID p,
               tx_type = np_Type p,
               tx_amount = np_Amount p,
               tx_referenceExternalTransactionID = np_ReferenceExternalTransactionID p,
               tx_referenceTransactionID = uuid_Nil,
               tx_referenceTransactionType = NoType,
               tx_status = PENDING,
               tx_failureCode = [],
               tx_failureMessage = [],
               tx_balanceBefore = None,
               tx_balanceAfter = None,
               tx_createdAt = np_CreatedAt p,
               tx_updatedAt = np_CreatedAt p,
               tx_completedAt = None\<rparr>)"

definition NewOpeningWagerTransaction ::
  "'d Decimal \<Rightarrow> 'd NewOpeningWagerTransactionParams \<Rightarrow> err + 'd WagerTransaction" where
  "NewOpeningWagerTransaction D p =
     (if op_ID p = uuid_Nil then Inl (DomainErr ErrInvalidTransactionID)
      else if op_WalletID p = uuid_Nil then Inl (DomainErr ErrInvalidWalletID)
      else if op_PlayerID p = uuid_Nil then Inl (DomainErr ErrInvalidPlayerID)
      else if \<not> Money_IsValid D (op_Amount p) then Inl (DomainErr ErrInvalidMoney)
      else if \<not> Money_IsPositive D (op_Amount p) then Inl (DomainErr ErrAmountMustBePositive)
      else if IsZeroTime (op_CreatedAt p) then Inl (DomainErr ErrInvalidTimestamp)
      else (case Zero D (money_currency (op_Amount p)) of
              Inl e \<Rightarrow> Inl e
            | Inr zero \<Rightarrow>
                Inr \<lparr>tx_id = op_ID p,
                     tx_providerID = [],
                     tx_externalTransactionID = [],
                     tx_idempotencyKey = [],
                     tx_payloadHash = [],
                     tx_walletID = op_WalletID p,
                     tx_playerID = op_PlayerID p,
                     tx_roundID = [],
                     tx_gameID = [],
                     tx_type = OPENING,
                     tx_amount = op_Amount p,
                     tx_referenceExternalTransactionID = [],
                     tx_referenceTransactionID = uuid_Nil,
                     tx_referenceTransactionType = NoType,
                     tx_status = PROCESSED,
                     tx_failureCode = [],
                     tx_failureMessage = [],
                     tx_balanceBefore = Some zero,
                     tx_balanceAfter = Some (op_Amount p),
                     tx_createdAt = op_CreatedAt p,
                     tx_updatedAt = op_CreatedAt p,
                     tx_completedAt = Some (op_CreatedAt p)\<rparr>))"

section \<open>Persisted state\<close>

definition validatePendingState :: "'d RehydrateWagerTransactionParams \<Rightarrow> err option" where
  "validatePendingState p =
     (if rp_CompletedAt p \<noteq> None \<or> rp_BalanceBefore p \<noteq> None \<or> rp_BalanceAfter p \<noteq> None \<or>
         rp_FailureCode p \<noteq> [] \<or> rp_FailureMessage p \<noteq> []
      then Some (DomainErr ErrInvalidWagerState) else None)"

definition validatePendingReferenceState :: "'d RehydrateWagerTransactionParams \<Rightarrow> err option" where
  "validatePendingReferenceState p =
     (if TrimSpace (rp_ReferenceExternalTransactionID p) = [] \<or>
         rp_ReferenceTransactionID p \<noteq> uuid_Nil \<or>
         rp_ReferenceTransactionType p \<noteq> NoType
      then Some (DomainErr ErrInvalidWagerState) else validatePendingState p)"

definition validateProcessedState :: "'d Decimal \<Rightarrow> 'd RehydrateWagerTransactionParams \<Rightarrow> err option" where
  "validateProcessedState D p =
     (case (rp_CompletedAt p, rp_BalanceBefore p, rp_BalanceAfter p) of
        (Some completedAt, Some before, Some after) \<Rightarrow>
          if rp_FailureCode p \<noteq> [] \<or> rp_FailureMessage p \<noteq> []
          then Some (DomainErr ErrInvalidWagerState)
          else if TrimSpace (rp_ReferenceExternalTransactionID p) \<noteq> [] \<and>
                  rp_ReferenceTransactionID p = uuid_Nil
          then Some (DomainErr ErrInvalidWagerReference)
          else if Money_IsNegative D before \<or> Money_IsNegative D after
          then Some (DomainErr ErrInvalidFinancialResult)
          else if \<not> Currency_Equal (money_currency (rp_Amount p)) (money_currency before) \<or>
                  \<not> Currency_Equal (money_currency (rp_Amount p)) (money_currency after)
          then Some (DomainErr ErrCurrencyMismatch)
          else if rp_Type p = LOSS \<and> \<not> Money_Equal D before after
          then Some (DomainErr ErrInvalidFinancialResult)
          else None
      | _ \<Rightarrow> Some (DomainErr ErrInvalidWagerState))"

definition validateFailureState :: "'d RehydrateWagerTransactionParams \<Rightarrow> err option" where
  "validateFailureState p =
     (if TrimSpace (rp_FailureCode p) = [] \<or> rp_CompletedAt p = None \<or>
         rp_BalanceBefore p \<noteq> None \<or> rp_BalanceAfter p \<noteq> None
      then Some (DomainErr ErrInvalidWagerState) else None)"

definition validatePersistedReference :: "'d RehydrateWagerTransactionParams \<Rightarrow> err option" where
  "validatePersistedReference p =
     (let hasExternalReference = (TrimSpace (rp_ReferenceExternalTransactionID p) \<noteq> []);
          hasInternalReference = (rp_ReferenceTransactionID p \<noteq> uuid_Nil);
          hasReferenceType = (rp_ReferenceTransactionType p \<noteq> NoType)
      in if (hasInternalReference \<or> hasReferenceType) \<and> \<not> hasExternalReference
         then Some (DomainErr ErrInvalidWagerReference)
         else if hasInternalReference \<noteq> hasReferenceType
         then Some (DomainErr ErrInvalidWagerReference)
         else if hasReferenceType \<and> \<not> Type_IsValid (rp_ReferenceTransactionType p)
         then Some (DomainErr ErrInvalidWagerReference)
         else if hasReferenceType \<and> \<not> isAllowedReferenceType (rp_Type p) (rp_ReferenceTransactionType p)
         then Some (DomainErr ErrInvalidWagerReference)
         else None)"

definition validateRehydratedOpening :: "'d Decimal \<Rightarrow> 'd RehydrateWagerTransactionParams \<Rightarrow> err option" where
  "validateRehydratedOpening D p =
     (if TrimSpace (rp_ProviderID p) \<noteq> [] \<or>
         TrimSpace (rp_ExternalTransactionID p) \<noteq> [] \<or>
         TrimSpace (rp_IdempotencyKey p) \<noteq> [] \<or>
         TrimSpace (rp_PayloadHash p) \<noteq> [] \<or>
         TrimSpace (rp_RoundID p) \<noteq> [] \<or>
         TrimSpace (rp_GameID p) \<noteq> [] \<or>
         TrimSpace (rp_ReferenceExternalTransactionID p) \<noteq> [] \<or>
         rp_ReferenceTransactionID p \<noteq> uuid_Nil \<or>
         rp_ReferenceTransactionType p \<noteq> NoType
      then Some (DomainErr ErrInvalidWagerState)
      else if \<not> Money_IsPositive D (rp_Amount p) then Some (DomainErr ErrAmountMustBePositive)
      else (case (rp_BalanceBefore p, rp_BalanceAfter p) of
              (Some before, Some after) \<Rightarrow>
                if rp_Status p \<noteq> PROCESSED \<or> rp_CompletedAt p = None \<or>
                   rp_FailureCode p \<noteq> [] \<or> rp_FailureMessage p \<noteq> []
                then Some (DomainErr ErrInvalidWagerState)
                else (case Zero D (money_currency (rp_Amount p)) of
                        Inl e \<Rightarrow> Some e
                      | Inr zero \<Rightarrow>
                          if \<not> Money_Equal D before zero \<or> \<not> Money_Equal D after (rp_Amount p)
                          then Some (DomainErr ErrInvalidFinancialResult)
                          else None)
            | _ \<Rightarrow> Some (DomainErr ErrInvalidWagerState)))"

definition validateRehydratedExternal :: "'d Decimal \<Rightarrow> 'd RehydrateWagerTransactionParams \<Rightarrow> err option" where
  "validateRehydratedExternal D p =
     (if TrimSpace (rp_ProviderID p) = [] then Some (DomainErr ErrInvalidProviderID)
      else if TrimSpace (rp_ExternalTransactionID p) = []
      then Some (DomainErr ErrInvalidExternalTransactionID)
      else if TrimSpace (rp_IdempotencyKey p) = [] then Some (DomainErr ErrInvalidIdempotencyKey)
      else if TrimSpace (rp_PayloadHash p) = [] then Some (DomainErr ErrInvalidPayloadHash)
      else if TrimSpace (rp_RoundID p) = [] then Some (DomainErr ErrInvalidRoundID)
      else if TrimSpace (rp_GameID p) = [] then Some (DomainErr ErrInvalidGameID)
      else if \<not> Type_IsExternal (rp_Type p) then Some (DomainErr ErrInvalidWagerType)
      else (case validateWagerAmount D (rp_Type p) (rp_Amount p) of
              Some e \<Rightarrow> Some e
            | None \<Rightarrow>
           (case validateExternalReference (rp_Type p) (rp_ReferenceExternalTransactionID p) of
              Some e \<Rightarrow> Some e
            | None \<Rightarrow>
           (case validatePersistedReference p of
              Some e \<Rightarrow> Some e
            | None \<Rightarrow>
           (case rp_Status p of
              PENDING \<Rightarrow> validatePendingState p
            | PENDING_REFERENCE \<Rightarrow> validatePendingReferenceState p
            | PROCESSED \<Rightarrow> validateProcessedState D p
            | REJECTED \<Rightarrow> validateFailureState p
            | FAILED \<Rightarrow> validateFailureState p
            | UnknownStatus s \<Rightarrow> Some (DomainErr ErrInvalidWagerStatus))))))"

definition validateRehydratedWager :: "'d Decimal \<Rightarrow> 'd RehydrateWagerTransactionParams \<Rightarrow> err option" where
  "validateRehydratedWager D p =
     (if rp_ID p = uuid_Nil then Some (DomainErr ErrInvalidTransactionID)
      else if rp_WalletID p = uuid_Nil then Some (DomainErr ErrInvalidWalletID)
      else if rp_PlayerID p = uuid_Nil then Some (DomainErr ErrInvalidPlayerID)
      else if \<not> Type_IsValid (rp_Type p) then Some (DomainErr ErrInvalidWagerType)
      else if \<not> Status_IsValid (rp_Status p) then Some (DomainErr ErrInvalidWagerStatus)
      else if \<not> Money_IsValid D (rp_Amount p) then Some (DomainErr ErrInvalidMoney)
      else if IsZeroTime (rp_CreatedAt p) \<or> IsZeroTime (rp_UpdatedAt p) \<or> rp_UpdatedAt p < rp_CreatedAt p
      then Some (DomainErr ErrInvalidTimestamp)
      else if (case rp_CompletedAt p of
                 None \<Rightarrow> False
               | Some completedAt \<Rightarrow>
                   IsZeroTime completedAt \<or> completedAt < rp_CreatedAt p \<or> rp_UpdatedAt p < completedAt)
      then Some (DomainErr ErrInvalidTimestamp)
      else if rp_Type p = OPENING then validateRehydratedOpening D p
      else validateRehydratedExternal D p)"

definition RehydrateWagerTransaction ::
  "'d Decimal \<Rightarrow> 'd RehydrateWagerTransactionParams \<Rightarrow> err + 'd WagerTransaction" where
  "RehydrateWagerTransaction D p =
     (case validateRehydratedWager D p of
        Some e \<Rightarrow> Inl e
      | None \<Rightarrow>
          Inr \<lparr>tx_id = rp_ID p,
               tx_providerID = rp_ProviderID p,
               tx_externalTransactionID = rp_ExternalTransactionID p,
               tx_idempotencyKey = rp_IdempotencyKey p,
               tx_payloadHash = rp_PayloadHash p,
               tx_walletID = rp_WalletID p,
               tx_playerID = rp_PlayerID p,
               tx_roundID = rp_RoundID p,
               tx_gameID = rp_GameID p,
               tx_type = rp_Type p,
               tx_amount = rp_Amount p,
               tx_referenceExternalTransactionID = rp_ReferenceExternalTransactionID p,
               tx_referenceTransactionID = rp_ReferenceTransactionID p,
               tx_referenceTransactionType = rp_ReferenceTransactionType p,
               tx_status = rp_Status p,
               tx_failureCode = rp_FailureCode p,
               tx_failureMessage = rp_FailureMessage p,
               tx_balanceBefore = rp_BalanceBefore p,
               tx_balanceAfter = rp_BalanceAfter p,
               tx_createdAt = rp_CreatedAt p,
               tx_updatedAt = rp_UpdatedAt p,
               tx_completedAt = rp_CompletedAt p\<rparr>)"

section \<open>Transitions\<close>

definition validateTimestamp :: "'d WagerTransaction \<Rightarrow> time \<Rightarrow> err option" where
  "validateTimestamp w updatedAt =
     (if IsZeroTime updatedAt \<or> updatedAt < tx_updatedAt w
      then Some (DomainErr ErrInvalidTimestamp) else None)"

definition transitionTo ::
  "'d WagerTransaction \<Rightarrow> WagerTransactionStatus \<Rightarrow> time \<Rightarrow> err + 'd WagerTransaction" where
  "transitionTo w status updatedAt =
     (if IsTerminal (tx_status w) then Inl (DomainErr ErrWagerTransactionTerminal)
      else if \<not> Status_IsValid status then Inl (DomainErr ErrInvalidWagerStatus)
      else (case validateTimestamp w updatedAt of
              Some e \<Rightarrow> Inl e
            | None \<Rightarrow>
                if \<not> isAllowedWagerTransition (tx_status w) status
                then Inl (DomainErr ErrInvalidWagerTransition)
                else Inr (w\<lparr>tx_status := status, tx_updatedAt := updatedAt\<rparr>)))"

definition MarkPendingReference :: "'d WagerTransaction \<Rightarrow> time \<Rightarrow> err + 'd WagerTransaction" where
  "MarkPendingReference w updatedAt =
     (if IsTerminal (tx_status w) then Inl (DomainErr ErrWagerTransactionTerminal)
      else if tx_status w \<noteq> PENDING then Inl (DomainErr ErrInvalidWagerTransition)
      else if \<not> AllowsReference (tx_type w) then Inl (DomainErr ErrInvalidWagerReference)
      else if TrimSpace (tx_referenceExternalTransactionID w) = []
      then Inl (DomainErr ErrInvalidWagerReference)
      else if tx_referenceTransactionID w \<noteq> uuid_Nil then Inl (DomainErr ErrInvalidWagerReference)
      else transitionTo w PENDING_REFERENCE updatedAt)"

definition validateReference ::
  "'d Decimal \<Rightarrow> 'd WagerTransaction \<Rightarrow> 'd WagerTransaction option \<Rightarrow> err option" where
  "validateReference D w reference =
     (case reference of
        None \<Rightarrow> Some (DomainErr ErrInvalidWagerReference)
      | Some r \<Rightarrow>
          if TrimSpace (tx_referenceExternalTransactionID w) = []
          then Some (DomainErr ErrInvalidWagerReference)
          else if tx_status r \<noteq> PROCESSED then Some (DomainErr ErrWagerReferenceNotProcessed)
          else if tx_referenceExternalTransactionID w \<noteq> tx_externalTransactionID r
          then Some (DomainErr ErrWagerReferenceMismatch)
          else if tx_providerID w \<noteq> tx_providerID r \<or>
                  tx_playerID w \<noteq> tx_playerID r \<or>
                  tx_walletID w \<noteq> tx_walletID r \<or>
                  tx_roundID w \<noteq> tx_roundID r \<or>
                  \<not> Currency_Equal (money_currency (tx_amount w)) (money_currency (tx_amount r))
          then Some (DomainErr ErrWagerReferenceMismatch)
          else if \<not> isAllowedReferenceType (tx_type w) (tx_type r)
          then Some (DomainErr ErrInvalidWagerReference)
          else if RequiresReference (tx_type w) \<and> \<not> Money_Equal D (tx_amount w) (tx_amount r)
          then Some (DomainErr ErrWagerReferenceMismatch)
          else None)"

definition ResolveReference ::
  "'d Decimal \<Rightarrow> 'd WagerTransaction \<Rightarrow> 'd WagerTransaction option \<Rightarrow> time \<Rightarrow> err + 'd WagerTransaction" where
  "ResolveReference D w reference updatedAt =
     (if IsTerminal (tx_status w) then Inl (DomainErr ErrWagerTransactionTerminal)
      else if tx_status w \<noteq> PENDING \<and> tx_status w \<noteq> PENDING_REFERENCE
      then Inl (DomainErr ErrInvalidWagerTransition)
      else (case (validateReference D w reference, reference) of
              (Some e, _) \<Rightarrow> Inl e
            | (None, None) \<Rightarrow> Inl (DomainErr ErrInvalidWagerReference)
            | (None, Some r) \<Rightarrow>
                if tx_referenceTransactionID w \<noteq> uuid_Nil
                then (if tx_referenceTransactionID w \<noteq> tx_id r \<or> tx_referenceTransactionType w \<noteq> tx_type r
                      then Inl (DomainErr ErrWagerReferenceMismatch)
                      else Inr w)
                else (case validateTimestamp w updatedAt of
                        Some e \<Rightarrow> Inl e
                      | None \<Rightarrow>
                          Inr (w\<lparr>tx_status := (if tx_status w = PENDING_REFERENCE then PENDING else tx_status w),
                                 tx_referenceTransactionID := tx_id r,
                                 tx_referenceTransactionType := tx_type r,
                                 tx_updatedAt := updatedAt\<rparr>))))"

definition MovementDirection :: "'d WagerTransaction \<Rightarrow> err + (WalletLedgerDirection \<times> bool)" where
  "MovementDirection w =
     (case tx_type w of
        BET \<Rightarrow> Inr (DEBIT, True)
      | WIN \<Rightarrow> Inr (CREDIT, True)
      | REFUND \<Rightarrow> Inr (CREDIT, True)
      | LOSS \<Rightarrow> Inr (UnknownDirection [], False)
      | ROLLBACK \<Rightarrow>
          (case tx_referenceTransactionType w of
             BET \<Rightarrow> Inr (CREDIT, True)
           | WIN \<Rightarrow> Inr (DEBIT, True)
           | REFUND \<Rightarrow> Inr (DEBIT, True)
           | _ \<Rightarrow> Inl (DomainErr ErrInvalidWagerReference))
      | _ \<Rightarrow> Inl (DomainErr ErrInvalidWagerType))"

definition validateReferenceReady :: "'d WagerTransaction \<Rightarrow> err option" where
  "validateReferenceReady w =
     (let hasExternalReference = (TrimSpace (tx_referenceExternalTransactionID w) \<noteq> []);
          hasInternalReference = (tx_referenceTransactionID w \<noteq> uuid_Nil)
      in if RequiresReference (tx_type w) \<and> \<not> hasExternalReference
         then Some (DomainErr ErrInvalidWagerReference)
         else if hasExternalReference \<and> \<not> hasInternalReference
         then Some (DomainErr ErrInvalidWagerReference)
         else if hasInternalReference \<and>
                 \<not> isAllowedReferenceType (tx_type w) (tx_referenceTransactionType w)
         then Some (DomainErr ErrInvalidWagerReference)
         else None)"

definition validateObservedBalances ::
  "'d Decimal \<Rightarrow> 'd WagerTransaction \<Rightarrow> 'd Money \<Rightarrow> 'd Money \<Rightarrow> err option" where
  "validateObservedBalances D w balanceBefore balanceAfter =
     (if \<not> Money_IsValid D balanceBefore \<or> \<not> Money_IsValid D balanceAfter
      then Some (DomainErr ErrInvalidMoney)
      else if Money_IsNegative D balanceBefore \<or> Money_IsNegative D balanceAfter
      then Some (DomainErr ErrInvalidFinancialResult)
      else if \<not> Currency_Equal (money_currency (tx_amount w)) (money_currency balanceBefore) \<or>
              \<not> Currency_Equal (money_currency (tx_amount w)) (money_currency balanceAfter)
      then Some (DomainErr ErrCurrencyMismatch)
      else if tx_type w = LOSS \<and> \<not> Money_Equal D balanceBefore balanceAfter
      then Some (DomainErr ErrInvalidFinancialResult)
      else None)"

definition MarkProcessed ::
  "'d Decimal \<Rightarrow> 'd WagerTransaction \<Rightarrow> 'd Money \<Rightarrow> 'd Money \<Rightarrow> time \<Rightarrow> err + 'd WagerTransaction" where
  "MarkProcessed D w balanceBefore balanceAfter completedAt =
     (if IsTerminal (tx_status w) then Inl (DomainErr ErrWagerTransactionTerminal)
      else if tx_status w \<noteq> PENDING then Inl (DomainErr ErrInvalidWagerTransition)
      else (case validateReferenceReady w of
              Some e \<Rightarrow> Inl e
            | None \<Rightarrow>
           (case validateObservedBalances D w balanceBefore balanceAfter of
              Some e \<Rightarrow> Inl e
            | None \<Rightarrow>
           (case transitionTo w PROCESSED completedAt of
              Inl e \<Rightarrow> Inl e
            | Inr w' \<Rightarrow>
                Inr (w'\<lparr>tx_balanceBefore := Some balanceBefore,
                        tx_balanceAfter := Some balanceAfter,
                        tx_completedAt := Some completedAt\<rparr>)))))"

definition completeWithFailure ::
  "'d WagerTransaction \<Rightarrow> WagerTransactionStatus \<Rightarrow> string \<Rightarrow> string \<Rightarrow> time \<Rightarrow> err + 'd WagerTransaction" where
  "completeWithFailure w status failureCode failureMessage completedAt =
     (if IsTerminal (tx_status w) then Inl (DomainErr ErrWagerTransactionTerminal)
      else if tx_type w = OPENING then Inl (DomainErr ErrInvalidWagerTransition)
      else if TrimSpace failureCode = [] then Inl (DomainErr ErrInvalidFailureCode)
      else (case transitionTo w status completedAt of
              Inl e \<Rightarrow> Inl e
            | Inr w' \<Rightarrow>
                Inr (w'\<lparr>tx_failureCode := failureCode,
                        tx_failureMessage := failureMessage,
                        tx_completedAt := Some completedAt\<rparr>)))"

definition MarkRejected ::
  "'d WagerTransaction \<Rightarrow> string \<Rightarrow> string \<Rightarrow> time \<Rightarrow> err + 'd WagerTransaction" where
  "MarkRejected w failureCode failureMessage completedAt =
     completeWithFailure w REJECTED failureCode failureMessage completedAt"

definition MarkFailed ::
  "'d WagerTransaction \<Rightarrow> string \<Rightarrow> string \<Rightarrow> time \<Rightarrow> err + 'd WagerTransaction" where
  "MarkFailed w failureCode failureMessage completedAt =
     completeWithFailure w FAILED failureCode failureMessage completedAt"

section \<open>The life cycle as a step relation\<close>

text \<open>
  One rule per method that changes a transaction. The reference given to \<^verbatim>\<open>ResolveReference\<close> is
  itself a well-formed transaction, and the observed balances are amounts of whole hundredths.
\<close>

definition params_of :: "'d WagerTransaction \<Rightarrow> 'd RehydrateWagerTransactionParams" where
  "params_of w =
     \<lparr>rp_ID = tx_id w,
      rp_ProviderID = tx_providerID w,
      rp_ExternalTransactionID = tx_externalTransactionID w,
      rp_IdempotencyKey = tx_idempotencyKey w,
      rp_PayloadHash = tx_payloadHash w,
      rp_WalletID = tx_walletID w,
      rp_PlayerID = tx_playerID w,
      rp_RoundID = tx_roundID w,
      rp_GameID = tx_gameID w,
      rp_Type = tx_type w,
      rp_Amount = tx_amount w,
      rp_ReferenceExternalTransactionID = tx_referenceExternalTransactionID w,
      rp_ReferenceTransactionID = tx_referenceTransactionID w,
      rp_ReferenceTransactionType = tx_referenceTransactionType w,
      rp_Status = tx_status w,
      rp_FailureCode = tx_failureCode w,
      rp_FailureMessage = tx_failureMessage w,
      rp_BalanceBefore = tx_balanceBefore w,
      rp_BalanceAfter = tx_balanceAfter w,
      rp_CreatedAt = tx_createdAt w,
      rp_UpdatedAt = tx_updatedAt w,
      rp_CompletedAt = tx_completedAt w\<rparr>"

text \<open>A transaction is well-formed when its own state passes the validation of persisted state.\<close>

definition tx_ok :: "'d Decimal \<Rightarrow> 'd WagerTransaction \<Rightarrow> bool" where
  "tx_ok D w \<longleftrightarrow> validateRehydratedWager D (params_of w) = None"

inductive wager_step :: "'d Decimal \<Rightarrow> 'd WagerTransaction \<Rightarrow> 'd WagerTransaction \<Rightarrow> bool" for D where
  pending_reference: "MarkPendingReference w t = Inr w' \<Longrightarrow> wager_step D w w'"
| resolve: "\<lbrakk>tx_ok D r; ResolveReference D w (Some r) t = Inr w'\<rbrakk> \<Longrightarrow> wager_step D w w'"
| processed: "MarkProcessed D w before after t = Inr w' \<Longrightarrow> wager_step D w w'"
| rejected: "MarkRejected w code message t = Inr w' \<Longrightarrow> wager_step D w w'"
| failed: "MarkFailed w code message t = Inr w' \<Longrightarrow> wager_step D w w'"

inductive wager_reachable :: "'d Decimal \<Rightarrow> 'd WagerTransaction \<Rightarrow> bool" for D where
  new_external: "NewExternalWagerTransaction D p = Inr w \<Longrightarrow> wager_reachable D w"
| new_opening: "NewOpeningWagerTransaction D p = Inr w \<Longrightarrow> wager_reachable D w"
| step: "\<lbrakk>wager_reachable D w; wager_step D w w'\<rbrakk> \<Longrightarrow> wager_reachable D w'"

text \<open>The fields no method may change, as the database trigger lists them.\<close>

definition same_business_fields :: "'d WagerTransaction \<Rightarrow> 'd WagerTransaction \<Rightarrow> bool" where
  "same_business_fields a b \<longleftrightarrow>
     tx_id a = tx_id b \<and> tx_providerID a = tx_providerID b \<and>
     tx_externalTransactionID a = tx_externalTransactionID b \<and>
     tx_idempotencyKey a = tx_idempotencyKey b \<and> tx_payloadHash a = tx_payloadHash b \<and>
     tx_walletID a = tx_walletID b \<and> tx_playerID a = tx_playerID b \<and>
     tx_roundID a = tx_roundID b \<and> tx_gameID a = tx_gameID b \<and>
     tx_type a = tx_type b \<and> tx_amount a = tx_amount b \<and>
     tx_referenceExternalTransactionID a = tx_referenceExternalTransactionID b \<and>
     tx_createdAt a = tx_createdAt b"

text \<open>What the validation of a non-opening transaction asks, field by field.\<close>

definition external_core :: "'d Decimal \<Rightarrow> 'd WagerTransaction \<Rightarrow> bool" where
  "external_core D w \<longleftrightarrow>
     tx_id w \<noteq> 0 \<and> tx_walletID w \<noteq> 0 \<and> tx_playerID w \<noteq> 0 \<and> Type_IsExternal (tx_type w) \<and>
     Money_IsValid D (tx_amount w) \<and>
     TrimSpace (tx_providerID w) \<noteq> [] \<and> TrimSpace (tx_externalTransactionID w) \<noteq> [] \<and>
     TrimSpace (tx_idempotencyKey w) \<noteq> [] \<and> TrimSpace (tx_payloadHash w) \<noteq> [] \<and>
     TrimSpace (tx_roundID w) \<noteq> [] \<and> TrimSpace (tx_gameID w) \<noteq> [] \<and>
     validateWagerAmount D (tx_type w) (tx_amount w) = None \<and>
     validateExternalReference (tx_type w) (tx_referenceExternalTransactionID w) = None \<and>
     tx_createdAt w \<noteq> 0 \<and> tx_updatedAt w \<noteq> 0 \<and> tx_createdAt w \<le> tx_updatedAt w"

definition reference_core :: "'d WagerTransaction \<Rightarrow> bool" where
  "reference_core w \<longleftrightarrow>
     (tx_referenceTransactionID w = 0 \<and> tx_referenceTransactionType w = NoType) \<or>
     (tx_referenceTransactionID w \<noteq> 0 \<and> TrimSpace (tx_referenceExternalTransactionID w) \<noteq> [] \<and>
      isAllowedReferenceType (tx_type w) (tx_referenceTransactionType w))"

fun status_core :: "'d Decimal \<Rightarrow> WagerTransactionStatus \<Rightarrow> 'd WagerTransaction \<Rightarrow> bool" where
  "status_core D PENDING w \<longleftrightarrow>
     tx_completedAt w = None \<and> tx_balanceBefore w = None \<and> tx_balanceAfter w = None \<and>
     tx_failureCode w = [] \<and> tx_failureMessage w = []"
| "status_core D PENDING_REFERENCE w \<longleftrightarrow>
     TrimSpace (tx_referenceExternalTransactionID w) \<noteq> [] \<and> tx_referenceTransactionID w = 0 \<and>
     tx_referenceTransactionType w = NoType \<and> tx_completedAt w = None \<and> tx_balanceBefore w = None \<and> tx_balanceAfter w = None \<and>
     tx_failureCode w = [] \<and> tx_failureMessage w = []"
| "status_core D PROCESSED w \<longleftrightarrow>
     (\<exists>b a t. tx_completedAt w = Some t \<and> tx_balanceBefore w = Some b \<and> tx_balanceAfter w = Some a \<and>
        t \<noteq> 0 \<and> tx_createdAt w \<le> t \<and> t \<le> tx_updatedAt w \<and>
        tx_failureCode w = [] \<and> tx_failureMessage w = [] \<and>
        (TrimSpace (tx_referenceExternalTransactionID w) \<noteq> [] \<longrightarrow> tx_referenceTransactionID w \<noteq> 0) \<and>
        \<not> Money_IsNegative D b \<and> \<not> Money_IsNegative D a \<and>
        money_currency b = money_currency (tx_amount w) \<and>
        money_currency a = money_currency (tx_amount w) \<and>
        (tx_type w = LOSS \<longrightarrow> Money_Equal D b a))"
| "status_core D REJECTED w \<longleftrightarrow>
     (\<exists>t. tx_completedAt w = Some t \<and> t \<noteq> 0 \<and> tx_createdAt w \<le> t \<and> t \<le> tx_updatedAt w) \<and>
     tx_balanceBefore w = None \<and> tx_balanceAfter w = None \<and> TrimSpace (tx_failureCode w) \<noteq> []"
| "status_core D FAILED w \<longleftrightarrow>
     (\<exists>t. tx_completedAt w = Some t \<and> t \<noteq> 0 \<and> tx_createdAt w \<le> t \<and> t \<le> tx_updatedAt w) \<and>
     tx_balanceBefore w = None \<and> tx_balanceAfter w = None \<and> TrimSpace (tx_failureCode w) \<noteq> []"
| "status_core D (UnknownStatus s) w \<longleftrightarrow> False"

text \<open>What one step may change.\<close>

definition step_effect :: "'d WagerTransaction \<Rightarrow> 'd WagerTransaction \<Rightarrow> bool" where
  "step_effect w w' \<longleftrightarrow>
     (tx_status w = PENDING \<or> tx_status w = PENDING_REFERENCE) \<and>
     (tx_status w' = tx_status w \<or> isAllowedWagerTransition (tx_status w) (tx_status w')) \<and>
     same_business_fields w w' \<and> tx_updatedAt w \<le> tx_updatedAt w' \<and>
     (tx_referenceTransactionID w \<noteq> 0 \<longrightarrow>
        tx_referenceTransactionID w' = tx_referenceTransactionID w \<and>
        tx_referenceTransactionType w' = tx_referenceTransactionType w)"

section \<open>Lemmas\<close>

lemmas type_simps =
  Type_IsValid_def Type_IsExternal_def RequiresReference_def AllowsReference_def
  isAllowedReferenceType_def

lemma string_of_type_of_string [simp]: "string_of_type (type_of_string s) = s"
  by (simp add: type_of_string_def)

lemma Type_IsExternal_cases:
  "Type_IsExternal t \<longleftrightarrow> t = BET \<or> t = WIN \<or> t = LOSS \<or> t = REFUND \<or> t = ROLLBACK"
  by (cases t) (auto simp: type_simps)

lemma transitionTo_InrD:
  assumes "transitionTo w s t = Inr w'"
  shows "w' = w\<lparr>tx_status := s, tx_updatedAt := t\<rparr>" "\<not> IsTerminal (tx_status w)" "Status_IsValid s"
    "t \<noteq> 0" "tx_updatedAt w \<le> t" "isAllowedWagerTransition (tx_status w) s"
  using assms by (auto simp: transitionTo_def validateTimestamp_def split: if_splits)

lemma MarkPendingReference_InrD:
  assumes "MarkPendingReference w t = Inr w'"
  shows "w' = w\<lparr>tx_status := PENDING_REFERENCE, tx_updatedAt := t\<rparr>" "tx_status w = PENDING"
    "AllowsReference (tx_type w)" "TrimSpace (tx_referenceExternalTransactionID w) \<noteq> []"
    "tx_referenceTransactionID w = 0" "t \<noteq> 0" "tx_updatedAt w \<le> t"
  using assms by (auto simp: MarkPendingReference_def dest: transitionTo_InrD split: if_splits)

lemma MarkProcessed_InrD:
  assumes "MarkProcessed D w b a t = Inr w'"
  shows "w' = w\<lparr>tx_status := PROCESSED, tx_updatedAt := t, tx_balanceBefore := Some b,
                tx_balanceAfter := Some a, tx_completedAt := Some t\<rparr>"
    "tx_status w = PENDING" "validateReferenceReady w = None"
    "validateObservedBalances D w b a = None" "t \<noteq> 0" "tx_updatedAt w \<le> t"
proof -
  obtain v where v: "transitionTo w PROCESSED t = Inr v"
    using assms by (auto simp: MarkProcessed_def split: if_splits option.splits sum.splits)
  with assms show "w' = w\<lparr>tx_status := PROCESSED, tx_updatedAt := t, tx_balanceBefore := Some b,
                tx_balanceAfter := Some a, tx_completedAt := Some t\<rparr>"
    "tx_status w = PENDING" "validateReferenceReady w = None" "validateObservedBalances D w b a = None"
    by (auto simp: MarkProcessed_def transitionTo_InrD(1) [OF v] split: if_splits option.splits)
  from transitionTo_InrD [OF v] show "t \<noteq> 0" "tx_updatedAt w \<le> t" by auto
qed

lemma completeWithFailure_InrD:
  assumes "completeWithFailure w s code msg t = Inr w'"
  shows "w' = w\<lparr>tx_status := s, tx_updatedAt := t, tx_failureCode := code, tx_failureMessage := msg,
                tx_completedAt := Some t\<rparr>"
    "isAllowedWagerTransition (tx_status w) s" "tx_type w \<noteq> OPENING" "TrimSpace code \<noteq> []"
    "t \<noteq> 0" "tx_updatedAt w \<le> t"
proof -
  obtain v where v: "transitionTo w s t = Inr v"
    using assms by (auto simp: completeWithFailure_def split: if_splits sum.splits)
  with assms show "w' = w\<lparr>tx_status := s, tx_updatedAt := t, tx_failureCode := code,
      tx_failureMessage := msg, tx_completedAt := Some t\<rparr>" "tx_type w \<noteq> OPENING" "TrimSpace code \<noteq> []"
    by (auto simp: completeWithFailure_def transitionTo_InrD(1) [OF v] split: if_splits)
  from transitionTo_InrD [OF v] show "t \<noteq> 0" "tx_updatedAt w \<le> t"
    "isAllowedWagerTransition (tx_status w) s" by auto
qed

lemma ResolveReference_InrD:
  assumes "ResolveReference D w (Some r) t = Inr w'"
  shows "tx_status w = PENDING \<or> tx_status w = PENDING_REFERENCE"
    "validateReference D w (Some r) = None"
    "tx_referenceTransactionID w \<noteq> 0 \<and> w' = w \<and> tx_referenceTransactionID w = tx_id r \<and>
       tx_referenceTransactionType w = tx_type r \<or>
     tx_referenceTransactionID w = 0 \<and> t \<noteq> 0 \<and> tx_updatedAt w \<le> t \<and>
       w' = w\<lparr>tx_status := PENDING, tx_referenceTransactionID := tx_id r,
              tx_referenceTransactionType := tx_type r, tx_updatedAt := t\<rparr>"
proof -
  show s: "tx_status w = PENDING \<or> tx_status w = PENDING_REFERENCE"
    using assms by (auto simp: ResolveReference_def split: if_splits)
  show v: "validateReference D w (Some r) = None"
    using assms by (auto simp: ResolveReference_def split: if_splits option.splits)
  show "tx_referenceTransactionID w \<noteq> 0 \<and> w' = w \<and> tx_referenceTransactionID w = tx_id r \<and>
       tx_referenceTransactionType w = tx_type r \<or>
     tx_referenceTransactionID w = 0 \<and> t \<noteq> 0 \<and> tx_updatedAt w \<le> t \<and>
       w' = w\<lparr>tx_status := PENDING, tx_referenceTransactionID := tx_id r,
              tx_referenceTransactionType := tx_type r, tx_updatedAt := t\<rparr>"
    using assms s v
    by (auto simp: ResolveReference_def validateTimestamp_def split: if_splits)
qed

lemmas wager_step_InrD =
  MarkPendingReference_InrD MarkProcessed_InrD completeWithFailure_InrD

lemma transition_sources:
  "isAllowedWagerTransition s t \<Longrightarrow> s = PENDING \<or> s = PENDING_REFERENCE"
  by (auto simp: isAllowedWagerTransition_def split: WagerTransactionStatus.splits)

lemma allowed_reference_not_NoType: "isAllowedReferenceType t r \<Longrightarrow> r \<noteq> NoType \<and> Type_IsValid r"
  by (auto simp: type_simps split: WagerTransactionType.splits)

lemma persisted_reference_core:
  "validatePersistedReference (params_of w) = None \<longleftrightarrow> reference_core w"
  using allowed_reference_not_NoType [of "tx_type w" "tx_referenceTransactionType w"]
  by (auto simp: validatePersistedReference_def Let_def params_of_def reference_core_def)

lemma tx_ok_external:
  assumes "tx_type w \<noteq> OPENING"
  shows "tx_ok D w \<longleftrightarrow> external_core D w \<and> reference_core w \<and> status_core D (tx_status w) w"
proof -
  have "validateRehydratedWager D (params_of w) = None \<longleftrightarrow>
      external_core D w \<and> validatePersistedReference (params_of w) = None \<and> status_core D (tx_status w) w"
    using assms
    by (cases "tx_status w")
      (auto simp: validateRehydratedWager_def validateRehydratedExternal_def external_core_def params_of_def
        Status_IsValid_def Type_IsExternal_def validatePendingState_def validatePendingReferenceState_def
        validateProcessedState_def validateFailureState_def
        split: if_splits option.splits)
  then show ?thesis by (simp add: tx_ok_def persisted_reference_core)
qed

lemma tx_ok_opening_processed:
  assumes "tx_ok D w" "tx_type w = OPENING"
  shows "tx_status w = PROCESSED"
  using assms
  by (auto simp: tx_ok_def validateRehydratedWager_def validateRehydratedOpening_def params_of_def
      split: if_splits option.splits)

lemma tx_ok_pending_cores:
  assumes "tx_ok D w" "tx_status w = PENDING \<or> tx_status w = PENDING_REFERENCE"
  shows "tx_type w \<noteq> OPENING" "external_core D w" "reference_core w" "status_core D (tx_status w) w"
proof -
  show t: "tx_type w \<noteq> OPENING" using tx_ok_opening_processed [OF assms(1)] assms(2) by auto
  from assms(1) tx_ok_external [OF t] show "external_core D w" "reference_core w" "status_core D (tx_status w) w"
    by simp_all
qed

lemma tx_ok_createdAt: "tx_ok D w \<Longrightarrow> tx_createdAt w \<noteq> 0 \<and> tx_createdAt w \<le> tx_updatedAt w"
  by (auto simp: tx_ok_def validateRehydratedWager_def params_of_def split: if_splits)

lemma MarkPendingReference_tx_ok:
  assumes "tx_ok D w" "MarkPendingReference w t = Inr w'"
  shows "tx_ok D w'"
proof -
  note d = MarkPendingReference_InrD [OF assms(2)]
  note c = tx_ok_pending_cores [OF assms(1) disjI1 [OF d(2)]]
  show ?thesis using c d by (simp add: tx_ok_external external_core_def reference_core_def)
qed

lemma MarkProcessed_tx_ok:
  assumes "tx_ok D w" "MarkProcessed D w b a t = Inr w'"
  shows "tx_ok D w'"
proof -
  note d = MarkProcessed_InrD [OF assms(2)]
  note c = tx_ok_pending_cores [OF assms(1) disjI1 [OF d(2)]]
  have "external_core D w'" "reference_core w'" using c d by (simp_all add: external_core_def reference_core_def)
  moreover have "status_core D (tx_status w') w'"
    using c d
    by (auto simp: external_core_def validateObservedBalances_def validateReferenceReady_def Let_def
        Currency_Equal_def split: if_splits)
  ultimately show ?thesis using c(1) d(1) by (simp add: tx_ok_external)
qed

lemma completeWithFailure_tx_ok:
  assumes "tx_ok D w" "completeWithFailure w s code msg t = Inr w'" "s = REJECTED \<or> s = FAILED"
  shows "tx_ok D w'"
proof -
  note d = completeWithFailure_InrD [OF assms(2)]
  note c = tx_ok_pending_cores [OF assms(1) transition_sources [OF d(2)]]
  have p: "tx_completedAt w = None" "tx_balanceBefore w = None" "tx_balanceAfter w = None"
    using c(4) transition_sources [OF d(2)] by auto
  have "external_core D w'" "reference_core w'" using c d by (simp_all add: external_core_def reference_core_def)
  moreover have "status_core D (tx_status w') w'"
    using assms(3) p d tx_ok_createdAt [OF assms(1)] by auto
  ultimately show ?thesis using c(1) d(1) by (simp add: tx_ok_external)
qed

lemma ResolveReference_tx_ok:
  assumes "tx_ok D w" "tx_id r \<noteq> 0" "ResolveReference D w (Some r) t = Inr w'"
  shows "tx_ok D w'"
proof -
  note d = ResolveReference_InrD [OF assms(3)]
  note c = tx_ok_pending_cores [OF assms(1) d(1)]
  have v: "TrimSpace (tx_referenceExternalTransactionID w) \<noteq> []" "isAllowedReferenceType (tx_type w) (tx_type r)"
    using d(2) by (auto simp: validateReference_def split: if_splits)
  show ?thesis
  proof (cases "tx_referenceTransactionID w = 0")
    case True
    then have "external_core D w'" "reference_core w'"
      using c d v assms(2) by (auto simp: external_core_def reference_core_def)
    moreover have "status_core D (tx_status w') w'" using True d(1,3) c(4) by auto
    moreover have "tx_type w' \<noteq> OPENING" using True c(1) d(3) by auto
    ultimately show ?thesis by (simp add: tx_ok_external)
  qed (use d(3) assms(1) in auto)
qed

lemma tx_ok_id: "tx_ok D w \<Longrightarrow> tx_id w \<noteq> 0"
  by (auto simp: tx_ok_def validateRehydratedWager_def params_of_def split: if_splits)

lemma wager_step_tx_ok:
  assumes "wager_step D w w'" "tx_ok D w"
  shows "tx_ok D w'"
  using assms
  by cases (auto simp: MarkRejected_def MarkFailed_def
      intro: MarkPendingReference_tx_ok MarkProcessed_tx_ok completeWithFailure_tx_ok ResolveReference_tx_ok
      dest: tx_ok_id)

lemma NewExternal_tx_ok:
  assumes "NewExternalWagerTransaction D p = Inr w"
  shows "tx_ok D w"
proof -
  have v: "validateExternalWager D p = None"
    using assms by (auto simp: NewExternalWagerTransaction_def split: option.splits)
  then have "external_core D w" "reference_core w" "status_core D (tx_status w) w" "tx_type w \<noteq> OPENING"
    using assms
    by (auto simp: NewExternalWagerTransaction_def validateExternalWager_def external_core_def
        reference_core_def isValidIdentifier_def Type_IsExternal_def split: option.splits if_splits)
  then show ?thesis by (simp add: tx_ok_external)
qed

context decimal_pkg
begin

lemma NewOpening_InrD:
  assumes "NewOpeningWagerTransaction D p = Inr w"
  shows "op_ID p \<noteq> 0" "op_WalletID p \<noteq> 0" "op_PlayerID p \<noteq> 0" "Money_IsValid D (op_Amount p)"
    "Money_IsPositive D (op_Amount p)" "op_CreatedAt p \<noteq> 0"
    "w = \<lparr>tx_id = op_ID p, tx_providerID = [], tx_externalTransactionID = [], tx_idempotencyKey = [],
          tx_payloadHash = [], tx_walletID = op_WalletID p, tx_playerID = op_PlayerID p, tx_roundID = [],
          tx_gameID = [], tx_type = OPENING, tx_amount = op_Amount p, tx_referenceExternalTransactionID = [],
          tx_referenceTransactionID = 0, tx_referenceTransactionType = NoType, tx_status = PROCESSED,
          tx_failureCode = [], tx_failureMessage = [],
          tx_balanceBefore = Some \<lparr>money_amount = dZero D, money_currency = money_currency (op_Amount p)\<rparr>,
          tx_balanceAfter = Some (op_Amount p), tx_createdAt = op_CreatedAt p, tx_updatedAt = op_CreatedAt p,
          tx_completedAt = Some (op_CreatedAt p)\<rparr>"
  using assms
  by (simp_all add: NewOpeningWagerTransaction_def Zero_def split: if_splits)

lemma NewOpening_tx_ok:
  assumes "NewOpeningWagerTransaction D p = Inr w"
  shows "tx_ok D w"
proof -
  note d = NewOpening_InrD [OF assms]
  have z: "Zero D (money_currency (op_Amount p)) =
      Inr \<lparr>money_amount = dZero D, money_currency = money_currency (op_Amount p)\<rparr>"
    using d(4) by (simp add: Zero_def Money_IsValid_def)
  show ?thesis
    unfolding d(7)
    by (simp add: tx_ok_def validateRehydratedWager_def validateRehydratedOpening_def params_of_def d(1-6) z
        Type_IsValid_def Status_IsValid_def Money_Equal_def equal)
qed

lemma reachable_tx_ok: "wager_reachable D w \<Longrightarrow> tx_ok D w"
  by (induction rule: wager_reachable.induct)
    (auto intro: NewExternal_tx_ok NewOpening_tx_ok wager_step_tx_ok)

end

lemma Rehydrate_params_of: "RehydrateWagerTransaction D (params_of w) = Inr w \<longleftrightarrow> tx_ok D w"
  by (auto simp: RehydrateWagerTransaction_def tx_ok_def params_of_def split: option.splits)

lemma MarkPendingReference_effect:
  assumes "MarkPendingReference w t = Inr w'" shows "step_effect w w'"
  unfolding MarkPendingReference_InrD(1) [OF assms]
  using MarkPendingReference_InrD(2,7) [OF assms]
  by (simp add: step_effect_def same_business_fields_def isAllowedWagerTransition_def)

lemma MarkProcessed_effect:
  assumes "MarkProcessed D w b a t = Inr w'" shows "step_effect w w'"
  unfolding MarkProcessed_InrD(1) [OF assms]
  using MarkProcessed_InrD(2,6) [OF assms]
  by (simp add: step_effect_def same_business_fields_def isAllowedWagerTransition_def)

lemma completeWithFailure_effect:
  assumes "completeWithFailure w s code msg t = Inr w'" shows "step_effect w w'"
  unfolding completeWithFailure_InrD(1) [OF assms]
  using completeWithFailure_InrD(2,6) [OF assms] transition_sources [OF completeWithFailure_InrD(2) [OF assms]]
  by (simp add: step_effect_def same_business_fields_def)

lemma ResolveReference_effect:
  assumes "ResolveReference D w (Some r) t = Inr w'" shows "step_effect w w'"
  using ResolveReference_InrD(1,3) [OF assms]
  by (elim disjE conjE)
    (simp_all add: step_effect_def same_business_fields_def isAllowedWagerTransition_def)

lemma wager_step_effect: "wager_step D w w' \<Longrightarrow> step_effect w w'"
  by (erule wager_step.cases)
    (simp_all add: MarkRejected_def MarkFailed_def MarkPendingReference_effect MarkProcessed_effect
      completeWithFailure_effect ResolveReference_effect)

lemma same_business_trans:
  "\<lbrakk>same_business_fields a b; same_business_fields b c\<rbrakk> \<Longrightarrow> same_business_fields a c"
  by (simp add: same_business_fields_def)

lemma same_business_refl [simp]: "same_business_fields a a"
  by (simp add: same_business_fields_def)

end
