(* ===== verification/Database.thy ===== *)
theory Database
  imports Wager_Transaction
begin

text \<open>
  The PostgreSQL schema of \<^verbatim>\<open>migrations/\<close> as the repositories of
  \<^verbatim>\<open>internal/infrastructure/postgres\<close> see it: one record of columns per table, \<open>NULL\<close> as \<open>None\<close>,
  a \<^verbatim>\<open>NUMERIC(20, 2)\<close> as its hundredths, the constraints by name, and the statements that insert
  and update rows with the error PostgreSQL reports when a trigger, a check, a unique index or a
  foreign key refuses them. Rows are kept in the order of insertion.

  Instants written to the database come from its own clock, which counts microseconds, plus delays
  of whole seconds, so that the microsecond resolution of \<^verbatim>\<open>TIMESTAMPTZ\<close> keeps them.
\<close>

section \<open>Values\<close>

text \<open>A JSON value; \<^verbatim>\<open>JSONB\<close> columns hold one.\<close>

datatype json = JString string | JInt int | JNull | JArray "json list" | JObject "(string \<times> json) list"

text \<open>\<^verbatim>\<open>BTRIM\<close> removes blanks only.\<close>

definition btrim :: "string \<Rightarrow> string" where
  "btrim s = rev (dropWhile (\<lambda>c. c = CHR '' '') (rev (dropWhile (\<lambda>c. c = CHR '' '') s)))"

text \<open>
  The bytes PostgreSQL accepts in a text value of a UTF-8 database: well-formed UTF-8 without the
  byte zero.
\<close>

definition cont_byte :: "nat \<Rightarrow> bool" where
  "cont_byte b \<longleftrightarrow> 128 \<le> b \<and> b \<le> 191"

fun utf8_valid :: "nat list \<Rightarrow> bool" where
  "utf8_valid [] = True"
| "utf8_valid (a # s) =
     (if a < 128 then utf8_valid s
      else case s of
             b # s2 \<Rightarrow>
               if 194 \<le> a \<and> a \<le> 223 then cont_byte b \<and> utf8_valid s2
               else (case s2 of
                       c # s3 \<Rightarrow>
                         if 224 \<le> a \<and> a \<le> 239
                         then cont_byte b \<and> cont_byte c \<and> (a = 224 \<longrightarrow> 160 \<le> b) \<and> (a = 237 \<longrightarrow> b \<le> 159) \<and>
                              utf8_valid s3
                         else (case s3 of
                                 d # s4 \<Rightarrow>
                                   240 \<le> a \<and> a \<le> 244 \<and> cont_byte b \<and> cont_byte c \<and> cont_byte d \<and>
                                   (a = 240 \<longrightarrow> 144 \<le> b) \<and> (a = 244 \<longrightarrow> b \<le> 143) \<and> utf8_valid s4
                               | [] \<Rightarrow> False)
                     | [] \<Rightarrow> False)
           | [] \<Rightarrow> False)"

definition pg_text_ok :: "string \<Rightarrow> bool" where
  "pg_text_ok s \<longleftrightarrow> list_all (\<lambda>c. c \<noteq> CHR 0x00) s \<and> utf8_valid (map of_char s)"

definition pg_texts_ok :: "string option list \<Rightarrow> bool" where
  "pg_texts_ok xs = list_all (\<lambda>x. case x of None \<Rightarrow> True | Some s \<Rightarrow> pg_text_ok s) xs"

text \<open>
  The cast \<^verbatim>\<open>$n::text::numeric\<close> of the fixed-point texts with two places that
  \<^verbatim>\<open>Money.Amount()\<close> prints, as hundredths.
\<close>

definition numeric_in :: "string \<Rightarrow> int option" where
  "numeric_in s =
     (let negative = HasPrefix s ''-'';
          body = (if negative then tl s else s);
          n = length body - 3;
          ip = take n body;
          fp = drop (Suc n) body
      in if 4 \<le> length body \<and> list_all is_digit ip \<and> body ! n = CHR ''.'' \<and> list_all is_digit fp
         then Some ((if negative then - 1 else 1) * int (digits_val 0 (ip @ fp)))
         else None)"

text \<open>A column \<^verbatim>\<open>NUMERIC(20, 2)\<close> holds at most 18 digits before the point.\<close>

definition numeric_20_2 :: "int \<Rightarrow> bool" where
  "numeric_20_2 n \<longleftrightarrow> \<bar>n\<bar> \<le> max_cents"

section \<open>Tables\<close>

record wallet_row =
  wr_id :: uuid
  wr_player_id :: uuid
  wr_currency :: string
  wr_balance :: int
  wr_version :: int
  wr_created_at :: time
  wr_updated_at :: time

record wager_row =
  wg_id :: uuid
  wg_provider_id :: "string option"
  wg_external_transaction_id :: "string option"
  wg_idempotency_key :: "string option"
  wg_payload_hash :: "string option"
  wg_wallet_id :: uuid
  wg_player_id :: uuid
  wg_round_id :: "string option"
  wg_game_id :: "string option"
  wg_type :: WagerTransactionType
  wg_amount :: int
  wg_currency :: string
  wg_reference_external_transaction_id :: "string option"
  wg_reference_transaction_id :: "uuid option"
  wg_reference_transaction_type :: "WagerTransactionType option"
  wg_status :: WagerTransactionStatus
  wg_failure_code :: "string option"
  wg_failure_message :: "string option"
  wg_balance_before :: "int option"
  wg_balance_after :: "int option"
  wg_next_reference_attempt_at :: "time option"
  wg_reference_expires_at :: "time option"
  wg_created_at :: time
  wg_updated_at :: time
  wg_completed_at :: "time option"
  wg_reference_retry_count :: int
  wg_reference_correlation_id :: "string option"
  wg_reference_causation_id :: "string option"

record ledger_row =
  lr_id :: uuid
  lr_wallet_id :: uuid
  lr_transaction_id :: uuid
  lr_direction :: WalletLedgerDirection
  lr_amount :: int
  lr_currency :: string
  lr_balance_before :: int
  lr_balance_after :: int
  lr_created_at :: time

record inbox_row =
  ib_consumer_name :: string
  ib_message_id :: string
  ib_message_hash :: string
  ib_received_at :: time
  ib_completed_at :: "time option"

record outbox_row =
  ob_event_id :: uuid
  ob_event_type :: string
  ob_aggregate_id :: uuid
  ob_correlation_id :: string
  ob_causation_id :: "string option"
  ob_version :: int
  ob_payload :: json
  ob_occurred_at :: time
  ob_attempts :: int
  ob_next_attempt_at :: time
  ob_claimed_by :: "string option"
  ob_claimed_until :: "time option"
  ob_published_at :: "time option"
  ob_created_at :: time

record DB =
  wallets :: "wallet_row list"
  wagers :: "wager_row list"
  ledger :: "ledger_row list"
  inbox :: "inbox_row list"
  outbox :: "outbox_row list"

definition empty_db :: DB where
  "empty_db = \<lparr>wallets = [], wagers = [], ledger = [], inbox = [], outbox = []\<rparr>"

section \<open>Constraints\<close>

text \<open>
  The checks of a table by name, in the alphabetical order in which PostgreSQL evaluates them. A
  check whose value is unknown because of a \<open>NULL\<close> holds.
\<close>

definition not_blank :: "string option \<Rightarrow> bool" where
  "not_blank x = (case x of None \<Rightarrow> False | Some s \<Rightarrow> btrim s \<noteq> [])"

definition null_or :: "('a \<Rightarrow> bool) \<Rightarrow> 'a option \<Rightarrow> bool" where
  "null_or p x = (case x of None \<Rightarrow> True | Some v \<Rightarrow> p v)"

definition wallet_checks :: "(string \<times> (wallet_row \<Rightarrow> bool)) list" where
  "wallet_checks =
     [(''chk_wallets_balance_non_negative'', \<lambda>r. 0 \<le> wr_balance r),
      (''chk_wallets_currency'', \<lambda>r. currencyCodePattern (wr_currency r)),
      (''chk_wallets_timestamps'', \<lambda>r. wr_created_at r \<le> wr_updated_at r),
      (''chk_wallets_version_positive'', \<lambda>r. 1 \<le> wr_version r)]"

definition chk_origin :: "wager_row \<Rightarrow> bool" where
  "chk_origin r =
     (if wg_type r = OPENING
      then wg_provider_id r = None \<and> wg_external_transaction_id r = None \<and>
           wg_idempotency_key r = None \<and> wg_payload_hash r = None \<and>
           wg_round_id r = None \<and> wg_game_id r = None \<and>
           wg_reference_external_transaction_id r = None \<and>
           wg_reference_transaction_id r = None \<and> wg_reference_transaction_type r = None \<and>
           wg_status r = PROCESSED
      else not_blank (wg_provider_id r) \<and> not_blank (wg_external_transaction_id r) \<and>
           not_blank (wg_idempotency_key r) \<and> not_blank (wg_payload_hash r) \<and>
           not_blank (wg_round_id r) \<and> not_blank (wg_game_id r))"

definition chk_pending_reference :: "wager_row \<Rightarrow> bool" where
  "chk_pending_reference r \<longleftrightarrow>
     wg_status r \<noteq> PENDING_REFERENCE \<or>
     (wg_reference_external_transaction_id r \<noteq> None \<and> wg_reference_transaction_id r = None \<and>
      wg_reference_transaction_type r = None \<and> wg_next_reference_attempt_at r \<noteq> None \<and>
      wg_reference_expires_at r \<noteq> None)"

definition chk_processed_reference :: "wager_row \<Rightarrow> bool" where
  "chk_processed_reference r \<longleftrightarrow>
     wg_status r \<noteq> PROCESSED \<or> wg_type r \<in> {OPENING, BET, LOSS} \<or>
     (wg_type r = WIN \<and>
      (wg_reference_external_transaction_id r = None \<or> wg_reference_transaction_id r \<noteq> None)) \<or>
     (wg_type r \<in> {REFUND, ROLLBACK} \<and> wg_reference_transaction_id r \<noteq> None)"

definition chk_processed_result :: "wager_row \<Rightarrow> bool" where
  "chk_processed_result r \<longleftrightarrow>
     wg_status r \<noteq> PROCESSED \<or>
     (if wg_type r = ROLLBACK \<and>
         wg_reference_transaction_type r \<notin> {Some BET, Some WIN, Some REFUND} then False
      else case (wg_balance_before r, wg_balance_after r) of
             (Some before, Some after) \<Rightarrow>
               (case wg_type r of
                  OPENING \<Rightarrow> before = 0 \<and> after = wg_amount r
                | BET \<Rightarrow> after = before - wg_amount r
                | WIN \<Rightarrow> after = before + wg_amount r
                | LOSS \<Rightarrow> after = before
                | REFUND \<Rightarrow> after = before + wg_amount r
                | ROLLBACK \<Rightarrow>
                    (if wg_reference_transaction_type r = Some BET then after = before + wg_amount r
                     else after = before - wg_amount r)
                | UnknownType s \<Rightarrow> False)
           | _ \<Rightarrow> True)"

definition chk_reference_by_type :: "wager_row \<Rightarrow> bool" where
  "chk_reference_by_type r \<longleftrightarrow>
     (wg_type r \<in> {OPENING, BET, LOSS} \<and> wg_reference_external_transaction_id r = None \<and>
      wg_reference_transaction_id r = None \<and> wg_reference_transaction_type r = None) \<or>
     (wg_type r = WIN \<and> wg_reference_transaction_type r \<in> {None, Some BET}) \<or>
     (wg_type r = REFUND \<and> wg_reference_external_transaction_id r \<noteq> None \<and>
      wg_reference_transaction_type r \<in> {None, Some BET}) \<or>
     (wg_type r = ROLLBACK \<and> wg_reference_external_transaction_id r \<noteq> None \<and>
      wg_reference_transaction_type r \<in> {None, Some BET, Some WIN, Some REFUND})"

definition chk_reference_pair :: "wager_row \<Rightarrow> bool" where
  "chk_reference_pair r \<longleftrightarrow>
     (wg_reference_transaction_id r = None \<and> wg_reference_transaction_type r = None) \<or>
     (wg_reference_transaction_id r \<noteq> None \<and> wg_reference_transaction_type r \<noteq> None \<and>
      wg_reference_external_transaction_id r \<noteq> None)"

definition chk_status_fields :: "wager_row \<Rightarrow> bool" where
  "chk_status_fields r \<longleftrightarrow>
     (wg_status r \<in> {PENDING, PENDING_REFERENCE} \<and> wg_completed_at r = None \<and>
      wg_balance_before r = None \<and> wg_balance_after r = None \<and>
      wg_failure_code r = None \<and> wg_failure_message r = None) \<or>
     (wg_status r = PROCESSED \<and> wg_completed_at r \<noteq> None \<and>
      wg_balance_before r \<noteq> None \<and> wg_balance_after r \<noteq> None \<and>
      wg_failure_code r = None \<and> wg_failure_message r = None) \<or>
     (wg_status r \<in> {REJECTED, FAILED} \<and> wg_completed_at r \<noteq> None \<and>
      wg_balance_before r = None \<and> wg_balance_after r = None \<and> not_blank (wg_failure_code r))"

definition chk_wager_timestamps :: "wager_row \<Rightarrow> bool" where
  "chk_wager_timestamps r \<longleftrightarrow>
     wg_created_at r \<le> wg_updated_at r \<and>
     null_or (\<lambda>c. wg_created_at r \<le> c \<and> c \<le> wg_updated_at r) (wg_completed_at r)"

definition wager_checks :: "(string \<times> (wager_row \<Rightarrow> bool)) list" where
  "wager_checks =
     [(''chk_wager_transactions_amount'',
         \<lambda>r. if wg_type r = LOSS then wg_amount r = 0 else 0 < wg_amount r),
      (''chk_wager_transactions_balances'',
         \<lambda>r. null_or (\<lambda>b. 0 \<le> b) (wg_balance_before r) \<and> null_or (\<lambda>b. 0 \<le> b) (wg_balance_after r)),
      (''chk_wager_transactions_currency'', \<lambda>r. currencyCodePattern (wg_currency r)),
      (''chk_wager_transactions_origin'', chk_origin),
      (''chk_wager_transactions_pending_reference'', chk_pending_reference),
      (''chk_wager_transactions_processed_reference'', chk_processed_reference),
      (''chk_wager_transactions_processed_result'', chk_processed_result),
      (''chk_wager_transactions_reference_by_type'', chk_reference_by_type),
      (''chk_wager_transactions_reference_causation_id'',
         \<lambda>r. null_or (\<lambda>s. btrim s \<noteq> []) (wg_reference_causation_id r)),
      (''chk_wager_transactions_reference_correlation_id'',
         \<lambda>r. null_or (\<lambda>s. btrim s \<noteq> []) (wg_reference_correlation_id r)),
      (''chk_wager_transactions_reference_expiration'',
         \<lambda>r. null_or (\<lambda>t. wg_created_at r \<le> t) (wg_reference_expires_at r)),
      (''chk_wager_transactions_reference_external_not_blank'',
         \<lambda>r. null_or (\<lambda>s. btrim s \<noteq> []) (wg_reference_external_transaction_id r)),
      (''chk_wager_transactions_reference_pair'', chk_reference_pair),
      (''chk_wager_transactions_reference_retry_count'', \<lambda>r. 0 \<le> wg_reference_retry_count r),
      (''chk_wager_transactions_reference_retry_window'',
         \<lambda>r. null_or (\<lambda>n. null_or (\<lambda>e. n \<le> e) (wg_reference_expires_at r)) (wg_next_reference_attempt_at r)),
      (''chk_wager_transactions_status_fields'', chk_status_fields),
      (''chk_wager_transactions_timestamps'', chk_wager_timestamps)]"

definition ledger_checks :: "(string \<times> (ledger_row \<Rightarrow> bool)) list" where
  "ledger_checks =
     [(''chk_wallet_ledger_amount_positive'', \<lambda>r. 0 < lr_amount r),
      (''chk_wallet_ledger_balances_non_negative'', \<lambda>r. 0 \<le> lr_balance_before r \<and> 0 \<le> lr_balance_after r),
      (''chk_wallet_ledger_currency'', \<lambda>r. currencyCodePattern (lr_currency r)),
      (''chk_wallet_ledger_transition'',
         \<lambda>r. (lr_direction r = DEBIT \<and> lr_balance_after r = lr_balance_before r - lr_amount r) \<or>
             (lr_direction r = CREDIT \<and> lr_balance_after r = lr_balance_before r + lr_amount r))]"

definition inbox_checks :: "(string \<times> (inbox_row \<Rightarrow> bool)) list" where
  "inbox_checks =
     [(''chk_inbox_messages_consumer_name'', \<lambda>r. btrim (ib_consumer_name r) \<noteq> []),
      (''chk_inbox_messages_message_hash'', \<lambda>r. btrim (ib_message_hash r) \<noteq> []),
      (''chk_inbox_messages_message_id'', \<lambda>r. btrim (ib_message_id r) \<noteq> []),
      (''chk_inbox_messages_timestamps'', \<lambda>r. null_or (\<lambda>c. ib_received_at r \<le> c) (ib_completed_at r))]"

definition outbox_checks :: "(string \<times> (outbox_row \<Rightarrow> bool)) list" where
  "outbox_checks =
     [(''chk_outbox_events_attempts'', \<lambda>r. 0 \<le> ob_attempts r),
      (''chk_outbox_events_causation_id'', \<lambda>r. null_or (\<lambda>s. btrim s \<noteq> []) (ob_causation_id r)),
      (''chk_outbox_events_claim'',
         \<lambda>r. (ob_claimed_by r = None \<and> ob_claimed_until r = None) \<or>
             (not_blank (ob_claimed_by r) \<and> ob_claimed_until r \<noteq> None)),
      (''chk_outbox_events_correlation_id'', \<lambda>r. btrim (ob_correlation_id r) \<noteq> []),
      (''chk_outbox_events_event_type'', \<lambda>r. btrim (ob_event_type r) \<noteq> []),
      (''chk_outbox_events_published_at'', \<lambda>r. null_or (\<lambda>p. ob_occurred_at r \<le> p) (ob_published_at r)),
      (''chk_outbox_events_version'', \<lambda>r. 1 \<le> ob_version r)]"

text \<open>Unique indexes: the keys of the rows an index covers are distinct.\<close>

definition unique_index :: "('r \<Rightarrow> bool) \<Rightarrow> ('r \<Rightarrow> 'k) \<Rightarrow> 'r list \<Rightarrow> bool" where
  "unique_index covered key rows = distinct (map key (filter covered rows))"

definition wallet_indexes :: "(string \<times> (wallet_row list \<Rightarrow> bool)) list" where
  "wallet_indexes =
     [(''pk_wallets'', unique_index (\<lambda>r. True) wr_id),
      (''uq_wallets_player_currency'', unique_index (\<lambda>r. True) (\<lambda>r. (wr_player_id r, wr_currency r)))]"

definition is_reversal :: "wager_row \<Rightarrow> bool" where
  "is_reversal r \<longleftrightarrow> wg_status r = PROCESSED \<and> wg_type r \<in> {REFUND, ROLLBACK}"

definition wager_indexes :: "(string \<times> (wager_row list \<Rightarrow> bool)) list" where
  "wager_indexes =
     [(''pk_wager_transactions'', unique_index (\<lambda>r. True) wg_id),
      (''uq_wager_transactions_provider_external'',
         unique_index (\<lambda>r. wg_type r \<noteq> OPENING \<and> wg_provider_id r \<noteq> None \<and> wg_external_transaction_id r \<noteq> None)
           (\<lambda>r. (wg_provider_id r, wg_external_transaction_id r))),
      (''uq_wager_transactions_provider_idempotency'',
         unique_index (\<lambda>r. wg_type r \<noteq> OPENING \<and> wg_provider_id r \<noteq> None \<and> wg_idempotency_key r \<noteq> None)
           (\<lambda>r. (wg_provider_id r, wg_idempotency_key r))),
      (''uq_wager_transactions_opening_wallet'', unique_index (\<lambda>r. wg_type r = OPENING) wg_wallet_id),
      (''uq_wager_transactions_successful_reversal'',
         unique_index (\<lambda>r. is_reversal r \<and> wg_reference_transaction_id r \<noteq> None) wg_reference_transaction_id)]"

definition ledger_indexes :: "(string \<times> (ledger_row list \<Rightarrow> bool)) list" where
  "ledger_indexes =
     [(''pk_wallet_ledger_entries'', unique_index (\<lambda>r. True) lr_id),
      (''uq_wallet_ledger_wallet_transaction'',
         unique_index (\<lambda>r. True) (\<lambda>r. (lr_wallet_id r, lr_transaction_id r)))]"

definition inbox_indexes :: "(string \<times> (inbox_row list \<Rightarrow> bool)) list" where
  "inbox_indexes = [(''pk_inbox_messages'', unique_index (\<lambda>r. True) (\<lambda>r. (ib_consumer_name r, ib_message_id r)))]"

definition outbox_indexes :: "(string \<times> (outbox_row list \<Rightarrow> bool)) list" where
  "outbox_indexes = [(''pk_outbox_events'', unique_index (\<lambda>r. True) ob_event_id)]"

text \<open>Foreign keys.\<close>

definition fk_wager_wallet :: "DB \<Rightarrow> wager_row \<Rightarrow> bool" where
  "fk_wager_wallet db r = list_ex (\<lambda>w. wr_id w = wg_wallet_id r \<and> wr_currency w = wg_currency r) (wallets db)"

definition fk_wager_reference :: "wager_row list \<Rightarrow> wager_row \<Rightarrow> bool" where
  "fk_wager_reference rows r =
     (case (wg_reference_transaction_id r, wg_reference_transaction_type r) of
        (Some i, Some t) \<Rightarrow> list_ex (\<lambda>x. wg_id x = i \<and> wg_type x = t) rows
      | _ \<Rightarrow> True)"

definition fk_ledger_wallet :: "DB \<Rightarrow> ledger_row \<Rightarrow> bool" where
  "fk_ledger_wallet db r = list_ex (\<lambda>w. wr_id w = lr_wallet_id r \<and> wr_currency w = lr_currency r) (wallets db)"

definition fk_ledger_transaction :: "DB \<Rightarrow> ledger_row \<Rightarrow> bool" where
  "fk_ledger_transaction db r =
     list_ex (\<lambda>t. wg_id t = lr_transaction_id r \<and> wg_wallet_id t = lr_wallet_id r \<and>
                  wg_currency t = lr_currency r) (wagers db)"

section \<open>Statements\<close>

definition first_failing :: "(string \<times> ('r \<Rightarrow> bool)) list \<Rightarrow> 'r \<Rightarrow> string option" where
  "first_failing cs r = map_option fst (find (\<lambda>c. \<not> snd c r) cs)"

definition invalid_text :: infra_error where
  "invalid_text = PgError ''22021'' []"

text \<open>
  The values of a row that the column types refuse before any constraint is looked at: a label
  that is not of the enumeration, a text with a byte that is not allowed, a text too long for
  \<^verbatim>\<open>VARCHAR(3)\<close>, a number too large.
\<close>

definition wager_values :: "wager_row \<Rightarrow> infra_error option" where
  "wager_values r =
     (if \<not> Type_IsValid (wg_type r) \<or> \<not> null_or Type_IsValid (wg_reference_transaction_type r) \<or>
         \<not> Status_IsValid (wg_status r)
      then Some (PgError ''22P02'' [])
      else if \<not> pg_texts_ok [wg_provider_id r, wg_external_transaction_id r, wg_idempotency_key r,
                wg_payload_hash r, wg_round_id r, wg_game_id r, Some (wg_currency r),
                wg_reference_external_transaction_id r, wg_failure_code r, wg_failure_message r,
                wg_reference_correlation_id r, wg_reference_causation_id r]
      then Some invalid_text
      else if 3 < length (wg_currency r) then Some (PgError ''22001'' [])
      else if \<not> numeric_20_2 (wg_amount r) \<or> \<not> null_or numeric_20_2 (wg_balance_before r) \<or>
              \<not> null_or numeric_20_2 (wg_balance_after r)
      then Some (PgError ''22003'' [])
      else None)"

definition wallet_values :: "wallet_row \<Rightarrow> infra_error option" where
  "wallet_values r =
     (if \<not> pg_text_ok (wr_currency r) then Some invalid_text
      else if 3 < length (wr_currency r) then Some (PgError ''22001'' [])
      else if \<not> numeric_20_2 (wr_balance r) \<or> \<not> in_int64 (wr_version r) then Some (PgError ''22003'' [])
      else None)"

definition ledger_values :: "ledger_row \<Rightarrow> infra_error option" where
  "ledger_values r =
     (if \<not> Direction_IsValid (lr_direction r) then Some (PgError ''22P02'' [])
      else if \<not> pg_text_ok (lr_currency r) then Some invalid_text
      else if 3 < length (lr_currency r) then Some (PgError ''22001'' [])
      else if \<not> numeric_20_2 (lr_amount r) \<or> \<not> numeric_20_2 (lr_balance_before r) \<or>
              \<not> numeric_20_2 (lr_balance_after r)
      then Some (PgError ''22003'' [])
      else None)"

text \<open>\<^verbatim>\<open>JSONB\<close> refuses the escape of the byte zero in a string.\<close>

fun jsonb_ok :: "json \<Rightarrow> bool" where
  "jsonb_ok (JString s) = list_all (\<lambda>c. c \<noteq> CHR 0x00) s"
| "jsonb_ok (JInt i) = True"
| "jsonb_ok JNull = True"
| "jsonb_ok (JArray xs) = list_all jsonb_ok xs"
| "jsonb_ok (JObject fs) = list_all (\<lambda>f. jsonb_ok (snd f)) fs"

definition outbox_values :: "outbox_row \<Rightarrow> infra_error option" where
  "outbox_values r =
     (if \<not> pg_texts_ok [Some (ob_event_type r), Some (ob_correlation_id r), ob_causation_id r, ob_claimed_by r]
      then Some invalid_text
      else if \<not> jsonb_ok (ob_payload r) then Some (PgError ''22P05'' [])
      else None)"

definition inbox_values :: "inbox_row \<Rightarrow> infra_error option" where
  "inbox_values r =
     (if \<not> pg_texts_ok [Some (ib_consumer_name r), Some (ib_message_id r), Some (ib_message_hash r)]
      then Some invalid_text else None)"

text \<open>
  \<^verbatim>\<open>INSERT\<close>: values, checks, unique indexes, foreign keys. With \<^verbatim>\<open>ON CONFLICT DO NOTHING\<close> a
  duplicate key inserts nothing and is no error; the result is the number of rows inserted.
\<close>

definition sql_insert ::
  "bool \<Rightarrow> ('r \<Rightarrow> infra_error option) \<Rightarrow> (string \<times> ('r \<Rightarrow> bool)) list \<Rightarrow>
   (string \<times> ('r list \<Rightarrow> bool)) list \<Rightarrow> (string \<times> ('r list \<Rightarrow> 'r \<Rightarrow> bool)) list \<Rightarrow>
   'r \<Rightarrow> 'r list \<Rightarrow> infra_error + nat \<times> 'r list" where
  "sql_insert on_conflict_do_nothing vals checks indexes fks r rows =
     (case vals r of
        Some e \<Rightarrow> Inl e
      | None \<Rightarrow>
     (case first_failing checks r of
        Some c \<Rightarrow> Inl (PgError ''23514'' c)
      | None \<Rightarrow>
     (case first_failing indexes (rows @ [r]) of
        Some c \<Rightarrow> if on_conflict_do_nothing then Inr (0, rows) else Inl (PgError ''23505'' c)
      | None \<Rightarrow>
     (case find (\<lambda>k. \<not> snd k (rows @ [r]) r) fks of
        Some (c, _) \<Rightarrow> Inl (PgError ''23503'' c)
      | None \<Rightarrow> Inr (1, rows @ [r])))))"

definition row_refused ::
  "('r \<Rightarrow> infra_error option) \<Rightarrow> ('r \<Rightarrow> 'r \<Rightarrow> infra_error option) \<Rightarrow> (string \<times> ('r \<Rightarrow> bool)) list \<Rightarrow>
   'r \<Rightarrow> 'r \<Rightarrow> infra_error option" where
  "row_refused vals trigger checks old new =
     (case vals new of
        Some e \<Rightarrow> Some e
      | None \<Rightarrow>
     (case trigger old new of
        Some e \<Rightarrow> Some e
      | None \<Rightarrow> map_option (PgError ''23514'') (first_failing checks new)))"

text \<open>
  \<^verbatim>\<open>UPDATE\<close>: the rows \<open>matching\<close> selects are replaced, after the trigger, the checks, the
  indexes and the foreign keys accepted the new rows; the result is the number of rows updated.
\<close>

definition sql_update ::
  "('r \<Rightarrow> bool) \<Rightarrow> ('r \<Rightarrow> 'r) \<Rightarrow> ('r \<Rightarrow> infra_error option) \<Rightarrow> ('r \<Rightarrow> 'r \<Rightarrow> infra_error option) \<Rightarrow>
   (string \<times> ('r \<Rightarrow> bool)) list \<Rightarrow> (string \<times> ('r list \<Rightarrow> bool)) list \<Rightarrow>
   (string \<times> ('r list \<Rightarrow> 'r \<Rightarrow> bool)) list \<Rightarrow> 'r list \<Rightarrow> infra_error + nat \<times> 'r list" where
  "sql_update matching assign vals trigger checks indexes fks rows =
     (let old = filter matching rows;
          rows' = map (\<lambda>r. if matching r then assign r else r) rows;
          refused = (\<lambda>r. row_refused vals trigger checks r (assign r))
      in case find (\<lambda>r. refused r \<noteq> None) old of
           Some r \<Rightarrow> Inl (the (refused r))
         | None \<Rightarrow>
        (case first_failing indexes rows' of
           Some c \<Rightarrow> Inl (PgError ''23505'' c)
         | None \<Rightarrow>
        (case find (\<lambda>k. list_ex (\<lambda>r. \<not> snd k rows' (assign r)) old) fks of
           Some (c, _) \<Rightarrow> Inl (PgError ''23503'' c)
         | None \<Rightarrow> Inr (length old, rows'))))"

section \<open>Triggers\<close>

definition integrity_violation :: infra_error where
  "integrity_violation = PgError ''23000'' []"

definition prevent_wager_transaction_mutation :: "wager_row \<Rightarrow> wager_row \<Rightarrow> infra_error option" where
  "prevent_wager_transaction_mutation old new =
     (if IsTerminal (wg_status old) then Some integrity_violation
      else if wg_id new \<noteq> wg_id old \<or> wg_provider_id new \<noteq> wg_provider_id old \<or>
              wg_external_transaction_id new \<noteq> wg_external_transaction_id old \<or>
              wg_idempotency_key new \<noteq> wg_idempotency_key old \<or>
              wg_payload_hash new \<noteq> wg_payload_hash old \<or>
              wg_wallet_id new \<noteq> wg_wallet_id old \<or> wg_player_id new \<noteq> wg_player_id old \<or>
              wg_round_id new \<noteq> wg_round_id old \<or> wg_game_id new \<noteq> wg_game_id old \<or>
              wg_type new \<noteq> wg_type old \<or> wg_amount new \<noteq> wg_amount old \<or>
              wg_currency new \<noteq> wg_currency old \<or>
              wg_reference_external_transaction_id new \<noteq> wg_reference_external_transaction_id old \<or>
              wg_created_at new \<noteq> wg_created_at old
      then Some integrity_violation
      else None)"

definition enforce_wallet_update_rules :: "wallet_row \<Rightarrow> wallet_row \<Rightarrow> infra_error option" where
  "enforce_wallet_update_rules old new =
     (if wr_id new \<noteq> wr_id old \<or> wr_player_id new \<noteq> wr_player_id old \<or>
         wr_currency new \<noteq> wr_currency old \<or> wr_created_at new \<noteq> wr_created_at old
      then Some integrity_violation
      else if wr_balance new \<noteq> wr_balance old
      then (if wr_version new \<noteq> wr_version old + 1 then Some integrity_violation else None)
      else if wr_version new \<noteq> wr_version old then Some integrity_violation
      else None)"

definition prevent_outbox_payload_mutation :: "outbox_row \<Rightarrow> outbox_row \<Rightarrow> infra_error option" where
  "prevent_outbox_payload_mutation old new =
     (if ob_event_id new \<noteq> ob_event_id old \<or> ob_event_type new \<noteq> ob_event_type old \<or>
         ob_aggregate_id new \<noteq> ob_aggregate_id old \<or> ob_correlation_id new \<noteq> ob_correlation_id old \<or>
         ob_causation_id new \<noteq> ob_causation_id old \<or> ob_version new \<noteq> ob_version old \<or>
         ob_payload new \<noteq> ob_payload old \<or> ob_occurred_at new \<noteq> ob_occurred_at old
      then Some (PgError ''P0001'' []) else None)"

section \<open>The statements on each table\<close>

definition wager_fks :: "DB \<Rightarrow> (string \<times> (wager_row list \<Rightarrow> wager_row \<Rightarrow> bool)) list" where
  "wager_fks db =
     [(''fk_wager_transactions_reference'', fk_wager_reference),
      (''fk_wager_transactions_wallet_currency'', \<lambda>rows. fk_wager_wallet db)]"

definition ledger_fks :: "DB \<Rightarrow> (string \<times> (ledger_row list \<Rightarrow> ledger_row \<Rightarrow> bool)) list" where
  "ledger_fks db =
     [(''fk_wallet_ledger_transaction'', \<lambda>rows. fk_ledger_transaction db),
      (''fk_wallet_ledger_wallet_currency'', \<lambda>rows. fk_ledger_wallet db)]"

definition insert_wallet :: "wallet_row \<Rightarrow> DB \<Rightarrow> infra_error + nat \<times> DB" where
  "insert_wallet r db =
     map_sum id (apsnd (\<lambda>rows. db\<lparr>wallets := rows\<rparr>))
       (sql_insert False wallet_values wallet_checks wallet_indexes [] r (wallets db))"

definition update_wallets ::
  "(wallet_row \<Rightarrow> bool) \<Rightarrow> (wallet_row \<Rightarrow> wallet_row) \<Rightarrow> DB \<Rightarrow> infra_error + nat \<times> DB" where
  "update_wallets matching assign db =
     map_sum id (apsnd (\<lambda>rows. db\<lparr>wallets := rows\<rparr>))
       (sql_update matching assign wallet_values enforce_wallet_update_rules
          wallet_checks wallet_indexes [] (wallets db))"

definition insert_wager :: "wager_row \<Rightarrow> DB \<Rightarrow> infra_error + nat \<times> DB" where
  "insert_wager r db =
     map_sum id (apsnd (\<lambda>rows. db\<lparr>wagers := rows\<rparr>))
       (sql_insert True wager_values wager_checks wager_indexes (wager_fks db) r (wagers db))"

definition update_wagers ::
  "(wager_row \<Rightarrow> bool) \<Rightarrow> (wager_row \<Rightarrow> wager_row) \<Rightarrow> DB \<Rightarrow> infra_error + nat \<times> DB" where
  "update_wagers matching assign db =
     map_sum id (apsnd (\<lambda>rows. db\<lparr>wagers := rows\<rparr>))
       (sql_update matching assign wager_values prevent_wager_transaction_mutation
          wager_checks wager_indexes (wager_fks db) (wagers db))"

definition insert_ledger :: "ledger_row \<Rightarrow> DB \<Rightarrow> infra_error + nat \<times> DB" where
  "insert_ledger r db =
     map_sum id (apsnd (\<lambda>rows. db\<lparr>ledger := rows\<rparr>))
       (sql_insert False ledger_values ledger_checks ledger_indexes (ledger_fks db) r (ledger db))"

definition insert_inbox :: "inbox_row \<Rightarrow> DB \<Rightarrow> infra_error + nat \<times> DB" where
  "insert_inbox r db =
     map_sum id (apsnd (\<lambda>rows. db\<lparr>inbox := rows\<rparr>))
       (sql_insert True inbox_values inbox_checks inbox_indexes [] r (inbox db))"

definition update_inbox ::
  "(inbox_row \<Rightarrow> bool) \<Rightarrow> (inbox_row \<Rightarrow> inbox_row) \<Rightarrow> DB \<Rightarrow> infra_error + nat \<times> DB" where
  "update_inbox matching assign db =
     map_sum id (apsnd (\<lambda>rows. db\<lparr>inbox := rows\<rparr>))
       (sql_update matching assign inbox_values (\<lambda>old new. None) inbox_checks inbox_indexes [] (inbox db))"

definition insert_outbox :: "outbox_row \<Rightarrow> DB \<Rightarrow> infra_error + nat \<times> DB" where
  "insert_outbox r db =
     map_sum id (apsnd (\<lambda>rows. db\<lparr>outbox := rows\<rparr>))
       (sql_insert False outbox_values outbox_checks outbox_indexes [] r (outbox db))"

definition update_outbox ::
  "(outbox_row \<Rightarrow> bool) \<Rightarrow> (outbox_row \<Rightarrow> outbox_row) \<Rightarrow> DB \<Rightarrow> infra_error + nat \<times> DB" where
  "update_outbox matching assign db =
     map_sum id (apsnd (\<lambda>rows. db\<lparr>outbox := rows\<rparr>))
       (sql_update matching assign outbox_values prevent_outbox_payload_mutation
          outbox_checks outbox_indexes [] (outbox db))"

section \<open>What the schema guarantees\<close>

definition table_ok ::
  "('r \<Rightarrow> infra_error option) \<Rightarrow> (string \<times> ('r \<Rightarrow> bool)) list \<Rightarrow> (string \<times> ('r list \<Rightarrow> bool)) list \<Rightarrow>
   'r list \<Rightarrow> bool" where
  "table_ok vals checks indexes rows \<longleftrightarrow>
     list_all (\<lambda>r. vals r = None \<and> list_all (\<lambda>c. snd c r) checks) rows \<and> list_all (\<lambda>i. snd i rows) indexes"

definition schema_ok :: "DB \<Rightarrow> bool" where
  "schema_ok db \<longleftrightarrow>
     table_ok wallet_values wallet_checks wallet_indexes (wallets db) \<and>
     table_ok wager_values wager_checks wager_indexes (wagers db) \<and>
     table_ok ledger_values ledger_checks ledger_indexes (ledger db) \<and>
     table_ok inbox_values inbox_checks inbox_indexes (inbox db) \<and>
     table_ok outbox_values outbox_checks outbox_indexes (outbox db) \<and>
     list_all (\<lambda>r. fk_wager_wallet db r \<and> fk_wager_reference (wagers db) r) (wagers db) \<and>
     list_all (\<lambda>r. fk_ledger_wallet db r \<and> fk_ledger_transaction db r) (ledger db)"

section \<open>Lemmas\<close>

lemma find_None_list_all: "find P xs = None \<longleftrightarrow> list_all (\<lambda>x. \<not> P x) xs"
  by (induction xs) auto

lemma first_failing_None: "first_failing cs r = None \<longleftrightarrow> list_all (\<lambda>c. snd c r) cs"
  by (simp add: first_failing_def find_None_list_all)

lemma first_failing_Some: "first_failing cs r = Some c \<Longrightarrow> \<not> list_all (\<lambda>c. snd c r) cs"
  by (metis first_failing_None option.distinct(1))

lemma row_refused_None:
  "row_refused vals trigger checks old new = None \<longleftrightarrow>
     vals new = None \<and> trigger old new = None \<and> list_all (\<lambda>c. snd c new) checks"
  by (auto simp: row_refused_def first_failing_None split: option.splits)

lemma sql_insert_InrD:
  assumes "sql_insert oc vals checks indexes fks r rows = Inr (n, rows')"
  shows "(n = 0 \<and> rows' = rows \<and> oc \<and> \<not> list_all (\<lambda>i. snd i (rows @ [r])) indexes) \<or>
    (n = 1 \<and> rows' = rows @ [r] \<and> vals r = None \<and> list_all (\<lambda>c. snd c r) checks \<and>
     list_all (\<lambda>i. snd i (rows @ [r])) indexes \<and> list_all (\<lambda>k. snd k (rows @ [r]) r) fks)"
proof -
  have v: "vals r = None" "first_failing checks r = None"
    using assms by (auto simp: sql_insert_def split: option.splits)
  show ?thesis
  proof (cases "first_failing indexes (rows @ [r])")
    case None
    have f: "find (\<lambda>k. \<not> snd k (rows @ [r]) r) fks = None"
      using assms v None by (auto simp: sql_insert_def split: option.splits)
    then have "list_all (\<lambda>k. snd k (rows @ [r]) r) fks" by (simp add: find_None_list_all)
    moreover have "n = 1 \<and> rows' = rows @ [r]" using assms v None f by (simp add: sql_insert_def)
    ultimately show ?thesis using v None by (simp add: first_failing_None)
  next
    case (Some c)
    then show ?thesis
      using assms v first_failing_Some [OF Some] by (auto simp: sql_insert_def split: if_splits)
  qed
qed

lemma sql_update_InrD:
  assumes "sql_update matching assign vals trigger checks indexes fks rows = Inr (n, rows')"
  shows "n = length (filter matching rows)"
    "rows' = map (\<lambda>r. if matching r then assign r else r) rows"
    "\<And>r. r \<in> set rows \<Longrightarrow> matching r \<Longrightarrow>
       vals (assign r) = None \<and> trigger r (assign r) = None \<and> list_all (\<lambda>c. snd c (assign r)) checks \<and>
       list_all (\<lambda>k. snd k rows' (assign r)) fks"
    "list_all (\<lambda>i. snd i rows') indexes"
proof -
  let ?rows' = "map (\<lambda>r. if matching r then assign r else r) rows"
  have r: "find (\<lambda>r. row_refused vals trigger checks r (assign r) \<noteq> None) (filter matching rows) = None"
    using assms by (auto simp: sql_update_def Let_def split: option.splits)
  have i: "first_failing indexes ?rows' = None"
    using assms r by (auto simp: sql_update_def Let_def split: option.splits)
  have k: "find (\<lambda>k. list_ex (\<lambda>r. \<not> snd k ?rows' (assign r)) (filter matching rows)) fks = None"
    using assms r i by (auto simp: sql_update_def Let_def split: option.splits)
  show n: "n = length (filter matching rows)" "rows' = ?rows'"
    using assms r i k by (simp_all add: sql_update_def Let_def)
  show "list_all (\<lambda>i. snd i rows') indexes" using i n by (simp add: first_failing_None)
  fix x assume x: "x \<in> set rows" "matching x"
  have "row_refused vals trigger checks x (assign x) = None"
    using r x by (simp add: find_None_list_all list_all_iff)
  moreover have "list_all (\<lambda>k. snd k rows' (assign x)) fks"
    using k x n(2) by (auto simp: find_None_list_all list_all_iff list_ex_iff)
  ultimately show "vals (assign x) = None \<and> trigger x (assign x) = None \<and>
      list_all (\<lambda>c. snd c (assign x)) checks \<and> list_all (\<lambda>k. snd k rows' (assign x)) fks"
    by (simp add: row_refused_None)
qed

lemma table_ok_insert:
  assumes "sql_insert oc vals checks indexes fks r rows = Inr (n, rows')" "table_ok vals checks indexes rows"
  shows "table_ok vals checks indexes rows'"
  using sql_insert_InrD [OF assms(1)] assms(2) by (auto simp: table_ok_def)

lemma table_ok_update:
  assumes "sql_update matching assign vals trigger checks indexes fks rows = Inr (n, rows')"
    "table_ok vals checks indexes rows"
  shows "table_ok vals checks indexes rows'"
  using sql_update_InrD [OF assms(1)] assms(2) by (auto simp: table_ok_def list_all_iff)

lemma wager_trigger_None:
  "prevent_wager_transaction_mutation old new = None \<Longrightarrow>
     \<not> IsTerminal (wg_status old) \<and> wg_id new = wg_id old \<and> wg_wallet_id new = wg_wallet_id old \<and>
     wg_currency new = wg_currency old \<and> wg_type new = wg_type old \<and> wg_amount new = wg_amount old"
  by (auto simp: prevent_wager_transaction_mutation_def split: if_splits)

lemma wallet_trigger_None:
  "enforce_wallet_update_rules old new = None \<Longrightarrow>
     wr_id new = wr_id old \<and> wr_player_id new = wr_player_id old \<and> wr_currency new = wr_currency old"
  by (auto simp: enforce_wallet_update_rules_def split: if_splits)

text \<open>The statements on a table, read off the generic ones.\<close>

lemma apsnd_map_sum_Inr:
  "map_sum id (apsnd f) x = Inr (n, d) \<longleftrightarrow> (\<exists>rows. x = Inr (n, rows) \<and> d = f rows)"
  by (cases x) auto

lemmas statement_defs =
  insert_wallet_def update_wallets_def insert_wager_def update_wagers_def insert_ledger_def
  insert_inbox_def update_inbox_def insert_outbox_def update_outbox_def

lemma list_ex_map_keep:
  assumes "\<And>x. x \<in> set xs \<Longrightarrow> P (f x) = P x"
  shows "list_ex P (map f xs) = list_ex P xs"
  using assms by (auto simp: list_ex_iff)

lemma list_all_map_keep:
  assumes "\<And>x. x \<in> set xs \<Longrightarrow> P x \<Longrightarrow> P (f x)" "list_all P xs"
  shows "list_all P (map f xs)"
  using assms by (auto simp: list_all_iff)

lemma fk_append_wallet:
  "fk_wager_wallet db r \<Longrightarrow> fk_wager_wallet (db\<lparr>wallets := wallets db @ [w]\<rparr>) r"
  "fk_ledger_wallet db l \<Longrightarrow> fk_ledger_wallet (db\<lparr>wallets := wallets db @ [w]\<rparr>) l"
  by (auto simp: fk_wager_wallet_def fk_ledger_wallet_def)

lemma fk_append_wager:
  "fk_wager_reference rows r \<Longrightarrow> fk_wager_reference (rows @ [x]) r"
  "fk_ledger_transaction db l \<Longrightarrow> fk_ledger_transaction (db\<lparr>wagers := wagers db @ [x]\<rparr>) l"
  by (auto simp: fk_wager_reference_def fk_ledger_transaction_def split: option.splits)

lemma fk_other_tables [simp]:
  "fk_wager_wallet (db\<lparr>wagers := x\<rparr>) = fk_wager_wallet db"
  "fk_wager_wallet (db\<lparr>ledger := y\<rparr>) = fk_wager_wallet db"
  "fk_wager_wallet (db\<lparr>inbox := u\<rparr>) = fk_wager_wallet db"
  "fk_wager_wallet (db\<lparr>outbox := v\<rparr>) = fk_wager_wallet db"
  "fk_ledger_wallet (db\<lparr>wagers := x\<rparr>) = fk_ledger_wallet db"
  "fk_ledger_wallet (db\<lparr>ledger := y\<rparr>) = fk_ledger_wallet db"
  "fk_ledger_wallet (db\<lparr>inbox := u\<rparr>) = fk_ledger_wallet db"
  "fk_ledger_wallet (db\<lparr>outbox := v\<rparr>) = fk_ledger_wallet db"
  "fk_ledger_transaction (db\<lparr>wallets := w\<rparr>) = fk_ledger_transaction db"
  "fk_ledger_transaction (db\<lparr>ledger := y\<rparr>) = fk_ledger_transaction db"
  "fk_ledger_transaction (db\<lparr>inbox := u\<rparr>) = fk_ledger_transaction db"
  "fk_ledger_transaction (db\<lparr>outbox := v\<rparr>) = fk_ledger_transaction db"
  by (simp_all add: fk_wager_wallet_def fk_ledger_wallet_def fk_ledger_transaction_def fun_eq_iff)

lemma insert_wallet_schema:
  assumes "insert_wallet r db = Inr (n, db')" "schema_ok db" shows "schema_ok db'"
proof -
  obtain rows where i: "sql_insert False wallet_values wallet_checks wallet_indexes [] r (wallets db) = Inr (n, rows)"
    and d: "db' = db\<lparr>wallets := rows\<rparr>" using assms(1) by (auto simp: insert_wallet_def apsnd_map_sum_Inr)
  have "rows = wallets db @ [r]" using sql_insert_InrD [OF i] by auto
  with assms(2) d table_ok_insert [OF i] show ?thesis
    by (auto simp: schema_ok_def fk_append_wallet list_all_iff)
qed

lemma update_wallets_schema:
  assumes "update_wallets m f db = Inr (n, db')" "schema_ok db" shows "schema_ok db'"
proof -
  obtain rows where u: "sql_update m f wallet_values enforce_wallet_update_rules wallet_checks wallet_indexes []
      (wallets db) = Inr (n, rows)"
    and d: "db' = db\<lparr>wallets := rows\<rparr>" using assms(1) by (auto simp: update_wallets_def apsnd_map_sum_Inr)
  note e = sql_update_InrD [OF u]
  have t: "wr_id (f x) = wr_id x \<and> wr_currency (f x) = wr_currency x" if "x \<in> set (wallets db)" "m x" for x
    using e(3) [OF that] wallet_trigger_None by blast
  have keep: "list_ex (\<lambda>w. wr_id w = i \<and> wr_currency w = c) rows =
      list_ex (\<lambda>w. wr_id w = i \<and> wr_currency w = c) (wallets db)" for i c
    unfolding e(2) by (rule list_ex_map_keep) (use t in auto)
  show ?thesis using assms(2) d table_ok_update [OF u]
    by (simp add: schema_ok_def fk_wager_wallet_def fk_ledger_wallet_def keep)
qed

lemma insert_wager_schema:
  assumes "insert_wager r db = Inr (n, db')" "schema_ok db" shows "schema_ok db'"
proof -
  obtain rows where i: "sql_insert True wager_values wager_checks wager_indexes (wager_fks db) r (wagers db) = Inr (n, rows)"
    and d: "db' = db\<lparr>wagers := rows\<rparr>" using assms(1) by (auto simp: insert_wager_def apsnd_map_sum_Inr)
  from sql_insert_InrD [OF i] consider "rows = wagers db"
    | "rows = wagers db @ [r]" "fk_wager_reference (wagers db @ [r]) r" "fk_wager_wallet db r"
    by (auto simp: wager_fks_def)
  then show ?thesis
    using assms(2) d table_ok_insert [OF i] by cases (auto simp: schema_ok_def fk_append_wager list_all_iff)
qed

lemma update_wagers_schema:
  assumes "update_wagers m f db = Inr (n, db')" "schema_ok db" shows "schema_ok db'"
proof -
  obtain rows where u: "sql_update m f wager_values prevent_wager_transaction_mutation wager_checks wager_indexes
      (wager_fks db) (wagers db) = Inr (n, rows)"
    and d: "db' = db\<lparr>wagers := rows\<rparr>" using assms(1) by (auto simp: update_wagers_def apsnd_map_sum_Inr)
  note e = sql_update_InrD [OF u]
  have t: "wg_id (f x) = wg_id x \<and> wg_wallet_id (f x) = wg_wallet_id x \<and> wg_currency (f x) = wg_currency x \<and>
      wg_type (f x) = wg_type x" if "x \<in> set (wagers db)" "m x" for x
    using e(3) [OF that] wager_trigger_None by blast
  have ref: "list_ex (\<lambda>x. wg_id x = i \<and> wg_type x = ty) rows = list_ex (\<lambda>x. wg_id x = i \<and> wg_type x = ty) (wagers db)" for i ty
    unfolding e(2) by (rule list_ex_map_keep) (use t in auto)
  have led: "list_ex (\<lambda>x. wg_id x = i \<and> wg_wallet_id x = w \<and> wg_currency x = c) rows =
      list_ex (\<lambda>x. wg_id x = i \<and> wg_wallet_id x = w \<and> wg_currency x = c) (wagers db)" for i w c
    unfolding e(2) by (rule list_ex_map_keep) (use t in auto)
  have "list_all (\<lambda>r. fk_wager_wallet db r \<and> fk_wager_reference rows r) rows"
    unfolding list_all_iff
  proof
    fix r assume "r \<in> set rows"
    then obtain x where x: "x \<in> set (wagers db)" "r = (if m x then f x else x)" by (auto simp: e(2))
    show "fk_wager_wallet db r \<and> fk_wager_reference rows r"
    proof (cases "m x")
      case True then show ?thesis using x e(3) [OF x(1)] by (simp add: wager_fks_def)
    next
      case False
      then show ?thesis using x assms(2) ref by (simp add: schema_ok_def list_all_iff fk_wager_reference_def split: option.splits)
    qed
  qed
  then show ?thesis
    using assms(2) d table_ok_update [OF u] by (simp add: schema_ok_def fk_ledger_transaction_def led)
qed

lemma insert_ledger_schema:
  assumes "insert_ledger r db = Inr (n, db')" "schema_ok db" shows "schema_ok db'"
proof -
  obtain rows where i: "sql_insert False ledger_values ledger_checks ledger_indexes (ledger_fks db) r (ledger db) = Inr (n, rows)"
    and d: "db' = db\<lparr>ledger := rows\<rparr>" using assms(1) by (auto simp: insert_ledger_def apsnd_map_sum_Inr)
  from sql_insert_InrD [OF i] have "rows = ledger db @ [r]" "fk_ledger_wallet db r" "fk_ledger_transaction db r"
    by (auto simp: ledger_fks_def)
  then show ?thesis using assms(2) d table_ok_insert [OF i] by (auto simp: schema_ok_def list_all_iff)
qed

lemma insert_outbox_schema:
  assumes "insert_outbox r db = Inr (n, db')" "schema_ok db" shows "schema_ok db'"
  using assms table_ok_insert by (fastforce simp: insert_outbox_def apsnd_map_sum_Inr schema_ok_def)

lemma update_outbox_schema:
  assumes "update_outbox m f db = Inr (n, db')" "schema_ok db" shows "schema_ok db'"
  using assms table_ok_update by (fastforce simp: update_outbox_def apsnd_map_sum_Inr schema_ok_def)

lemma insert_inbox_schema:
  assumes "insert_inbox r db = Inr (n, db')" "schema_ok db" shows "schema_ok db'"
  using assms table_ok_insert by (fastforce simp: insert_inbox_def apsnd_map_sum_Inr schema_ok_def)

lemma update_inbox_schema:
  assumes "update_inbox m f db = Inr (n, db')" "schema_ok db" shows "schema_ok db'"
  using assms table_ok_update by (fastforce simp: update_inbox_def apsnd_map_sum_Inr schema_ok_def)

lemmas statement_schema =
  insert_wallet_schema update_wallets_schema insert_wager_schema update_wagers_schema insert_ledger_schema
  insert_inbox_schema update_inbox_schema insert_outbox_schema update_outbox_schema

end
