(* ===== verification/Tx_Manager.thy ===== *)
theory Tx_Manager
  imports Database
begin

text \<open>
  The runtime the application services run in and
  \<^verbatim>\<open>internal/infrastructure/postgres/transaction_manager.go\<close>.

  A service is a function of the world: the database and a counter of the requests made so far.
  What the world outside the repository answers at a step is given by the environment \<open>Env\<close>: the
  reading of the database clock, the identifiers \<^verbatim>\<open>uuid.New()\<close> draws, whether a request is
  answered, fails, or takes effect while its answer is lost, and whether the context is done. The
  parsing and printing of UUIDs and the decimal package are parameters too.

  Within a transaction an error makes every later statement fail until the rollback
  (\<open>w_aborted\<close>). A transaction runs on its own; the interleaving of transactions is not part of
  this theory.
\<close>

datatype reply = Reply | Fail infra_error | LostReply infra_error

text \<open>
  The error the client sees. The absence of rows is an answer, not a failure, and an answer that is
  lost does not carry an error of the server.
\<close>

fun fail_error :: "infra_error \<Rightarrow> infra_error" where
  "fail_error ErrNoRows = ErrUnexpectedEOF"
| "fail_error i = i"

fun lost_error :: "infra_error \<Rightarrow> infra_error" where
  "lost_error ErrNoRows = ErrUnexpectedEOF"
| "lost_error (PgError c k) = ErrUnexpectedEOF"
| "lost_error i = i"

record 'd Env =
  E_decimal :: "'d Decimal"
  E_uuid_Parse :: "string \<Rightarrow> uuid option"
  E_uuid_String :: "uuid \<Rightarrow> string"
  E_reply :: "nat \<Rightarrow> reply"
  E_clock :: "nat \<Rightarrow> time"
  E_uuid :: "nat \<Rightarrow> uuid"
  E_ctx_done :: "nat \<Rightarrow> bool"

text \<open>
  The calls that reached the queue service: a message sent to a queue with its body, group,
  deduplication identifier and attributes, a message deleted by its receipt handle, a new visibility
  timeout in seconds. Unlike a statement, a call is not undone by a rollback.
\<close>

datatype sqs_call =
    SendMessage (call_queue: string) (call_body: string) (call_group: string) (call_dedup: string)
      "(string \<times> string) list"
  | DeleteMessage string string
  | ChangeMessageVisibility string string int

record World =
  w_db :: DB
  w_calls :: "sqs_call list"
  w_step :: nat
  w_aborted :: bool
  w_tx_start :: time

record Context =
  in_tx :: bool

abbreviation background :: Context where
  "background \<equiv> \<lparr>in_tx = False\<rparr>"

abbreviation tx_context :: Context where
  "tx_context \<equiv> \<lparr>in_tx = True\<rparr>"

type_synonym 'a act = "World \<Rightarrow> (err + 'a) \<times> World"

section \<open>Actions\<close>

definition ret :: "'a \<Rightarrow> 'a act" where
  "ret a w = (Inr a, w)"

definition throw :: "err \<Rightarrow> 'a act" where
  "throw e w = (Inl e, w)"

definition bind_act :: "'a act \<Rightarrow> ('a \<Rightarrow> 'b act) \<Rightarrow> 'b act" where
  "bind_act m k w = (case m w of (Inl e, w') \<Rightarrow> (Inl e, w') | (Inr a, w') \<Rightarrow> k a w')"

text \<open>The error of \<open>m\<close> handled by \<open>h\<close>, its value by \<open>k\<close>.\<close>

definition match_act :: "'a act \<Rightarrow> (err \<Rightarrow> 'b act) \<Rightarrow> ('a \<Rightarrow> 'b act) \<Rightarrow> 'b act" where
  "match_act m h k w = (case m w of (Inl e, w') \<Rightarrow> h e w' | (Inr a, w') \<Rightarrow> k a w')"

definition lift_sum :: "err + 'a \<Rightarrow> 'a act" where
  "lift_sum r w = (r, w)"

text \<open>\<^verbatim>\<open>uuid.New()\<close>.\<close>

definition uuid_New :: "'d Env \<Rightarrow> uuid act" where
  "uuid_New E w = (Inr (E_uuid E (w_step w)), w\<lparr>w_step := Suc (w_step w)\<rparr>)"

text \<open>
  One request to the database: \<open>f\<close> gets \<^verbatim>\<open>NOW()\<close>, \<^verbatim>\<open>clock_timestamp()\<close> and the database. A
  transaction that met an error answers everything with the SQLSTATE 25P02.
\<close>

definition request ::
  "'d Env \<Rightarrow> Context \<Rightarrow> (time \<Rightarrow> time \<Rightarrow> DB \<Rightarrow> infra_error + 'a \<times> DB) \<Rightarrow> 'a act" where
  "request E ctx f w =
     (let k = w_step w;
          w1 = w\<lparr>w_step := Suc k\<rparr>;
          broken = w1\<lparr>w_aborted := in_tx ctx\<rparr>;
          now = (if in_tx ctx then w_tx_start w else E_clock E k)
      in if in_tx ctx \<and> w_aborted w then (Inl (InfraErr (PgError ''25P02'' [])), w1)
         else case E_reply E k of
                Fail e \<Rightarrow> (Inl (InfraErr (fail_error e)), broken)
              | Reply \<Rightarrow>
                  (case f now (E_clock E k) (w_db w) of
                     Inl e \<Rightarrow> (Inl (InfraErr e), broken)
                   | Inr (a, db) \<Rightarrow> (Inr a, w1\<lparr>w_db := db\<rparr>))
              | LostReply e \<Rightarrow>
                  (case f now (E_clock E k) (w_db w) of
                     Inl e' \<Rightarrow> (Inl (InfraErr e'), broken)
                   | Inr (a, db) \<Rightarrow> (Inl (InfraErr (lost_error e)), broken\<lparr>w_db := db\<rparr>)))"

text \<open>\<^verbatim>\<open>Exec\<close>: the number of rows affected. \<^verbatim>\<open>QueryRow(...).Scan\<close>: the row, or \<^verbatim>\<open>pgx.ErrNoRows\<close>.\<close>

definition exec_stmt :: "'d Env \<Rightarrow> Context \<Rightarrow> (DB \<Rightarrow> infra_error + nat \<times> DB) \<Rightarrow> nat act" where
  "exec_stmt E ctx f = request E ctx (\<lambda>now clk. f)"

definition query :: "'d Env \<Rightarrow> Context \<Rightarrow> (DB \<Rightarrow> 'a) \<Rightarrow> 'a act" where
  "query E ctx q = request E ctx (\<lambda>now clk db. Inr (q db, db))"

definition query_row :: "'d Env \<Rightarrow> Context \<Rightarrow> (DB \<Rightarrow> 'a option) \<Rightarrow> 'a act" where
  "query_row E ctx q =
     bind_act (query E ctx q)
       (\<lambda>r. case r of None \<Rightarrow> throw (InfraErr ErrNoRows) | Some a \<Rightarrow> ret a)"

text \<open>
  A call of the queue service. \<open>E_reply\<close> tells whether it failed, was answered, or reached the
  service while its answer was lost.
\<close>

definition sqs_request :: "'d Env \<Rightarrow> sqs_call \<Rightarrow> unit act" where
  "sqs_request E call w =
     (let w1 = w\<lparr>w_step := Suc (w_step w)\<rparr>;
          sent = w1\<lparr>w_calls := w_calls w @ [call]\<rparr>
      in case E_reply E (w_step w) of
           Fail e \<Rightarrow> (Inl (InfraErr (fail_error e)), w1)
         | Reply \<Rightarrow> (Inr (), sent)
         | LostReply e \<Rightarrow> (Inl (InfraErr (lost_error e)), sent))"

text \<open>\<^verbatim>\<open>Clock.Now\<close>.\<close>

definition Clock_Now :: "'d Env \<Rightarrow> Context \<Rightarrow> time act" where
  "Clock_Now E ctx = request E ctx (\<lambda>now clk db. Inr (clk, db))"

section \<open>The transaction manager\<close>

definition maxTransactionAttempts :: nat where
  "maxTransactionAttempts = 3"

text \<open>
  A function given to \<^verbatim>\<open>WithinTransaction\<close>: it gets the context of the transaction and the
  variables it captures, which keep what it assigned to them even when it fails.
\<close>

type_synonym ('a, 'c) closure = "Context \<Rightarrow> 'c \<Rightarrow> World \<Rightarrow> ((err + 'a) \<times> 'c) \<times> World"

text \<open>
  \<^verbatim>\<open>run\<close>: begin, call, then commit when the call succeeded and roll back otherwise. A commit
  whose answer is lost took effect; a commit of a transaction that met an error rolls back.
\<close>

definition begin_tx :: "'d Env \<Rightarrow> unit act" where
  "begin_tx E w =
     (case request E background (\<lambda>now clk db. Inr (clk, db)) w of
        (Inl e, w') \<Rightarrow> (Inl e, w')
      | (Inr t, w') \<Rightarrow> (Inr (), w'\<lparr>w_tx_start := t, w_aborted := False\<rparr>))"

definition commit_tx :: "'d Env \<Rightarrow> DB \<Rightarrow> World \<Rightarrow> err option \<times> World" where
  "commit_tx E saved w =
     (let w1 = w\<lparr>w_step := Suc (w_step w), w_aborted := False\<rparr>
      in if w_aborted w
         then (Some (OtherError ''commit unexpectedly resulted in rollback''), w1\<lparr>w_db := saved\<rparr>)
         else case E_reply E (w_step w) of
                Reply \<Rightarrow> (None, w1)
              | Fail e \<Rightarrow> (Some (InfraErr (fail_error e)), w1\<lparr>w_db := saved\<rparr>)
              | LostReply e \<Rightarrow> (Some (InfraErr (lost_error e)), w1))"

definition run_tx :: "'d Env \<Rightarrow> ('a, 'c) closure \<Rightarrow> 'c \<Rightarrow> World \<Rightarrow> ((err + 'a) \<times> 'c) \<times> World" where
  "run_tx E fn c w =
     (case begin_tx E w of
        (Inl e, w') \<Rightarrow> ((Inl e, c), w')
      | (Inr _, w') \<Rightarrow>
          (case fn tx_context c w' of
             ((Inl e, c'), w2) \<Rightarrow> ((Inl e, c'), w2\<lparr>w_db := w_db w, w_aborted := False\<rparr>)
           | ((Inr a, c'), w2) \<Rightarrow>
               (case commit_tx E (w_db w) w2 of
                  (Some e, w3) \<Rightarrow> ((Inl e, c'), w3)
                | (None, w3) \<Rightarrow> ((Inr a, c'), w3))))"

text \<open>
  The loop of \<^verbatim>\<open>WithinTransaction\<close>, with the attempts that are left. \<^verbatim>\<open>waitRetry\<close> gives up when
  the context is done.
\<close>

definition waitRetry :: "'d Env \<Rightarrow> World \<Rightarrow> bool \<times> World" where
  "waitRetry E w = (\<not> E_ctx_done E (w_step w), w\<lparr>w_step := Suc (w_step w)\<rparr>)"

fun tx_attempts ::
  "nat \<Rightarrow> 'd Env \<Rightarrow> ('a, 'c) closure \<Rightarrow> 'c \<Rightarrow> World \<Rightarrow> ((err + 'a) \<times> 'c) \<times> World" where
  "tx_attempts left E fn c w =
     (case run_tx E fn c w of
        ((Inr a, c'), w') \<Rightarrow> ((Inr a, c'), w')
      | ((Inl e, c'), w') \<Rightarrow>
          if \<not> isRetryableConflict e \<or> left \<le> 1 then ((Inl e, c'), w')
          else (case waitRetry E w' of
                  (False, w2) \<Rightarrow> ((Inl e, c'), w2)
                | (True, w2) \<Rightarrow> tx_attempts (left - 1) E fn c' w2))"

definition WithinTransaction ::
  "'d Env \<Rightarrow> Context \<Rightarrow> ('a, 'c) closure \<Rightarrow> 'c \<Rightarrow> World \<Rightarrow> ((err + 'a) \<times> 'c) \<times> World" where
  "WithinTransaction E ctx fn c w =
     (if in_tx ctx then fn ctx c w
      else (case tx_attempts maxTransactionAttempts E fn c w of
              ((Inr a, c'), w') \<Rightarrow> ((Inr a, c'), w')
            | ((Inl e, c'), w') \<Rightarrow>
                ((Inl (if isUnavailable e then Wrapped (AppErr ErrUnavailable) e else e), c'), w')))"

text \<open>The common case, where the only captured variable is the result.\<close>

definition closure_of :: "(Context \<Rightarrow> 'a act) \<Rightarrow> ('a, unit) closure" where
  "closure_of m ctx u w = (case m ctx w of (r, w') \<Rightarrow> ((r, u), w'))"

definition in_transaction :: "'d Env \<Rightarrow> Context \<Rightarrow> (Context \<Rightarrow> 'a act) \<Rightarrow> 'a act" where
  "in_transaction E ctx m w =
     (case WithinTransaction E ctx (closure_of m) () w of ((r, u), w') \<Rightarrow> (r, w'))"

declare tx_attempts.simps [simp del]

section \<open>Lemmas\<close>

lemma ret_eq [simp]: "ret a w = (Inr b, w') \<longleftrightarrow> b = a \<and> w' = w" "ret a w \<noteq> (Inl e, w')"
  by (auto simp: ret_def)

lemma throw_eq [simp]: "throw e w = (Inl e', w') \<longleftrightarrow> e' = e \<and> w' = w" "throw e w \<noteq> (Inr b, w')"
  by (auto simp: throw_def)

lemma lift_sum_eq [simp]: "lift_sum r w = (s, w') \<longleftrightarrow> r = s \<and> w' = w"
  by (auto simp: lift_sum_def)

lemma bind_act_Inr:
  "bind_act m k w = (Inr b, w') \<longleftrightarrow> (\<exists>a v. m w = (Inr a, v) \<and> k a v = (Inr b, w'))"
  by (auto simp: bind_act_def split: prod.splits sum.splits)

lemma match_act_Inr:
  "match_act m h k w = (Inr b, w') \<longleftrightarrow>
     (\<exists>a v. m w = (Inr a, v) \<and> k a v = (Inr b, w')) \<or> (\<exists>e v. m w = (Inl e, v) \<and> h e v = (Inr b, w'))"
  by (auto simp: match_act_def split: prod.splits sum.splits)

lemma uuid_New_Inr:
  "uuid_New E w = (Inr u, w') \<longleftrightarrow> u = E_uuid E (w_step w) \<and> w' = w\<lparr>w_step := Suc (w_step w)\<rparr>"
  by (auto simp: uuid_New_def)

lemma request_Inr:
  "request E ctx f w = (Inr a, w') \<Longrightarrow>
     (\<exists>db. f (if in_tx ctx then w_tx_start w else E_clock E (w_step w)) (E_clock E (w_step w)) (w_db w) = Inr (a, db) \<and>
           w' = w\<lparr>w_step := Suc (w_step w), w_db := db\<rparr>)"
  by (auto simp: request_def Let_def split: if_splits reply.splits sum.splits)

lemma request_Inl:
  "request E ctx f w = (Inl e, w') \<Longrightarrow> \<exists>i. e = InfraErr i"
  by (auto simp: request_def Let_def split: if_splits reply.splits sum.splits)

lemma sqs_request_cases:
  "sqs_request E call w = (r, w') \<Longrightarrow>
     w_db w' = w_db w \<and> w_aborted w' = w_aborted w \<and> w_step w' = Suc (w_step w) \<and>
     (case r of Inr u \<Rightarrow> w_calls w' = w_calls w @ [call]
      | Inl e \<Rightarrow> w_calls w' = w_calls w \<or> w_calls w' = w_calls w @ [call] \<and> (\<exists>i. E_reply E (w_step w) = LostReply i))"
  by (auto simp: sqs_request_def Let_def split: reply.splits)

lemma exec_stmt_Inr:
  "exec_stmt E ctx f w = (Inr n, w') \<Longrightarrow>
     \<exists>db. f (w_db w) = Inr (n, db) \<and> w' = w\<lparr>w_step := Suc (w_step w), w_db := db\<rparr>"
  unfolding exec_stmt_def by (drule request_Inr) auto

lemma query_Inr:
  "query E ctx q w = (Inr a, w') \<Longrightarrow> a = q (w_db w) \<and> w' = w\<lparr>w_step := Suc (w_step w)\<rparr>"
  unfolding query_def by (drule request_Inr) auto

lemma query_row_Inr:
  "query_row E ctx q w = (Inr a, w') \<Longrightarrow> q (w_db w) = Some a \<and> w' = w\<lparr>w_step := Suc (w_step w)\<rparr>"
  unfolding query_row_def bind_act_Inr
  by (elim exE conjE) (drule query_Inr, simp split: option.splits)

lemma Clock_Now_Inr:
  "Clock_Now E ctx w = (Inr t, w') \<Longrightarrow> t = E_clock E (w_step w) \<and> w' = w\<lparr>w_step := Suc (w_step w)\<rparr>"
  unfolding Clock_Now_def by (drule request_Inr) auto

lemmas act_Inr = bind_act_Inr match_act_Inr

lemmas stmt_Inr = exec_stmt_Inr query_Inr query_row_Inr Clock_Now_Inr

text \<open>A transaction that commits ran its body once to the end, on the database it found.\<close>

lemma begin_tx_db: "begin_tx E w = (r, w') \<Longrightarrow> w_db w' = w_db w"
  by (auto simp: begin_tx_def request_def Let_def split: prod.splits sum.splits if_splits reply.splits)

lemma begin_tx_aborted: "begin_tx E w = (Inr u, w') \<Longrightarrow> \<not> w_aborted w'"
  by (auto simp: begin_tx_def split: prod.splits sum.splits)

lemma run_tx_InrD:
  assumes "run_tx E fn c w = ((Inr a, c'), w')"
  obtains v v' where "w_db v = w_db w" "\<not> w_aborted v" "fn tx_context c v = ((Inr a, c'), v')"
    "w_db w' = w_db v'"
proof -
  obtain r v where b: "begin_tx E w = (r, v)" by (cases "begin_tx E w")
  obtain s c2 v2 where f: "fn tx_context c v = ((s, c2), v2)" by (metis surj_pair)
  obtain u where r: "r = Inr u" using assms b by (cases r) (auto simp: run_tx_def)
  obtain a' where s: "s = Inr a'" using assms b f r by (cases s) (auto simp: run_tx_def)
  have "a' = a \<and> c2 = c' \<and> w_db w' = w_db v2"
    using assms b f r s
    by (simp add: run_tx_def commit_tx_def Let_def split: if_splits reply.splits) auto
  then show ?thesis
    using that [of v v2] begin_tx_db [OF b] begin_tx_aborted [OF b [unfolded r]] f s by simp
qed

text \<open>What an attempt leaves behind when it fails: the database it found, or, when only the answer
  to the commit was lost, the one its body made.\<close>

lemma lost_not_retryable: "\<not> isRetryableConflict (InfraErr (lost_error i))"
  by (cases i) (auto simp: isRetryableConflict_def)

lemma run_tx_InlD:
  assumes "run_tx E fn c w = ((Inl e, c'), w')"
  shows "w_db w' = w_db w \<or>
    (\<exists>v v' a i. w_db v = w_db w \<and> \<not> w_aborted v \<and> fn tx_context c v = ((Inr a, c'), v') \<and> w_db w' = w_db v' \<and>
       e = InfraErr (lost_error i) \<and> E_reply E (w_step v') = LostReply i)"
proof -
  obtain r v where b: "begin_tx E w = (r, v)" by (cases "begin_tx E w")
  have d: "w_db v = w_db w" using begin_tx_db [OF b] .
  show ?thesis
  proof (cases r)
    case (Inl e')
    then show ?thesis using assms b d by (auto simp: run_tx_def)
  next
    case (Inr u)
    obtain s c2 v2 where f: "fn tx_context c v = ((s, c2), v2)" by (metis surj_pair)
    show ?thesis
    proof (cases s)
      case (Inl e')
      then show ?thesis using assms b f Inr by (auto simp: run_tx_def)
    next
      case (Inr a)
      with \<open>r = Inr u\<close> assms b f d begin_tx_aborted [of E w u v] show ?thesis
        by (auto simp: run_tx_def commit_tx_def Let_def split: if_splits reply.splits)
    qed
  qed
qed

lemma run_tx_retryable:
  assumes "run_tx E fn c w = ((Inl e, c'), w')" "isRetryableConflict e"
  shows "w_db w' = w_db w"
  using run_tx_InlD [OF assms(1)] assms(2) lost_not_retryable by auto

text \<open>The attempts that were retried left nothing behind.\<close>

lemma tx_attempts_last:
  "tx_attempts n E fn c w = (r, w') \<Longrightarrow>
     \<exists>v v' c0. w_db v = w_db w \<and> run_tx E fn c0 v = (r, v') \<and> w_db w' = w_db v'"
proof (induction n E fn c w rule: tx_attempts.induct)
  case (1 left E fn c w)
  obtain s c1 v1 where run: "run_tx E fn c w = ((s, c1), v1)" by (metis surj_pair)
  show ?case
  proof (cases "\<exists>e. s = Inl e \<and> isRetryableConflict e \<and> \<not> left \<le> 1 \<and> fst (waitRetry E v1)")
    case True
    then obtain e where e: "s = Inl e" "isRetryableConflict e" "\<not> left \<le> 1" "fst (waitRetry E v1)" by blast
    obtain v2 where w2: "waitRetry E v1 = (True, v2)" using e(4) by (cases "waitRetry E v1") auto
    have db: "w_db v2 = w_db w"
      using w2 run_tx_retryable [OF run [unfolded e(1)] e(2)] by (auto simp: waitRetry_def)
    have "tx_attempts (left - 1) E fn c1 v2 = (r, w')"
      using "1.prems" run e w2 by (simp add: tx_attempts.simps [of left])
    from "1.IH" [OF run [symmetric] refl e(1) _ w2 [symmetric] refl this] e db show ?thesis by auto
  next
    case False
    then have "r = (s, c1) \<and> w_db w' = w_db v1"
      using "1.prems" run
      by (cases s) (auto simp: tx_attempts.simps [of left] waitRetry_def split: if_splits prod.splits bool.splits)
    then show ?thesis using run by blast
  qed
qed

text \<open>
  The two outcomes of a transaction seen from outside: on success the effect of one run of the
  body, on an error nothing, unless the answer to the commit was lost.
\<close>

lemma WithinTransaction_InrD:
  assumes "WithinTransaction E background fn c w = ((Inr a, c'), w')"
  obtains v v' c0 where "w_db v = w_db w" "\<not> w_aborted v" "fn tx_context c0 v = ((Inr a, c'), v')"
    "w_db w' = w_db v'"
proof -
  have "tx_attempts maxTransactionAttempts E fn c w = ((Inr a, c'), w')"
    using assms by (auto simp: WithinTransaction_def split: prod.splits sum.splits)
  from tx_attempts_last [OF this] obtain v v' c0 where
    "w_db v = w_db w" "run_tx E fn c0 v = ((Inr a, c'), v')" "w_db w' = w_db v'" by auto
  with run_tx_InrD [OF this(2)] that show ?thesis by metis
qed

lemma WithinTransaction_InlD:
  assumes "WithinTransaction E background fn c w = ((Inl e, c'), w')"
  shows "w_db w' = w_db w \<or>
    (\<exists>v v' c0 a i. w_db v = w_db w \<and> \<not> w_aborted v \<and> fn tx_context c0 v = ((Inr a, c'), v') \<and>
       w_db w' = w_db v' \<and> E_reply E (w_step v') = LostReply i)"
proof -
  obtain e' where "tx_attempts maxTransactionAttempts E fn c w = ((Inl e', c'), w')"
    using assms by (auto simp: WithinTransaction_def split: prod.splits sum.splits)
  from tx_attempts_last [OF this] obtain v v' c0 where
    v: "w_db v = w_db w" "run_tx E fn c0 v = ((Inl e', c'), v')" "w_db w' = w_db v'" by auto
  from run_tx_InlD [OF v(2)] v show ?thesis by metis
qed

section \<open>The contract of a unit of work\<close>

text \<open>
  The interface between the services and the transaction manager: a body that keeps an invariant of
  the database whenever it succeeds. Run in a transaction, it keeps the invariant however the
  transaction ends.
\<close>

locale unit_of_work =
  fixes I :: "DB \<Rightarrow> bool"
    and body :: "('a, 'c) closure"
  assumes body_keeps:
    "\<lbrakk>I (w_db w); body tx_context c w = ((Inr a, c'), w')\<rbrakk> \<Longrightarrow> I (w_db w')"
begin

lemma within_keeps:
  assumes "I (w_db w)" "WithinTransaction E background body c w = ((r, c'), w')"
  shows "I (w_db w')"
proof (cases r)
  case (Inl e)
  show ?thesis
    using WithinTransaction_InlD [OF assms(2) [unfolded Inl]] assms(1) body_keeps by metis
next
  case (Inr a)
  obtain v v' c0 where "w_db v = w_db w" "body tx_context c0 v = ((Inr a, c'), v')" "w_db w' = w_db v'"
    using WithinTransaction_InrD [OF assms(2) [unfolded Inr]] by metis
  then show ?thesis using assms(1) body_keeps by metis
qed

end

lemma closure_of_eq: "closure_of m ctx u w = ((r, u'), w') \<longleftrightarrow> m ctx w = (r, w')"
  by (auto simp: closure_of_def split: prod.splits)

lemma within_InrD:
  assumes "in_transaction E background m w = (Inr a, w')"
  obtains v v' where "w_db v = w_db w" "\<not> w_aborted v" "m tx_context v = (Inr a, v')" "w_db w' = w_db v'"
proof -
  have "WithinTransaction E background (closure_of m) () w = ((Inr a, ()), w')"
    using assms by (auto simp: in_transaction_def split: prod.splits)
  from WithinTransaction_InrD [OF this] that show ?thesis unfolding closure_of_eq by metis
qed

lemma within_InlD:
  assumes "in_transaction E background m w = (Inl e, w')"
  shows "w_db w' = w_db w \<or>
    (\<exists>v v' a i. w_db v = w_db w \<and> \<not> w_aborted v \<and> m tx_context v = (Inr a, v') \<and>
       w_db w' = w_db v' \<and> E_reply E (w_step v') = LostReply i)"
proof -
  have "WithinTransaction E background (closure_of m) () w = ((Inl e, ()), w')"
    using assms by (auto simp: in_transaction_def split: prod.splits)
  from WithinTransaction_InlD [OF this] show ?thesis unfolding closure_of_eq by metis
qed

end
