(* ===== verification/Events.thy ===== *)
theory Events
  imports Tx_Manager
begin

text \<open>
  \<^verbatim>\<open>internal/application/commands.go\<close>, \<^verbatim>\<open>failure_codes.go\<close>, \<^verbatim>\<open>wager_results.go\<close> and
  \<^verbatim>\<open>events.go\<close>, with the functions of \<^verbatim>\<open>wager_events.go\<close> that build the data of an event: the
  commands of the service, its results, and the integration events with the JSON of their data.
\<close>

section \<open>Commands and results\<close>

record CommandMetadata =
  CorrelationID :: string
  CausationID :: string

record CreateWalletCommand =
  cw_PlayerID :: string
  cw_Currency :: string
  cw_InitialBalance :: string

record ProcessWagerCommand =
  cmd_ProviderID :: string
  cmd_ExternalTransactionID :: string
  cmd_IdempotencyKey :: string
  cmd_WalletID :: string
  cmd_PlayerID :: string
  cmd_RoundID :: string
  cmd_GameID :: string
  cmd_Type :: string
  cmd_Amount :: string
  cmd_Currency :: string
  cmd_ReferenceExternalTransactionID :: string

definition FailureCodeBetInsufficientFunds :: string where
  "FailureCodeBetInsufficientFunds = ''BET_INSUFFICIENT_FUNDS''"

definition FailureCodeReversalInsufficientFunds :: string where
  "FailureCodeReversalInsufficientFunds = ''REVERSAL_INSUFFICIENT_FUNDS''"

definition FailureCodeReferenceNotFound :: string where
  "FailureCodeReferenceNotFound = ''REFERENCE_NOT_FOUND''"

definition FailureCodeReferenceNotProcessable :: string where
  "FailureCodeReferenceNotProcessable = ''REFERENCE_NOT_PROCESSABLE''"

definition FailureCodeReferenceMismatch :: string where
  "FailureCodeReferenceMismatch = ''REFERENCE_MISMATCH''"

definition FailureCodeReferenceTypeNotAllowed :: string where
  "FailureCodeReferenceTypeNotAllowed = ''REFERENCE_TYPE_NOT_ALLOWED''"

definition FailureCodeDuplicateReversal :: string where
  "FailureCodeDuplicateReversal = ''DUPLICATE_REVERSAL''"

definition FailureCodeProcessingFailed :: string where
  "FailureCodeProcessingFailed = ''PROCESSING_FAILED''"

record 'd ProcessWagerResult =
  pr_TransactionID :: uuid
  pr_ExternalTransactionID :: string
  pr_Status :: WagerTransactionStatus
  pr_BalanceBefore :: "'d Money option"
  pr_BalanceAfter :: "'d Money option"
  pr_FailureCode :: string
  pr_FailureMessage :: string
  pr_IdempotentReplay :: bool

record 'd WagerResult =
  wres_TransactionID :: uuid
  wres_ProviderID :: string
  wres_ExternalTransactionID :: string
  wres_WalletID :: uuid
  wres_PlayerID :: uuid
  wres_RoundID :: string
  wres_GameID :: string
  wres_Type :: WagerTransactionType
  wres_Amount :: "'d Money"
  wres_ReferenceExternalTransactionID :: string
  wres_Status :: WagerTransactionStatus
  wres_FailureCode :: string
  wres_FailureMessage :: string
  wres_BalanceBefore :: "'d Money option"
  wres_BalanceAfter :: "'d Money option"
  wres_CreatedAt :: time
  wres_UpdatedAt :: time

definition resultFromWager :: "'d WagerTransaction \<Rightarrow> bool \<Rightarrow> 'd ProcessWagerResult" where
  "resultFromWager transaction idempotentReplay =
     \<lparr>pr_TransactionID = tx_id transaction,
      pr_ExternalTransactionID = tx_externalTransactionID transaction,
      pr_Status = tx_status transaction,
      pr_BalanceBefore = tx_balanceBefore transaction,
      pr_BalanceAfter = tx_balanceAfter transaction,
      pr_FailureCode = tx_failureCode transaction,
      pr_FailureMessage = tx_failureMessage transaction,
      pr_IdempotentReplay = idempotentReplay\<rparr>"

definition wagerResultFromTransaction :: "'d WagerTransaction \<Rightarrow> 'd WagerResult" where
  "wagerResultFromTransaction transaction =
     \<lparr>wres_TransactionID = tx_id transaction,
      wres_ProviderID = tx_providerID transaction,
      wres_ExternalTransactionID = tx_externalTransactionID transaction,
      wres_WalletID = tx_walletID transaction,
      wres_PlayerID = tx_playerID transaction,
      wres_RoundID = tx_roundID transaction,
      wres_GameID = tx_gameID transaction,
      wres_Type = tx_type transaction,
      wres_Amount = tx_amount transaction,
      wres_ReferenceExternalTransactionID = tx_referenceExternalTransactionID transaction,
      wres_Status = tx_status transaction,
      wres_FailureCode = tx_failureCode transaction,
      wres_FailureMessage = tx_failureMessage transaction,
      wres_BalanceBefore = tx_balanceBefore transaction,
      wres_BalanceAfter = tx_balanceAfter transaction,
      wres_CreatedAt = tx_createdAt transaction,
      wres_UpdatedAt = tx_updatedAt transaction\<rparr>"

section \<open>Events\<close>

definition EventTypeWagerTransactionProcessed :: string where
  "EventTypeWagerTransactionProcessed = ''WagerTransactionProcessed''"

definition EventTypeWagerTransactionRejected :: string where
  "EventTypeWagerTransactionRejected = ''WagerTransactionRejected''"

definition EventTypeWalletBalanceChanged :: string where
  "EventTypeWalletBalanceChanged = ''WalletBalanceChanged''"

definition EventTypeWagerTransactionPendingReference :: string where
  "EventTypeWagerTransactionPendingReference = ''WagerTransactionPendingReference''"

definition eventVersion :: int where
  "eventVersion = 1"

record 't Event =
  ev_EventID :: uuid
  ev_EventType :: string
  ev_AggregateID :: uuid
  ev_CorrelationID :: string
  ev_CausationID :: string
  ev_OccurredAt :: time
  ev_Version :: int
  ev_Data :: 't

type_synonym EventEnvelope = "json Event"

record 'd WagerTransactionProcessedData =
  pd_TransactionID :: uuid
  pd_ProviderID :: string
  pd_ExternalTransactionID :: string
  pd_WalletID :: uuid
  pd_PlayerID :: uuid
  pd_RoundID :: string
  pd_GameID :: string
  pd_Kind :: WagerTransactionType
  pd_Money :: "'d Money"
  pd_BalanceBefore :: "'d Money"
  pd_BalanceAfter :: "'d Money"
  pd_ReferenceTransactionID :: "uuid option"

record 'd WagerTransactionRejectedData =
  rd_TransactionID :: uuid
  rd_ProviderID :: string
  rd_ExternalTransactionID :: string
  rd_WalletID :: uuid
  rd_PlayerID :: uuid
  rd_RoundID :: string
  rd_GameID :: string
  rd_Kind :: WagerTransactionType
  rd_Money :: "'d Money"
  rd_FailureCode :: string
  rd_FailureMessage :: string

record 'd WalletBalanceChangedData =
  bd_WalletID :: uuid
  bd_PlayerID :: uuid
  bd_TransactionID :: uuid
  bd_Direction :: WalletLedgerDirection
  bd_Money :: "'d Money"
  bd_BalanceBefore :: "'d Money"
  bd_BalanceAfter :: "'d Money"
  bd_WalletVersion :: int

record 'd WagerTransactionPendingReferenceData =
  qd_TransactionID :: uuid
  qd_ProviderID :: string
  qd_ExternalTransactionID :: string
  qd_ReferenceExternalTransactionID :: string
  qd_WalletID :: uuid
  qd_PlayerID :: uuid
  qd_RoundID :: string
  qd_GameID :: string
  qd_Kind :: WagerTransactionType
  qd_Money :: "'d Money"

text \<open>\<^verbatim>\<open>newEvent\<close> draws the identifier of the event.\<close>

definition newEvent ::
  "'d Env \<Rightarrow> string \<Rightarrow> uuid \<Rightarrow> CommandMetadata \<Rightarrow> time \<Rightarrow> 't \<Rightarrow> 't Event act" where
  "newEvent E eventType aggregateID metadata occurredAt data =
     bind_act (uuid_New E) (\<lambda>eventID.
     ret \<lparr>ev_EventID = eventID, ev_EventType = eventType, ev_AggregateID = aggregateID,
          ev_CorrelationID = CorrelationID metadata, ev_CausationID = CausationID metadata,
          ev_OccurredAt = occurredAt, ev_Version = eventVersion, ev_Data = data\<rparr>)"

definition NewWagerTransactionProcessedEvent ::
  "'d Env \<Rightarrow> CommandMetadata \<Rightarrow> time \<Rightarrow> 'd WagerTransactionProcessedData \<Rightarrow>
   'd WagerTransactionProcessedData Event act" where
  "NewWagerTransactionProcessedEvent E metadata occurredAt data =
     newEvent E EventTypeWagerTransactionProcessed (pd_TransactionID data) metadata occurredAt data"

definition NewWagerTransactionRejectedEvent ::
  "'d Env \<Rightarrow> CommandMetadata \<Rightarrow> time \<Rightarrow> 'd WagerTransactionRejectedData \<Rightarrow>
   'd WagerTransactionRejectedData Event act" where
  "NewWagerTransactionRejectedEvent E metadata occurredAt data =
     newEvent E EventTypeWagerTransactionRejected (rd_TransactionID data) metadata occurredAt data"

definition NewWalletBalanceChangedEvent ::
  "'d Env \<Rightarrow> CommandMetadata \<Rightarrow> time \<Rightarrow> 'd WalletBalanceChangedData \<Rightarrow>
   'd WalletBalanceChangedData Event act" where
  "NewWalletBalanceChangedEvent E metadata occurredAt data =
     newEvent E EventTypeWalletBalanceChanged (bd_WalletID data) metadata occurredAt data"

definition NewWagerTransactionPendingReferenceEvent ::
  "'d Env \<Rightarrow> CommandMetadata \<Rightarrow> time \<Rightarrow> 'd WagerTransactionPendingReferenceData \<Rightarrow>
   'd WagerTransactionPendingReferenceData Event act" where
  "NewWagerTransactionPendingReferenceEvent E metadata occurredAt data =
     newEvent E EventTypeWagerTransactionPendingReference (qd_TransactionID data) metadata occurredAt data"

section \<open>The JSON of the event data\<close>

text \<open>A field with \<^verbatim>\<open>omitempty\<close>.\<close>

definition omitempty :: "string \<Rightarrow> string \<Rightarrow> (string \<times> json) list" where
  "omitempty name s = (if s = [] then [] else [(name, JString s)])"

definition json_uuid :: "'d Env \<Rightarrow> uuid \<Rightarrow> json" where
  "json_uuid E u = JString (E_uuid_String E u)"

fun string_of_direction :: "WalletLedgerDirection \<Rightarrow> string" where
  "string_of_direction DEBIT = ''DEBIT''"
| "string_of_direction CREDIT = ''CREDIT''"
| "string_of_direction (UnknownDirection s) = s"

definition direction_of_string :: "string \<Rightarrow> WalletLedgerDirection" where
  "direction_of_string s =
     (if s = ''DEBIT'' then DEBIT else if s = ''CREDIT'' then CREDIT else UnknownDirection s)"

text \<open>\<^verbatim>\<open>json.Marshal\<close> of money calls \<^verbatim>\<open>MarshalJSON\<close>, whose error it returns.\<close>

definition json_money :: "'d Env \<Rightarrow> 'd Money \<Rightarrow> err + json" where
  "json_money E m =
     map_sum id (\<lambda>f. JObject [(''amount'', JString (fst f)), (''currency'', JString (snd f))])
       (Money_MarshalJSON (E_decimal E) m)"

fun json_moneys :: "'d Env \<Rightarrow> (string \<times> 'd Money) list \<Rightarrow> err + (string \<times> json) list" where
  "json_moneys E [] = Inr []"
| "json_moneys E ((name, m) # ms) =
     (case json_money E m of
        Inl e \<Rightarrow> Inl e
      | Inr j \<Rightarrow> map_sum id (\<lambda>js. (name, j) # js) (json_moneys E ms))"

definition marshal_processed :: "'d Env \<Rightarrow> 'd WagerTransactionProcessedData \<Rightarrow> err + json" where
  "marshal_processed E d =
     map_sum id (\<lambda>money. JObject
       ([(''transactionId'', json_uuid E (pd_TransactionID d))] @
        omitempty ''providerId'' (pd_ProviderID d) @
        omitempty ''externalTransactionId'' (pd_ExternalTransactionID d) @
        [(''walletId'', json_uuid E (pd_WalletID d)), (''playerId'', json_uuid E (pd_PlayerID d))] @
        omitempty ''roundId'' (pd_RoundID d) @
        omitempty ''gameId'' (pd_GameID d) @
        [(''kind'', JString (string_of_type (pd_Kind d)))] @
        money @
        (case pd_ReferenceTransactionID d of
           None \<Rightarrow> [] | Some i \<Rightarrow> [(''referenceTransactionId'', json_uuid E i)])))
     (json_moneys E [(''money'', pd_Money d), (''balanceBefore'', pd_BalanceBefore d),
                     (''balanceAfter'', pd_BalanceAfter d)])"

definition marshal_rejected :: "'d Env \<Rightarrow> 'd WagerTransactionRejectedData \<Rightarrow> err + json" where
  "marshal_rejected E d =
     map_sum id (\<lambda>money. JObject
       ([(''transactionId'', json_uuid E (rd_TransactionID d)),
         (''providerId'', JString (rd_ProviderID d)),
         (''externalTransactionId'', JString (rd_ExternalTransactionID d)),
         (''walletId'', json_uuid E (rd_WalletID d)), (''playerId'', json_uuid E (rd_PlayerID d)),
         (''roundId'', JString (rd_RoundID d)), (''gameId'', JString (rd_GameID d)),
         (''kind'', JString (string_of_type (rd_Kind d)))] @
        money @
        [(''failureCode'', JString (rd_FailureCode d))] @
        omitempty ''failureMessage'' (rd_FailureMessage d)))
     (json_moneys E [(''money'', rd_Money d)])"

definition marshal_balance_changed :: "'d Env \<Rightarrow> 'd WalletBalanceChangedData \<Rightarrow> err + json" where
  "marshal_balance_changed E d =
     map_sum id (\<lambda>money. JObject
       ([(''walletId'', json_uuid E (bd_WalletID d)), (''playerId'', json_uuid E (bd_PlayerID d)),
         (''transactionId'', json_uuid E (bd_TransactionID d)),
         (''direction'', JString (string_of_direction (bd_Direction d)))] @
        money @
        [(''walletVersion'', JInt (bd_WalletVersion d))]))
     (json_moneys E [(''money'', bd_Money d), (''balanceBefore'', bd_BalanceBefore d),
                     (''balanceAfter'', bd_BalanceAfter d)])"

definition marshal_pending_reference :: "'d Env \<Rightarrow> 'd WagerTransactionPendingReferenceData \<Rightarrow> err + json" where
  "marshal_pending_reference E d =
     map_sum id (\<lambda>money. JObject
       ([(''transactionId'', json_uuid E (qd_TransactionID d)),
         (''providerId'', JString (qd_ProviderID d)),
         (''externalTransactionId'', JString (qd_ExternalTransactionID d)),
         (''referenceExternalTransactionId'', JString (qd_ReferenceExternalTransactionID d)),
         (''walletId'', json_uuid E (qd_WalletID d)), (''playerId'', json_uuid E (qd_PlayerID d)),
         (''roundId'', JString (qd_RoundID d)), (''gameId'', JString (qd_GameID d)),
         (''kind'', JString (string_of_type (qd_Kind d)))] @
        money))
     (json_moneys E [(''money'', qd_Money d)])"

text \<open>\<^verbatim>\<open>Envelope\<close>: the snapshot of an event, its data as JSON.\<close>

definition Envelope :: "('t \<Rightarrow> err + json) \<Rightarrow> 't Event \<Rightarrow> err + EventEnvelope" where
  "Envelope marshal e =
     (case marshal (ev_Data e) of
        Inl err \<Rightarrow> Inl err
      | Inr data \<Rightarrow>
          Inr \<lparr>ev_EventID = ev_EventID e, ev_EventType = ev_EventType e,
               ev_AggregateID = ev_AggregateID e, ev_CorrelationID = ev_CorrelationID e,
               ev_CausationID = ev_CausationID e, ev_OccurredAt = ev_OccurredAt e,
               ev_Version = ev_Version e, ev_Data = data\<rparr>)"

section \<open>The data of an event\<close>

definition processedEventData :: "'d WagerTransaction \<Rightarrow> err + 'd WagerTransactionProcessedData" where
  "processedEventData transaction =
     (case (tx_balanceBefore transaction, tx_balanceAfter transaction) of
        (Some before, Some after) \<Rightarrow>
          Inr \<lparr>pd_TransactionID = tx_id transaction,
               pd_ProviderID = tx_providerID transaction,
               pd_ExternalTransactionID = tx_externalTransactionID transaction,
               pd_WalletID = tx_walletID transaction,
               pd_PlayerID = tx_playerID transaction,
               pd_RoundID = tx_roundID transaction,
               pd_GameID = tx_gameID transaction,
               pd_Kind = tx_type transaction,
               pd_Money = tx_amount transaction,
               pd_BalanceBefore = before,
               pd_BalanceAfter = after,
               pd_ReferenceTransactionID =
                 (if tx_referenceTransactionID transaction \<noteq> uuid_Nil
                  then Some (tx_referenceTransactionID transaction) else None)\<rparr>
      | _ \<Rightarrow> Inl (DomainErr ErrInvalidWagerState))"

definition balanceChangedEventData ::
  "'d Wallet \<Rightarrow> 'd WalletLedgerEntry \<Rightarrow> 'd WalletBalanceChangedData" where
  "balanceChangedEventData wallet entry =
     \<lparr>bd_WalletID = wallet_id wallet,
      bd_PlayerID = wallet_playerID wallet,
      bd_TransactionID = entry_transactionID entry,
      bd_Direction = entry_direction entry,
      bd_Money = entry_amount entry,
      bd_BalanceBefore = entry_balanceBefore entry,
      bd_BalanceAfter = entry_balanceAfter entry,
      bd_WalletVersion = wallet_version wallet\<rparr>"

lemma newEvent_Inr:
  "newEvent E ty agg md t d w = (Inr ev, w') \<Longrightarrow>
     w' = w\<lparr>w_step := Suc (w_step w)\<rparr> \<and>
     ev = \<lparr>ev_EventID = E_uuid E (w_step w), ev_EventType = ty, ev_AggregateID = agg,
          ev_CorrelationID = CorrelationID md, ev_CausationID = CausationID md,
          ev_OccurredAt = t, ev_Version = 1, ev_Data = d\<rparr>"
  by (auto simp: newEvent_def bind_act_Inr uuid_New_Inr eventVersion_def)

end
