(* ===== verification/Repositories.thy ===== *)
theory Repositories
  imports Events
begin

text \<open>
  The repositories of \<^verbatim>\<open>internal/infrastructure/postgres\<close> the application services use:
  \<^verbatim>\<open>wallet_repository.go\<close>, \<^verbatim>\<open>wager_repository.go\<close>, \<^verbatim>\<open>wallet_ledger_repository.go\<close>,
  \<^verbatim>\<open>outbox_repository.go\<close> and \<^verbatim>\<open>inbox_repository.go\<close>. Each method is the statement it sends, run by
  \<open>exec_stmt\<close>, \<open>query\<close> or \<open>query_row\<close>, and what it makes of the answer.
\<close>

section \<open>Conversions\<close>

definition nullableString :: "string \<Rightarrow> string option" where
  "nullableString value = (if value = [] then None else Some value)"

definition nullableUUID :: "uuid \<Rightarrow> uuid option" where
  "nullableUUID value = (if value = uuid_Nil then None else Some value)"

definition nullableWagerType :: "WagerTransactionType \<Rightarrow> WagerTransactionType option" where
  "nullableWagerType value = (if value = NoType then None else Some value)"

definition stringValue :: "string option \<Rightarrow> string" where
  "stringValue value = (case value of None \<Rightarrow> [] | Some s \<Rightarrow> s)"

definition uuidValue :: "uuid option \<Rightarrow> uuid" where
  "uuidValue value = (case value of None \<Rightarrow> uuid_Nil | Some u \<Rightarrow> u)"

definition typeValue :: "WagerTransactionType option \<Rightarrow> WagerTransactionType" where
  "typeValue value = (case value of None \<Rightarrow> NoType | Some t \<Rightarrow> t)"

text \<open>An amount sent as the text of \<^verbatim>\<open>Amount()\<close> and cast to a number.\<close>

definition numeric_arg :: "'d Env \<Rightarrow> 'd Money \<Rightarrow> infra_error + int" where
  "numeric_arg E m =
     (case numeric_in (Money_Amount (E_decimal E) m) of
        None \<Rightarrow> Inl (PgError ''22P02'' []) | Some n \<Rightarrow> Inr n)"

definition numeric_opt_arg :: "'d Env \<Rightarrow> 'd Money option \<Rightarrow> infra_error + int option" where
  "numeric_opt_arg E m =
     (case m of None \<Rightarrow> Inr None | Some x \<Rightarrow> map_sum id Some (numeric_arg E x))"

definition wagerBalanceBefore :: "'d Env \<Rightarrow> 'd WagerTransaction \<Rightarrow> infra_error + int option" where
  "wagerBalanceBefore E transaction = numeric_opt_arg E (tx_balanceBefore transaction)"

definition wagerBalanceAfter :: "'d Env \<Rightarrow> 'd WagerTransaction \<Rightarrow> infra_error + int option" where
  "wagerBalanceAfter E transaction = numeric_opt_arg E (tx_balanceAfter transaction)"

text \<open>The error of a row that is not there.\<close>

definition not_found :: "err \<Rightarrow> err" where
  "not_found e = (if errors_Is e (InfraErr ErrNoRows) then AppErr ErrNotFound else e)"

definition scan_row :: "'a act \<Rightarrow> ('a \<Rightarrow> err + 'b) \<Rightarrow> 'b act" where
  "scan_row row decode = match_act row (\<lambda>e. throw (not_found e)) (\<lambda>r. lift_sum (decode r))"

section \<open>Wallets\<close>

definition scanWallet :: "'d Env \<Rightarrow> wallet_row \<Rightarrow> err + 'd Wallet" where
  "scanWallet E r =
     (case NewCurrency (wr_currency r) of
        Inl e \<Rightarrow> Inl e
      | Inr walletCurrency \<Rightarrow>
     (case ParseMoney (E_decimal E) (fixed2 (wr_balance r)) walletCurrency of
        Inl e \<Rightarrow> Inl e
      | Inr walletBalance \<Rightarrow>
          RehydrateWallet (E_decimal E) (wr_id r) (wr_player_id r) walletBalance (wr_version r)
            (wr_created_at r) (wr_updated_at r)))"

definition wallet_row_of :: "'d Env \<Rightarrow> 'd Wallet \<Rightarrow> infra_error + wallet_row" where
  "wallet_row_of E wallet =
     map_sum id (\<lambda>balance.
       \<lparr>wr_id = wallet_id wallet, wr_player_id = wallet_playerID wallet,
        wr_currency = Currency_Code (money_currency (wallet_balance wallet)), wr_balance = balance,
        wr_version = wallet_version wallet, wr_created_at = wallet_createdAt wallet,
        wr_updated_at = wallet_updatedAt wallet\<rparr>)
     (numeric_arg E (wallet_balance wallet))"

definition WalletRepository_Create :: "'d Env \<Rightarrow> Context \<Rightarrow> 'd Wallet \<Rightarrow> unit act" where
  "WalletRepository_Create E ctx wallet =
     match_act
       (exec_stmt E ctx (\<lambda>db. case wallet_row_of E wallet of Inl e \<Rightarrow> Inl e | Inr r \<Rightarrow> insert_wallet r db))
       (\<lambda>e. if isUniqueViolation e then throw (AppErr ErrAlreadyExists) else throw e)
       (\<lambda>_. ret ())"

definition WalletRepository_FindByID :: "'d Env \<Rightarrow> Context \<Rightarrow> uuid \<Rightarrow> 'd Wallet act" where
  "WalletRepository_FindByID E ctx uid =
     scan_row (query_row E ctx (\<lambda>db. find (\<lambda>r. wr_id r = uid) (wallets db))) (scanWallet E)"

definition WalletRepository_FindByIDForUpdate :: "'d Env \<Rightarrow> Context \<Rightarrow> uuid \<Rightarrow> 'd Wallet act" where
  "WalletRepository_FindByIDForUpdate E ctx uid =
     (if \<not> in_tx ctx then throw ErrTransactionRequired
      else scan_row (query_row E ctx (\<lambda>db. find (\<lambda>r. wr_id r = uid) (wallets db))) (scanWallet E))"

definition WalletRepository_FindByPlayerAndCurrency ::
  "'d Env \<Rightarrow> Context \<Rightarrow> uuid \<Rightarrow> Currency \<Rightarrow> 'd Wallet act" where
  "WalletRepository_FindByPlayerAndCurrency E ctx playerID currency =
     scan_row
       (query_row E ctx (\<lambda>db. find (\<lambda>r. wr_player_id r = playerID \<and> wr_currency r = Currency_Code currency)
                                (wallets db)))
       (scanWallet E)"

text \<open>The assignments of the \<^verbatim>\<open>UPDATE\<close> of a wallet.\<close>

definition wallet_assign :: "'d Wallet \<Rightarrow> int \<Rightarrow> wallet_row \<Rightarrow> wallet_row" where
  "wallet_assign wallet balance r =
     r\<lparr>wr_balance := balance, wr_version := wallet_version wallet, wr_updated_at := wallet_updatedAt wallet\<rparr>"

definition WalletRepository_Update :: "'d Env \<Rightarrow> Context \<Rightarrow> 'd Wallet \<Rightarrow> unit act" where
  "WalletRepository_Update E ctx wallet =
     (if \<not> in_tx ctx then throw ErrTransactionRequired
      else bind_act
        (exec_stmt E ctx (\<lambda>db.
           case numeric_arg E (wallet_balance wallet) of
             Inl e \<Rightarrow> Inl e
           | Inr balance \<Rightarrow>
               if \<not> in_int64 (wallet_version wallet - 1) then Inl (PgError ''22003'' [])
               else update_wallets
                 (\<lambda>r. wr_id r = wallet_id wallet \<and> wr_version r = wallet_version wallet - 1)
                 (wallet_assign wallet balance)
                 db))
        (\<lambda>n. if n = 0 then throw (AppErr ErrConcurrentUpdate) else ret ()))"

section \<open>Wager transactions\<close>

definition nullableMoney :: "'d Env \<Rightarrow> int option \<Rightarrow> Currency \<Rightarrow> err + 'd Money option" where
  "nullableMoney E amount currency =
     (case amount of
        None \<Rightarrow> Inr None
      | Some n \<Rightarrow> map_sum id Some (ParseMoney (E_decimal E) (fixed2 n) currency))"

definition scanWager :: "'d Env \<Rightarrow> wager_row \<Rightarrow> err + 'd WagerTransaction" where
  "scanWager E r =
     (case NewCurrency (wg_currency r) of
        Inl e \<Rightarrow> Inl e
      | Inr currency \<Rightarrow>
     (case ParseMoney (E_decimal E) (fixed2 (wg_amount r)) currency of
        Inl e \<Rightarrow> Inl e
      | Inr transactionAmount \<Rightarrow>
     (case nullableMoney E (wg_balance_before r) currency of
        Inl e \<Rightarrow> Inl e
      | Inr before \<Rightarrow>
     (case nullableMoney E (wg_balance_after r) currency of
        Inl e \<Rightarrow> Inl e
      | Inr after \<Rightarrow>
          RehydrateWagerTransaction (E_decimal E)
            \<lparr>rp_ID = wg_id r,
             rp_ProviderID = stringValue (wg_provider_id r),
             rp_ExternalTransactionID = stringValue (wg_external_transaction_id r),
             rp_IdempotencyKey = stringValue (wg_idempotency_key r),
             rp_PayloadHash = stringValue (wg_payload_hash r),
             rp_WalletID = wg_wallet_id r,
             rp_PlayerID = wg_player_id r,
             rp_RoundID = stringValue (wg_round_id r),
             rp_GameID = stringValue (wg_game_id r),
             rp_Type = wg_type r,
             rp_Amount = transactionAmount,
             rp_ReferenceExternalTransactionID = stringValue (wg_reference_external_transaction_id r),
             rp_ReferenceTransactionID = uuidValue (wg_reference_transaction_id r),
             rp_ReferenceTransactionType = typeValue (wg_reference_transaction_type r),
             rp_Status = wg_status r,
             rp_FailureCode = stringValue (wg_failure_code r),
             rp_FailureMessage = stringValue (wg_failure_message r),
             rp_BalanceBefore = before,
             rp_BalanceAfter = after,
             rp_CreatedAt = wg_created_at r,
             rp_UpdatedAt = wg_updated_at r,
             rp_CompletedAt = wg_completed_at r\<rparr>))))"

text \<open>The row a transaction is inserted as; the columns \<^verbatim>\<open>Create\<close> leaves out have their defaults.\<close>

definition wager_row_of :: "'d Env \<Rightarrow> 'd WagerTransaction \<Rightarrow> infra_error + wager_row" where
  "wager_row_of E tx =
     (case numeric_arg E (tx_amount tx) of
        Inl e \<Rightarrow> Inl e
      | Inr amount \<Rightarrow>
     (case wagerBalanceBefore E tx of
        Inl e \<Rightarrow> Inl e
      | Inr before \<Rightarrow>
     (case wagerBalanceAfter E tx of
        Inl e \<Rightarrow> Inl e
      | Inr after \<Rightarrow>
          Inr \<lparr>wg_id = tx_id tx,
               wg_provider_id = nullableString (tx_providerID tx),
               wg_external_transaction_id = nullableString (tx_externalTransactionID tx),
               wg_idempotency_key = nullableString (tx_idempotencyKey tx),
               wg_payload_hash = nullableString (tx_payloadHash tx),
               wg_wallet_id = tx_walletID tx,
               wg_player_id = tx_playerID tx,
               wg_round_id = nullableString (tx_roundID tx),
               wg_game_id = nullableString (tx_gameID tx),
               wg_type = tx_type tx,
               wg_amount = amount,
               wg_currency = Currency_Code (money_currency (tx_amount tx)),
               wg_reference_external_transaction_id = nullableString (tx_referenceExternalTransactionID tx),
               wg_reference_transaction_id = nullableUUID (tx_referenceTransactionID tx),
               wg_reference_transaction_type = nullableWagerType (tx_referenceTransactionType tx),
               wg_status = tx_status tx,
               wg_failure_code = nullableString (tx_failureCode tx),
               wg_failure_message = nullableString (tx_failureMessage tx),
               wg_balance_before = before,
               wg_balance_after = after,
               wg_next_reference_attempt_at = None,
               wg_reference_expires_at = None,
               wg_created_at = tx_createdAt tx,
               wg_updated_at = tx_updatedAt tx,
               wg_completed_at = tx_completedAt tx,
               wg_reference_retry_count = 0,
               wg_reference_correlation_id = None,
               wg_reference_causation_id = None\<rparr>)))"

definition mapWagerCreateError :: "err \<Rightarrow> err" where
  "mapWagerCreateError e =
     (case as_PgError e of
        None \<Rightarrow> e
      | Some (code, constraint) \<Rightarrow>
          if code = ''23503'' \<and> constraint = ''fk_wager_transactions_wallet_currency''
          then AppErr ErrInvalidWalletReference else e)"

definition WagerRepository_Create :: "'d Env \<Rightarrow> Context \<Rightarrow> 'd WagerTransaction \<Rightarrow> unit act" where
  "WagerRepository_Create E ctx transaction =
     match_act
       (exec_stmt E ctx (\<lambda>db. case wager_row_of E transaction of Inl e \<Rightarrow> Inl e | Inr r \<Rightarrow> insert_wager r db))
       (\<lambda>e. throw (mapWagerCreateError e))
       (\<lambda>n. if n = 0 then throw (AppErr ErrAlreadyExists) else ret ())"

text \<open>The assignments of the \<^verbatim>\<open>UPDATE\<close> of a transaction.\<close>

definition wager_assign :: "'d WagerTransaction \<Rightarrow> int option \<Rightarrow> int option \<Rightarrow> wager_row \<Rightarrow> wager_row" where
  "wager_assign transaction before after r =
     r\<lparr>wg_reference_transaction_id := nullableUUID (tx_referenceTransactionID transaction),
       wg_reference_transaction_type := nullableWagerType (tx_referenceTransactionType transaction),
       wg_status := tx_status transaction,
       wg_failure_code := nullableString (tx_failureCode transaction),
       wg_failure_message := nullableString (tx_failureMessage transaction),
       wg_balance_before := before,
       wg_balance_after := after,
       wg_reference_retry_count := 0,
       wg_next_reference_attempt_at := None,
       wg_reference_expires_at := None,
       wg_reference_correlation_id := None,
       wg_reference_causation_id := None,
       wg_updated_at := tx_updatedAt transaction,
       wg_completed_at := tx_completedAt transaction\<rparr>"

definition WagerRepository_Update :: "'d Env \<Rightarrow> Context \<Rightarrow> 'd WagerTransaction \<Rightarrow> unit act" where
  "WagerRepository_Update E ctx transaction =
     bind_act
       (exec_stmt E ctx (\<lambda>db.
          case wagerBalanceBefore E transaction of
            Inl e \<Rightarrow> Inl e
          | Inr before \<Rightarrow>
         (case wagerBalanceAfter E transaction of
            Inl e \<Rightarrow> Inl e
          | Inr after \<Rightarrow>
              update_wagers (\<lambda>r. wg_id r = tx_id transaction)
                (wager_assign transaction before after)
                db)))
       (\<lambda>n. if n = 0 then throw (AppErr ErrNotFound) else ret ())"

definition WagerRepository_UpdatePendingReference ::
  "'d Env \<Rightarrow> Context \<Rightarrow> 'd WagerTransaction \<Rightarrow> time \<Rightarrow> time \<Rightarrow> CommandMetadata \<Rightarrow> unit act" where
  "WagerRepository_UpdatePendingReference E ctx transaction nextAttemptAt expiresAt metadata =
     bind_act
       (exec_stmt E ctx
          (update_wagers (\<lambda>r. wg_id r = tx_id transaction)
             (\<lambda>r. r\<lparr>wg_status := tx_status transaction,
                    wg_updated_at := tx_updatedAt transaction,
                    wg_reference_retry_count := 0,
                    wg_next_reference_attempt_at := Some nextAttemptAt,
                    wg_reference_expires_at := Some expiresAt,
                    wg_reference_correlation_id := Some (CorrelationID metadata),
                    wg_reference_causation_id := nullableString (CausationID metadata)\<rparr>)))
       (\<lambda>n. if n = 0 then throw (AppErr ErrNotFound) else ret ())"

definition WagerRepository_FindByID :: "'d Env \<Rightarrow> Context \<Rightarrow> uuid \<Rightarrow> 'd WagerTransaction act" where
  "WagerRepository_FindByID E ctx uid =
     scan_row (query_row E ctx (\<lambda>db. find (\<lambda>r. wg_id r = uid) (wagers db))) (scanWager E)"

text \<open>A query with text parameters.\<close>

definition query_row_text :: "'d Env \<Rightarrow> Context \<Rightarrow> string list \<Rightarrow> (DB \<Rightarrow> 'a option) \<Rightarrow> 'a act" where
  "query_row_text E ctx texts q =
     bind_act
       (request E ctx (\<lambda>now clk db.
          if \<not> list_all pg_text_ok texts then Inl invalid_text else Inr (q db, db)))
       (\<lambda>r. case r of None \<Rightarrow> throw (InfraErr ErrNoRows) | Some a \<Rightarrow> ret a)"

definition FindByProviderAndExternalTransactionID ::
  "'d Env \<Rightarrow> Context \<Rightarrow> string \<Rightarrow> string \<Rightarrow> 'd WagerTransaction act" where
  "FindByProviderAndExternalTransactionID E ctx providerID externalTransactionID =
     scan_row
       (query_row_text E ctx [providerID, externalTransactionID]
          (\<lambda>db. find (\<lambda>r. wg_provider_id r = Some providerID \<and>
                           wg_external_transaction_id r = Some externalTransactionID) (wagers db)))
       (scanWager E)"

definition FindByProviderAndIdempotencyKey ::
  "'d Env \<Rightarrow> Context \<Rightarrow> string \<Rightarrow> string \<Rightarrow> 'd WagerTransaction act" where
  "FindByProviderAndIdempotencyKey E ctx providerID idempotencyKey =
     scan_row
       (query_row_text E ctx [providerID, idempotencyKey]
          (\<lambda>db. find (\<lambda>r. wg_provider_id r = Some providerID \<and>
                           wg_idempotency_key r = Some idempotencyKey) (wagers db)))
       (scanWager E)"

definition HasProcessedDirectReversal :: "'d Env \<Rightarrow> Context \<Rightarrow> uuid \<Rightarrow> bool act" where
  "HasProcessedDirectReversal E ctx referenceTransactionID =
     query E ctx (\<lambda>db. list_ex (\<lambda>r. wg_reference_transaction_id r = Some referenceTransactionID \<and>
                                 is_reversal r) (wagers db))"

record 'd PendingReferenceWork =
  work_Transaction :: "'d WagerTransaction"
  work_RetryCount :: int
  work_ExpiresAt :: time
  work_Metadata :: CommandMetadata

text \<open>The rows due at an instant, in the order of the query; the first of equals is the first inserted.\<close>

definition due_rows :: "time \<Rightarrow> DB \<Rightarrow> wager_row list" where
  "due_rows now db =
     sort_key (\<lambda>r. case wg_next_reference_attempt_at r of None \<Rightarrow> 0 | Some t \<Rightarrow> t)
       (sort_key wg_created_at
          (filter (\<lambda>r. wg_status r = PENDING_REFERENCE \<and>
                       (case wg_next_reference_attempt_at r of None \<Rightarrow> False | Some t \<Rightarrow> t \<le> now))
             (wagers db)))"

definition scanPendingReferenceWork ::
  "'d Env \<Rightarrow> Context \<Rightarrow> wager_row act \<Rightarrow> 'd PendingReferenceWork act" where
  "scanPendingReferenceWork E ctx row =
     match_act row (\<lambda>e. throw (not_found e)) (\<lambda>r.
     case wg_reference_expires_at r of
       None \<Rightarrow> throw (OtherError ''cannot scan NULL into time.Time'')
     | Some expiresAt \<Rightarrow>
         bind_act (WagerRepository_FindByID E ctx (wg_id r)) (\<lambda>transaction.
         ret \<lparr>work_Transaction = transaction,
              work_RetryCount = wg_reference_retry_count r,
              work_ExpiresAt = expiresAt,
              work_Metadata = \<lparr>CorrelationID = stringValue (wg_reference_correlation_id r),
                               CausationID = stringValue (wg_reference_causation_id r)\<rparr>\<rparr>))"

definition FindDuePendingReferenceForUpdate ::
  "'d Env \<Rightarrow> Context \<Rightarrow> time \<Rightarrow> 'd PendingReferenceWork act" where
  "FindDuePendingReferenceForUpdate E ctx now =
     scanPendingReferenceWork E ctx
       (query_row E ctx (\<lambda>db. case due_rows now db of [] \<Rightarrow> None | r # _ \<Rightarrow> Some r))"

definition FindPendingReferenceForUpdate ::
  "'d Env \<Rightarrow> Context \<Rightarrow> uuid \<Rightarrow> 'd PendingReferenceWork act" where
  "FindPendingReferenceForUpdate E ctx transactionID =
     scanPendingReferenceWork E ctx
       (query_row E ctx
          (\<lambda>db. find (\<lambda>r. wg_id r = transactionID \<and> wg_status r = PENDING_REFERENCE) (wagers db)))"

text \<open>The retry count is sent as an \<^verbatim>\<open>INTEGER\<close> of 32 bits.\<close>

definition SchedulePendingReferenceRetry ::
  "'d Env \<Rightarrow> Context \<Rightarrow> uuid \<Rightarrow> int \<Rightarrow> time \<Rightarrow> unit act" where
  "SchedulePendingReferenceRetry E ctx transactionID retryCount nextAttemptAt =
     bind_act
       (request E ctx (\<lambda>now clk db.
          if 2 ^ 31 \<le> retryCount \<or> retryCount < - (2 ^ 31) then Inl (PgError ''22003'' [])
          else update_wagers (\<lambda>r. wg_id r = transactionID \<and> wg_status r = PENDING_REFERENCE)
                 (\<lambda>r. r\<lparr>wg_reference_retry_count := retryCount,
                        wg_next_reference_attempt_at := Some nextAttemptAt,
                        wg_updated_at := clk\<rparr>) db))
       (\<lambda>n. if n = 0 then throw (AppErr ErrNotFound) else ret ())"

section \<open>Ledger\<close>

definition ledger_row_of :: "'d Env \<Rightarrow> 'd WalletLedgerEntry \<Rightarrow> infra_error + ledger_row" where
  "ledger_row_of E entry =
     (case numeric_arg E (entry_amount entry) of
        Inl e \<Rightarrow> Inl e
      | Inr amount \<Rightarrow>
     (case numeric_arg E (entry_balanceBefore entry) of
        Inl e \<Rightarrow> Inl e
      | Inr before \<Rightarrow>
     (case numeric_arg E (entry_balanceAfter entry) of
        Inl e \<Rightarrow> Inl e
      | Inr after \<Rightarrow>
          Inr \<lparr>lr_id = entry_id entry,
               lr_wallet_id = entry_walletID entry,
               lr_transaction_id = entry_transactionID entry,
               lr_direction = entry_direction entry,
               lr_amount = amount,
               lr_currency = Currency_Code (money_currency (entry_amount entry)),
               lr_balance_before = before,
               lr_balance_after = after,
               lr_created_at = entry_createdAt entry\<rparr>)))"

definition WalletLedgerRepository_Create :: "'d Env \<Rightarrow> Context \<Rightarrow> 'd WalletLedgerEntry \<Rightarrow> unit act" where
  "WalletLedgerRepository_Create E ctx entry =
     (if \<not> in_tx ctx then throw ErrTransactionRequired
      else bind_act
        (exec_stmt E ctx (\<lambda>db. case ledger_row_of E entry of Inl e \<Rightarrow> Inl e | Inr r \<Rightarrow> insert_ledger r db))
        (\<lambda>_. ret ()))"

definition scan_ledger :: "'d Env \<Rightarrow> ledger_row \<Rightarrow> err + 'd WalletLedgerEntry" where
  "scan_ledger E r =
     (case NewCurrency (lr_currency r) of
        Inl e \<Rightarrow> Inl e
      | Inr currency \<Rightarrow>
     (case ParseMoney (E_decimal E) (fixed2 (lr_amount r)) currency of
        Inl e \<Rightarrow> Inl e
      | Inr entryAmount \<Rightarrow>
     (case ParseMoney (E_decimal E) (fixed2 (lr_balance_before r)) currency of
        Inl e \<Rightarrow> Inl e
      | Inr before \<Rightarrow>
     (case ParseMoney (E_decimal E) (fixed2 (lr_balance_after r)) currency of
        Inl e \<Rightarrow> Inl e
      | Inr after \<Rightarrow>
          RehydrateWalletLedgerEntry (E_decimal E) (lr_id r) (lr_wallet_id r) (lr_transaction_id r)
            (lr_direction r) entryAmount before after (lr_created_at r)))))"

fun scan_all :: "('r \<Rightarrow> err + 'a) \<Rightarrow> 'r list \<Rightarrow> err + 'a list" where
  "scan_all f [] = Inr []"
| "scan_all f (r # rs) =
     (case f r of Inl e \<Rightarrow> Inl e | Inr a \<Rightarrow> map_sum id (\<lambda>xs. a # xs) (scan_all f rs))"

text \<open>
  The order of the ledger, newest first: \<^verbatim>\<open>ORDER BY created_at DESC, id DESC\<close>, and the comparison
  of the row \<^verbatim>\<open>(created_at, id)\<close> with the cursor.
\<close>

definition ledger_order :: "ledger_row list \<Rightarrow> ledger_row list" where
  "ledger_order rows = rev (sort_key lr_created_at (sort_key lr_id rows))"

definition before_cursor :: "time \<Rightarrow> uuid \<Rightarrow> ledger_row \<Rightarrow> bool" where
  "before_cursor t u r \<longleftrightarrow> lr_created_at r < t \<or> (lr_created_at r = t \<and> lr_id r < u)"

definition ListByWallet_rows :: "uuid \<Rightarrow> time option \<Rightarrow> uuid option \<Rightarrow> int \<Rightarrow> DB \<Rightarrow> ledger_row list" where
  "ListByWallet_rows walletID beforeCreatedAt beforeID limit db =
     take (nat limit)
       (ledger_order
          (filter (\<lambda>r. lr_wallet_id r = walletID \<and>
                       (case (beforeCreatedAt, beforeID) of
                          (Some t, Some u) \<Rightarrow> before_cursor t u r | _ \<Rightarrow> True))
             (ledger db)))"

definition ListByWallet ::
  "'d Env \<Rightarrow> Context \<Rightarrow> uuid \<Rightarrow> time option \<Rightarrow> uuid option \<Rightarrow> int \<Rightarrow> 'd WalletLedgerEntry list act" where
  "ListByWallet E ctx walletID beforeCreatedAt beforeID limit =
     bind_act
       (request E ctx (\<lambda>now clk db.
          if limit < 0 then Inl (PgError ''2201W'' [])
          else Inr (ListByWallet_rows walletID beforeCreatedAt beforeID limit db, db)))
       (\<lambda>rows. lift_sum (scan_all (scan_ledger E) rows))"

record 'd ReconciliationSnapshot =
  snap_StoredBalance :: "'d Money"
  snap_CalculatedBalance :: "'d Money"
  snap_CheckedEntries :: nat

definition parseSignedMoney :: "'d Env \<Rightarrow> string \<Rightarrow> Currency \<Rightarrow> err + 'd Money" where
  "parseSignedMoney E amount currency =
     (let negative = HasPrefix amount ''-'';
          body = (if negative then tl amount else amount)
      in case ParseMoney (E_decimal E) body currency of
           Inl e \<Rightarrow> Inl e
         | Inr money \<Rightarrow> if \<not> negative then Inr money else Money_Negate (E_decimal E) money)"

definition wallet_entries :: "uuid \<Rightarrow> DB \<Rightarrow> ledger_row list" where
  "wallet_entries walletID db = filter (\<lambda>l. lr_wallet_id l = walletID) (ledger db)"

definition entries_sum :: "ledger_row list \<Rightarrow> int" where
  "entries_sum ls = sum_list (map (\<lambda>l. if lr_direction l = CREDIT then lr_amount l else - lr_amount l) ls)"

definition ReconciliationSnapshot_of ::
  "'d Env \<Rightarrow> Context \<Rightarrow> uuid \<Rightarrow> 'd ReconciliationSnapshot act" where
  "ReconciliationSnapshot_of E ctx walletID =
     match_act
       (bind_act
          (request E ctx (\<lambda>now clk db.
             let total = entries_sum (wallet_entries walletID db)
             in if find (\<lambda>w. wr_id w = walletID) (wallets db) \<noteq> None \<and> \<not> numeric_20_2 total
                then Inl (PgError ''22003'' [])
                else Inr (map_option
                       (\<lambda>w. (wr_currency w, fixed2 (wr_balance w), fixed2 total,
                             length (wallet_entries walletID db)))
                       (find (\<lambda>w. wr_id w = walletID) (wallets db)), db)))
          (\<lambda>r. case r of None \<Rightarrow> throw (InfraErr ErrNoRows) | Some a \<Rightarrow> ret a))
       (\<lambda>e. throw (not_found e))
       (\<lambda>(currencyCode, stored, calculated, count).
          lift_sum
            (case NewCurrency currencyCode of
               Inl e \<Rightarrow> Inl e
             | Inr currency \<Rightarrow>
            (case ParseMoney (E_decimal E) stored currency of
               Inl e \<Rightarrow> Inl e
             | Inr storedBalance \<Rightarrow>
            (case parseSignedMoney E calculated currency of
               Inl e \<Rightarrow> Inl e
             | Inr calculatedBalance \<Rightarrow>
                 Inr \<lparr>snap_StoredBalance = storedBalance,
                      snap_CalculatedBalance = calculatedBalance,
                      snap_CheckedEntries = count\<rparr>))))"

section \<open>Outbox and inbox\<close>

definition OutboxRepository_Create :: "'d Env \<Rightarrow> Context \<Rightarrow> err + EventEnvelope \<Rightarrow> unit act" where
  "OutboxRepository_Create E ctx event =
     (if \<not> in_tx ctx then throw ErrTransactionRequired
      else bind_act (lift_sum event) (\<lambda>envelope.
        bind_act
          (request E ctx (\<lambda>now clk db.
             insert_outbox
               \<lparr>ob_event_id = ev_EventID envelope,
                ob_event_type = ev_EventType envelope,
                ob_aggregate_id = ev_AggregateID envelope,
                ob_correlation_id = ev_CorrelationID envelope,
                ob_causation_id = nullableString (ev_CausationID envelope),
                ob_version = ev_Version envelope,
                ob_payload = ev_Data envelope,
                ob_occurred_at = ev_OccurredAt envelope,
                ob_attempts = 0,
                ob_next_attempt_at = now,
                ob_claimed_by = None,
                ob_claimed_until = None,
                ob_published_at = None,
                ob_created_at = now\<rparr> db))
          (\<lambda>_. ret ())))"

definition InboxRepository_Register ::
  "'d Env \<Rightarrow> Context \<Rightarrow> string \<Rightarrow> string \<Rightarrow> string \<Rightarrow> bool act" where
  "InboxRepository_Register E ctx consumerName messageID messageHash =
     bind_act
       (request E ctx (\<lambda>now clk.
          insert_inbox \<lparr>ib_consumer_name = consumerName, ib_message_id = messageID,
                        ib_message_hash = messageHash, ib_received_at = now, ib_completed_at = None\<rparr>))
       (\<lambda>inserted.
          if inserted \<noteq> 0 then ret False
          else match_act
            (query_row_text E ctx [consumerName, messageID]
               (\<lambda>db. find (\<lambda>r. ib_consumer_name r = consumerName \<and> ib_message_id r = messageID) (inbox db)))
            (\<lambda>e. throw (if errors_Is e (InfraErr ErrNoRows) then AppErr ErrInboxMessageNotFound else e))
            (\<lambda>r. if ib_message_hash r \<noteq> messageHash then throw (AppErr ErrInboxMessageConflict)
                 else ret (ib_completed_at r \<noteq> None)))"

definition InboxRepository_Complete ::
  "'d Env \<Rightarrow> Context \<Rightarrow> string \<Rightarrow> string \<Rightarrow> time \<Rightarrow> unit act" where
  "InboxRepository_Complete E ctx consumerName messageID completedAt =
     bind_act
       (exec_stmt E ctx
          (update_inbox
             (\<lambda>r. ib_consumer_name r = consumerName \<and> ib_message_id r = messageID \<and> ib_completed_at r = None)
             (\<lambda>r. r\<lparr>ib_completed_at := Some completedAt\<rparr>)))
       (\<lambda>n. if n \<noteq> 1 then throw (AppErr ErrInboxMessageNotFound) else ret ())"

section \<open>Rows and transactions\<close>

text \<open>
  A row represents a transaction when its columns are the fields of the transaction, its numbers the
  hundredths of the amounts. The retry columns of a row have no counterpart in the transaction.
\<close>

definition row_params ::
  "wager_row \<Rightarrow> 'd Money \<Rightarrow> 'd Money option \<Rightarrow> 'd Money option \<Rightarrow> 'd RehydrateWagerTransactionParams" where
  "row_params r amount before after =
     \<lparr>rp_ID = wg_id r, rp_ProviderID = stringValue (wg_provider_id r),
      rp_ExternalTransactionID = stringValue (wg_external_transaction_id r),
      rp_IdempotencyKey = stringValue (wg_idempotency_key r),
      rp_PayloadHash = stringValue (wg_payload_hash r), rp_WalletID = wg_wallet_id r,
      rp_PlayerID = wg_player_id r, rp_RoundID = stringValue (wg_round_id r),
      rp_GameID = stringValue (wg_game_id r), rp_Type = wg_type r, rp_Amount = amount,
      rp_ReferenceExternalTransactionID = stringValue (wg_reference_external_transaction_id r),
      rp_ReferenceTransactionID = uuidValue (wg_reference_transaction_id r),
      rp_ReferenceTransactionType = typeValue (wg_reference_transaction_type r),
      rp_Status = wg_status r, rp_FailureCode = stringValue (wg_failure_code r),
      rp_FailureMessage = stringValue (wg_failure_message r), rp_BalanceBefore = before,
      rp_BalanceAfter = after, rp_CreatedAt = wg_created_at r,
      rp_UpdatedAt = wg_updated_at r, rp_CompletedAt = wg_completed_at r\<rparr>"

definition represents :: "('d \<Rightarrow> rat) \<Rightarrow> wager_row \<Rightarrow> 'd WagerTransaction \<Rightarrow> bool" where
  "represents val r w \<longleftrightarrow>
     params_of w = row_params r (tx_amount w) (tx_balanceBefore w) (tx_balanceAfter w) \<and>
     cents val (tx_amount w) = wg_amount r \<and>
     currency_code (money_currency (tx_amount w)) = wg_currency r \<and>
     map_option (cents val) (tx_balanceBefore w) = wg_balance_before r \<and>
     map_option (cents val) (tx_balanceAfter w) = wg_balance_after r"

definition balance_ok :: "'d Decimal \<Rightarrow> ('d \<Rightarrow> rat) \<Rightarrow> Currency \<Rightarrow> 'd Money option \<Rightarrow> bool" where
  "balance_ok D val c x =
     (case x of None \<Rightarrow> True
      | Some m \<Rightarrow> money_ok D val m \<and> money_currency m = c \<and> 0 \<le> cents val m)"

definition tx_wf :: "'d Decimal \<Rightarrow> ('d \<Rightarrow> rat) \<Rightarrow> 'd WagerTransaction \<Rightarrow> bool" where
  "tx_wf D val w \<longleftrightarrow>
     tx_ok D w \<and> money_ok D val (tx_amount w) \<and>
     balance_ok D val (money_currency (tx_amount w)) (tx_balanceBefore w) \<and>
     balance_ok D val (money_currency (tx_amount w)) (tx_balanceAfter w)"

definition money_eq :: "('d \<Rightarrow> rat) \<Rightarrow> 'd Money \<Rightarrow> 'd Money \<Rightarrow> bool" where
  "money_eq val a b \<longleftrightarrow> money_currency a = money_currency b \<and> val (money_amount a) = val (money_amount b)"

section \<open>Lemmas\<close>

lemma query_row_text_Inr:
  "query_row_text E ctx ts q w = (Inr a, w') \<Longrightarrow> q (w_db w) = Some a \<and> w' = w\<lparr>w_step := Suc (w_step w)\<rparr>"
  unfolding query_row_text_def bind_act_Inr
  by (elim exE conjE, drule request_Inr) (auto split: if_splits option.splits)

lemma drop_Suc_prefix: "length xs = n \<Longrightarrow> drop (Suc n) (xs @ c # ys) = ys"
  by simp

lemma nth_prefix: "length xs = n \<Longrightarrow> (xs @ c # ys) ! n = c"
  by (auto simp: nth_append)

lemma take_prefix: "length xs = n \<Longrightarrow> take n (xs @ c # ys) = xs"
  by simp

text \<open>Reading back the text the database printed, or the domain sent.\<close>

lemma numeric_in_fixed2: "numeric_in (fixed2 n) = Some n"
proof -
  let ?m = "nat \<bar>n\<bar>"
  let ?ip = "nat_str (?m div 100)"
  let ?a = "digit_char (?m div 10 mod 10)" and ?b = "digit_char (?m mod 10)"
  let ?body = "?ip @ CHR ''.'' # [?a, ?b]"
  have hd: "hd ?ip \<noteq> CHR ''-''"
    using nat_str_digits [of "?m div 100"] list.set_sel(1) [OF nat_str_ne [of "?m div 100"]]
    by (fastforce simp: is_digit_def)
  have neg: "HasPrefix (fixed2 n) ''-'' \<longleftrightarrow> n < 0"
    using hd nat_str_ne [of "?m div 100"]
    by (auto simp: HasPrefix_def fixed2_def neq_Nil_conv simp del: nat_str_ne)
  have body: "(if n < 0 then tl (fixed2 n) else fixed2 n) = ?body" by (simp add: fixed2_def)
  have len: "length ?body - 3 = length ?ip" "4 \<le> length ?body"
    using nat_str_ne [of "?m div 100"] by (auto simp: Suc_le_eq simp del: nat_str_ne)
  have digits: "list_all is_digit ?ip" using nat_str_digits by (simp add: list_all_iff)
  have val: "int (digits_val 0 (?ip @ [?a, ?b])) = \<bar>n\<bar>"
    using join_two_digits [of ?m] by (simp add: digits_val_append)
  show ?thesis
    unfolding numeric_in_def Let_def neg body len(1) take_prefix [OF refl] nth_prefix [OF refl] drop_Suc_prefix [OF refl] val
    using digits len(2) by auto
qed

lemma nullable_roundtrip [simp]:
  "stringValue (nullableString s) = s" "uuidValue (nullableUUID u) = u" "typeValue (nullableWagerType t) = t"
  by (simp_all add: stringValue_def nullableString_def uuidValue_def nullableUUID_def typeValue_def nullableWagerType_def)

text \<open>
  The contract of the environment: its decimal package, and a database clock that reads an instant
  after Go's zero time.
\<close>

locale runtime =
  fixes E :: "'d Env"
    and val :: "'d \<Rightarrow> rat"
  assumes decimal: "decimal_pkg (E_decimal E) val"
    and clock_pos: "0 < E_clock E k"

sublocale runtime \<subseteq> decimal_pkg "E_decimal E" val
  by (rule decimal)

context runtime
begin

lemma numeric_arg_ok: "whole_cents val m \<Longrightarrow> numeric_arg E m = Inr (cents val m)"
  by (simp add: numeric_arg_def Money_Amount_fixed2 numeric_in_fixed2)

lemma numeric_opt_arg_ok:
  "(\<And>m. x = Some m \<Longrightarrow> whole_cents val m) \<Longrightarrow> numeric_opt_arg E x = Inr (map_option (cents val) x)"
  by (cases x) (simp_all add: numeric_opt_arg_def numeric_arg_ok)

lemma ParseMoney_fixed2_InrD:
  assumes "ParseMoney (E_decimal E) (fixed2 n) c = Inr m"
  shows "money_ok (E_decimal E) val m" "money_currency m = c" "cents val m = n" "0 \<le> n"
proof -
  note d = ParseMoney_InrD [OF assms]
  have "whole_cents val m" using d(3) by (simp add: money_ok_def)
  then have "numeric_in (fixed2 n) = Some (cents val m)"
    using d(7) numeric_in_fixed2 [of "cents val m"] by (simp add: Money_Amount_fixed2)
  then show "cents val m = n" by (simp add: numeric_in_fixed2)
  with d show "money_ok (E_decimal E) val m" "money_currency m = c" "0 \<le> n" by simp_all
qed

lemma NewCurrency_InrD: "NewCurrency code = Inr c \<Longrightarrow> currency_code c = code \<and> Currency_IsValid c"
  by (auto simp: NewCurrency_def Currency_IsValid_def split: if_splits)

lemma scanWallet_InrD:
  assumes "scanWallet E r = Inr w"
  shows "wallet_id w = wr_id r" "wallet_playerID w = wr_player_id r" "wallet_version w = wr_version r"
    "wallet_updatedAt w = wr_updated_at r" "wallet_createdAt w = wr_created_at r"
    "Currency_Code (money_currency (wallet_balance w)) = wr_currency r"
    "cents val (wallet_balance w) = wr_balance r"
    "wr_version r < 2 ^ 63 \<Longrightarrow> wallet_ok (E_decimal E) val w"
    "money_ok (E_decimal E) val (wallet_balance w)"
proof -
  obtain c b where c: "NewCurrency (wr_currency r) = Inr c"
    and b: "ParseMoney (E_decimal E) (fixed2 (wr_balance r)) c = Inr b"
    and w: "RehydrateWallet (E_decimal E) (wr_id r) (wr_player_id r) b (wr_version r) (wr_created_at r) (wr_updated_at r) = Inr w"
    using assms by (auto simp: scanWallet_def split: sum.splits)
  note p = ParseMoney_fixed2_InrD [OF b]
  have w: "w = \<lparr>wallet_id = wr_id r, wallet_playerID = wr_player_id r, wallet_balance = b, wallet_version = wr_version r,
      wallet_createdAt = wr_created_at r, wallet_updatedAt = wr_updated_at r\<rparr>"
    "wr_id r \<noteq> 0" "wr_player_id r \<noteq> 0" "1 \<le> wr_version r" "wr_created_at r \<noteq> 0" "wr_updated_at r \<noteq> 0"
    "wr_created_at r \<le> wr_updated_at r"
    using w by (auto simp: RehydrateWallet_def initialWalletVersion_def split: if_splits)
  show "wallet_id w = wr_id r" "wallet_playerID w = wr_player_id r" "wallet_version w = wr_version r"
    "wallet_updatedAt w = wr_updated_at r" "wallet_createdAt w = wr_created_at r"
    "Currency_Code (money_currency (wallet_balance w)) = wr_currency r" "cents val (wallet_balance w) = wr_balance r"
    "money_ok (E_decimal E) val (wallet_balance w)"
    using w p NewCurrency_InrD [OF c] by (simp_all add: Currency_Code_def)
  show "wr_version r < 2 ^ 63 \<Longrightarrow> wallet_ok (E_decimal E) val w"
    using w p by (simp add: wallet_ok_def)
qed

end

context runtime
begin

lemma nullableMoney_InrD:
  assumes "nullableMoney E x c = Inr y"
  shows "map_option (cents val) y = x"
    "\<And>m. y = Some m \<Longrightarrow> money_ok (E_decimal E) val m \<and> money_currency m = c \<and> 0 \<le> cents val m"
proof -
  show "map_option (cents val) y = x"
    using assms by (cases x) (auto simp: nullableMoney_def map_sum_def ParseMoney_fixed2_InrD split: sum.splits)
  show "\<And>m. y = Some m \<Longrightarrow> money_ok (E_decimal E) val m \<and> money_currency m = c \<and> 0 \<le> cents val m"
    using assms by (cases x) (auto simp: nullableMoney_def map_sum_def ParseMoney_fixed2_InrD split: sum.splits)
qed

text \<open>The fields a scanned transaction shares with its row.\<close>

lemma Rehydrate_InrD:
  "RehydrateWagerTransaction D p = Inr w \<Longrightarrow> params_of w = p \<and> tx_ok D w"
  by (cases p) (auto simp: RehydrateWagerTransaction_def tx_ok_def params_of_def split: option.splits)

lemma scanWager_InrD:
  assumes "scanWager E r = Inr w"
  shows "represents val r w" "tx_wf (E_decimal E) val w"
proof -
  obtain c a b b' where c: "NewCurrency (wg_currency r) = Inr c"
    and a: "ParseMoney (E_decimal E) (fixed2 (wg_amount r)) c = Inr a"
    and b: "nullableMoney E (wg_balance_before r) c = Inr b" "nullableMoney E (wg_balance_after r) c = Inr b'"
    using assms by (auto simp: scanWager_def split: sum.splits)
  note p = Rehydrate_InrD [OF assms [unfolded scanWager_def c a b sum.case]]
  have w: "tx_amount w = a" "tx_balanceBefore w = b" "tx_balanceAfter w = b'"
    using p by (simp_all add: params_of_def)
  note m = ParseMoney_fixed2_InrD [OF a] NewCurrency_InrD [OF c]
  note b1 = nullableMoney_InrD [OF b(1)] and b2 = nullableMoney_InrD [OF b(2)]
  show "represents val r w"
    using p w m b1(1) b2(1) by (simp add: represents_def row_params_def)
  have "balance_ok (E_decimal E) val c b" "balance_ok (E_decimal E) val c b'"
    using b1(2) b2(2) m w by (auto simp: balance_ok_def split: option.splits)
  then show "tx_wf (E_decimal E) val w" using p w m by (simp add: tx_wf_def)
qed

lemma representsD:
  assumes "represents val r w"
  shows "tx_id w = wg_id r" "tx_walletID w = wg_wallet_id r" "tx_playerID w = wg_player_id r"
    "tx_type w = wg_type r" "tx_status w = wg_status r" "tx_updatedAt w = wg_updated_at r"
    "tx_createdAt w = wg_created_at r"
    "tx_providerID w = stringValue (wg_provider_id r)"
    "tx_externalTransactionID w = stringValue (wg_external_transaction_id r)"
    "tx_payloadHash w = stringValue (wg_payload_hash r)"
    "tx_idempotencyKey w = stringValue (wg_idempotency_key r)"
    "tx_referenceExternalTransactionID w = stringValue (wg_reference_external_transaction_id r)"
    "tx_referenceTransactionID w = uuidValue (wg_reference_transaction_id r)"
    "tx_referenceTransactionType w = typeValue (wg_reference_transaction_type r)"
    "tx_failureCode w = stringValue (wg_failure_code r)"
    "tx_failureMessage w = stringValue (wg_failure_message r)"
    "tx_completedAt w = wg_completed_at r"
    "cents val (tx_amount w) = wg_amount r"
  using assms by (simp_all add: represents_def params_of_def row_params_def)

text \<open>The validation of persisted state only looks at the currency and the value of an amount.\<close>

lemma money_eq_preds:
  assumes "money_eq val a b"
  shows "Money_IsValid (E_decimal E) a = Money_IsValid (E_decimal E) b"
    "Money_IsZero (E_decimal E) a = Money_IsZero (E_decimal E) b"
    "Money_IsPositive (E_decimal E) a = Money_IsPositive (E_decimal E) b"
    "Money_IsNegative (E_decimal E) a = Money_IsNegative (E_decimal E) b"
    "money_currency a = money_currency b"
  using assms
  by (simp_all add: money_eq_def Money_IsValid_def in_range_iff Money_IsZero_def Money_IsPositive_def
      Money_IsNegative_def is_zero is_positive is_negative)

lemma money_eq_Equal:
  assumes "money_eq val a b" "money_eq val c d"
  shows "Money_Equal (E_decimal E) a c = Money_Equal (E_decimal E) b d"
  using assms by (simp add: money_eq_def Money_Equal_def equal)

lemma money_eq_refl [simp]: "money_eq val a a"
  by (simp add: money_eq_def)

lemma row_params_sel:
  "rp_Type (row_params r a b c) = wg_type r"
  "rp_ReferenceExternalTransactionID (row_params r a b c) = stringValue (wg_reference_external_transaction_id r)"
  "rp_Status (row_params r a b c) = wg_status r" "rp_Amount (row_params r a b c) = a"
  "rp_ProviderID (row_params r a b c) = stringValue (wg_provider_id r)"
  "rp_ExternalTransactionID (row_params r a b c) = stringValue (wg_external_transaction_id r)"
  "rp_IdempotencyKey (row_params r a b c) = stringValue (wg_idempotency_key r)"
  "rp_PayloadHash (row_params r a b c) = stringValue (wg_payload_hash r)"
  "rp_RoundID (row_params r a b c) = stringValue (wg_round_id r)"
  "rp_GameID (row_params r a b c) = stringValue (wg_game_id r)"
  "rp_ID (row_params r a b c) = wg_id r" "rp_WalletID (row_params r a b c) = wg_wallet_id r"
  "rp_PlayerID (row_params r a b c) = wg_player_id r" "rp_CreatedAt (row_params r a b c) = wg_created_at r"
  "rp_UpdatedAt (row_params r a b c) = wg_updated_at r" "rp_CompletedAt (row_params r a b c) = wg_completed_at r"
  by (simp_all add: row_params_def)

lemma validate_money_cong:
  assumes "money_eq val a a'" "rel_option (money_eq val) b b'" "rel_option (money_eq val) c c'"
  shows "validateRehydratedWager (E_decimal E) (row_params r a b c) =
    validateRehydratedWager (E_decimal E) (row_params r a' b' c')"
proof -
  note p = money_eq_preds [OF assms(1)]
  have opn: "validateRehydratedOpening (E_decimal E) (row_params r a b c) =
      validateRehydratedOpening (E_decimal E) (row_params r a' b' c')"
  proof (cases "b \<noteq> None \<and> c \<noteq> None")
    case True
    then obtain x x' y y' where xy: "b = Some x" "b' = Some x'" "c = Some y" "c' = Some y'"
      "money_eq val x x'" "money_eq val y y'"
      using assms(2,3) by (auto simp: option_rel_Some1)
    have "Money_Equal (E_decimal E) x z = Money_Equal (E_decimal E) x' z" for z
      using money_eq_Equal [OF xy(5) money_eq_refl] .
    with xy p money_eq_Equal [OF xy(6) assms(1)] show ?thesis
      by (simp add: validateRehydratedOpening_def row_params_def split: sum.splits)
  next
    case False
    then have "b = None \<and> b' = None \<or> c = None \<and> c' = None"
      using assms(2,3) by (cases b; cases c; cases b'; cases c') auto
    then show ?thesis
      using p by (elim disjE) (simp_all add: validateRehydratedOpening_def row_params_def split: option.splits)
  qed
  have processed: "validateProcessedState (E_decimal E) (row_params r a b c) =
      validateProcessedState (E_decimal E) (row_params r a' b' c')"
  proof (cases "b \<noteq> None \<and> c \<noteq> None")
    case True
    then obtain x x' y y' where xy: "b = Some x" "b' = Some x'" "c = Some y" "c' = Some y'"
      "money_eq val x x'" "money_eq val y y'"
      using assms(2,3) by (auto simp: option_rel_Some1)
    with p money_eq_preds [OF xy(5)] money_eq_preds [OF xy(6)] money_eq_Equal [OF xy(5,6)] show ?thesis
      by (simp add: validateProcessedState_def row_params_def split: option.splits)
  next
    case False
    then have "b = None \<and> b' = None \<or> c = None \<and> c' = None"
      using assms(2,3) by (cases b; cases c; cases b'; cases c') auto
    then show ?thesis
      by (elim disjE) (simp_all add: validateProcessedState_def row_params_def split: option.splits)
  qed
  have nn: "(b = None) = (b' = None)" "(c = None) = (c' = None)"
    using assms(2,3) by (auto simp: rel_option_iff split: option.splits)
  have pend: "validatePendingState (row_params r a b c) = validatePendingState (row_params r a' b' c')"
    using nn by (simp add: validatePendingState_def row_params_def del: not_None_eq)
  have same: "validatePersistedReference (row_params r a b c) = validatePersistedReference (row_params r a' b' c')"
    "validateFailureState (row_params r a b c) = validateFailureState (row_params r a' b' c')"
    using nn by (simp_all add: validatePersistedReference_def validateFailureState_def Let_def row_params_def del: not_None_eq)
  have pendref: "validatePendingReferenceState (row_params r a b c) = validatePendingReferenceState (row_params r a' b' c')"
    unfolding validatePendingReferenceState_def pend by (simp add: row_params_def)
  have amt: "validateWagerAmount (E_decimal E) t a = validateWagerAmount (E_decimal E) t a'" for t
    using p by (simp add: validateWagerAmount_def)
  have ext: "validateRehydratedExternal (E_decimal E) (row_params r a b c) =
      validateRehydratedExternal (E_decimal E) (row_params r a' b' c')"
    unfolding validateRehydratedExternal_def processed same pend pendref row_params_sel amt ..
  show ?thesis
    unfolding validateRehydratedWager_def opn ext row_params_sel p ..
qed

text \<open>A row that represents a well-formed transaction can be read back.\<close>

lemma nullableMoney_represents:
  assumes "balance_ok (E_decimal E) val c x" "map_option (cents val) x = n"
  obtains y where "nullableMoney E n c = Inr y" "rel_option (money_eq val) x y"
proof (cases x)
  case None
  with assms that [of None] show ?thesis by (simp add: nullableMoney_def)
next
  case (Some m)
  have m: "money_ok (E_decimal E) val m" "money_currency m = c" "0 \<le> cents val m" "n = Some (cents val m)"
    using assms Some by (simp_all add: balance_ok_def)
  have c: "Currency_IsValid c" "cents val m \<le> max_cents" "whole_cents val m" using m by (simp_all add: money_ok_iff)
  obtain m' where m': "ParseMoney (E_decimal E) (fixed2 (cents val m)) c = Inr m'" "money_ok (E_decimal E) val m'"
    "money_currency m' = c" "cents val m' = cents val m"
    using ParseMoney_fixed2 [OF c(1) m(3) c(2)] by metis
  have "money_eq val m m'"
    using m m' c by (simp add: money_eq_def money_ok_iff whole_centsD)
  with that [of "Some m'"] m m' Some show ?thesis by (simp add: nullableMoney_def)
qed

lemma tx_ok_amount: "tx_ok D w \<Longrightarrow> Money_IsZero D (tx_amount w) \<or> Money_IsPositive D (tx_amount w)"
proof (cases "tx_type w = OPENING")
  case True
  then show "tx_ok D w \<Longrightarrow> ?thesis"
    by (auto simp: tx_ok_def validateRehydratedWager_def validateRehydratedOpening_def params_of_def split: if_splits)
next
  case False
  then show "tx_ok D w \<Longrightarrow> ?thesis"
    by (auto simp: tx_ok_external external_core_def validateWagerAmount_def split: if_splits)
qed

lemma represents_scan:
  assumes "represents val r w" "tx_wf (E_decimal E) val w"
  obtains w' where "scanWager E r = Inr w'" "represents val r w'" "money_eq val (tx_amount w) (tx_amount w')"
    "rel_option (money_eq val) (tx_balanceBefore w) (tx_balanceBefore w')"
    "rel_option (money_eq val) (tx_balanceAfter w) (tx_balanceAfter w')"
proof -
  note rep = assms(1) [unfolded represents_def]
  note wf = assms(2) [unfolded tx_wf_def]
  let ?c = "money_currency (tx_amount w)"
  have m: "Currency_IsValid ?c" "whole_cents val (tx_amount w)" "cents val (tx_amount w) \<le> max_cents"
    using wf by (auto simp: money_ok_iff)
  have pos: "0 \<le> cents val (tx_amount w)"
    using tx_ok_amount wf m(2) sign_cents [OF m(2)] by fastforce
  have c: "NewCurrency (wg_currency r) = Inr ?c"
    using m(1) rep by (auto simp: NewCurrency_def Currency_IsValid_def)
  obtain a where a: "ParseMoney (E_decimal E) (fixed2 (wg_amount r)) ?c = Inr a" "money_ok (E_decimal E) val a"
    "money_currency a = ?c" "cents val a = wg_amount r"
    using ParseMoney_fixed2 [OF m(1) pos m(3)] rep by metis
  have ea: "money_eq val (tx_amount w) a"
    using a m(2) rep by (simp add: money_eq_def money_ok_iff whole_centsD)
  obtain b where b: "nullableMoney E (wg_balance_before r) ?c = Inr b" "rel_option (money_eq val) (tx_balanceBefore w) b"
    using nullableMoney_represents [of ?c "tx_balanceBefore w" "wg_balance_before r"] wf rep by blast
  obtain b' where b': "nullableMoney E (wg_balance_after r) ?c = Inr b'" "rel_option (money_eq val) (tx_balanceAfter w) b'"
    using nullableMoney_represents [of ?c "tx_balanceAfter w" "wg_balance_after r"] wf rep by blast
  have "validateRehydratedWager (E_decimal E) (row_params r a b b') = None"
    using validate_money_cong [OF ea b(2) b'(2), of r] wf rep by (simp add: tx_ok_def)
  then obtain w' where w': "RehydrateWagerTransaction (E_decimal E) (row_params r a b b') = Inr w'"
    by (simp add: RehydrateWagerTransaction_def)
  have s: "scanWager E r = Inr w'"
    using w' by (simp add: scanWager_def c a b b' row_params_def)
  have "tx_amount w' = a" "tx_balanceBefore w' = b" "tx_balanceAfter w' = b'"
    using Rehydrate_InrD [OF w'] by (simp_all add: params_of_def row_params_def)
  with that [OF s scanWager_InrD(1) [OF s]] ea b b' show ?thesis by simp
qed

text \<open>The row a transaction is inserted as, and the row an update leaves, represent it.\<close>

lemma tx_wf_numeric:
  assumes "tx_wf (E_decimal E) val w"
  shows "numeric_arg E (tx_amount w) = Inr (cents val (tx_amount w))"
    "wagerBalanceBefore E w = Inr (map_option (cents val) (tx_balanceBefore w))"
    "wagerBalanceAfter E w = Inr (map_option (cents val) (tx_balanceAfter w))"
proof -
  show "numeric_arg E (tx_amount w) = Inr (cents val (tx_amount w))"
    using assms by (intro numeric_arg_ok) (simp add: tx_wf_def money_ok_def)
  show "wagerBalanceBefore E w = Inr (map_option (cents val) (tx_balanceBefore w))"
    "wagerBalanceAfter E w = Inr (map_option (cents val) (tx_balanceAfter w))"
    unfolding wagerBalanceBefore_def wagerBalanceAfter_def
    using assms by (auto intro!: numeric_opt_arg_ok simp: tx_wf_def balance_ok_def money_ok_def)
qed

lemma wager_row_of_represents:
  assumes "tx_wf (E_decimal E) val w"
  obtains r where "wager_row_of E w = Inr r" "represents val r w" "wg_id r = tx_id w"
proof -
  obtain r where r: "wager_row_of E w = Inr r"
    by (simp add: wager_row_of_def tx_wf_numeric [OF assms])
  have "represents val r w" "wg_id r = tx_id w"
    using r by (auto simp: wager_row_of_def tx_wf_numeric [OF assms] represents_def row_params_def params_of_def
        Currency_Code_def)
  with r that show ?thesis by blast
qed

lemma update_represents:
  assumes "represents val r w" "same_business_fields w w'"
  shows "represents val
    (wager_assign w' (map_option (cents val) (tx_balanceBefore w')) (map_option (cents val) (tx_balanceAfter w')) r) w'"
  using assms by (simp add: represents_def same_business_fields_def params_of_def row_params_def wager_assign_def)

end

section \<open>Effects\<close>

text \<open>The effect of a successful repository method on the database.\<close>

lemma insert_wager_1:
  assumes "insert_wager r db = Inr (n, db')" "n \<noteq> 0"
  shows "db' = db\<lparr>wagers := wagers db @ [r]\<rparr>"
  using assms sql_insert_InrD by (fastforce simp: insert_wager_def apsnd_map_sum_Inr)

lemma insert_ledger_1:
  assumes "insert_ledger r db = Inr (n, db')"
  shows "db' = db\<lparr>ledger := ledger db @ [r]\<rparr>"
  using assms sql_insert_InrD by (fastforce simp: insert_ledger_def apsnd_map_sum_Inr)

lemma insert_wallet_1:
  assumes "insert_wallet r db = Inr (n, db')"
  shows "db' = db\<lparr>wallets := wallets db @ [r]\<rparr>"
  using assms sql_insert_InrD by (fastforce simp: insert_wallet_def apsnd_map_sum_Inr)

lemma update_wagers_1:
  assumes "update_wagers m f db = Inr (n, db')"
  shows "db' = db\<lparr>wagers := map (\<lambda>r. if m r then f r else r) (wagers db)\<rparr>"
    "n = length (filter m (wagers db))"
    "r \<in> set (wagers db) \<Longrightarrow> m r \<Longrightarrow> prevent_wager_transaction_mutation r (f r) = None"
  using assms sql_update_InrD by (fastforce simp: update_wagers_def apsnd_map_sum_Inr)+

lemma update_wallets_1:
  assumes "update_wallets m f db = Inr (n, db')"
  shows "db' = db\<lparr>wallets := map (\<lambda>r. if m r then f r else r) (wallets db)\<rparr>"
    "n = length (filter m (wallets db))"
  using assms sql_update_InrD by (fastforce simp: update_wallets_def apsnd_map_sum_Inr)+

lemma scan_row_Inr:
  "scan_row row decode w = (Inr a, w') \<Longrightarrow> \<exists>r. row w = (Inr r, w') \<and> decode r = Inr a"
  by (auto simp: scan_row_def match_act_Inr)

lemma WagerRepository_Create_Inr:
  assumes "WagerRepository_Create E ctx t w = (Inr u, w')"
  obtains r where "wager_row_of E t = Inr r" "insert_wager r (w_db w) = Inr (1, w_db w')"
    "w_db w' = (w_db w)\<lparr>wagers := wagers (w_db w) @ [r]\<rparr>"
proof -
  obtain n where x: "exec_stmt E ctx (\<lambda>db. case wager_row_of E t of Inl e \<Rightarrow> Inl e | Inr r \<Rightarrow> insert_wager r db) w = (Inr n, w')"
    "n \<noteq> 0"
    using assms by (auto simp: WagerRepository_Create_def match_act_Inr split: if_splits)
  from exec_stmt_Inr [OF x(1)] obtain r where r: "wager_row_of E t = Inr r" "insert_wager r (w_db w) = Inr (n, w_db w')"
    by (auto split: sum.splits)
  have "n = 1" using r(2) x(2) sql_insert_InrD by (fastforce simp: insert_wager_def apsnd_map_sum_Inr)
  with r that insert_wager_1 [OF r(2) x(2)] show ?thesis by simp
qed

text \<open>A duplicate is reported without an effect on the database.\<close>

lemma mapWagerCreateError_leaf: "mapWagerCreateError (InfraErr i) = InfraErr i \<or>
    mapWagerCreateError (InfraErr i) = AppErr ErrInvalidWalletReference"
  by (auto simp: mapWagerCreateError_def split: option.splits)

lemma WagerRepository_Create_exists:
  assumes "WagerRepository_Create E ctx t w = (Inl e, w')" "errors_Is e (AppErr ErrAlreadyExists)"
  shows "w_db w' = w_db w" "w_aborted w' = w_aborted w"
proof -
  let ?f = "\<lambda>db. case wager_row_of E t of Inl e \<Rightarrow> Inl e | Inr r \<Rightarrow> insert_wager r db"
  have "exec_stmt E ctx ?f w = (Inr 0, w')"
  proof (cases "exec_stmt E ctx ?f w")
    case (Pair r v)
    show ?thesis
    proof (cases r)
      case (Inl e')
      then obtain i where "e' = InfraErr i" using Pair request_Inl unfolding exec_stmt_def by metis
      then show ?thesis using assms Pair Inl mapWagerCreateError_leaf [of i]
        by (auto simp: WagerRepository_Create_def match_act_def)
    next
      case (Inr n)
      then show ?thesis using assms Pair by (auto simp: WagerRepository_Create_def match_act_def split: if_splits)
    qed
  qed
  from exec_stmt_Inr [OF this] obtain db where db: "?f (w_db w) = Inr (0, db)"
    "w' = w\<lparr>w_step := Suc (w_step w), w_db := db\<rparr>" by auto
  have "db = w_db w"
    using db(1) sql_insert_InrD by (fastforce simp: insert_wager_def apsnd_map_sum_Inr split: sum.splits)
  with db show "w_db w' = w_db w" "w_aborted w' = w_aborted w" by simp_all
qed

lemma WalletRepository_FindByIDForUpdate_Inr:
  assumes "WalletRepository_FindByIDForUpdate E ctx uid w = (Inr wal, w')"
  obtains r where "r \<in> set (wallets (w_db w))" "wr_id r = uid" "scanWallet E r = Inr wal"
    "w' = w\<lparr>w_step := Suc (w_step w)\<rparr>"
proof -
  have "scan_row (query_row E ctx (\<lambda>db. find (\<lambda>r. wr_id r = uid) (wallets db))) (scanWallet E) w = (Inr wal, w')"
    using assms by (auto simp: WalletRepository_FindByIDForUpdate_def split: if_splits)
  from scan_row_Inr [OF this] obtain r where r: "query_row E ctx (\<lambda>db. find (\<lambda>r. wr_id r = uid) (wallets db)) w = (Inr r, w')"
    "scanWallet E r = Inr wal" by blast
  from query_row_Inr [OF r(1)] have "find (\<lambda>r. wr_id r = uid) (wallets (w_db w)) = Some r" "w' = w\<lparr>w_step := Suc (w_step w)\<rparr>"
    by auto
  with in_set_find [OF this(1)] r(2) that show ?thesis by blast
qed

lemma FindByProviderAndExternalTransactionID_Inr:
  assumes "FindByProviderAndExternalTransactionID E ctx p x w = (Inr t, w')"
  obtains r where "r \<in> set (wagers (w_db w))" "scanWager E r = Inr t" "wg_provider_id r = Some p"
    "wg_external_transaction_id r = Some x" "w' = w\<lparr>w_step := Suc (w_step w)\<rparr>"
proof -
  from scan_row_Inr [OF assms [unfolded FindByProviderAndExternalTransactionID_def]]
  obtain r where r: "query_row_text E ctx [p, x] (\<lambda>db. find (\<lambda>r. wg_provider_id r = Some p \<and> wg_external_transaction_id r = Some x)
      (wagers db)) w = (Inr r, w')" "scanWager E r = Inr t" by blast
  note q = query_row_text_Inr [OF r(1)]
  show ?thesis using in_set_find [OF conjunct1 [OF q]] conjunct2 [OF q] r(2) by (intro that [of r]) simp_all
qed

lemma FindByProviderAndIdempotencyKey_Inr:
  assumes "FindByProviderAndIdempotencyKey E ctx p k w = (Inr t, w')"
  obtains r where "r \<in> set (wagers (w_db w))" "scanWager E r = Inr t" "wg_provider_id r = Some p"
    "wg_idempotency_key r = Some k" "w' = w\<lparr>w_step := Suc (w_step w)\<rparr>"
proof -
  from scan_row_Inr [OF assms [unfolded FindByProviderAndIdempotencyKey_def]]
  obtain r where r: "query_row_text E ctx [p, k] (\<lambda>db. find (\<lambda>r. wg_provider_id r = Some p \<and> wg_idempotency_key r = Some k)
      (wagers db)) w = (Inr r, w')" "scanWager E r = Inr t" by blast
  note q = query_row_text_Inr [OF r(1)]
  show ?thesis using in_set_find [OF conjunct1 [OF q]] conjunct2 [OF q] r(2) by (intro that [of r]) simp_all
qed

lemma WagerRepository_FindByID_Inr:
  assumes "WagerRepository_FindByID E ctx uid w = (Inr t, w')"
  obtains r where "r \<in> set (wagers (w_db w))" "scanWager E r = Inr t" "wg_id r = uid"
    "w' = w\<lparr>w_step := Suc (w_step w)\<rparr>"
proof -
  from scan_row_Inr [OF assms [unfolded WagerRepository_FindByID_def]]
  obtain r where r: "query_row E ctx (\<lambda>db. find (\<lambda>r. wg_id r = uid) (wagers db)) w = (Inr r, w')" "scanWager E r = Inr t" by blast
  note q = query_row_Inr [OF r(1)]
  show ?thesis using in_set_find [OF conjunct1 [OF q]] conjunct2 [OF q] r(2) by (intro that [of r]) simp_all
qed

lemma WalletRepository_Update_Inr:
  assumes "WalletRepository_Update E ctx wal w = (Inr u, w')"
  obtains b n where "numeric_arg E (wallet_balance wal) = Inr b"
    "w_db w' = (w_db w)\<lparr>wallets := map (\<lambda>r. if wr_id r = wallet_id wal \<and> wr_version r = wallet_version wal - 1
       then wallet_assign wal b r else r) (wallets (w_db w))\<rparr>"
    "update_wallets (\<lambda>r. wr_id r = wallet_id wal \<and> wr_version r = wallet_version wal - 1) (wallet_assign wal b) (w_db w) =
       Inr (n, w_db w')"
    "\<exists>r \<in> set (wallets (w_db w)). wr_id r = wallet_id wal \<and> wr_version r = wallet_version wal - 1"
proof -
  let ?m = "\<lambda>r. wr_id r = wallet_id wal \<and> wr_version r = wallet_version wal - 1"
  obtain n where n: "exec_stmt E ctx (\<lambda>db. case numeric_arg E (wallet_balance wal) of Inl e \<Rightarrow> Inl e
        | Inr balance \<Rightarrow> if \<not> in_int64 (wallet_version wal - 1) then Inl (PgError ''22003'' [])
             else update_wallets ?m (wallet_assign wal balance) db) w = (Inr n, w')" "n \<noteq> 0"
    using assms by (auto simp: WalletRepository_Update_def bind_act_Inr split: if_splits)
  from exec_stmt_Inr [OF n(1)] obtain b where b: "numeric_arg E (wallet_balance wal) = Inr b"
    "update_wallets ?m (wallet_assign wal b) (w_db w) = Inr (n, w_db w')"
    by (auto split: sum.splits if_splits)
  note u = update_wallets_1 [OF b(2)]
  have "\<exists>r \<in> set (wallets (w_db w)). ?m r"
    using u(2) n(2) by (auto simp: filter_empty_conv)
  from that [OF b(1) u(1) b(2) this] show ?thesis .
qed

lemma WagerRepository_Update_Inr:
  assumes "WagerRepository_Update E ctx t w = (Inr u, w')"
  obtains b a n where "wagerBalanceBefore E t = Inr b" "wagerBalanceAfter E t = Inr a"
    "w_db w' = (w_db w)\<lparr>wagers := map (\<lambda>r. if wg_id r = tx_id t then wager_assign t b a r else r) (wagers (w_db w))\<rparr>"
    "update_wagers (\<lambda>r. wg_id r = tx_id t) (wager_assign t b a) (w_db w) = Inr (n, w_db w')" "n \<noteq> 0"
proof -
  obtain n where n: "exec_stmt E ctx (\<lambda>db. case wagerBalanceBefore E t of Inl e \<Rightarrow> Inl e
      | Inr before \<Rightarrow> (case wagerBalanceAfter E t of Inl e \<Rightarrow> Inl e
      | Inr after \<Rightarrow> update_wagers (\<lambda>r. wg_id r = tx_id t) (wager_assign t before after) db)) w = (Inr n, w')" "n \<noteq> 0"
    using assms by (auto simp: WagerRepository_Update_def bind_act_Inr split: if_splits)
  from exec_stmt_Inr [OF n(1)] obtain b a where ba: "wagerBalanceBefore E t = Inr b" "wagerBalanceAfter E t = Inr a"
    "update_wagers (\<lambda>r. wg_id r = tx_id t) (wager_assign t b a) (w_db w) = Inr (n, w_db w')"
    by (auto split: sum.splits)
  from that [OF ba(1,2) update_wagers_1(1) [OF ba(3)] ba(3) n(2)] show ?thesis .
qed

lemma WalletLedgerRepository_Create_Inr:
  assumes "WalletLedgerRepository_Create E ctx e w = (Inr u, w')"
  obtains r n where "ledger_row_of E e = Inr r" "w_db w' = (w_db w)\<lparr>ledger := ledger (w_db w) @ [r]\<rparr>"
    "insert_ledger r (w_db w) = Inr (n, w_db w')"
proof -
  obtain n where n: "exec_stmt E ctx (\<lambda>db. case ledger_row_of E e of Inl e \<Rightarrow> Inl e | Inr r \<Rightarrow> insert_ledger r db) w = (Inr n, w')"
    using assms by (auto simp: WalletLedgerRepository_Create_def bind_act_Inr split: if_splits)
  from exec_stmt_Inr [OF this] obtain r where r: "ledger_row_of E e = Inr r" "insert_ledger r (w_db w) = Inr (n, w_db w')"
    by (auto split: sum.splits)
  from that [OF r(1) insert_ledger_1 [OF r(2)] r(2)] show ?thesis .
qed

lemma OutboxRepository_Create_Inr:
  assumes "OutboxRepository_Create E ctx ev w = (Inr u, w')"
  obtains env n r where "ev = Inr env" "insert_outbox r (w_db w) = Inr (n, w_db w')" "ob_event_type r = ev_EventType env"
    "ob_aggregate_id r = ev_AggregateID env" "ob_payload r = ev_Data env" "ob_published_at r = None"
    "ob_event_id r = ev_EventID env" "w_db w' = (w_db w)\<lparr>outbox := outbox (w_db w) @ [r]\<rparr>"
proof -
  let ?r = "\<lambda>env now. \<lparr>ob_event_id = ev_EventID env, ob_event_type = ev_EventType env, ob_aggregate_id = ev_AggregateID env,
      ob_correlation_id = ev_CorrelationID env, ob_causation_id = nullableString (ev_CausationID env),
      ob_version = ev_Version env, ob_payload = ev_Data env, ob_occurred_at = ev_OccurredAt env, ob_attempts = 0,
      ob_next_attempt_at = now, ob_claimed_by = None, ob_claimed_until = None, ob_published_at = None, ob_created_at = now\<rparr>"
  obtain env n where n: "ev = Inr env" "request E ctx (\<lambda>now clk. insert_outbox (?r env now)) w = (Inr n, w')"
    using assms by (auto simp: OutboxRepository_Create_def bind_act_Inr split: if_splits)
  from request_Inr [OF n(2)] obtain now where i: "insert_outbox (?r env now) (w_db w) = Inr (n, w_db w')"
    by (auto split: if_splits)
  then have "w_db w' = (w_db w)\<lparr>outbox := outbox (w_db w) @ [?r env now]\<rparr>"
    using sql_insert_InrD by (fastforce simp: insert_outbox_def apsnd_map_sum_Inr)
  with that [OF n(1) i] show ?thesis by simp
qed

lemma HasProcessedDirectReversal_Inr:
  "HasProcessedDirectReversal E ctx uid w = (Inr b, w') \<Longrightarrow>
     w' = w\<lparr>w_step := Suc (w_step w)\<rparr> \<and>
     b = list_ex (\<lambda>r. wg_reference_transaction_id r = Some uid \<and> is_reversal r) (wagers (w_db w))"
  unfolding HasProcessedDirectReversal_def by (drule query_Inr) simp

end
