(* ===== verification/Sha256.thy ===== *)
theory Sha256
  imports Prelude
begin

text \<open>
  The two functions of Go's standard library the payload hash is made of: \<^verbatim>\<open>crypto/sha256\<close>'s
  \<^verbatim>\<open>Sum256\<close> on a sequence of bytes (FIPS 180-4) and \<^verbatim>\<open>encoding/hex\<close>'s \<^verbatim>\<open>EncodeToString\<close>.
\<close>

unbundle bit_operations_syntax

definition sha256_K :: "32 word list" where
  "sha256_K =
    [1116352408, 1899447441, 3049323471, 3921009573, 961987163, 1508970993, 2453635748, 2870763221,
     3624381080, 310598401, 607225278, 1426881987, 1925078388, 2162078206, 2614888103, 3248222580,
     3835390401, 4022224774, 264347078, 604807628, 770255983, 1249150122, 1555081692, 1996064986,
     2554220882, 2821834349, 2952996808, 3210313671, 3336571891, 3584528711, 113926993, 338241895,
     666307205, 773529912, 1294757372, 1396182291, 1695183700, 1986661051, 2177026350, 2456956037,
     2730485921, 2820302411, 3259730800, 3345764771, 3516065817, 3600352804, 4094571909, 275423344,
     430227734, 506948616, 659060556, 883997877, 958139571, 1322822218, 1537002063, 1747873779,
     1955562222, 2024104815, 2227730452, 2361852424, 2428436474, 2756734187, 3204031479, 3329325298]"

definition sha256_H0 :: "32 word list" where
  "sha256_H0 =
    [1779033703, 3144134277, 1013904242, 2773480762, 1359893119, 2600822924, 528734635, 1541459225]"

text \<open>The padding to blocks of 64 bytes: a one bit, zeros, the length in bits as 8 bytes.\<close>

definition be_bytes :: "nat \<Rightarrow> nat \<Rightarrow> nat list" where
  "be_bytes n x = map (\<lambda>i. x div 256 ^ (n - 1 - i) mod 256) [0..<n]"

definition sha256_pad :: "nat list \<Rightarrow> nat list" where
  "sha256_pad m =
     (let l = length m; z = (119 - l mod 64) mod 64
      in m @ [128] @ replicate z 0 @ be_bytes 8 (8 * l mod 2 ^ 64))"

definition word_of_bytes :: "nat list \<Rightarrow> 32 word" where
  "word_of_bytes bs = of_nat (foldl (\<lambda>acc b. 256 * acc + b) 0 bs)"

function chunks :: "nat \<Rightarrow> 'a list \<Rightarrow> 'a list list" where
  "chunks k xs = (if xs = [] \<or> k = 0 then [] else take k xs # chunks k (drop k xs))"
  by pat_completeness auto
termination
  by (relation "measure (\<lambda>(k, xs). length xs)") auto

definition small_sigma0 :: "32 word \<Rightarrow> 32 word" where
  "small_sigma0 x = word_rotr 7 x XOR word_rotr 18 x XOR drop_bit 3 x"

definition small_sigma1 :: "32 word \<Rightarrow> 32 word" where
  "small_sigma1 x = word_rotr 17 x XOR word_rotr 19 x XOR drop_bit 10 x"

definition big_sigma0 :: "32 word \<Rightarrow> 32 word" where
  "big_sigma0 x = word_rotr 2 x XOR word_rotr 13 x XOR word_rotr 22 x"

definition big_sigma1 :: "32 word \<Rightarrow> 32 word" where
  "big_sigma1 x = word_rotr 6 x XOR word_rotr 11 x XOR word_rotr 25 x"

text \<open>The message schedule, extended one word at a time.\<close>

fun schedule :: "nat \<Rightarrow> 32 word list \<Rightarrow> 32 word list" where
  "schedule 0 ws = ws"
| "schedule (Suc n) ws =
     (let t = length ws
      in schedule n (ws @ [small_sigma1 (ws ! (t - 2)) + ws ! (t - 7) + small_sigma0 (ws ! (t - 15)) + ws ! (t - 16)]))"

type_synonym sha_state =
  "32 word \<times> 32 word \<times> 32 word \<times> 32 word \<times> 32 word \<times> 32 word \<times> 32 word \<times> 32 word"

fun sha256_round :: "32 word \<times> 32 word \<Rightarrow> sha_state \<Rightarrow> sha_state" where
  "sha256_round (k, w) (a, b, c, d, e, f, g, h) =
     (let t1 = h + big_sigma1 e + ((e AND f) XOR (NOT e AND g)) + k + w;
          t2 = big_sigma0 a + ((a AND b) XOR (a AND c) XOR (b AND c))
      in (t1 + t2, a, b, c, d + t1, e, f, g))"

fun state_list :: "sha_state \<Rightarrow> 32 word list" where
  "state_list (a, b, c, d, e, f, g, h) = [a, b, c, d, e, f, g, h]"

definition sha256_block :: "32 word list \<Rightarrow> nat list \<Rightarrow> 32 word list" where
  "sha256_block hs block =
     (let ws = schedule 48 (map word_of_bytes (chunks 4 block));
          s = (hs ! 0, hs ! 1, hs ! 2, hs ! 3, hs ! 4, hs ! 5, hs ! 6, hs ! 7)
      in map2 (+) hs (state_list (fold sha256_round (zip sha256_K ws) s)))"

definition Sum256 :: "nat list \<Rightarrow> nat list" where
  "Sum256 m = concat (map (\<lambda>w. be_bytes 4 (unat w)) (foldl sha256_block sha256_H0 (chunks 64 (sha256_pad m))))"

definition hex_digit :: "nat \<Rightarrow> char" where
  "hex_digit n = char_of (if n < 10 then n + 48 else n + 87)"

definition hex_EncodeToString :: "nat list \<Rightarrow> string" where
  "hex_EncodeToString bs = concat (map (\<lambda>b. [hex_digit (b div 16), hex_digit (b mod 16)]) bs)"

declare chunks.simps [simp del]

section \<open>Lemmas\<close>

lemma length_be_bytes [simp]: "length (be_bytes n x) = n"
  by (simp add: be_bytes_def)

lemma be_bytes_less: "b \<in> set (be_bytes n x) \<Longrightarrow> b < 256"
  by (auto simp: be_bytes_def)

lemma length_state_list [simp]: "length (state_list s) = 8"
  by (cases s) auto

lemma length_sha256_block: "length hs = 8 \<Longrightarrow> length (sha256_block hs b) = 8"
  by (simp add: sha256_block_def Let_def)

lemma length_sha256_fold: "length hs = 8 \<Longrightarrow> length (foldl sha256_block hs bs) = 8"
  by (induction bs arbitrary: hs) (auto simp: length_sha256_block)

lemma length_Sum256: "length (Sum256 m) = 32"
  using length_sha256_fold [of sha256_H0 "chunks 64 (sha256_pad m)"]
  by (simp add: Sum256_def length_concat sum_list_triv comp_def sha256_H0_def)

lemma Sum256_less: "b \<in> set (Sum256 m) \<Longrightarrow> b < 256"
  by (auto simp: Sum256_def dest: be_bytes_less)

lemma length_hex: "length (hex_EncodeToString bs) = 2 * length bs"
  by (induction bs) (auto simp: hex_EncodeToString_def)

lemma hex_digit_plain: "n < 16 \<Longrightarrow> plain_byte (hex_digit n)"
  by (auto simp: plain_byte_def hex_digit_def)

lemma hex_plain: "\<lbrakk>\<forall>b \<in> set bs. b < 256; c \<in> set (hex_EncodeToString bs)\<rbrakk> \<Longrightarrow> plain_byte c"
  by (auto simp: hex_EncodeToString_def intro!: hex_digit_plain)

text \<open>The padded message is a whole number of blocks.\<close>

lemma pad_residue: "r < 64 \<Longrightarrow> (r + (9 + (119 - r) mod 64)) mod 64 = (0::nat)"
proof -
  have "list_all (\<lambda>r. (r + (9 + (119 - r) mod 64)) mod 64 = (0::nat)) [0..<64]" by code_simp
  then show "r < 64 \<Longrightarrow> ?thesis" by (simp add: list_all_iff)
qed

lemma sha256_pad_blocks: "length (sha256_pad m) mod 64 = 0"
proof -
  have "length (sha256_pad m) = length m + (9 + (119 - length m mod 64) mod 64)"
    by (simp add: sha256_pad_def Let_def)
  then show ?thesis
    using pad_residue [of "length m mod 64"] by (metis mod_add_left_eq mod_less_divisor zero_less_numeral)
qed

end
