(* ===== verification/Go_Time.thy ===== *)
theory Go_Time
  imports Prelude "HOL-Library.Code_Target_Nat"
begin

text \<open>
  The part of Go's package \<^verbatim>\<open>time\<close> that writes instants and reads them back: the civil date of an
  instant in UTC, \<^verbatim>\<open>Format(time.RFC3339Nano)\<close> (which \<^verbatim>\<open>MarshalJSON\<close> uses too) and the parser of
  RFC 3339 behind \<^verbatim>\<open>UnmarshalJSON\<close>. An instant counts nanoseconds from 1 January of year 1.
\<close>

section \<open>The civil calendar\<close>

definition is_leap :: "int \<Rightarrow> bool" where
  "is_leap y \<longleftrightarrow> y mod 4 = 0 \<and> (y mod 100 \<noteq> 0 \<or> y mod 400 = 0)"

text \<open>Days before the first of January of a year, and before the first of a month in its year.\<close>

definition year_start :: "int \<Rightarrow> int" where
  "year_start y = 365 * (y - 1) + (y - 1) div 4 - (y - 1) div 100 + (y - 1) div 400"

definition month_start :: "bool \<Rightarrow> nat \<Rightarrow> int" where
  "month_start leap m =
     [0, 31, 59, 90, 120, 151, 181, 212, 243, 273, 304, 334, 365] ! (m - 1) + (if leap \<and> 2 < m then 1 else 0)"

definition daysIn :: "nat \<Rightarrow> int \<Rightarrow> int" where
  "daysIn m y = month_start (is_leap y) (m + 1) - month_start (is_leap y) m"

definition days_of_civil :: "int \<Rightarrow> nat \<Rightarrow> nat \<Rightarrow> int" where
  "days_of_civil y m d = year_start y + month_start (is_leap y) m + int d - 1"

definition year_of :: "int \<Rightarrow> int" where
  "year_of n =
     (let a = n div 146097; r = n mod 146097;
          b = min (r div 36524) 3; s = r - b * 36524;
          c = s div 1461; t = s mod 1461;
          e = min (t div 365) 3
      in 400 * a + 100 * b + 4 * c + e + 1)"

definition month_of :: "bool \<Rightarrow> int \<Rightarrow> nat" where
  "month_of leap n =
     (if n < month_start leap 2 then 1 else if n < month_start leap 3 then 2
      else if n < month_start leap 4 then 3 else if n < month_start leap 5 then 4
      else if n < month_start leap 6 then 5 else if n < month_start leap 7 then 6
      else if n < month_start leap 8 then 7 else if n < month_start leap 9 then 8
      else if n < month_start leap 10 then 9 else if n < month_start leap 11 then 10
      else if n < month_start leap 12 then 11 else 12)"

definition civil_of_days :: "int \<Rightarrow> int \<times> nat \<times> nat" where
  "civil_of_days n =
     (let y = year_of n; doy = n - year_start y; m = month_of (is_leap y) doy
      in (y, m, nat (doy - month_start (is_leap y) m + 1)))"

section \<open>Format\<close>

fun dec_digits :: "nat \<Rightarrow> nat \<Rightarrow> string" where
  "dec_digits 0 n = []"
| "dec_digits (Suc k) n = dec_digits k (n div 10) @ [digit_char (n mod 10)]"

text \<open>A fraction of nanoseconds without its final zeros, nothing when it is zero.\<close>

definition fraction_text :: "nat \<Rightarrow> string" where
  "fraction_text ns =
     (if ns = 0 then []
      else ''.'' @ rev (dropWhile (\<lambda>c. c = CHR ''0'') (rev (dec_digits 9 ns))))"

definition year_text :: "int \<Rightarrow> string" where
  "year_text y =
     (if \<bar>y\<bar> \<le> 9999 then (if y < 0 then ''-'' else []) @ dec_digits 4 (nat \<bar>y\<bar>)
      else (if y < 0 then ''-'' else []) @ nat_str (nat \<bar>y\<bar>))"

abbreviation (input) nanos_per_day :: int where
  "nanos_per_day \<equiv> 86400000000000"

definition Format_RFC3339Nano :: "time \<Rightarrow> string" where
  "Format_RFC3339Nano t =
     (let (y, m, d) = civil_of_days (t div nanos_per_day);
          ns = nat (t mod nanos_per_day);
          secs = ns div 1000000000
      in year_text y @ ''-'' @ dec_digits 2 m @ ''-'' @ dec_digits 2 d @ ''T'' @
         dec_digits 2 (secs div 3600) @ '':'' @ dec_digits 2 (secs div 60 mod 60) @ '':'' @
         dec_digits 2 (secs mod 60) @ fraction_text (ns mod 1000000000) @ ''Z'')"

section \<open>Parsing\<close>

text \<open>\<^verbatim>\<open>parseUint\<close> of \<^verbatim>\<open>time/format_rfc3339.go\<close>: digits only, within a range.\<close>

definition parse_uint :: "string \<Rightarrow> nat \<Rightarrow> nat \<Rightarrow> nat option" where
  "parse_uint s lo hi =
     (let x = digits_val 0 s in if list_all is_digit s \<and> lo \<le> x \<and> x \<le> hi then Some x else None)"

text \<open>A period and at least one digit make a fraction, of which nine digits count.\<close>

definition split_fraction :: "string \<Rightarrow> nat \<times> string" where
  "split_fraction s =
     (case s of
        c # d # _ \<Rightarrow>
          if c = CHR ''.'' \<and> is_digit d
          then let ds = takeWhile is_digit (tl s); k = take 9 ds
               in (digits_val 0 k * 10 ^ (9 - length k), dropWhile is_digit (tl s))
          else (0, s)
      | _ \<Rightarrow> (0, s))"

text \<open>The offset of a zone in seconds.\<close>

definition parse_zone :: "string \<Rightarrow> int option" where
  "parse_zone s =
     (if s = ''Z'' then Some 0
      else if length s = 6 \<and> (s ! 0 = CHR ''+'' \<or> s ! 0 = CHR ''-'') \<and> s ! 3 = CHR '':''
      then (case (parse_uint (take 2 (drop 1 s)) 0 23, parse_uint (drop 4 s) 0 59) of
              (Some h, Some m) \<Rightarrow> Some ((if s ! 0 = CHR ''-'' then - 1 else 1) * int (60 * (60 * h + m)))
            | _ \<Rightarrow> None)
      else None)"

definition parse_RFC3339 :: "string \<Rightarrow> time option" where
  "parse_RFC3339 s =
     (if length s < 19 \<or> s ! 4 \<noteq> CHR ''-'' \<or> s ! 7 \<noteq> CHR ''-'' \<or> s ! 10 \<noteq> CHR ''T'' \<or> s ! 13 \<noteq> CHR '':'' \<or>
         s ! 16 \<noteq> CHR '':'' then None
      else
     (case (parse_uint (take 4 s) 0 9999, parse_uint (take 2 (drop 5 s)) 1 12) of
        (Some y, Some m) \<Rightarrow>
          (case (parse_uint (take 2 (drop 8 s)) 1 (nat (daysIn m (int y))), parse_uint (take 2 (drop 11 s)) 0 23,
                 parse_uint (take 2 (drop 14 s)) 0 59, parse_uint (take 2 (drop 17 s)) 0 59) of
             (Some d, Some hh, Some mm, Some ss) \<Rightarrow>
               (case split_fraction (drop 19 s) of
                  (ns, rest) \<Rightarrow>
                    map_option
                      (\<lambda>off. days_of_civil (int y) m d * nanos_per_day +
                             (int (60 * (60 * hh + mm) + ss) - off) * 1000000000 + int ns)
                      (parse_zone rest))
           | _ \<Rightarrow> None)
      | _ \<Rightarrow> None))"

section \<open>A written instant is read back\<close>

lemma length_dec_digits [simp]: "length (dec_digits k n) = k"
  by (induction k arbitrary: n) simp_all

lemma dec_digits_digit: "list_all is_digit (dec_digits k n)"
  by (induction k arbitrary: n) simp_all

lemma digits_val_dec_digits: "digits_val 0 (dec_digits k n) = n mod 10 ^ k"
proof (induction k arbitrary: n)
  case (Suc k)
  have "n mod 10 ^ Suc k = n mod (10 * 10 ^ k)" by simp
  also have "\<dots> = 10 * (n div 10 mod 10 ^ k) + n mod 10" by (rule mod_mult2_eq)
  finally show ?case using Suc [of "n div 10"] by (simp add: digits_val_append)
qed simp

lemma parse_uint_dec_digits [simp]:
  "n < 10 ^ k \<Longrightarrow> parse_uint (dec_digits k n) lo hi = (if lo \<le> n \<and> n \<le> hi then Some n else None)"
  by (simp add: parse_uint_def dec_digits_digit digits_val_dec_digits)

text \<open>The year of a day: the four cycles of 400, 100, 4 and 1 years.\<close>

lemma year_start_cycles:
  assumes "0 \<le> b" "b \<le> 3" "0 \<le> c" "c \<le> 24" "0 \<le> e" "e \<le> 3"
  shows "year_start (400 * a + 100 * b + 4 * c + e + 1) = 146097 * a + 36524 * b + 1461 * c + 365 * e"
proof -
  let ?y = "400 * a + 100 * b + 4 * c + e"
  have "?y div 4 = 100 * a + 25 * b + c" "?y div 100 = 4 * a + b" "?y div 400 = a"
    using assms by linarith+
  then show ?thesis by (simp add: year_start_def)
qed

lemma mod_zero_range: "\<lbrakk>1 \<le> x; x \<le> (N::int)\<rbrakk> \<Longrightarrow> (N * k + x) mod N = 0 \<longleftrightarrow> x = N"
  by (cases "x = N") simp_all

lemma is_leap_cycles:
  assumes "0 \<le> b" "b \<le> 3" "0 \<le> c" "c \<le> 24" "0 \<le> e" "e \<le> 3"
  shows "is_leap (400 * a + 100 * b + 4 * c + e + 1) \<longleftrightarrow> e = 3 \<and> (c < 24 \<or> b = 3)"
proof -
  let ?y = "400 * a + 100 * b + 4 * c + e + 1"
  have y: "?y = 4 * (100 * a + 25 * b + c) + (e + 1)" "?y = 100 * (4 * a + b) + (4 * c + e + 1)"
    "?y = 400 * a + (100 * b + 4 * c + e + 1)" by simp_all
  have m4: "?y mod 4 = 0 \<longleftrightarrow> e + 1 = 4" unfolding y(1) by (rule mod_zero_range) (use assms in simp_all)
  have m100: "?y mod 100 = 0 \<longleftrightarrow> 4 * c + e + 1 = 100" unfolding y(2)
    by (rule mod_zero_range) (use assms in simp_all)
  have m400: "?y mod 400 = 0 \<longleftrightarrow> 100 * b + 4 * c + e + 1 = 400" unfolding y(3)
    by (rule mod_zero_range) (use assms in simp_all)
  have i1: "4 * c + e + 1 = 100 \<longleftrightarrow> c = 24 \<and> e = 3"
    using assms by (cases "c = 24") linarith+
  have i2: "100 * b + 4 * c + e + 1 = 400 \<longleftrightarrow> b = 3 \<and> 4 * c + e + 1 = 100"
    using assms by (cases "b = 3") linarith+
  show ?thesis unfolding is_leap_def m4 m100 m400 i2 i1 using assms by auto
qed

lemma year_of_cycles:
  obtains a b c e where "0 \<le> b" "b \<le> 3" "0 \<le> c" "c \<le> 24" "0 \<le> e" "e \<le> 3"
    "year_of n = 400 * a + 100 * b + 4 * c + e + 1"
    "146097 * a + 36524 * b + 1461 * c + 365 * e \<le> n"
    "n \<le> 146097 * a + 36524 * b + 1461 * c + 365 * e + 364 + (if e = 3 \<and> (c < 24 \<or> b = 3) then 1 else 0)"
proof -
  define a r where a: "a = n div 146097" "r = n mod 146097"
  define b s where b: "b = min (r div 36524) 3" "s = r - b * 36524"
  define c t where c: "c = s div 1461" "t = s mod 1461"
  define e where e: "e = min (t div 365) 3"
  have y: "year_of n = 400 * a + 100 * b + 4 * c + e + 1"
    by (simp only: year_of_def Let_def a b c e)
  have r: "0 \<le> r" "r \<le> 146096" "n = 146097 * a + r" unfolding a by auto
  have bb: "0 \<le> b" "b \<le> 3" "0 \<le> s" "s \<le> 36523 + (if b = 3 then 1 else 0)" "r = 36524 * b + s"
    using r unfolding b by (auto simp: min_def)
  have "s < 25 * 1461" using bb(4) by (auto split: if_splits)
  then have cc: "0 \<le> c" "c \<le> 24" "0 \<le> t" "t \<le> 1460" "s = 1461 * c + t" using bb(3) unfolding c by auto
  have ee: "0 \<le> e" "e \<le> 3" "365 * e \<le> t" "t \<le> 365 * e + 364 + (if e = 3 then 1 else 0)"
    using cc unfolding e by (auto simp: min_def)
  have "t \<le> 365 * e + 364" if "c = 24" "b \<noteq> 3" using that bb cc ee by (auto split: if_splits)
  then show thesis
    using that [OF bb(1,2) cc(1,2) ee(1,2) y] r bb cc ee by (auto split: if_splits)
qed

lemma year_of_bounds: "year_start (year_of n) \<le> n \<and> n < year_start (year_of n) + (if is_leap (year_of n) then 366 else 365)"
proof -
  obtain a b c e where k: "0 \<le> b" "b \<le> 3" "0 \<le> c" "c \<le> 24" "0 \<le> e" "e \<le> 3"
    "year_of n = 400 * a + 100 * b + 4 * c + e + 1"
    "146097 * a + 36524 * b + 1461 * c + 365 * e \<le> n"
    "n \<le> 146097 * a + 36524 * b + 1461 * c + 365 * e + 364 + (if e = 3 \<and> (c < 24 \<or> b = 3) then 1 else 0)"
    by (rule year_of_cycles)
  show ?thesis
    using k(8,9) unfolding k(7) year_start_cycles [OF k(1-6)] is_leap_cycles [OF k(1-6)] by (auto split: if_splits)
qed

lemma year_of_pos: "0 \<le> n \<Longrightarrow> 1 \<le> year_of n"
  by (rule year_of_cycles [of n]) (auto split: if_splits)

lemma month_start_values:
  "month_start leap 1 = 0" "month_start leap 2 = 31" "month_start leap 3 = (if leap then 60 else 59)"
  "month_start leap 4 = (if leap then 91 else 90)" "month_start leap 5 = (if leap then 121 else 120)"
  "month_start leap 6 = (if leap then 152 else 151)" "month_start leap 7 = (if leap then 182 else 181)"
  "month_start leap 8 = (if leap then 213 else 212)" "month_start leap 9 = (if leap then 244 else 243)"
  "month_start leap 10 = (if leap then 274 else 273)" "month_start leap 11 = (if leap then 305 else 304)"
  "month_start leap (Suc 0) = 0" "month_start leap (Suc (Suc 0)) = 31"
  "month_start leap 12 = (if leap then 335 else 334)" "month_start leap 13 = (if leap then 366 else 365)"
  by (simp_all add: month_start_def)

lemma month_of_bounds:
  assumes "0 \<le> n" "n < (if leap then 366 else 365)"
  shows "1 \<le> month_of leap n \<and> month_of leap n \<le> 12 \<and> month_start leap (month_of leap n) \<le> n \<and>
    n < month_start leap (month_of leap n + 1)"
  using assms by (cases leap) (simp_all add: month_of_def month_start_values)

lemma daysIn_le: "\<lbrakk>1 \<le> m; m \<le> 12\<rbrakk> \<Longrightarrow> daysIn m y \<le> 31"
proof -
  assume "1 \<le> m" "m \<le> 12"
  then have "m \<in> {1, 2, 3, 4, 5, 6, 7, 8, 9, 10, 11, 12}" by (simp only: insert_iff empty_iff) presburger
  then show ?thesis by (auto simp: daysIn_def month_start_def)
qed

lemma civil_of_days:
  assumes "civil_of_days n = (y, m, d)"
  shows "1 \<le> m" "m \<le> 12" "1 \<le> d" "d \<le> nat (daysIn m y)" "d < 100" "days_of_civil y m d = n" "y = year_of n"
proof -
  define doy where "doy = n - year_start y"
  have y: "y = year_of n" "m = month_of (is_leap y) doy" "d = nat (doy - month_start (is_leap y) m + 1)"
    using assms by (auto simp: civil_of_days_def Let_def doy_def)
  have doy: "0 \<le> doy" "doy < (if is_leap y then 366 else 365)"
    using year_of_bounds [of n] by (auto simp: doy_def y(1))
  note m = month_of_bounds [OF doy, folded y(2)]
  show "1 \<le> m" "m \<le> 12" "1 \<le> d" "d \<le> nat (daysIn m y)" "days_of_civil y m d = n" "y = year_of n"
    using m y doy_def by (auto simp: days_of_civil_def daysIn_def)
  then show "d < 100" using daysIn_le [of m y] by simp
qed

text \<open>The fraction and the whole text.\<close>

lemma trailing_zeros:
  "digits_val 0 (rev (dropWhile (\<lambda>c. c = CHR ''0'') s)) * 10 ^ (length s - length (dropWhile (\<lambda>c. c = CHR ''0'') s)) =
     digits_val 0 (rev s)"
proof (induction s)
  case (Cons c s)
  have z: "digit_val (CHR ''0'') = 0" by (simp add: digit_val_def)
  have "length (dropWhile (\<lambda>c. c = CHR ''0'') s) \<le> length s" by (rule length_dropWhile_le)
  then show ?case using Cons z by (simp add: digits_val_append Suc_diff_le)
qed simp

lemma takeWhile_digits: "list_all P s \<Longrightarrow> \<not> P c \<Longrightarrow> takeWhile P (s @ c # r) = s \<and> dropWhile P (s @ c # r) = c # r"
  by (simp add: list_all_iff)

lemma split_fraction_text:
  assumes "ns < 1000000000"
  shows "split_fraction (fraction_text ns @ ''Z'') = (ns, ''Z'')"
proof (cases "ns = 0")
  case True
  then show ?thesis by (simp add: fraction_text_def split_fraction_def)
next
  case False
  let ?r = "dropWhile (\<lambda>c. c = CHR ''0'') (rev (dec_digits 9 ns))"
  have v: "digits_val 0 (rev ?r) * 10 ^ (9 - length ?r) = ns"
    using trailing_zeros [of "rev (dec_digits 9 ns)"] assms by (simp add: digits_val_dec_digits)
  have ne: "?r \<noteq> []" using v False by (metis digits_val.simps(1) mult_0 rev.simps(1))
  have len: "length ?r \<le> 9" using length_dropWhile_le [of _ "rev (dec_digits 9 ns)"] by simp
  have dg: "list_all is_digit (rev ?r)"
    using dec_digits_digit [of 9 ns] set_dropWhileD [of _ _ "rev (dec_digits 9 ns)"] by (auto simp: list_all_iff)
  obtain d t where d: "rev ?r = d # t" using ne by (cases "rev ?r") auto
  have tk: "takeWhile is_digit (rev ?r @ ''Z'') = rev ?r" "dropWhile is_digit (rev ?r @ ''Z'') = ''Z''"
    using takeWhile_digits [OF dg, of "CHR ''Z''" "[]"] by (simp_all add: is_digit_def)
  have "fraction_text ns @ ''Z'' = CHR ''.'' # rev ?r @ ''Z''" using False by (simp add: fraction_text_def)
  moreover have "is_digit d" using dg d by simp
  ultimately show ?thesis
    using v tk len d by (simp add: split_fraction_def Let_def)
qed

lemma year_text_in_range: "\<lbrakk>0 \<le> y; y \<le> 9999\<rbrakk> \<Longrightarrow> year_text y = dec_digits 4 (nat y)"
  by (simp add: year_text_def)

lemma length_4_list: "length xs = 4 \<Longrightarrow> \<exists>a b c d. xs = [a, b, c, d]"
  by (auto simp: length_Suc_conv numeral_eq_Suc)

lemma parse_RFC3339_parts:
  assumes "Y < 10000" "1 \<le> m" "m \<le> 12" "1 \<le> d" "d \<le> nat (daysIn m (int Y))" "hh < 24" "mm < 60" "ss < 60" "ns < 1000000000"
  shows "parse_RFC3339 (dec_digits 4 Y @ ''-'' @ dec_digits 2 m @ ''-'' @ dec_digits 2 d @ ''T'' @
    dec_digits 2 hh @ '':'' @ dec_digits 2 mm @ '':'' @ dec_digits 2 ss @ fraction_text ns @ ''Z'') =
    Some (days_of_civil (int Y) m d * nanos_per_day + int (60 * (60 * hh + mm) + ss) * 1000000000 + int ns)"
proof -
  obtain y1 y2 y3 y4 where y: "dec_digits 4 Y = [y1, y2, y3, y4]"
    using length_4_list [OF length_dec_digits [of 4 Y]] by blast
  have two: "\<exists>a b. dec_digits 2 n = [a, b]" for n
    using length_2_list [OF length_dec_digits [of 2 n]] by blast
  obtain m1 m2 where m: "dec_digits 2 m = [m1, m2]" using two by blast
  obtain d1 d2 where d: "dec_digits 2 d = [d1, d2]" using two by blast
  obtain h1 h2 where h: "dec_digits 2 hh = [h1, h2]" using two by blast
  obtain n1 n2 where n: "dec_digits 2 mm = [n1, n2]" using two by blast
  obtain s1 s2 where s: "dec_digits 2 ss = [s1, s2]" using two by blast
  have "d < 100" using assms(2,3,5) daysIn_le [of m "int Y"] by simp
  then have p: "parse_uint [y1, y2, y3, y4] 0 9999 = Some Y" "parse_uint [m1, m2] 1 12 = Some m"
    "parse_uint [d1, d2] 1 (nat (daysIn m (int Y))) = Some d" "parse_uint [h1, h2] 0 23 = Some hh"
    "parse_uint [n1, n2] 0 59 = Some mm" "parse_uint [s1, s2] 0 59 = Some ss"
    using assms by (simp_all flip: y m d h n s)
  show ?thesis
    using p split_fraction_text [OF assms(9)]
    by (simp add: y m d h n s parse_RFC3339_def parse_zone_def)
qed

text \<open>An instant of the years 1 to 9999 is read back exactly.\<close>

lemma parse_Format:
  assumes "0 \<le> t" "year_of (t div nanos_per_day) \<le> 9999"
  shows "parse_RFC3339 (Format_RFC3339Nano t) = Some t"
proof -
  define n where "n = t div nanos_per_day"
  define r where "r = nat (t mod nanos_per_day)"
  define secs where "secs = r div 1000000000"
  obtain y m d where c: "civil_of_days n = (y, m, d)" by (metis surj_pair)
  note k = civil_of_days [OF c]
  have y: "1 \<le> y" "y \<le> 9999" using k(7) assms year_of_pos [of n] by (auto simp: n_def)
  have r: "r < 86400000000000" "t = n * nanos_per_day + int r" unfolding r_def n_def by simp_all
  have secs: "secs < 86400" "r = 1000000000 * secs + r mod 1000000000" using r(1) unfolding secs_def by auto
  have hms: "secs div 3600 < 24" "secs = 60 * (60 * (secs div 3600) + secs div 60 mod 60) + secs mod 60"
  proof -
    have "secs div 3600 = secs div 60 div 60" by (simp add: div_mult2_eq [symmetric])
    then have "60 * (secs div 3600) + secs div 60 mod 60 = secs div 60" by simp
    then show "secs = 60 * (60 * (secs div 3600) + secs div 60 mod 60) + secs mod 60" by simp
  qed (use secs(1) in simp)
  have f: "Format_RFC3339Nano t = dec_digits 4 (nat y) @ ''-'' @ dec_digits 2 m @ ''-'' @ dec_digits 2 d @ ''T'' @
    dec_digits 2 (secs div 3600) @ '':'' @ dec_digits 2 (secs div 60 mod 60) @ '':'' @ dec_digits 2 (secs mod 60) @
    fraction_text (r mod 1000000000) @ ''Z''"
    using c y by (simp add: Format_RFC3339Nano_def Let_def n_def [symmetric] r_def [symmetric] secs_def [symmetric]
        year_text_in_range)
  have "parse_RFC3339 (Format_RFC3339Nano t) = Some (days_of_civil (int (nat y)) m d * nanos_per_day +
      int (60 * (60 * (secs div 3600) + secs div 60 mod 60) + secs mod 60) * 1000000000 + int (r mod 1000000000))"
    unfolding f by (rule parse_RFC3339_parts) (use k y hms in auto)
  also have "\<dots> = Some t"
  proof -
    have "int r = int (1000000000 * secs + r mod 1000000000)" using secs(2) by (rule arg_cong)
    then have "t = n * nanos_per_day + int secs * 1000000000 + int (r mod 1000000000)"
      unfolding r(2) by (simp only: of_nat_add of_nat_mult of_nat_numeral mult.commute add.assoc)
    moreover have "int (nat y) = y" using y(1) by simp
    ultimately show ?thesis unfolding hms(2) [symmetric] by (simp only: k(6))
  qed
  finally show ?thesis .
qed

end
