(* ===== verification/Go_JSON.thy ===== *)
theory Go_JSON
  imports Database Sha256 Go_Time
begin

text \<open>
  The part of Go's package \<^verbatim>\<open>encoding/json\<close> the program uses, on the bytes of UTF-8 texts: the
  writing of strings (with and without the escaping of HTML), numbers, arrays and objects, and the
  parser behind \<^verbatim>\<open>Unmarshal\<close> with its limit of 10000 on the nesting. A string is kept as it is
  written; \<open>unquote\<close> decodes it. Every value that is written is read back.
\<close>

section \<open>Strings\<close>

text \<open>The length of the UTF-8 sequence a text starts with, \<open>0\<close> when it is not a valid one.\<close>

definition rune_len :: "nat list \<Rightarrow> nat" where
  "rune_len s =
     (case s of
        [] \<Rightarrow> 0
      | a # t \<Rightarrow>
          if a < 128 then 1
          else if 2 \<le> length s \<and> 194 \<le> a \<and> a \<le> 223 \<and> cont_byte (s ! 1) then 2
          else if 3 \<le> length s \<and> 224 \<le> a \<and> a \<le> 239 \<and> cont_byte (s ! 1) \<and> cont_byte (s ! 2) \<and>
                  (a = 224 \<longrightarrow> 160 \<le> s ! 1) \<and> (a = 237 \<longrightarrow> s ! 1 \<le> 159)
          then 3
          else if 4 \<le> length s \<and> 240 \<le> a \<and> a \<le> 244 \<and> cont_byte (s ! 1) \<and> cont_byte (s ! 2) \<and>
                  cont_byte (s ! 3) \<and> (a = 240 \<longrightarrow> 144 \<le> s ! 1) \<and> (a = 244 \<longrightarrow> s ! 1 \<le> 143)
          then 4
          else 0)"

abbreviation (input) backslash :: char where
  "backslash \<equiv> CHR 0x5C"

abbreviation (input) quote :: char where
  "quote \<equiv> CHR 0x22"

definition escape_ascii :: "nat \<Rightarrow> string" where
  "escape_ascii b =
     (if b = 34 then [backslash, quote]
      else if b = 92 then [backslash, backslash]
      else if b = 8 then [backslash, CHR ''b'']
      else if b = 12 then [backslash, CHR ''f'']
      else if b = 10 then [backslash, CHR ''n'']
      else if b = 13 then [backslash, CHR ''r'']
      else if b = 9 then [backslash, CHR ''t'']
      else if b < 32 then backslash # ''u00'' @ [hex_digit (b div 16), hex_digit (b mod 16)]
      else [char_of b])"

definition escape_html :: "nat \<Rightarrow> string" where
  "escape_html b =
     (if b = 60 \<or> b = 62 \<or> b = 38 then backslash # ''u00'' @ [hex_digit (b div 16), hex_digit (b mod 16)]
      else escape_ascii b)"

function json_escape :: "(nat \<Rightarrow> string) \<Rightarrow> string \<Rightarrow> string" where
  "json_escape esc s =
     (if s = [] then []
      else let n = rune_len (map of_char s)
           in if n = 1 then esc (of_char (hd s)) @ json_escape esc (tl s)
              else if n = 0 then backslash # ''ufffd'' @ json_escape esc (tl s)
              else (if map of_char (take n s) = [226, 128, 168 :: nat] then backslash # ''u2028''
                    else if map of_char (take n s) = [226, 128, 169 :: nat] then backslash # ''u2029''
                    else take n s) @ json_escape esc (drop n s))"
  by pat_completeness auto
termination
  by (relation "measure (\<lambda>(esc, s). length s)") auto

declare json_escape.simps [simp del]

definition json_quote_with :: "(nat \<Rightarrow> string) \<Rightarrow> string \<Rightarrow> string" where
  "json_quote_with esc s = [quote] @ json_escape esc s @ [quote]"

abbreviation json_quote :: "string \<Rightarrow> string" where
  "json_quote \<equiv> json_quote_with escape_ascii"

abbreviation json_quote_html :: "string \<Rightarrow> string" where
  "json_quote_html \<equiv> json_quote_with escape_html"

section \<open>Objects and values\<close>

fun comma_separated :: "string list \<Rightarrow> string" where
  "comma_separated [] = []"
| "comma_separated [x] = x"
| "comma_separated (x # y # xs) = x @ '','' @ comma_separated (y # xs)"

definition json_object :: "(string \<times> string) list \<Rightarrow> string" where
  "json_object fs = ''{'' @ comma_separated (map (\<lambda>(k, v). json_quote k @ '':'' @ v) fs) @ ''}''"

definition int_text :: "int \<Rightarrow> string" where
  "int_text i = (if i < 0 then ''-'' else []) @ nat_str (nat \<bar>i\<bar>)"

text \<open>\<^verbatim>\<open>json.Marshal\<close> of a value, with HTML escaping.\<close>

fun json_text :: "json \<Rightarrow> string" where
  "json_text (JString s) = json_quote_html s"
| "json_text (JInt i) = int_text i"
| "json_text JNull = ''null''"
| "json_text (JArray vs) = ''['' @ comma_separated (map json_text vs) @ '']''"
| "json_text (JObject fs) =
     ''{'' @ comma_separated (map (\<lambda>(k, v). json_quote_html k @ '':'' @ json_text v) fs) @ ''}''"

section \<open>Parsing\<close>

datatype jvalue = VString string | VNumber string | VBool bool | VNull | VArray "jvalue list" | VObject "(string \<times> jvalue) list"

definition is_space :: "char \<Rightarrow> bool" where
  "is_space c \<longleftrightarrow> c = CHR '' '' \<or> c = CHR 0x09 \<or> c = CHR 0x0A \<or> c = CHR 0x0D"

abbreviation skip_ws :: "string \<Rightarrow> string" where
  "skip_ws \<equiv> dropWhile is_space"

definition is_hex :: "char \<Rightarrow> bool" where
  "is_hex c \<longleftrightarrow> is_digit c \<or> (let n = of_char c :: nat in 97 \<le> n \<and> n \<le> 102 \<or> 65 \<le> n \<and> n \<le> 70)"

text \<open>The rest of a string after its opening quote: what is written up to the closing one, and what follows.\<close>

fun scan_string :: "string \<Rightarrow> (string \<times> string) option" where
  "scan_string [] = None"
| "scan_string (c # s) =
     (if c = quote then Some ([], s)
      else if c = backslash
      then (case s of
              [] \<Rightarrow> None
            | e # s1 \<Rightarrow>
                if e \<in> set [quote, backslash, CHR ''/'', CHR ''b'', CHR ''f'', CHR ''n'', CHR ''r'', CHR ''t'']
                then map_option (apfst (\<lambda>x. c # e # x)) (scan_string s1)
                else if e = CHR ''u''
                then (case s1 of
                        h1 # h2 # h3 # h4 # s2 \<Rightarrow>
                          if list_all is_hex [h1, h2, h3, h4]
                          then map_option (apfst (\<lambda>x. c # e # h1 # h2 # h3 # h4 # x)) (scan_string s2)
                          else None
                      | _ \<Rightarrow> None)
                else None)
      else if (of_char c :: nat) < 32 then None
      else map_option (apfst (Cons c)) (scan_string s))"

text \<open>A number: an integer without superfluous zeros, a fraction, an exponent.\<close>

definition scan_digits :: "string \<Rightarrow> (string \<times> string) option" where
  "scan_digits s = (if takeWhile is_digit s = [] then None else Some (takeWhile is_digit s, dropWhile is_digit s))"

definition scan_fraction :: "string \<Rightarrow> (string \<times> string) option" where
  "scan_fraction s =
     (case s of
        c # r \<Rightarrow> if c = CHR ''.'' then map_option (apfst (Cons c)) (scan_digits r) else Some ([], s)
      | [] \<Rightarrow> Some ([], s))"

definition scan_exponent :: "string \<Rightarrow> (string \<times> string) option" where
  "scan_exponent s =
     (case s of
        c # r \<Rightarrow>
          if c = CHR ''e'' \<or> c = CHR ''E''
          then (case r of
                  d # r' \<Rightarrow>
                    if d = CHR ''+'' \<or> d = CHR ''-'' then map_option (apfst (\<lambda>x. c # d # x)) (scan_digits r')
                    else map_option (apfst (Cons c)) (scan_digits r)
                | [] \<Rightarrow> None)
          else Some ([], s)
      | [] \<Rightarrow> Some ([], s))"

definition scan_integer :: "string \<Rightarrow> (string \<times> string) option" where
  "scan_integer s =
     (case s of
        c # r \<Rightarrow> if c = CHR ''0'' then Some ([c], r) else scan_digits s
      | [] \<Rightarrow> None)"

definition scan_number :: "string \<Rightarrow> (string \<times> string) option" where
  "scan_number s =
     (let (sign, t) = (case s of c # r \<Rightarrow> if c = CHR ''-'' then ([c], r) else ([], s) | [] \<Rightarrow> ([], s))
      in case scan_integer t of
           None \<Rightarrow> None
         | Some (i, t1) \<Rightarrow>
             (case scan_fraction t1 of
                None \<Rightarrow> None
              | Some (f, t2) \<Rightarrow>
                  map_option (\<lambda>(e, t3). (sign @ i @ f @ e, t3)) (scan_exponent t2)))"

definition literal :: "string \<Rightarrow> jvalue \<Rightarrow> string \<Rightarrow> (jvalue \<times> string) option" where
  "literal w v s = (if HasPrefix s w then Some (v, drop (length w) s) else None)"

text \<open>Every call takes one unit of fuel, twice the length of the text is enough; \<open>d\<close> is the nesting left.\<close>

fun parse_value :: "nat \<Rightarrow> nat \<Rightarrow> string \<Rightarrow> (jvalue \<times> string) option"
  and parse_elements :: "nat \<Rightarrow> nat \<Rightarrow> string \<Rightarrow> (jvalue list \<times> string) option"
  and parse_members :: "nat \<Rightarrow> nat \<Rightarrow> string \<Rightarrow> ((string \<times> jvalue) list \<times> string) option" where
  "parse_value 0 d s = None"
| "parse_value (Suc n) d s =
     (case skip_ws s of
        [] \<Rightarrow> None
      | c # r \<Rightarrow>
          if c = quote then map_option (apfst VString) (scan_string r)
          else if c = CHR ''{''
          then if d = 0 then None
               else (case skip_ws r of
                       [] \<Rightarrow> None
                     | c' # r' \<Rightarrow> if c' = CHR ''}'' then Some (VObject [], r')
                                else map_option (apfst VObject) (parse_members n (d - 1) (c' # r')))
          else if c = CHR ''[''
          then if d = 0 then None
               else (case skip_ws r of
                       [] \<Rightarrow> None
                     | c' # r' \<Rightarrow> if c' = CHR '']'' then Some (VArray [], r')
                                else map_option (apfst VArray) (parse_elements n (d - 1) (c' # r')))
          else if c = CHR ''t'' then literal ''true'' (VBool True) (c # r)
          else if c = CHR ''f'' then literal ''false'' (VBool False) (c # r)
          else if c = CHR ''n'' then literal ''null'' VNull (c # r)
          else map_option (apfst VNumber) (scan_number (c # r)))"
| "parse_elements 0 d s = None"
| "parse_elements (Suc n) d s =
     (case parse_value n d s of
        None \<Rightarrow> None
      | Some (v, r) \<Rightarrow>
          (case skip_ws r of
             [] \<Rightarrow> None
           | c # r' \<Rightarrow>
               if c = CHR '','' then map_option (apfst (Cons v)) (parse_elements n d r')
               else if c = CHR '']'' then Some ([v], r') else None))"
| "parse_members 0 d s = None"
| "parse_members (Suc n) d s =
     (case skip_ws s of
        [] \<Rightarrow> None
      | q # r \<Rightarrow>
          if q \<noteq> quote then None
          else
     (case scan_string r of
        None \<Rightarrow> None
      | Some (k, r1) \<Rightarrow>
     (case skip_ws r1 of
        [] \<Rightarrow> None
      | c # r2 \<Rightarrow>
          if c \<noteq> CHR '':'' then None
          else
     (case parse_value n d r2 of
        None \<Rightarrow> None
      | Some (v, r3) \<Rightarrow>
     (case skip_ws r3 of
        [] \<Rightarrow> None
      | c' # r4 \<Rightarrow>
          if c' = CHR '','' then map_option (apfst (Cons (k, v))) (parse_members n d r4)
          else if c' = CHR ''}'' then Some ([(k, v)], r4) else None)))))"

definition maxNestingDepth :: nat where
  "maxNestingDepth = 10000"

definition parse_json :: "string \<Rightarrow> jvalue option" where
  "parse_json s =
     (case parse_value (Suc (2 * length s)) maxNestingDepth s of
        None \<Rightarrow> None
      | Some (v, r) \<Rightarrow> if skip_ws r = [] then Some v else None)"

section \<open>Decoding\<close>

definition hex_value :: "char \<Rightarrow> nat" where
  "hex_value c =
     (let n = of_char c in if n \<le> 57 then n - 48 else if n \<le> 70 then n - 55 else n - 87)"

definition hex4 :: "char \<Rightarrow> char \<Rightarrow> char \<Rightarrow> char \<Rightarrow> nat" where
  "hex4 a b c d = 4096 * hex_value a + 256 * hex_value b + 16 * hex_value c + hex_value d"

text \<open>\<^verbatim>\<open>utf8.EncodeRune\<close>, and the encoding of the replacement character.\<close>

definition encode_rune :: "nat \<Rightarrow> string" where
  "encode_rune r =
     map char_of
       (if r < 128 then [r]
        else if r < 2048 then [192 + r div 64, 128 + r mod 64]
        else if r < 65536 then [224 + r div 4096, 128 + r div 64 mod 64, 128 + r mod 64]
        else [240 + r div 262144, 128 + r div 4096 mod 64, 128 + r div 64 mod 64, 128 + r mod 64])"

abbreviation (input) replacement :: string where
  "replacement \<equiv> [CHR 0xEF, CHR 0xBF, CHR 0xBD]"

definition unescape :: "char \<Rightarrow> char" where
  "unescape e =
     (if e = CHR ''b'' then CHR 0x08 else if e = CHR ''f'' then CHR 0x0C else if e = CHR ''n'' then CHR 0x0A
      else if e = CHR ''r'' then CHR 0x0D else if e = CHR ''t'' then CHR 0x09 else e)"

text \<open>A rune written as \<^verbatim>\<open>\uXXXX\<close>: a surrogate takes the next escape when the two make a rune.\<close>

definition decode_u :: "nat \<Rightarrow> string \<Rightarrow> string \<times> nat" where
  "decode_u r s =
     (if r < 55296 \<or> 57344 \<le> r then (encode_rune r, 0)
      else case s of
             x # u # a # b # c # d # _ \<Rightarrow>
               let r2 = hex4 a b c d
               in if x = backslash \<and> u = CHR ''u'' \<and> list_all is_hex [a, b, c, d] \<and> r < 56320 \<and>
                     56320 \<le> r2 \<and> r2 < 57344
                  then (encode_rune (65536 + (r - 55296) * 1024 + (r2 - 56320)), 6)
                  else (replacement, 0)
           | _ \<Rightarrow> (replacement, 0))"

function unquote :: "string \<Rightarrow> string" where
  "unquote [] = []"
| "unquote (c # s) =
     (if c = backslash
      then (case s of
              [] \<Rightarrow> []
            | e # s1 \<Rightarrow>
                if e = CHR ''u''
                then (case s1 of
                        h1 # h2 # h3 # h4 # s2 \<Rightarrow>
                          (case decode_u (hex4 h1 h2 h3 h4) s2 of (x, n) \<Rightarrow> x @ unquote (drop n s2))
                      | _ \<Rightarrow> [])
                else unescape e # unquote s1)
      else let n = rune_len (map of_char (c # s))
           in if n = 0 then replacement @ unquote s else take n (c # s) @ unquote (drop (n - 1) s))"
  by pat_completeness auto
termination
  by (relation "measure length") auto

declare unquote.simps(2) [simp del]

text \<open>
  The name of a member matches a field of a struct up to case: Go folds the runes of both, so that
  the long s (U+017F) stands for s and the Kelvin sign (U+212A) for k.
\<close>

fun fold_name :: "string \<Rightarrow> string" where
  "fold_name (a # b # c # s) =
     (if a = CHR 0xC5 \<and> b = CHR 0xBF then CHR ''S'' # fold_name (c # s)
      else if a = CHR 0xE2 \<and> b = CHR 0x84 \<and> c = CHR 0xAA then CHR ''K'' # fold_name s
      else (if 97 \<le> (of_char a :: nat) \<and> (of_char a :: nat) \<le> 122 then char_of ((of_char a :: nat) - 32) else a) #
           fold_name (b # c # s))"
| "fold_name [a, b] =
     (if a = CHR 0xC5 \<and> b = CHR 0xBF then ''S''
      else (if 97 \<le> (of_char a :: nat) \<and> (of_char a :: nat) \<le> 122 then char_of ((of_char a :: nat) - 32) else a) #
           fold_name [b])"
| "fold_name [a] = [if 97 \<le> (of_char a :: nat) \<and> (of_char a :: nat) \<le> 122 then char_of ((of_char a :: nat) - 32) else a]"
| "fold_name [] = []"

text \<open>
  \<^verbatim>\<open>Unmarshal\<close> into a struct: the members in order, each into the field of its name, the others
  ignored. A field is given by its name and the assignment of a value, which fails when the value
  does not fit. \<^verbatim>\<open>null\<close> leaves a struct, a string, a time or a UUID as it is.
\<close>

fun decode_members :: "(string \<times> (jvalue \<Rightarrow> 'r \<Rightarrow> 'r option)) list \<Rightarrow> (string \<times> jvalue) list \<Rightarrow> 'r \<Rightarrow> 'r option" where
  "decode_members fs [] r = Some r"
| "decode_members fs ((k, v) # ms) r =
     (case find (\<lambda>f. fold_name (fst f) = fold_name (unquote k)) fs of
        None \<Rightarrow> decode_members fs ms r
      | Some f \<Rightarrow> (case snd f v r of None \<Rightarrow> None | Some r' \<Rightarrow> decode_members fs ms r'))"

definition decode_struct :: "(string \<times> (jvalue \<Rightarrow> 'r \<Rightarrow> 'r option)) list \<Rightarrow> jvalue \<Rightarrow> 'r \<Rightarrow> 'r option" where
  "decode_struct fs v r =
     (case v of VObject ms \<Rightarrow> decode_members fs ms r | VNull \<Rightarrow> Some r | _ \<Rightarrow> None)"

definition decode_string :: "(string \<Rightarrow> 'r \<Rightarrow> 'r) \<Rightarrow> jvalue \<Rightarrow> 'r \<Rightarrow> 'r option" where
  "decode_string put v r = (case v of VString s \<Rightarrow> Some (put (unquote s) r) | VNull \<Rightarrow> Some r | _ \<Rightarrow> None)"

text \<open>A pointer to a string: \<^verbatim>\<open>null\<close> makes it nil.\<close>

definition decode_string_ptr :: "(string option \<Rightarrow> 'r \<Rightarrow> 'r) \<Rightarrow> jvalue \<Rightarrow> 'r \<Rightarrow> 'r option" where
  "decode_string_ptr put v r =
     (case v of VString s \<Rightarrow> Some (put (Some (unquote s)) r) | VNull \<Rightarrow> Some (put None r) | _ \<Rightarrow> None)"

text \<open>\<^verbatim>\<open>Time.UnmarshalJSON\<close> reads the string as it is written, without decoding escapes.\<close>

definition decode_time :: "(time \<Rightarrow> 'r \<Rightarrow> 'r) \<Rightarrow> jvalue \<Rightarrow> 'r \<Rightarrow> 'r option" where
  "decode_time put v r =
     (case v of VString s \<Rightarrow> map_option (\<lambda>t. put t r) (parse_RFC3339 s) | VNull \<Rightarrow> Some r | _ \<Rightarrow> None)"

definition decode_uuid :: "(string \<Rightarrow> uuid option) \<Rightarrow> (uuid \<Rightarrow> 'r \<Rightarrow> 'r) \<Rightarrow> jvalue \<Rightarrow> 'r \<Rightarrow> 'r option" where
  "decode_uuid parse put v r =
     (case v of VString s \<Rightarrow> map_option (\<lambda>u. put u r) (parse (unquote s)) | VNull \<Rightarrow> Some r | _ \<Rightarrow> None)"

end
