(* ===== verification/Outbox_Dispatcher.thy ===== *)
theory Outbox_Dispatcher
  imports Repositories Go_JSON "HOL-Library.Char_ord" "HOL-Library.List_Lexorder"
begin

text \<open>
  The delivery of the outbox: \<^verbatim>\<open>internal/infrastructure/postgres/outbox_dispatcher_repository.go\<close>,
  \<^verbatim>\<open>internal/infrastructure/sqs/outbox_publisher.go\<close> and
  \<^verbatim>\<open>internal/application/outbox_dispatcher_service.go\<close>. The repository works outside of
  transactions. The identifier of a worker and the URL of the event queue are arguments.
\<close>

section \<open>The repository\<close>

record PendingOutboxEvent =
  po_EventID :: uuid
  po_EventType :: string
  po_AggregateID :: uuid
  po_CorrelationID :: string
  po_CausationID :: string
  po_Version :: int
  po_Payload :: json
  po_OccurredAt :: time
  po_Attempts :: int

text \<open>
  A document read from a \<^verbatim>\<open>JSONB\<close> column: PostgreSQL keeps the last of the members of one name and
  orders members by the length of their names, then by their bytes.
\<close>

fun last_members :: "(string \<times> 'a) list \<Rightarrow> (string \<times> 'a) list" where
  "last_members [] = []"
| "last_members (f # fs) = (if fst f \<in> set (map fst fs) then last_members fs else f # last_members fs)"

fun jsonb :: "json \<Rightarrow> json" where
  "jsonb (JArray vs) = JArray (map jsonb vs)"
| "jsonb (JObject fs) =
     JObject (sort_key (\<lambda>f. length (fst f)) (sort_key fst (last_members (map (\<lambda>(k, v). (k, jsonb v)) fs))))"
| "jsonb v = v"

definition claimable :: "time \<Rightarrow> outbox_row \<Rightarrow> bool" where
  "claimable now r \<longleftrightarrow>
     ob_published_at r = None \<and> ob_next_attempt_at r \<le> now \<and>
     (case ob_claimed_until r of None \<Rightarrow> True | Some t \<Rightarrow> t \<le> now)"

definition claim_candidates :: "time \<Rightarrow> DB \<Rightarrow> outbox_row list" where
  "claim_candidates now db =
     sort_key ob_next_attempt_at (sort_key ob_occurred_at (filter (claimable now) (outbox db)))"

definition claim_assign :: "string \<Rightarrow> time \<Rightarrow> outbox_row \<Rightarrow> outbox_row" where
  "claim_assign workerID leaseUntil r =
     r\<lparr>ob_attempts := ob_attempts r + 1, ob_claimed_by := Some workerID, ob_claimed_until := Some leaseUntil\<rparr>"

definition pending_event :: "outbox_row \<Rightarrow> PendingOutboxEvent" where
  "pending_event r =
     \<lparr>po_EventID = ob_event_id r, po_EventType = ob_event_type r, po_AggregateID = ob_aggregate_id r,
      po_CorrelationID = ob_correlation_id r, po_CausationID = stringValue (ob_causation_id r),
      po_Version = ob_version r, po_Payload = jsonb (ob_payload r), po_OccurredAt = ob_occurred_at r,
      po_Attempts = ob_attempts r\<rparr>"

text \<open>An \<^verbatim>\<open>INTEGER\<close> column of 32 bits cannot count further than its largest value.\<close>

definition claim_query :: "string \<Rightarrow> time \<Rightarrow> time \<Rightarrow> DB \<Rightarrow> infra_error + outbox_row option \<times> DB" where
  "claim_query workerID leaseUntil now db =
     (case claim_candidates now db of
        [] \<Rightarrow> Inr (None, db)
      | r # _ \<Rightarrow>
          if 2 ^ 31 \<le> ob_attempts r + 1 then Inl (PgError ''22003'' [])
          else map_sum id (\<lambda>(n, db'). (Some (claim_assign workerID leaseUntil r), db'))
                 (update_outbox (\<lambda>x. ob_event_id x = ob_event_id r) (claim_assign workerID leaseUntil) db))"

definition ClaimPending :: "'d Env \<Rightarrow> string \<Rightarrow> time \<Rightarrow> PendingOutboxEvent act" where
  "ClaimPending E workerID leaseUntil =
     bind_act (request E background (\<lambda>now clk. claim_query workerID leaseUntil now))
       (\<lambda>row. case row of None \<Rightarrow> throw (AppErr ErrNotFound) | Some r \<Rightarrow> ret (pending_event r))"

definition claimed_by :: "uuid \<Rightarrow> string \<Rightarrow> outbox_row \<Rightarrow> bool" where
  "claimed_by eventID workerID r \<longleftrightarrow>
     ob_event_id r = eventID \<and> ob_claimed_by r = Some workerID \<and> ob_published_at r = None"

definition MarkPublished :: "'d Env \<Rightarrow> uuid \<Rightarrow> string \<Rightarrow> time \<Rightarrow> unit act" where
  "MarkPublished E eventID workerID publishedAt =
     bind_act
       (exec_stmt E background (update_outbox (claimed_by eventID workerID)
          (\<lambda>r. r\<lparr>ob_published_at := Some publishedAt, ob_claimed_by := None, ob_claimed_until := None\<rparr>)))
       (\<lambda>n. if n = 0 then throw (AppErr ErrNotFound) else ret ())"

definition ScheduleRetry :: "'d Env \<Rightarrow> uuid \<Rightarrow> string \<Rightarrow> time \<Rightarrow> unit act" where
  "ScheduleRetry E eventID workerID nextAttemptAt =
     bind_act
       (exec_stmt E background (update_outbox (claimed_by eventID workerID)
          (\<lambda>r. r\<lparr>ob_next_attempt_at := nextAttemptAt, ob_claimed_by := None, ob_claimed_until := None\<rparr>)))
       (\<lambda>n. if n = 0 then throw (AppErr ErrNotFound) else ret ())"

section \<open>The publisher\<close>

definition message_json :: "'d Env \<Rightarrow> PendingOutboxEvent \<Rightarrow> json" where
  "message_json E event =
     JObject
       ([(''eventId'', JString (E_uuid_String E (po_EventID event))),
         (''eventType'', JString (po_EventType event)),
         (''aggregateId'', JString (E_uuid_String E (po_AggregateID event))),
         (''correlationId'', JString (po_CorrelationID event))] @
        (if po_CausationID event = [] then [] else [(''causationId'', JString (po_CausationID event))]) @
        [(''occurredAt'', JString (Format_RFC3339Nano (po_OccurredAt event))),
         (''version'', JInt (po_Version event)),
         (''data'', po_Payload event)])"

definition buildOutboxMessage :: "'d Env \<Rightarrow> PendingOutboxEvent \<Rightarrow> string" where
  "buildOutboxMessage E event = json_text (message_json E event)"

definition outbox_message :: "'d Env \<Rightarrow> string \<Rightarrow> PendingOutboxEvent \<Rightarrow> sqs_call" where
  "outbox_message E queueURL event =
     SendMessage queueURL (buildOutboxMessage E event) (E_uuid_String E (po_AggregateID event))
       (E_uuid_String E (po_EventID event)) []"

definition OutboxPublisher_Publish :: "'d Env \<Rightarrow> string \<Rightarrow> PendingOutboxEvent \<Rightarrow> unit act" where
  "OutboxPublisher_Publish E queueURL event = sqs_request E (outbox_message E queueURL event)"

section \<open>The service\<close>

definition outboxLeaseDuration :: duration where
  "outboxLeaseDuration = 30 * Second"

definition initialOutboxRetryDelay :: duration where
  "initialOutboxRetryDelay = 5 * Second"

definition maxOutboxRetryDelay :: duration where
  "maxOutboxRetryDelay = 5 * Minute"

function outbox_delay_loop :: "int \<Rightarrow> int \<Rightarrow> duration \<Rightarrow> duration" where
  "outbox_delay_loop attempt attempts delay =
     (if attempt < attempts
      then if maxOutboxRetryDelay div 2 \<le> delay then maxOutboxRetryDelay
           else outbox_delay_loop (attempt + 1) attempts (wrap64 (delay * 2))
      else delay)"
  by pat_completeness auto
termination
  by (relation "measure (\<lambda>(attempt, attempts, _). nat (attempts - attempt))") auto

declare outbox_delay_loop.simps [simp del]

definition outboxRetryDelay :: "int \<Rightarrow> duration" where
  "outboxRetryDelay attempts =
     (if attempts \<le> 1 then initialOutboxRetryDelay
      else outbox_delay_loop 1 attempts initialOutboxRetryDelay)"

text \<open>\<^verbatim>\<open>handlePublishFailure\<close> always returns an error.\<close>

definition handlePublishFailure :: "'d Env \<Rightarrow> string \<Rightarrow> PendingOutboxEvent \<Rightarrow> err \<Rightarrow> World \<Rightarrow> err \<times> World" where
  "handlePublishFailure E workerID event publishErr w =
     (case Clock_Now E background w of
        (Inl e, w1) \<Rightarrow> (Wrapped publishErr e, w1)
      | (Inr now, w1) \<Rightarrow>
          (case ScheduleRetry E (po_EventID event) workerID (now + outboxRetryDelay (po_Attempts event)) w1 of
             (Inl e, w2) \<Rightarrow> (Wrapped publishErr e, w2)
           | (Inr _, w2) \<Rightarrow> (publishErr, w2)))"

text \<open>\<^verbatim>\<open>DispatchNext\<close> tells whether there was an event, and an error.\<close>

definition DispatchNext :: "'d Env \<Rightarrow> string \<Rightarrow> string \<Rightarrow> World \<Rightarrow> (bool \<times> err option) \<times> World" where
  "DispatchNext E queueURL workerID w =
     (case Clock_Now E background w of
        (Inl e, w1) \<Rightarrow> ((False, Some e), w1)
      | (Inr now, w1) \<Rightarrow>
     (case ClaimPending E workerID (now + outboxLeaseDuration) w1 of
        (Inl e, w2) \<Rightarrow> if errors_Is e (AppErr ErrNotFound) then ((False, None), w2) else ((False, Some e), w2)
      | (Inr event, w2) \<Rightarrow>
     (case OutboxPublisher_Publish E queueURL event w2 of
        (Inl e, w3) \<Rightarrow>
          (case handlePublishFailure E workerID event e w3 of (e', w4) \<Rightarrow> ((True, Some e'), w4))
      | (Inr _, w3) \<Rightarrow>
     (case Clock_Now E background w3 of
        (Inl e, w4) \<Rightarrow> ((True, Some e), w4)
      | (Inr publishedAt, w4) \<Rightarrow>
     (case MarkPublished E (po_EventID event) workerID publishedAt w4 of
        (Inl e, w5) \<Rightarrow> ((True, Some e), w5)
      | (Inr _, w5) \<Rightarrow> ((True, None), w5))))))"

end
