(* ===== verification/JSON_Correctness.thy ===== *)
theory JSON_Correctness
  imports Go_JSON
begin

text \<open>
  What \<^verbatim>\<open>encoding/json\<close> writes, it reads back: strings, with and without the escaping of HTML, and
  values of any shape within the nesting limit.
\<close>

section \<open>Runes\<close>

lemma rune_len_simps:
  "a < 128 \<Longrightarrow> rune_len (a # t) = 1"
  "\<lbrakk>194 \<le> a; a \<le> 223; cont_byte b\<rbrakk> \<Longrightarrow> rune_len (a # b # t) = 2"
  "\<lbrakk>224 \<le> a; a \<le> 239; cont_byte b; cont_byte c; a = 224 \<longrightarrow> 160 \<le> b; a = 237 \<longrightarrow> b \<le> 159\<rbrakk> \<Longrightarrow>
     rune_len (a # b # c # t) = 3"
  "\<lbrakk>240 \<le> a; a \<le> 244; cont_byte b; cont_byte c; cont_byte d; a = 240 \<longrightarrow> 144 \<le> b; a = 244 \<longrightarrow> b \<le> 143\<rbrakk> \<Longrightarrow>
     rune_len (a # b # c # d # t) = 4"
  by (simp_all add: rune_len_def)

lemma utf8_valid_cases:
  assumes "utf8_valid s" "s \<noteq> []"
  obtains (one) a t where "s = a # t" "a < 128" "utf8_valid t" "rune_len s = 1"
  | (two) a b t where "s = a # b # t" "194 \<le> a" "a \<le> 223" "cont_byte b" "utf8_valid t" "rune_len s = 2"
  | (three) a b c t where "s = a # b # c # t" "224 \<le> a" "a \<le> 239" "cont_byte b" "cont_byte c"
      "a = 224 \<longrightarrow> 160 \<le> b" "a = 237 \<longrightarrow> b \<le> 159" "utf8_valid t" "rune_len s = 3"
  | (four) a b c d t where "s = a # b # c # d # t" "240 \<le> a" "a \<le> 244" "cont_byte b" "cont_byte c" "cont_byte d"
      "a = 240 \<longrightarrow> 144 \<le> b" "a = 244 \<longrightarrow> b \<le> 143" "utf8_valid t" "rune_len s = 4"
proof -
  obtain a s1 where s: "s = a # s1" using assms(2) by (cases s) auto
  show thesis
  proof (cases "a < 128")
    case True
    then show thesis using one [of a s1] assms s rune_len_simps(1) by simp
  next
    case a: False
    then obtain b s2 where s1: "s1 = b # s2" using assms(1) s by (cases s1) auto
    show thesis
    proof (cases "194 \<le> a \<and> a \<le> 223")
      case True
      then show thesis using two [of a b s2] assms s s1 a rune_len_simps(2) by simp
    next
      case a2: False
      then obtain c s3 where s2: "s2 = c # s3" using assms(1) s s1 a by (cases s2) auto
      show thesis
      proof (cases "224 \<le> a \<and> a \<le> 239")
        case True
        then show thesis using three [of a b c s3] assms(1) s s1 s2 a a2 rune_len_simps(3) [of a b c s3] by simp
      next
        case a3: False
        then obtain d s4 where "s3 = d # s4" using assms(1) s s1 s2 a a2 by (cases s3) auto
        then show thesis using four [of a b c d s4] assms(1) s s1 s2 a a2 a3 rune_len_simps(4) [of a b c d s4] by simp
      qed
    qed
  qed
qed

lemma map_of_char_Cons:
  assumes "map of_char s = (a :: nat) # t"
  obtains c s' where "s = c # s'" "of_char c = a" "map of_char s' = t"
  using assms by (cases s) auto

section \<open>Strings\<close>

text \<open>A chunk of a written string: the scanner passes over it.\<close>

definition chunk :: "string \<Rightarrow> bool" where
  "chunk x \<longleftrightarrow> (\<forall>t. scan_string (x @ t) = map_option (apfst ((@) x)) (scan_string t))"

lemma append_fun: "(@) [] = (\<lambda>t. t)" "(@) (c # x) = (\<lambda>t. c # x @ t)"
  by (simp_all add: fun_eq_iff)

lemma chunk_Nil: "chunk []"
  by (simp add: chunk_def append_fun apfst_def map_prod_def option.map_id)

lemma chunk_append: "\<lbrakk>chunk x; chunk y\<rbrakk> \<Longrightarrow> chunk (x @ y)"
  by (simp add: chunk_def option.map_comp comp_def apfst_def map_prod_def split_def)

lemma chunk_plain: "\<lbrakk>32 \<le> (of_char c :: nat); c \<noteq> quote; c \<noteq> backslash\<rbrakk> \<Longrightarrow> chunk [c]"
  by (simp add: chunk_def append_fun)

lemma chunk_high: "list_all (\<lambda>c. 128 \<le> (of_char c :: nat)) x \<Longrightarrow> chunk x"
proof (induction x)
  case (Cons c x)
  have "chunk [c]" by (rule chunk_plain) (use Cons.prems in auto)
  from chunk_append [OF this Cons.IH] Cons.prems show ?case by simp
qed (rule chunk_Nil)

lemma is_hex_digit: "n < 16 \<Longrightarrow> is_hex (hex_digit n) \<and> hex_value (hex_digit n) = n"
  by (auto simp: is_hex_def hex_digit_def hex_value_def is_digit_def Let_def)

lemma chunk_u: "list_all is_hex [a, b, c, d] \<Longrightarrow> chunk (backslash # CHR ''u'' # [a, b, c, d])"
  by (simp add: chunk_def append_fun)

lemma is_hex_0: "is_hex (CHR ''0'')" "hex_value (CHR ''0'') = 0"
  by (simp_all add: is_hex_def is_digit_def hex_value_def)

text \<open>An escaping of the ASCII bytes that the scanner passes over and the decoder undoes.\<close>

definition good_escape :: "(nat \<Rightarrow> string) \<Rightarrow> bool" where
  "good_escape esc \<longleftrightarrow> (\<forall>b < 128. chunk (esc b) \<and> (\<forall>t. unquote (esc b @ t) = char_of b # unquote t))"

lemma unquote_u00:
  assumes "b < 128"
  shows "chunk (backslash # ''u00'' @ [hex_digit (b div 16), hex_digit (b mod 16)]) \<and>
    unquote (backslash # ''u00'' @ [hex_digit (b div 16), hex_digit (b mod 16)] @ t) = char_of b # unquote t"
proof -
  have h: "is_hex (hex_digit (b div 16))" "is_hex (hex_digit (b mod 16))"
    "hex_value (hex_digit (b div 16)) = b div 16" "hex_value (hex_digit (b mod 16)) = b mod 16"
    using is_hex_digit [of "b div 16"] is_hex_digit [of "b mod 16"] assms by auto
  have "hex4 (CHR ''0'') (CHR ''0'') (hex_digit (b div 16)) (hex_digit (b mod 16)) = b"
    by (simp add: hex4_def h is_hex_0)
  then show ?thesis
    using assms chunk_u [of "CHR ''0''" "CHR ''0''"] h is_hex_0
    by (simp add: unquote.simps(2) decode_u_def encode_rune_def)
qed

lemma unquote_plain: "\<lbrakk>(of_char c :: nat) < 128; c \<noteq> backslash\<rbrakk> \<Longrightarrow> unquote (c # t) = c # unquote t"
  by (simp add: unquote.simps(2) rune_len_simps(1) Let_def)

lemma escape_ascii_good: "good_escape escape_ascii"
  unfolding good_escape_def
proof (intro allI impI)
  fix b :: nat assume b: "b < 128"
  consider "b \<in> {34, 92, 8, 12, 10, 13, 9}" | "b < 32" "b \<notin> {34, 92, 8, 12, 10, 13, 9}"
    | "32 \<le> b" "b \<noteq> 34" "b \<noteq> 92" by force
  then show "chunk (escape_ascii b) \<and> (\<forall>t. unquote (escape_ascii b @ t) = char_of b # unquote t)"
  proof cases
    case 1
    have c: "char_of (34 :: nat) = CHR 0x22" "char_of (92 :: nat) = CHR 0x5C" "char_of (8 :: nat) = CHR 0x08"
      "char_of (12 :: nat) = CHR 0x0C" "char_of (10 :: nat) = CHR 0x0A" "char_of (13 :: nat) = CHR 0x0D"
      "char_of (9 :: nat) = CHR 0x09" by code_simp+
    from 1 show ?thesis
      by (auto simp: c escape_ascii_def chunk_def append_fun unquote.simps(2) unescape_def)
  next
    case 2
    then have "escape_ascii b = backslash # ''u00'' @ [hex_digit (b div 16), hex_digit (b mod 16)]"
      by (simp add: escape_ascii_def)
    then show ?thesis using unquote_u00 [OF b] by simp
  next
    case 3
    have c: "of_char (char_of b :: char) = b" using b by simp
    have "of_char quote = (34 :: nat)" "of_char backslash = (92 :: nat)" by simp_all
    then have "(char_of b :: char) \<noteq> quote" "(char_of b :: char) \<noteq> backslash" using 3(2,3) c by metis+
    then show ?thesis
      using 3 b c chunk_plain [of "char_of b"] unquote_plain [of "char_of b"] by (simp add: escape_ascii_def)
  qed
qed

lemma escape_html_good: "good_escape escape_html"
  using escape_ascii_good unquote_u00 by (simp add: good_escape_def escape_html_def)
text \<open>A valid rune of several bytes is copied, or written as \<^verbatim>\<open>\u2028\<close> or \<^verbatim>\<open>\u2029\<close>.\<close>

definition rune_text :: "string \<Rightarrow> string" where
  "rune_text x =
     (if map of_char x = [226, 128, 168 :: nat] then backslash # ''u2028''
      else if map of_char x = [226, 128, 169 :: nat] then backslash # ''u2029'' else x)"

lemma line_separators:
  "map of_char x = [226, 128, 168 :: nat] \<Longrightarrow> x = [CHR 0xE2, CHR 0x80, CHR 0xA8]"
  "map of_char x = [226, 128, 169 :: nat] \<Longrightarrow> x = [CHR 0xE2, CHR 0x80, CHR 0xA9]"
proof -
  have c: "char_of (226 :: nat) = CHR 0xE2" "char_of (128 :: nat) = CHR 0x80" "char_of (168 :: nat) = CHR 0xA8"
    "char_of (169 :: nat) = CHR 0xA9" by code_simp+
  have "map char_of (map of_char x :: nat list) = x" by (simp add: comp_def)
  then show "map of_char x = [226, 128, 168 :: nat] \<Longrightarrow> x = [CHR 0xE2, CHR 0x80, CHR 0xA8]"
    "map of_char x = [226, 128, 169 :: nat] \<Longrightarrow> x = [CHR 0xE2, CHR 0x80, CHR 0xA9]"
    by (metis c list.simps(8,9))+
qed

lemma unquote_line_separators:
  "unquote (backslash # ''u2028'' @ t) = [CHR 0xE2, CHR 0x80, CHR 0xA8] @ unquote t"
  "unquote (backslash # ''u2029'' @ t) = [CHR 0xE2, CHR 0x80, CHR 0xA9] @ unquote t"
proof -
  have "encode_rune (hex4 (CHR ''2'') (CHR ''0'') (CHR ''2'') (CHR ''8'')) = [CHR 0xE2, CHR 0x80, CHR 0xA8]"
    "encode_rune (hex4 (CHR ''2'') (CHR ''0'') (CHR ''2'') (CHR ''9'')) = [CHR 0xE2, CHR 0x80, CHR 0xA9]"
    "hex4 (CHR ''2'') (CHR ''0'') (CHR ''2'') (CHR ''8'') = 8232" "hex4 (CHR ''2'') (CHR ''0'') (CHR ''2'') (CHR ''9'') = 8233"
    by code_simp+
  then show "unquote (backslash # ''u2028'' @ t) = [CHR 0xE2, CHR 0x80, CHR 0xA8] @ unquote t"
    "unquote (backslash # ''u2029'' @ t) = [CHR 0xE2, CHR 0x80, CHR 0xA9] @ unquote t"
    by (simp_all add: unquote.simps(2) decode_u_def)
qed

lemma rune_text_good:
  assumes "list_all (\<lambda>c. 128 \<le> (of_char c :: nat)) x" "x \<noteq> []"
    "\<And>t. rune_len (map of_char (x @ t)) = length x"
  shows "chunk (rune_text x) \<and> unquote (rune_text x @ t) = x @ unquote t"
proof -
  obtain c y where x: "x = c # y" using assms(2) by (cases x) auto
  have "of_char backslash = (92 :: nat)" by simp
  then have "c \<noteq> backslash" using assms(1) x by auto
  then have u: "unquote (x @ t) = x @ unquote t"
    using assms(3) [of t] by (simp add: x unquote.simps(2))
  have "chunk (backslash # ''u2028'')" "chunk (backslash # ''u2029'')"
    by (rule chunk_u; simp add: is_hex_def is_digit_def)+
  then show ?thesis
    using chunk_high [OF assms(1)] u unquote_line_separators [of t] line_separators [of x]
    by (auto simp: rune_text_def)
qed

lemma cont_byte_high: "cont_byte b \<Longrightarrow> 128 \<le> b"
  by (simp add: cont_byte_def)

lemma json_escape_rune:
  assumes "utf8_valid (map of_char s)" "s \<noteq> []"
  obtains (ascii) c t where "s = c # t" "(of_char c :: nat) < 128" "utf8_valid (map of_char t)"
      "json_escape esc s = esc (of_char c) @ json_escape esc t"
  | (rune) x t where "s = x @ t" "x \<noteq> []" "utf8_valid (map of_char t)" "list_all (\<lambda>c. 128 \<le> (of_char c :: nat)) x"
      "\<And>u. rune_len (map of_char (x @ u)) = length x"
      "json_escape esc s = rune_text x @ json_escape esc t"
proof -
  have e: "json_escape esc s = rune_text (take n s) @ json_escape esc (drop n s)"
    if "rune_len (map of_char s) = n" "2 \<le> n" for n
    using that assms(2) by (simp add: json_escape.simps [of esc s] rune_text_def Let_def)
  have "map of_char s \<noteq> []" using assms(2) by simp
  from assms(1) this show thesis
  proof (cases rule: utf8_valid_cases)
    case (one a t)
    obtain c s' where s: "s = c # s'" "of_char c = a" "map of_char s' = t" using one(1) by (rule map_of_char_Cons)
    have "json_escape esc s = esc (of_char c) @ json_escape esc s'"
      using one(2) by (simp add: s json_escape.simps [of esc "c # s'"] Let_def rune_len_simps(1))
    then show thesis using ascii [of c s'] one s by simp
  next
    case (two a b t)
    obtain c s1 where s: "s = c # s1" "of_char c = a" "map of_char s1 = b # t" using two(1) by (rule map_of_char_Cons)
    obtain d s2 where s1: "s1 = d # s2" "of_char d = b" "map of_char s2 = t" using s(3) by (rule map_of_char_Cons)
    show thesis
      by (rule rune [of "[c, d]" s2])
        (use two s s1 e [OF two(6)] in \<open>simp_all add: rune_len_simps cont_byte_high\<close>)
  next
    case (three a b c t)
    obtain x s1 where s: "s = x # s1" "of_char x = a" "map of_char s1 = b # c # t" using three(1) by (rule map_of_char_Cons)
    obtain y s2 where s1: "s1 = y # s2" "of_char y = b" "map of_char s2 = c # t" using s(3) by (rule map_of_char_Cons)
    obtain z s3 where s2: "s2 = z # s3" "of_char z = c" "map of_char s3 = t" using s1(3) by (rule map_of_char_Cons)
    show thesis
      by (rule rune [of "[x, y, z]" s3])
        (use three s s1 s2 e [OF three(9)] in \<open>simp_all add: rune_len_simps cont_byte_high\<close>)
  next
    case (four a b c d t)
    obtain x s1 where s: "s = x # s1" "of_char x = a" "map of_char s1 = b # c # d # t" using four(1) by (rule map_of_char_Cons)
    obtain y s2 where s1: "s1 = y # s2" "of_char y = b" "map of_char s2 = c # d # t" using s(3) by (rule map_of_char_Cons)
    obtain z s3 where s2: "s2 = z # s3" "of_char z = c" "map of_char s3 = d # t" using s1(3) by (rule map_of_char_Cons)
    obtain v s4 where s3: "s3 = v # s4" "of_char v = d" "map of_char s4 = t" using s2(3) by (rule map_of_char_Cons)
    show thesis
      by (rule rune [of "[x, y, z, v]" s4])
        (use four s s1 s2 s3 e [OF four(10)] in \<open>simp_all add: rune_len_simps cont_byte_high\<close>)
  qed
qed

lemma json_escape_good:
  assumes "good_escape esc" "utf8_valid (map of_char s)"
  shows "chunk (json_escape esc s) \<and> unquote (json_escape esc s) = s"
  using assms(2)
proof (induction s rule: length_induct)
  case (1 s)
  show ?case
  proof (cases "s = []")
    case True
    then show ?thesis by (simp add: json_escape.simps chunk_Nil)
  next
    case False
    from "1.prems" False show ?thesis
    proof (cases rule: json_escape_rune [where esc = esc])
      case (ascii c t)
      then have "chunk (json_escape esc t) \<and> unquote (json_escape esc t) = t" using "1.IH" by simp
      then show ?thesis using ascii assms(1) chunk_append by (simp add: good_escape_def)
    next
      case (rune x t)
      then have "chunk (json_escape esc t) \<and> unquote (json_escape esc t) = t" using "1.IH" by simp
      then show ?thesis using rune rune_text_good [OF rune(4,2,5)] chunk_append by simp
    qed
  qed
qed

lemma scan_quoted:
  assumes "good_escape esc" "utf8_valid (map of_char s)"
  shows "scan_string (json_escape esc s @ quote # r) = Some (json_escape esc s, r)"
  using json_escape_good [OF assms] by (simp add: chunk_def)

section \<open>Values\<close>

fun value_of :: "json \<Rightarrow> jvalue" where
  "value_of (JString s) = VString (json_escape escape_html s)"
| "value_of (JInt i) = VNumber (int_text i)"
| "value_of JNull = VNull"
| "value_of (JArray vs) = VArray (map value_of vs)"
| "value_of (JObject fs) = VObject (map (\<lambda>(k, v). (json_escape escape_html k, value_of v)) fs)"

fun json_ok :: "json \<Rightarrow> bool" where
  "json_ok (JString s) \<longleftrightarrow> utf8_valid (map of_char s)"
| "json_ok (JInt i) \<longleftrightarrow> True"
| "json_ok JNull \<longleftrightarrow> True"
| "json_ok (JArray vs) \<longleftrightarrow> list_all json_ok vs"
| "json_ok (JObject fs) \<longleftrightarrow> list_all (\<lambda>(k, v). utf8_valid (map of_char k) \<and> json_ok v) fs"

fun json_depth :: "json \<Rightarrow> nat" where
  "json_depth (JArray vs) = Suc (Max (set (0 # map json_depth vs)))"
| "json_depth (JObject fs) = Suc (Max (set (0 # map (\<lambda>(k, v). json_depth v) fs)))"
| "json_depth _ = 0"

text \<open>What follows a value: nothing, or the mark that ends it in an array or an object.\<close>

definition ends :: "string \<Rightarrow> bool" where
  "ends r \<longleftrightarrow> (case r of [] \<Rightarrow> True | c # _ \<Rightarrow> c \<in> {CHR '','', CHR '']'', CHR ''}''})"

lemma ends_simps [simp]: "ends []" "ends (CHR '','' # r)" "ends (CHR '']'' # r)" "ends (CHR ''}'' # r)"
  by (simp_all add: ends_def)

lemma scan_digits_text:
  assumes "list_all is_digit s" "s \<noteq> []" "ends r"
  shows "scan_digits (s @ r) = Some (s, r)"
proof (cases r)
  case Nil
  have "takeWhile is_digit s = s" using assms(1) by (induction s) simp_all
  moreover have "dropWhile is_digit s = []" using assms(1) by (induction s) simp_all
  ultimately show ?thesis using Nil assms(2) by (simp only: scan_digits_def append_Nil2) simp
next
  case (Cons c t)
  then have "\<not> is_digit c" using assms(3) by (auto simp: ends_def is_digit_def)
  then show ?thesis using assms(1,2) takeWhile_digits [of is_digit s c t] Cons by (simp add: scan_digits_def)
qed

lemma scan_no_fraction: "ends r \<Longrightarrow> scan_fraction r = Some ([], r) \<and> scan_exponent r = Some ([], r)"
  by (cases r) (auto simp: ends_def scan_fraction_def scan_exponent_def)

lemma scan_integer_text:
  assumes "ends r"
  shows "scan_integer (nat_str n @ r) = Some (nat_str n, r)"
proof (cases "n = 0")
  case True
  have "nat_str 0 = ''0''" by code_simp
  then show ?thesis using True by (simp add: scan_integer_def)
next
  case False
  obtain c s where s: "nat_str n = c # s" using nat_str_ne [of n] by (cases "nat_str n") auto
  have "c \<noteq> CHR ''0''" using nat_str_hd [of n] False s by simp
  moreover have "list_all is_digit (nat_str n)" using nat_str_digits by (simp add: list_all_iff)
  ultimately show ?thesis using scan_digits_text [of "nat_str n" r] assms s by (simp add: scan_integer_def)
qed

lemma nat_str_hd_digit: "\<exists>c s. nat_str n = c # s \<and> is_digit c"
  using nat_str_digits [of n] nat_str_ne [of n] by (cases "nat_str n") auto

lemma scan_number_text:
  assumes "ends r"
  shows "scan_number (int_text i @ r) = Some (int_text i, r)"
proof -
  obtain c s where s: "nat_str (nat \<bar>i\<bar>) = c # s" "is_digit c" using nat_str_hd_digit by blast
  have "c \<noteq> CHR ''-''" using s(2) by (auto simp: is_digit_def)
  then show ?thesis
    using scan_integer_text [OF assms, of "nat \<bar>i\<bar>"] scan_no_fraction [OF assms] s
    by (simp add: scan_number_def int_text_def)
qed

text \<open>The first byte of a value tells its kind.\<close>

lemma int_text_first:
  obtains x t where "int_text i = x # t" "is_digit x \<or> x = CHR ''-''"
proof -
  obtain c s where "nat_str (nat \<bar>i\<bar>) = c # s" "is_digit c" using nat_str_hd_digit by blast
  then show thesis using that by (cases "i < 0") (simp_all add: int_text_def)
qed

lemma number_byte:
  "is_digit x \<or> x = CHR ''-'' \<Longrightarrow> \<not> is_space x \<and> x \<notin> {quote, CHR ''{'', CHR ''['', CHR '']'', CHR ''t'', CHR ''f'', CHR ''n''}"
  by (auto simp: is_space_def is_digit_def)

lemma json_text_first:
  obtains c s where "json_text v = c # s" "\<not> is_space c" "c \<noteq> CHR '']''"
proof (cases v)
  case (JInt i)
  obtain x t where "int_text i = x # t" "is_digit x \<or> x = CHR ''-''" by (rule int_text_first)
  then show thesis using that [of x t] number_byte [of x] JInt by simp
qed (use that in \<open>simp_all add: json_quote_with_def is_space_def\<close>)

lemma parse_number_text:
  assumes "ends r" "0 < n"
  shows "parse_value n d (int_text i @ r) = Some (VNumber (int_text i), r)"
proof -
  obtain x t where t: "int_text i = x # t" "is_digit x \<or> x = CHR ''-''" by (rule int_text_first)
  note number_byte [OF t(2)]
  moreover obtain m where "n = Suc m" using assms(2) by (cases n) auto
  ultimately show ?thesis using scan_number_text [OF assms(1), of i] t by simp
qed

definition reads_back :: "json \<Rightarrow> bool" where
  "reads_back v \<longleftrightarrow>
     (\<forall>n d r. ends r \<longrightarrow> json_ok v \<longrightarrow> json_depth v \<le> d \<longrightarrow> 2 * length (json_text v) \<le> n \<longrightarrow>
        parse_value n d (json_text v @ r) = Some (value_of v, r))"

lemma json_text_ne: "json_text v \<noteq> []"
  by (rule json_text_first [of v]) simp

lemma parse_elements_text:
  assumes "vs \<noteq> []" "\<forall>v \<in> set vs. reads_back v \<and> json_ok v \<and> json_depth v \<le> d"
    "2 * length (comma_separated (map json_text vs)) + 2 \<le> n"
  shows "parse_elements n d (comma_separated (map json_text vs) @ CHR '']'' # r) = Some (map value_of vs, r)"
  using assms
proof (induction "map json_text vs" arbitrary: vs n rule: comma_separated.induct)
  case (2 x)
  then obtain v where v: "vs = [v]" by auto
  obtain m where n: "n = Suc m" using "2.prems"(3) by (cases n) auto
  have "parse_value m d (json_text v @ CHR '']'' # r) = Some (value_of v, CHR '']'' # r)"
    using "2.prems" v n by (simp add: reads_back_def)
  then show ?case by (simp add: v n is_space_def)
next
  case (3 x y xs)
  then obtain v u us where v: "vs = v # u # us" by (cases vs; cases "tl vs") auto
  obtain m where n: "n = Suc m" using "3.prems"(3) by (cases n) auto
  let ?rest = "comma_separated (map json_text (u # us))"
  have t: "comma_separated (map json_text vs) = json_text v @ CHR '','' # ?rest" by (simp add: v)
  have "0 < length (json_text v)" using json_text_ne by simp
  then have m: "2 * length (json_text v) \<le> m" "2 * length ?rest + 2 \<le> m"
    using "3.prems"(3) t n by auto
  have "parse_value m d (json_text v @ CHR '','' # ?rest @ CHR '']'' # r) = Some (value_of v, CHR '','' # ?rest @ CHR '']'' # r)"
    using "3.prems"(2) v m(1) by (simp add: reads_back_def)
  moreover have "parse_elements m d (?rest @ CHR '']'' # r) = Some (map value_of (u # us), r)"
    using "3.hyps"(1) [of "u # us" m] "3.hyps"(2) "3.prems"(2) m(2) v by simp
  ultimately show ?case by (simp add: t n is_space_def v)
qed simp

abbreviation member_text :: "string \<times> json \<Rightarrow> string" where
  "member_text \<equiv> \<lambda>(k, v). json_quote_html k @ '':'' @ json_text v"

lemma skip_ws_text: "skip_ws (json_text v @ r) = json_text v @ r"
  by (rule json_text_first [of v]) simp

lemma parse_members_text:
  assumes "fs \<noteq> []" "\<forall>(k, v) \<in> set fs. reads_back v \<and> utf8_valid (map of_char k) \<and> json_ok v \<and> json_depth v \<le> d"
    "2 * length (comma_separated (map member_text fs)) + 2 \<le> n"
  shows "parse_members n d (comma_separated (map member_text fs) @ CHR ''}'' # r) =
    Some (map (\<lambda>(k, v). (json_escape escape_html k, value_of v)) fs, r)"
  using assms
proof (induction "map member_text fs" arbitrary: fs n rule: comma_separated.induct)
  case (2 x)
  then obtain k v where v: "fs = [(k, v)]" by auto
  obtain m where n: "n = Suc m" using "2.prems"(3) by (cases n) auto
  have "parse_value m d (json_text v @ CHR ''}'' # r) = Some (value_of v, CHR ''}'' # r)"
    using "2.prems" v n by (simp add: reads_back_def)
  moreover have "utf8_valid (map of_char k)" using "2.prems"(2) v by simp
  ultimately show ?case
    using scan_quoted [OF escape_html_good] by (simp add: v n is_space_def json_quote_with_def)
next
  case (3 x y xs)
  then obtain k v u us where v: "fs = (k, v) # u # us" by (cases fs; cases "tl fs") auto
  obtain m where n: "n = Suc m" using "3.prems"(3) by (cases n) auto
  let ?rest = "comma_separated (map member_text (u # us))"
  have t: "comma_separated (map member_text fs) = json_quote_html k @ CHR '':'' # json_text v @ CHR '','' # ?rest"
    by (simp add: v)
  have m: "2 * length (json_text v) \<le> m" "2 * length ?rest + 2 \<le> m"
    using "3.prems"(3) t n by auto
  have "parse_value m d (json_text v @ CHR '','' # ?rest @ CHR ''}'' # r) = Some (value_of v, CHR '','' # ?rest @ CHR ''}'' # r)"
    using "3.prems"(2) v m(1) by (simp add: reads_back_def)
  moreover have "parse_members m d (?rest @ CHR ''}'' # r) = Some (map (\<lambda>(k, v). (json_escape escape_html k, value_of v)) (u # us), r)"
    using "3.hyps"(1) [of "u # us" m] "3.hyps"(2) "3.prems"(2) m(2) v by simp
  moreover have "utf8_valid (map of_char k)" using "3.prems"(2) v by simp
  ultimately show ?case
    using scan_quoted [OF escape_html_good]
    by (simp add: t n is_space_def v json_quote_with_def)
qed simp

lemma depth_member: "v \<in> set vs \<Longrightarrow> Suc (json_depth v) \<le> json_depth (JArray vs)"
  by simp

lemma depth_field: "(k, v) \<in> set fs \<Longrightarrow> Suc (json_depth v) \<le> json_depth (JObject fs)"
proof -
  assume "(k, v) \<in> set fs"
  then have "json_depth v \<in> set (0 # map (\<lambda>(k, v). json_depth v) fs)" by force
  then show ?thesis using Max_ge [OF finite_set] by simp
qed

lemma comma_separated_first: "fs \<noteq> [] \<Longrightarrow> \<exists>s. comma_separated (map member_text fs) = quote # s"
  by (cases fs; cases "tl fs") (auto simp: json_quote_with_def)

lemma comma_separated_text_first:
  assumes "vs \<noteq> []"
  obtains c s where "comma_separated (map json_text vs) = c # s" "\<not> is_space c" "c \<noteq> CHR '']''"
proof -
  obtain v us where vs: "vs = v # us" using assms by (cases vs) auto
  obtain c s where "json_text v = c # s" "\<not> is_space c" "c \<noteq> CHR '']''" by (rule json_text_first)
  then show thesis using that vs by (cases us) simp_all
qed

lemma json_text_reads_back: "reads_back v"
proof (induction v rule: json_text.induct)
  case (1 s)
  show ?case unfolding reads_back_def
  proof (intro allI impI)
    fix n d r assume n: "2 * length (json_text (JString s)) \<le> n" and ok: "json_ok (JString s)"
    then obtain m where "n = Suc m" by (cases n) (auto simp: json_quote_with_def)
    then show "parse_value n d (json_text (JString s) @ r) = Some (value_of (JString s), r)"
      using scan_quoted [OF escape_html_good, of s r] ok by (simp add: json_quote_with_def is_space_def)
  qed
next
  case (2 i)
  show ?case unfolding reads_back_def
    using parse_number_text [of _ _ _ i] json_text_ne [of "JInt i"]
    by (metis bot_nat_0.not_eq_extremum json_text.simps(2) le_0_eq length_0_conv mult_is_0 value_of.simps(2) zero_neq_numeral)
next
  case 3
  show ?case unfolding reads_back_def
  proof (intro allI impI)
    fix n d r assume "2 * length (json_text JNull) \<le> n"
    then obtain m where "n = Suc m" by (cases n) auto
    then show "parse_value n d (json_text JNull @ r) = Some (value_of JNull, r)"
      by (simp add: is_space_def literal_def HasPrefix_def)
  qed
next
  case (4 vs)
  show ?case unfolding reads_back_def
  proof (intro allI impI)
    fix n d r assume n: "2 * length (json_text (JArray vs)) \<le> n" and ok: "json_ok (JArray vs)" "json_depth (JArray vs) \<le> d"
    obtain m where m: "n = Suc m" using n by (cases n) auto
    have d: "d \<noteq> 0" using ok(2) by auto
    show "parse_value n d (json_text (JArray vs) @ r) = Some (value_of (JArray vs), r)"
    proof (cases "vs = []")
      case True
      then show ?thesis using m d by (simp add: is_space_def)
    next
      case False
      have "\<forall>v \<in> set vs. reads_back v \<and> json_ok v \<and> json_depth v \<le> d - 1"
        using 4 ok depth_member [of _ vs] by (fastforce simp: list_all_iff simp del: json_depth.simps)
      from parse_elements_text [OF False this, of m r]
      have p: "parse_elements m (d - 1) (comma_separated (map json_text vs) @ CHR '']'' # r) = Some (map value_of vs, r)"
        using n m by simp
      obtain c s where "comma_separated (map json_text vs) = c # s" "\<not> is_space c" "c \<noteq> CHR '']''"
        by (rule comma_separated_text_first [OF False])
      then show ?thesis using p m d by (simp add: is_space_def)
    qed
  qed
next
  case (5 fs)
  show ?case unfolding reads_back_def
  proof (intro allI impI)
    fix n d r assume n: "2 * length (json_text (JObject fs)) \<le> n" and ok: "json_ok (JObject fs)" "json_depth (JObject fs) \<le> d"
    obtain m where m: "n = Suc m" using n by (cases n) auto
    have d: "d \<noteq> 0" using ok(2) by auto
    show "parse_value n d (json_text (JObject fs) @ r) = Some (value_of (JObject fs), r)"
    proof (cases "fs = []")
      case True
      then show ?thesis using m d by (simp add: is_space_def)
    next
      case False
      have "reads_back v \<and> utf8_valid (map of_char k) \<and> json_ok v \<and> json_depth v \<le> d - 1" if "(k, v) \<in> set fs" for k v
        using 5 [OF that] ok depth_field [OF that] that by (auto simp: list_all_iff simp del: json_depth.simps)
      then have "\<forall>(k, v) \<in> set fs. reads_back v \<and> utf8_valid (map of_char k) \<and> json_ok v \<and> json_depth v \<le> d - 1" by blast
      from parse_members_text [OF False this, of m r]
      have p: "parse_members m (d - 1) (comma_separated (map member_text fs) @ CHR ''}'' # r) =
          Some (map (\<lambda>(k, v). (json_escape escape_html k, value_of v)) fs, r)"
        using n m by simp
      obtain s where "comma_separated (map member_text fs) = quote # s" using comma_separated_first [OF False] by blast
      then show ?thesis using p m d by (simp add: is_space_def)
    qed
  qed
qed

lemma parse_json_text:
  assumes "json_ok v" "json_depth v \<le> maxNestingDepth"
  shows "parse_json (json_text v) = Some (value_of v)"
proof -
  have "parse_value (Suc (2 * length (json_text v))) maxNestingDepth (json_text v @ []) = Some (value_of v, [])"
    using json_text_reads_back [of v] assms unfolding reads_back_def by (metis ends_simps(1) le_SucI order_refl)
  then show ?thesis by (simp add: parse_json_def)
qed

end
