(* ===== verification/Domain_Correctness.thy ===== *)
theory Domain_Correctness
  imports Wager_Transaction "HOL-Library.Code_Target_Nat"
begin

text \<open>
  The properties of the domain package: money, wallets and their ledger entries, and the life cycle
  of a wager transaction. They are stated for every decimal package that meets \<open>decimal_pkg\<close>, with
  \<open>cents\<close> the exact number of hundredths of an amount. The examples at the concrete package of
  \<^verbatim>\<open>Fixed_Decimal\<close> show that the hypotheses can hold together.
\<close>

section \<open>Example values\<close>

definition brl :: Currency where
  "brl = \<lparr>currency_code = ''BRL''\<rparr>"

definition brl_cents :: "int \<Rightarrow> fixed Money" where
  "brl_cents n = \<lparr>money_amount = (n, 2), money_currency = brl\<rparr>"

definition example_wallet :: "fixed Wallet" where
  "example_wallet =
     \<lparr>wallet_id = 7, wallet_playerID = 9, wallet_balance = brl_cents 10000, wallet_version = 1,
      wallet_createdAt = 1000, wallet_updatedAt = 1000\<rparr>"

definition example_external :: "WagerTransactionType \<Rightarrow> string \<Rightarrow> fixed NewExternalWagerTransactionParams" where
  "example_external ty ref =
     \<lparr>np_ID = 21, np_ProviderID = ''prov'', np_ExternalTransactionID = ''e1'', np_IdempotencyKey = ''k1'',
      np_PayloadHash = ''h'', np_WalletID = 7, np_PlayerID = 9, np_RoundID = ''r1'', np_GameID = ''g1'',
      np_Type = ty, np_Amount = brl_cents 2550, np_ReferenceExternalTransactionID = ref, np_CreatedAt = 1000\<rparr>"

lemma brl_valid [simp]: "Currency_IsValid brl" "money_currency (brl_cents n) = brl"
  by (simp_all add: Currency_IsValid_def brl_def brl_cents_def currencyCodePattern_def is_upper_def)

lemma brl_cents_cents [simp]: "whole_cents fixed_val (brl_cents n)" "cents fixed_val (brl_cents n) = n"
  using fixed.whole_centsI [of "brl_cents n" n] by (simp_all add: brl_cents_def)

lemma brl_cents_ok [simp]: "money_ok fixed_decimal fixed_val (brl_cents n) \<longleftrightarrow> \<bar>n\<bar> \<le> max_cents"
  by (simp add: fixed.money_ok_iff)

lemma example_wallet_ok: "wallet_ok fixed_decimal fixed_val example_wallet"
  by (simp add: wallet_ok_def example_wallet_def)

section \<open>Money\<close>

context decimal_pkg
begin

lemma print_parse:
  assumes "money_ok D val m" "0 \<le> cents val m"
  shows "\<exists>m'. ParseMoney D (Money_Amount D m) (money_currency m) = Inr m' \<and> Money_Equal D m m'"
proof -
  have b: "Currency_IsValid (money_currency m)" "cents val m \<le> max_cents" "whole_cents val m"
    using assms(1) by (auto simp: money_ok_iff)
  obtain m' where "ParseMoney D (fixed2 (cents val m)) (money_currency m) = Inr m'" "money_ok D val m'"
    "money_currency m' = money_currency m" "cents val m' = cents val m"
    using ParseMoney_fixed2 [OF b(1) assms(2) b(2)] .
  then show ?thesis using Equal_cents [OF b(3)] by (auto simp: Money_Amount_fixed2 [OF b(3)] money_ok_def)
qed

text \<open>Sums and differences, by their hundredths.\<close>

lemma Add_exact:
  assumes "money_ok D val a" "money_ok D val b"
  shows "case Money_Add D a b of
      Inr m \<Rightarrow> money_ok D val m \<and> money_currency m = money_currency a \<and> money_currency b = money_currency a \<and>
        cents val m = cents val a + cents val b
    | Inl e \<Rightarrow> e = DomainErr ErrCurrencyMismatch \<and> money_currency a \<noteq> money_currency b \<or>
        e = DomainErr ErrInvalidMoney \<and> money_currency a = money_currency b \<and> max_cents < \<bar>cents val a + cents val b\<bar>"
  using assms cents_Add [of a b "money_currency a"] by (auto simp: Money_Add_ok money_ok_iff)

lemma Sub_exact:
  assumes "money_ok D val a" "money_ok D val b"
  shows "case Money_Sub D a b of
      Inr m \<Rightarrow> money_ok D val m \<and> money_currency m = money_currency a \<and> money_currency b = money_currency a \<and>
        cents val m = cents val a - cents val b
    | Inl e \<Rightarrow> e = DomainErr ErrCurrencyMismatch \<and> money_currency a \<noteq> money_currency b \<or>
        e = DomainErr ErrInvalidMoney \<and> money_currency a = money_currency b \<and> max_cents < \<bar>cents val a - cents val b\<bar>"
  using assms cents_Sub [of a b "money_currency a"] by (auto simp: Money_Sub_ok money_ok_iff)

end

text \<open>
  C34: \<^verbatim>\<open>ParseMoney\<close> accepts exactly the texts of the money format in a valid currency. The
  amount it returns is valid, not negative, has exactly the value the text writes, and is printed by
  \<^verbatim>\<open>Amount\<close> as the very same text.
\<close>

theorem ParseMoney_exact:
  assumes "decimal_pkg D val"
  shows "case ParseMoney D s c of
      Inr m \<Rightarrow> Currency_IsValid c \<and> moneyAmountPattern s \<and> money_ok D val m \<and> money_currency m = c \<and>
        cents val m = parsed_cents s \<and> 0 \<le> cents val m \<and> Money_Amount D m = s
    | Inl e \<Rightarrow> e = (if Currency_IsValid c then DomainErr ErrInvalidMoney else DomainErr ErrInvalidCurrency) \<and>
        \<not> (Currency_IsValid c \<and> moneyAmountPattern s)"
proof (cases "ParseMoney D s c")
  case (Inr m)
  then show ?thesis using decimal_pkg.ParseMoney_InrD [OF assms Inr] by simp
next
  case (Inl e)
  then have "\<not> (Currency_IsValid c \<and> moneyAmountPattern s)"
    using decimal_pkg.ParseMoney_ok [OF assms, of c s] by auto
  then show ?thesis using Inl by (auto simp: ParseMoney_def)
qed

theorem ParseMoney_exact_witness:
  "case ParseMoney fixed_decimal ''25.50'' brl of
      Inr m \<Rightarrow> Currency_IsValid brl \<and> moneyAmountPattern ''25.50'' \<and> money_ok fixed_decimal fixed_val m \<and>
        money_currency m = brl \<and> cents fixed_val m = parsed_cents ''25.50'' \<and> 0 \<le> cents fixed_val m \<and>
        Money_Amount fixed_decimal m = ''25.50''
    | Inl e \<Rightarrow> e = (if Currency_IsValid brl then DomainErr ErrInvalidMoney else DomainErr ErrInvalidCurrency) \<and>
        \<not> (Currency_IsValid brl \<and> moneyAmountPattern ''25.50'')"
  by (rule ParseMoney_exact [OF fixed.decimal_pkg_axioms])

text \<open>
  C35: \<^verbatim>\<open>Add\<close> and \<^verbatim>\<open>Sub\<close> of valid amounts are exact: no rounding ever happens. They fail
  exactly for amounts of different currencies and for a result outside the twenty digits of the
  database type, and what they return is valid again.
\<close>

theorem Money_arithmetic_exact:
  assumes "decimal_pkg D val" "money_ok D val a" "money_ok D val b"
  shows "(case Money_Add D a b of
      Inr m \<Rightarrow> money_ok D val m \<and> money_currency m = money_currency a \<and> money_currency b = money_currency a \<and>
        cents val m = cents val a + cents val b
    | Inl e \<Rightarrow> e = DomainErr ErrCurrencyMismatch \<and> money_currency a \<noteq> money_currency b \<or>
        e = DomainErr ErrInvalidMoney \<and> money_currency a = money_currency b \<and> max_cents < \<bar>cents val a + cents val b\<bar>) \<and>
    (case Money_Sub D a b of
      Inr m \<Rightarrow> money_ok D val m \<and> money_currency m = money_currency a \<and> money_currency b = money_currency a \<and>
        cents val m = cents val a - cents val b
    | Inl e \<Rightarrow> e = DomainErr ErrCurrencyMismatch \<and> money_currency a \<noteq> money_currency b \<or>
        e = DomainErr ErrInvalidMoney \<and> money_currency a = money_currency b \<and> max_cents < \<bar>cents val a - cents val b\<bar>)"
  using decimal_pkg.Add_exact [OF assms] decimal_pkg.Sub_exact [OF assms] by (rule conjI)

theorem Money_arithmetic_exact_witness:
  "\<exists>s d. Money_Add fixed_decimal (brl_cents 10) (brl_cents 20) = Inr s \<and> cents fixed_val s = 30 \<and>
     Money_Sub fixed_decimal (brl_cents 10) (brl_cents 20) = Inr d \<and> cents fixed_val d = - 10"
  using Money_arithmetic_exact [OF fixed.decimal_pkg_axioms, of "brl_cents 10" "brl_cents 20"]
  by (auto split: sum.splits)

section \<open>Wallets\<close>

context decimal_pkg
begin

lemma movement_wallet_ok:
  assumes "Wallet_Move D dir w amount t = Inr w'" "wallet_ok D val w" "money_ok D val amount"
    "wallet_version w + 1 < 2 ^ 63"
  shows "wallet_ok D val w'" "wallet_version w' = wallet_version w + 1"
proof -
  note m = Move_InrD [OF assms(1-3)]
  have "in_int64 (wallet_version w + 1)" using assms(2,4) by (simp add: in_int64_def wallet_ok_def)
  then show v: "wallet_version w' = wallet_version w + 1"
    by (subst m(1)) (simp add: applyBalance_def)
  have f: "wallet_id w' = wallet_id w" "wallet_playerID w' = wallet_playerID w"
    "wallet_createdAt w' = wallet_createdAt w" "wallet_updatedAt w' = t"
    by (subst m(1), simp add: applyBalance_def)+
  show "wallet_ok D val w'" unfolding wallet_ok_def f v using m assms(2,4) by (auto simp: wallet_ok_def)
qed

lemma Debit_exact:
  assumes "wallet_ok D val w" "money_ok D val a"
  shows "case Wallet_Debit D w a t of
      Inr w' \<Rightarrow> cents val (wallet_balance w') = cents val (wallet_balance w) - cents val a \<and>
        0 \<le> cents val (wallet_balance w') \<and> 0 < cents val a \<and> wallet_updatedAt w \<le> t \<and>
        money_ok D val (wallet_balance w') \<and> money_currency (wallet_balance w') = money_currency a \<and>
        w' = w\<lparr>wallet_balance := wallet_balance w', wallet_version := wrap64 (wallet_version w + 1),
               wallet_updatedAt := t\<rparr>
    | Inl e \<Rightarrow>
        (if cents val a \<le> 0 then e = DomainErr ErrAmountMustBePositive
         else if money_currency (wallet_balance w) \<noteq> money_currency a then e = DomainErr ErrCurrencyMismatch
         else if t = 0 \<or> t < wallet_updatedAt w then e = DomainErr ErrInvalidTimestamp
         else e = DomainErr ErrInsufficientFunds \<and> cents val (wallet_balance w) < cents val a)"
proof (cases "Wallet_Debit D w a t")
  case (Inr w')
  then have "Wallet_Move D DEBIT w a t = Inr w'" by (simp add: Wallet_Move_def)
  from Move_InrD [OF this assms] show ?thesis using Inr by (simp add: applyBalance_def)
next
  case (Inl e)
  then show ?thesis
    using Debit_ok [OF assms, of t] by (auto simp: validateMovement_ok [OF assms(2)] split: if_splits)
qed

lemma Credit_exact:
  assumes "wallet_ok D val w" "money_ok D val a"
  shows "case Wallet_Credit D w a t of
      Inr w' \<Rightarrow> cents val (wallet_balance w') = cents val (wallet_balance w) + cents val a \<and>
        0 < cents val a \<and> wallet_updatedAt w \<le> t \<and>
        money_ok D val (wallet_balance w') \<and> money_currency (wallet_balance w') = money_currency a \<and>
        w' = w\<lparr>wallet_balance := wallet_balance w', wallet_version := wrap64 (wallet_version w + 1),
               wallet_updatedAt := t\<rparr>
    | Inl e \<Rightarrow>
        (if cents val a \<le> 0 then e = DomainErr ErrAmountMustBePositive
         else if money_currency (wallet_balance w) \<noteq> money_currency a then e = DomainErr ErrCurrencyMismatch
         else if t = 0 \<or> t < wallet_updatedAt w then e = DomainErr ErrInvalidTimestamp
         else e = DomainErr ErrInvalidMoney \<and> max_cents < cents val (wallet_balance w) + cents val a)"
proof (cases "Wallet_Credit D w a t")
  case (Inr w')
  then have "Wallet_Move D CREDIT w a t = Inr w'" by (simp add: Wallet_Move_def)
  from Move_InrD [OF this assms] show ?thesis using Inr by (simp add: applyBalance_def)
next
  case (Inl e)
  then show ?thesis
    using Credit_ok [OF assms, of t] by (auto simp: validateMovement_ok [OF assms(2)] split: if_splits)
qed

lemma movement_entry:
  assumes "Wallet_Move D dir w amount t = Inr w'" "wallet_ok D val w" "money_ok D val amount" "uid \<noteq> 0" "tid \<noteq> 0"
  shows "\<exists>e. NewWalletLedgerEntry D uid (wallet_id w') tid dir amount (wallet_balance w) (wallet_balance w') t = Inr e \<and>
    entry_ok D val e"
proof -
  note m = Move_InrD [OF assms(1-3)] and o = wallet_okD [OF assms(2)]
  have wid: "wallet_id w' = wallet_id w" by (subst m(1)) (simp add: applyBalance_def)
  let ?e = "\<lparr>entry_id = uid, entry_walletID = wallet_id w', entry_transactionID = tid, entry_direction = dir,
         entry_amount = amount, entry_balanceBefore = wallet_balance w, entry_balanceAfter = wallet_balance w',
         entry_createdAt = t\<rparr>"
  have "entry_ok D val ?e" using m o assms wid by (simp add: entry_ok_def wallet_ok_def)
  then show ?thesis using build_entry_iff [OF assms(3) o(1) m(2)] by (auto simp: NewWalletLedgerEntry_def)
qed

end

text \<open>
  C32: \<^verbatim>\<open>Debit\<close> takes exactly the amount from the balance, which stays valid and never becomes
  negative, counts the version up and changes nothing else. It fails exactly for an amount that is
  not positive, another currency, an instant before the last update, or insufficient funds, in this
  order, and then changes nothing.
\<close>

theorem Wallet_Debit_exact:
  assumes "decimal_pkg D val" "wallet_ok D val w" "money_ok D val a"
  shows "case Wallet_Debit D w a t of
      Inr w' \<Rightarrow> cents val (wallet_balance w') = cents val (wallet_balance w) - cents val a \<and>
        0 \<le> cents val (wallet_balance w') \<and> 0 < cents val a \<and> wallet_updatedAt w \<le> t \<and>
        money_ok D val (wallet_balance w') \<and> money_currency (wallet_balance w') = money_currency a \<and>
        w' = w\<lparr>wallet_balance := wallet_balance w', wallet_version := wrap64 (wallet_version w + 1),
               wallet_updatedAt := t\<rparr>
    | Inl e \<Rightarrow>
        (if cents val a \<le> 0 then e = DomainErr ErrAmountMustBePositive
         else if money_currency (wallet_balance w) \<noteq> money_currency a then e = DomainErr ErrCurrencyMismatch
         else if t = 0 \<or> t < wallet_updatedAt w then e = DomainErr ErrInvalidTimestamp
         else e = DomainErr ErrInsufficientFunds \<and> cents val (wallet_balance w) < cents val a)"
  by (rule decimal_pkg.Debit_exact [OF assms])

theorem Wallet_Debit_exact_witness:
  "Wallet_Debit fixed_decimal example_wallet (brl_cents 10001) 2000 = Inl (DomainErr ErrInsufficientFunds) \<and>
   (\<exists>w'. Wallet_Debit fixed_decimal example_wallet (brl_cents 10000) 2000 = Inr w' \<and> cents fixed_val (wallet_balance w') = 0)"
  using Wallet_Debit_exact [OF fixed.decimal_pkg_axioms example_wallet_ok, of "brl_cents 10001" 2000]
    Wallet_Debit_exact [OF fixed.decimal_pkg_axioms example_wallet_ok, of "brl_cents 10000" 2000]
  by (auto simp: example_wallet_def split: sum.splits)

text \<open>
  C27: \<^verbatim>\<open>Credit\<close> adds exactly the amount to the balance, counts the version up and changes
  nothing else. It fails exactly for an amount that is not positive, another currency, an instant
  before the last update, or a balance beyond the largest amount, in this order.
\<close>

lemma Wallet_Credit_exact:
  assumes "decimal_pkg D val" "wallet_ok D val w" "money_ok D val a"
  shows "case Wallet_Credit D w a t of
      Inr w' \<Rightarrow> cents val (wallet_balance w') = cents val (wallet_balance w) + cents val a \<and>
        0 < cents val a \<and> wallet_updatedAt w \<le> t \<and>
        money_ok D val (wallet_balance w') \<and> money_currency (wallet_balance w') = money_currency a \<and>
        w' = w\<lparr>wallet_balance := wallet_balance w', wallet_version := wrap64 (wallet_version w + 1),
               wallet_updatedAt := t\<rparr>
    | Inl e \<Rightarrow>
        (if cents val a \<le> 0 then e = DomainErr ErrAmountMustBePositive
         else if money_currency (wallet_balance w) \<noteq> money_currency a then e = DomainErr ErrCurrencyMismatch
         else if t = 0 \<or> t < wallet_updatedAt w then e = DomainErr ErrInvalidTimestamp
         else e = DomainErr ErrInvalidMoney \<and> max_cents < cents val (wallet_balance w) + cents val a)"
  by (rule decimal_pkg.Credit_exact [OF assms])

text \<open>
  C33: a movement keeps a wallet well-formed, as long as the version does not reach the end of its 64
  bits, and can always be recorded: the ledger entry built from the movement and the two balances
  passes every check of \<^verbatim>\<open>NewWalletLedgerEntry\<close>.
\<close>

theorem movement_keeps_wallet:
  assumes "decimal_pkg D val" "wallet_ok D val w" "money_ok D val a" "Wallet_Move D dir w a t = Inr w'"
    "wallet_version w + 1 < 2 ^ 63" "entryID \<noteq> 0" "transactionID \<noteq> 0"
  shows "wallet_ok D val w' \<and> wallet_version w' = wallet_version w + 1 \<and>
    (\<exists>e. NewWalletLedgerEntry D entryID (wallet_id w') transactionID dir a (wallet_balance w) (wallet_balance w') t = Inr e \<and>
         entry_ok D val e)"
  using decimal_pkg.movement_wallet_ok [OF assms(1,4,2,3,5)] decimal_pkg.movement_entry [OF assms(1,4,2,3,6,7)] by blast

theorem movement_keeps_wallet_witness:
  "\<exists>w'. Wallet_Move fixed_decimal DEBIT example_wallet (brl_cents 2550) 2000 = Inr w' \<and> wallet_ok fixed_decimal fixed_val w'"
proof -
  obtain w' where w': "Wallet_Move fixed_decimal DEBIT example_wallet (brl_cents 2550) 2000 = Inr w'"
    using fixed.Debit_exact [OF example_wallet_ok, of "brl_cents 2550" 2000]
    by (auto simp: Wallet_Move_def example_wallet_def split: sum.splits)
  from movement_keeps_wallet [OF fixed.decimal_pkg_axioms example_wallet_ok _ w', of 3 5] w' show ?thesis
    by (simp add: example_wallet_def)
qed

section \<open>Wager transactions\<close>

lemma lifecycle_star:
  "(wager_step D)\<^sup>*\<^sup>* w w' \<Longrightarrow>
     same_business_fields w w' \<and> tx_updatedAt w \<le> tx_updatedAt w' \<and> (IsTerminal (tx_status w) \<longrightarrow> w' = w) \<and>
     (tx_referenceTransactionID w \<noteq> 0 \<longrightarrow>
        tx_referenceTransactionID w' = tx_referenceTransactionID w \<and>
        tx_referenceTransactionType w' = tx_referenceTransactionType w)"
proof (induction rule: rtranclp_induct)
  case (step x y)
  have e: "step_effect x y" using wager_step_effect [OF step.hyps(2)] .
  have o: "tx_status x = PENDING \<or> tx_status x = PENDING_REFERENCE" using e unfolding step_effect_def by (rule conjunct1)
  have "\<not> IsTerminal (tx_status w)"
  proof
    assume "IsTerminal (tx_status w)"
    with step.IH have "IsTerminal (tx_status x)" by simp
    with o show False by (auto simp: IsTerminal_def)
  qed
  moreover have "same_business_fields w y"
    using same_business_trans [of w x y] step.IH e by (simp add: step_effect_def)
  moreover have "tx_updatedAt x \<le> tx_updatedAt y"
    "tx_referenceTransactionID x \<noteq> 0 \<longrightarrow> tx_referenceTransactionID y = tx_referenceTransactionID x \<and>
       tx_referenceTransactionType y = tx_referenceTransactionType x"
    using e by (simp_all add: step_effect_def)
  ultimately show ?case using step.IH by simp
qed (simp add: same_business_fields_def)

lemma tx_ok_status: "tx_ok D w \<Longrightarrow> Status_IsValid (tx_status w)"
  by (auto simp: tx_ok_def validateRehydratedWager_def params_of_def split: if_splits)

lemma open_statuses:
  "\<lbrakk>tx_ok D w; \<not> IsTerminal (tx_status w)\<rbrakk> \<Longrightarrow> tx_status w = PENDING \<or> tx_status w = PENDING_REFERENCE"
  using tx_ok_status [of D w] by (cases "tx_status w") (auto simp: IsTerminal_def Status_IsValid_def)

lemma can_complete_with_failure:
  assumes "tx_ok D w" "\<not> IsTerminal (tx_status w)" "TrimSpace code \<noteq> []" "t \<noteq> 0" "tx_updatedAt w \<le> t"
    "s = REJECTED \<or> s = FAILED"
  shows "\<exists>w'. completeWithFailure w s code message t = Inr w' \<and> tx_status w' = s \<and> tx_ok D w'"
proof -
  have o: "tx_status w = PENDING \<or> tx_status w = PENDING_REFERENCE" using open_statuses [OF assms(1,2)] .
  have "tx_type w \<noteq> OPENING" using tx_ok_pending_cores(1) [OF assms(1) o] .
  then have "\<exists>w'. completeWithFailure w s code message t = Inr w' \<and> tx_status w' = s"
    using o assms
    by (auto simp: completeWithFailure_def transitionTo_def validateTimestamp_def Status_IsValid_def
        isAllowedWagerTransition_def IsTerminal_def)
  then show ?thesis using completeWithFailure_tx_ok [OF assms(1) _ assms(6)] by blast
qed

context decimal_pkg
begin

lemma reversal_direction:
  assumes "ResolveReference D w (Some r) t = Inr w'" "RequiresReference (tx_type w)"
  shows "\<exists>dir dir'. MovementDirection r = Inr (dir, True) \<and> MovementDirection w' = Inr (dir', True) \<and>
    signed dir' (cents val (tx_amount w')) = - signed dir (cents val (tx_amount r)) \<and>
    tx_walletID w' = tx_walletID r \<and> money_currency (tx_amount w') = money_currency (tx_amount r)"
proof -
  note d = ResolveReference_InrD [OF assms(1)]
  have v: "isAllowedReferenceType (tx_type w) (tx_type r)" "tx_walletID w = tx_walletID r"
    "Money_Equal D (tx_amount w) (tx_amount r)"
    using d(2) assms(2) by (auto simp: validateReference_def split: if_splits)
  have w': "tx_type w' = tx_type w" "tx_amount w' = tx_amount w" "tx_walletID w' = tx_walletID w"
    "tx_referenceTransactionType w' = tx_type r"
    using d(3) by auto
  have "cents val (tx_amount w) = cents val (tx_amount r)" "money_currency (tx_amount w) = money_currency (tx_amount r)"
    using v(3) by (auto simp: Money_Equal_def val_simps cents_def)
  then show ?thesis
    using v w' assms(2)
    by (auto simp: MovementDirection_def type_simps split: WagerTransactionType.splits)
qed

end

text \<open>
  C29: a transaction made by one of the two constructors and changed only by its methods
  always passes the validation of persisted state: \<^verbatim>\<open>RehydrateWagerTransaction\<close> of its fields
  gives the same transaction back. In particular a processed transaction has both balances and a
  completion time, a rejected or failed one a failure code and no balances.
\<close>

theorem reachable_rehydrates:
  assumes "decimal_pkg D val" "wager_reachable D w"
  shows "RehydrateWagerTransaction D (params_of w) = Inr w"
  using decimal_pkg.reachable_tx_ok [OF assms] by (simp add: Rehydrate_params_of)

definition example_tx :: "WagerTransactionType \<Rightarrow> string \<Rightarrow> fixed WagerTransaction" where
  "example_tx ty ref =
     (case NewExternalWagerTransaction fixed_decimal (example_external ty ref) of Inr w \<Rightarrow> w)"

lemma example_tx_new:
  "NewExternalWagerTransaction fixed_decimal (example_external BET []) = Inr (example_tx BET [])"
  "NewExternalWagerTransaction fixed_decimal (example_external ROLLBACK ''b1'') = Inr (example_tx ROLLBACK ''b1'')"
  "tx_status (example_tx BET []) = PENDING" "tx_updatedAt (example_tx BET []) = 1000"
  by code_simp+

theorem reachable_rehydrates_witness:
  "RehydrateWagerTransaction fixed_decimal (params_of (example_tx BET [])) = Inr (example_tx BET [])"
  by (rule reachable_rehydrates [OF fixed.decimal_pkg_axioms])
    (rule wager_reachable.new_external [OF example_tx_new(1)])

text \<open>
  C30: whatever methods are called on a transaction, its business fields never change, its
  update time never goes back, a resolved reference stays as it was resolved, and once the
  transaction is processed, rejected or failed nothing changes any more.
\<close>

theorem wager_lifecycle:
  assumes "(wager_step D)\<^sup>*\<^sup>* w w'"
  shows "same_business_fields w w' \<and> tx_updatedAt w \<le> tx_updatedAt w' \<and> (IsTerminal (tx_status w) \<longrightarrow> w' = w) \<and>
     (tx_referenceTransactionID w \<noteq> 0 \<longrightarrow>
        tx_referenceTransactionID w' = tx_referenceTransactionID w \<and>
        tx_referenceTransactionType w' = tx_referenceTransactionType w)"
  by (rule lifecycle_star [OF assms])

theorem wager_lifecycle_witness:
  "\<exists>w'. MarkRejected (example_tx BET []) ''CODE'' ''m'' 2000 = Inr w' \<and> same_business_fields (example_tx BET []) w'"
proof -
  obtain w' where w': "MarkRejected (example_tx BET []) ''CODE'' ''m'' 2000 = Inr w'"
    using can_complete_with_failure [OF NewExternal_tx_ok [OF example_tx_new(1)], of "''CODE''" 2000 REJECTED "''m''"]
    by (auto simp: MarkRejected_def example_tx_new(3,4) IsTerminal_def TrimSpace_plain plain_byte_def)
  show ?thesis
    using wager_lifecycle [OF r_into_rtranclp [of "wager_step fixed_decimal", OF wager_step.rejected [OF w']]] w' by blast
qed

text \<open>
  No transaction gets stuck: as long as it is not in a final state, it can be rejected and it can
  be marked failed, with any failure code that is not blank and any time that is not before its last
  update.
\<close>

lemma open_transaction_can_close:
  assumes "decimal_pkg D val" "wager_reachable D w" "\<not> IsTerminal (tx_status w)"
    "TrimSpace code \<noteq> []" "t \<noteq> 0" "tx_updatedAt w \<le> t"
  shows "(\<exists>w'. MarkRejected w code message t = Inr w' \<and> tx_status w' = REJECTED \<and> tx_ok D w') \<and>
    (\<exists>w'. MarkFailed w code message t = Inr w' \<and> tx_status w' = FAILED \<and> tx_ok D w')"
  using can_complete_with_failure [OF decimal_pkg.reachable_tx_ok [OF assms(1,2)] assms(3-6)]
  by (simp add: MarkRejected_def MarkFailed_def)

text \<open>
  C31: a refund or rollback whose reference is resolved undoes it exactly: both move money of the same
  wallet and currency, by the same amount, in opposite directions.
\<close>

theorem reversal_undoes_reference:
  assumes "decimal_pkg D val" "ResolveReference D w (Some r) t = Inr w'" "RequiresReference (tx_type w)"
  shows "\<exists>dir dir'. MovementDirection r = Inr (dir, True) \<and> MovementDirection w' = Inr (dir', True) \<and>
    signed dir' (cents val (tx_amount w')) = - signed dir (cents val (tx_amount r)) \<and>
    tx_walletID w' = tx_walletID r \<and> money_currency (tx_amount w') = money_currency (tx_amount r)"
  by (rule decimal_pkg.reversal_direction [OF assms])

definition example_reference :: "fixed WagerTransaction" where
  "example_reference = (example_tx BET [])\<lparr>tx_id := 20, tx_externalTransactionID := ''b1'', tx_status := PROCESSED\<rparr>"

theorem reversal_undoes_reference_witness:
  "\<exists>w' dir'. ResolveReference fixed_decimal (example_tx ROLLBACK ''b1'') (Some example_reference) 2000 = Inr w' \<and>
     MovementDirection w' = Inr (dir', True) \<and> signed dir' (cents fixed_val (tx_amount w')) = 2550"
proof -
  have "(case ResolveReference fixed_decimal (example_tx ROLLBACK ''b1'') (Some example_reference) 2000 of
      Inr w' \<Rightarrow> True | Inl e \<Rightarrow> False)"
    by code_simp
  then obtain w' where w': "ResolveReference fixed_decimal (example_tx ROLLBACK ''b1'') (Some example_reference) 2000 = Inr w'"
    by (auto split: sum.splits)
  have r: "RequiresReference (tx_type (example_tx ROLLBACK ''b1''))"
    "MovementDirection example_reference = Inr (DEBIT, True)" "tx_amount example_reference = brl_cents 2550"
    by code_simp+
  from reversal_undoes_reference [OF fixed.decimal_pkg_axioms w' r(1)] w' r(2,3) show ?thesis by auto
qed

end
