(* ===== verification/Wager_Request.thy ===== *)
theory Wager_Request
  imports Repositories Go_JSON
begin

text \<open>
  \<^verbatim>\<open>internal/application/wager_request.go\<close>: the validation of a command that does not depend on
  persisted state, the payload hash over the canonical JSON of the business fields, and the pending
  transaction of a request. The canonical JSON is written by \<^verbatim>\<open>encoding/json\<close> with HTML escaping
  off.
\<close>

section \<open>Requests\<close>

record 'd wagerRequest =
  req_command :: ProcessWagerCommand
  req_walletID :: uuid
  req_playerID :: uuid
  req_transactionType :: WagerTransactionType
  req_amount :: "'d Money"
  req_payloadHash :: string

text \<open>The keys of the two maps in the sorted order \<^verbatim>\<open>encoding/json\<close> writes.\<close>

definition canonical :: "'d Env \<Rightarrow> 'd wagerRequest \<Rightarrow> string" where
  "canonical E r =
     (let c = req_command r
      in json_object
        ([(''externalTransactionId'', json_quote (cmd_ExternalTransactionID c)),
          (''gameId'', json_quote (cmd_GameID c)),
          (''kind'', json_quote (string_of_type (req_transactionType r))),
          (''money'', json_object
             [(''amount'', json_quote (Money_Amount (E_decimal E) (req_amount r))),
              (''currency'', json_quote (Currency_Code (money_currency (req_amount r))))]),
          (''playerId'', json_quote (E_uuid_String E (req_playerID r))),
          (''providerId'', json_quote (cmd_ProviderID c))] @
         (if cmd_ReferenceExternalTransactionID c \<noteq> []
          then [(''referenceExternalTransactionId'', json_quote (cmd_ReferenceExternalTransactionID c))]
          else []) @
         [(''roundId'', json_quote (cmd_RoundID c)),
          (''walletId'', json_quote (E_uuid_String E (req_walletID r)))]))"

definition request_hash :: "'d Env \<Rightarrow> 'd wagerRequest \<Rightarrow> string" where
  "request_hash E r = hex_EncodeToString (Sum256 (map of_char (canonical E r)))"

definition parseWagerRequest :: "'d Env \<Rightarrow> ProcessWagerCommand \<Rightarrow> err + 'd wagerRequest" where
  "parseWagerRequest E command =
     (case E_uuid_Parse E (cmd_WalletID command) of
        None \<Rightarrow> Inl (DomainErr ErrInvalidWalletID)
      | Some walletID \<Rightarrow>
          if walletID = uuid_Nil then Inl (DomainErr ErrInvalidWalletID)
          else
     (case E_uuid_Parse E (cmd_PlayerID command) of
        None \<Rightarrow> Inl (DomainErr ErrInvalidPlayerID)
      | Some playerID \<Rightarrow>
          if playerID = uuid_Nil then Inl (DomainErr ErrInvalidPlayerID)
          else
     (case NewCurrency (cmd_Currency command) of
        Inl e \<Rightarrow> Inl e
      | Inr currency \<Rightarrow>
     (case ParseMoney (E_decimal E) (cmd_Amount command) currency of
        Inl e \<Rightarrow> Inl e
      | Inr amount \<Rightarrow>
          let transactionType = type_of_string (cmd_Type command)
          in if \<not> Type_IsExternal transactionType then Inl (DomainErr ErrInvalidWagerType)
             else let request = \<lparr>req_command = command, req_walletID = walletID, req_playerID = playerID,
                                 req_transactionType = transactionType, req_amount = amount,
                                 req_payloadHash = []\<rparr>
                  in Inr (request\<lparr>req_payloadHash := request_hash E request\<rparr>)))))"

definition newTransaction :: "'d Env \<Rightarrow> 'd wagerRequest \<Rightarrow> time \<Rightarrow> 'd WagerTransaction act" where
  "newTransaction E r createdAt =
     bind_act (uuid_New E) (\<lambda>uid.
     lift_sum (NewExternalWagerTransaction (E_decimal E)
       \<lparr>np_ID = uid,
        np_ProviderID = cmd_ProviderID (req_command r),
        np_ExternalTransactionID = cmd_ExternalTransactionID (req_command r),
        np_IdempotencyKey = cmd_IdempotencyKey (req_command r),
        np_PayloadHash = req_payloadHash r,
        np_WalletID = req_walletID r,
        np_PlayerID = req_playerID r,
        np_RoundID = cmd_RoundID (req_command r),
        np_GameID = cmd_GameID (req_command r),
        np_Type = req_transactionType r,
        np_Amount = req_amount r,
        np_ReferenceExternalTransactionID = cmd_ReferenceExternalTransactionID (req_command r),
        np_CreatedAt = createdAt\<rparr>))"

section \<open>Lemmas\<close>

text \<open>A payload hash is 64 printable characters, whatever the request.\<close>

lemma request_hash_plain: "c \<in> set (request_hash E r) \<Longrightarrow> plain_byte c"
  unfolding request_hash_def by (rule hex_plain) (auto dest: Sum256_less)

lemma length_request_hash: "length (request_hash E r) = 64"
  by (simp add: request_hash_def length_hex length_Sum256)

lemma request_hash_TrimSpace: "TrimSpace (request_hash E r) = request_hash E r"
proof -
  have "request_hash E r \<noteq> []" using length_request_hash [of E r] by (metis list.size(3) zero_neq_numeral)
  then show ?thesis
    using request_hash_plain [of _ E r] by (intro TrimSpace_plain) auto
qed

text \<open>The hash does not depend on the idempotency key, nor on the hash field itself.\<close>

lemma request_hash_fields:
  "\<lbrakk>req_command r = req_command r' \<lparr>cmd_IdempotencyKey := k\<rparr>; req_walletID r = req_walletID r';
    req_playerID r = req_playerID r'; req_transactionType r = req_transactionType r';
    req_amount r = req_amount r'\<rbrakk> \<Longrightarrow> request_hash E r = request_hash E r'"
  by (simp add: request_hash_def canonical_def Let_def)

lemma parseWagerRequest_InrD:
  assumes "parseWagerRequest E command = Inr r"
  shows "req_command r = command" "E_uuid_Parse E (cmd_WalletID command) = Some (req_walletID r)"
    "E_uuid_Parse E (cmd_PlayerID command) = Some (req_playerID r)"
    "req_walletID r \<noteq> 0" "req_playerID r \<noteq> 0"
    "req_transactionType r = type_of_string (cmd_Type command)" "Type_IsExternal (req_transactionType r)"
    "NewCurrency (cmd_Currency command) = Inr (money_currency (req_amount r))"
    "ParseMoney (E_decimal E) (cmd_Amount command) (money_currency (req_amount r)) = Inr (req_amount r)"
    "req_payloadHash r = request_hash E r"
proof -
  obtain wid pid c a where p: "E_uuid_Parse E (cmd_WalletID command) = Some wid" "wid \<noteq> 0"
    "E_uuid_Parse E (cmd_PlayerID command) = Some pid" "pid \<noteq> 0"
    "NewCurrency (cmd_Currency command) = Inr c" "ParseMoney (E_decimal E) (cmd_Amount command) c = Inr a"
    "Type_IsExternal (type_of_string (cmd_Type command))"
    using assms by (auto simp: parseWagerRequest_def Let_def split: option.splits if_splits sum.splits)
  have c: "money_currency a = c"
    using p(6) by (auto simp: ParseMoney_def newMoney_def split: if_splits option.splits)
  note r = assms [unfolded parseWagerRequest_def Let_def p option.case sum.case if_not_P [OF p(2)] if_not_P [OF p(4)]]
  show "req_command r = command" "E_uuid_Parse E (cmd_WalletID command) = Some (req_walletID r)"
    "E_uuid_Parse E (cmd_PlayerID command) = Some (req_playerID r)"
    "req_walletID r \<noteq> 0" "req_playerID r \<noteq> 0"
    "req_transactionType r = type_of_string (cmd_Type command)" "Type_IsExternal (req_transactionType r)"
    "NewCurrency (cmd_Currency command) = Inr (money_currency (req_amount r))"
    "ParseMoney (E_decimal E) (cmd_Amount command) (money_currency (req_amount r)) = Inr (req_amount r)"
    using r p c by auto
  show "req_payloadHash r = request_hash E r"
    using r p by (auto simp: request_hash_def canonical_def Let_def)
qed

end
