(* ===== verification/Wager_Service.thy ===== *)
theory Wager_Service
  imports Wager_Request
begin

text \<open>
  \<^verbatim>\<open>internal/application/wager_service.go\<close>, \<^verbatim>\<open>wager_reference.go\<close> and the methods of
  \<^verbatim>\<open>wager_events.go\<close>: the processing of a wager command in one transaction, the queries, and the
  retry of transactions that wait for their reference. The repositories, the clock and the
  transaction manager a \<^verbatim>\<open>WagerService\<close> is built from are those of \<^verbatim>\<open>Repositories\<close> and
  \<^verbatim>\<open>Tx_Manager\<close>; its retry policy is the parameter \<open>P\<close>.
\<close>

section \<open>Retry policy\<close>

record ReferenceRetryPolicy =
  InitialDelay :: duration
  MaxDelay :: duration
  TTL :: duration

definition DefaultReferenceRetryPolicy :: ReferenceRetryPolicy where
  "DefaultReferenceRetryPolicy =
     \<lparr>InitialDelay = 5 * Second, MaxDelay = 5 * Minute, TTL = 24 * Hour\<rparr>"

text \<open>The loop of \<^verbatim>\<open>delay\<close>: \<open>delay *= 2\<close> is a multiplication of 64-bit integers.\<close>

function delay_loop :: "int \<Rightarrow> int \<Rightarrow> duration \<Rightarrow> duration \<Rightarrow> duration" where
  "delay_loop i attempt delay maxDelay =
     (if i < attempt \<and> delay < maxDelay
      then delay_loop (i + 1) attempt (wrap64 (delay * 2)) maxDelay else delay)"
  by pat_completeness auto
termination
  by (relation "measure (\<lambda>(i, attempt, _). nat (attempt - i))") auto

declare delay_loop.simps [simp del]

definition policy_delay :: "ReferenceRetryPolicy \<Rightarrow> int \<Rightarrow> duration" where
  "policy_delay p attempt = min (delay_loop 1 attempt (InitialDelay p) (MaxDelay p)) (MaxDelay p)"

definition policy_nextAttemptAt :: "ReferenceRetryPolicy \<Rightarrow> time \<Rightarrow> time \<Rightarrow> int \<Rightarrow> time" where
  "policy_nextAttemptAt p now expiresAt attempt =
     (let next = now + policy_delay p attempt in if expiresAt < next then expiresAt else next)"

section \<open>Events of the service\<close>

definition createProcessedEvent ::
  "'d Env \<Rightarrow> Context \<Rightarrow> 'd WagerTransaction \<Rightarrow> CommandMetadata \<Rightarrow> time \<Rightarrow> unit act" where
  "createProcessedEvent E ctx transaction metadata now =
     bind_act (lift_sum (processedEventData transaction)) (\<lambda>data.
     bind_act (NewWagerTransactionProcessedEvent E metadata now data) (\<lambda>ev.
     OutboxRepository_Create E ctx (Envelope (marshal_processed E) ev)))"

definition createBalanceChangedEvent ::
  "'d Env \<Rightarrow> Context \<Rightarrow> 'd Wallet \<Rightarrow> 'd WalletLedgerEntry \<Rightarrow> CommandMetadata \<Rightarrow> time \<Rightarrow> unit act" where
  "createBalanceChangedEvent E ctx wallet entry metadata now =
     bind_act (NewWalletBalanceChangedEvent E metadata now (balanceChangedEventData wallet entry)) (\<lambda>ev.
     OutboxRepository_Create E ctx (Envelope (marshal_balance_changed E) ev))"

definition createRejectedEvent ::
  "'d Env \<Rightarrow> Context \<Rightarrow> 'd WagerTransaction \<Rightarrow> CommandMetadata \<Rightarrow> time \<Rightarrow> unit act" where
  "createRejectedEvent E ctx transaction metadata now =
     bind_act (NewWagerTransactionRejectedEvent E metadata now
       \<lparr>rd_TransactionID = tx_id transaction,
        rd_ProviderID = tx_providerID transaction,
        rd_ExternalTransactionID = tx_externalTransactionID transaction,
        rd_WalletID = tx_walletID transaction,
        rd_PlayerID = tx_playerID transaction,
        rd_RoundID = tx_roundID transaction,
        rd_GameID = tx_gameID transaction,
        rd_Kind = tx_type transaction,
        rd_Money = tx_amount transaction,
        rd_FailureCode = tx_failureCode transaction,
        rd_FailureMessage = tx_failureMessage transaction\<rparr>) (\<lambda>ev.
     OutboxRepository_Create E ctx (Envelope (marshal_rejected E) ev))"

definition createPendingReferenceEvent ::
  "'d Env \<Rightarrow> Context \<Rightarrow> 'd WagerTransaction \<Rightarrow> CommandMetadata \<Rightarrow> time \<Rightarrow> unit act" where
  "createPendingReferenceEvent E ctx transaction metadata now =
     bind_act (NewWagerTransactionPendingReferenceEvent E metadata now
       \<lparr>qd_TransactionID = tx_id transaction,
        qd_ProviderID = tx_providerID transaction,
        qd_ExternalTransactionID = tx_externalTransactionID transaction,
        qd_ReferenceExternalTransactionID = tx_referenceExternalTransactionID transaction,
        qd_WalletID = tx_walletID transaction,
        qd_PlayerID = tx_playerID transaction,
        qd_RoundID = tx_roundID transaction,
        qd_GameID = tx_gameID transaction,
        qd_Kind = tx_type transaction,
        qd_Money = tx_amount transaction\<rparr>) (\<lambda>ev.
     OutboxRepository_Create E ctx (Envelope (marshal_pending_reference E) ev))"

section \<open>Processing\<close>

record wagerRejection =
  rejection_code :: string
  rejection_message :: string

definition insufficientFundsRejection :: "'d WagerTransaction \<Rightarrow> wagerRejection" where
  "insufficientFundsRejection transaction =
     (if tx_type transaction = ROLLBACK
      then \<lparr>rejection_code = FailureCodeReversalInsufficientFunds,
            rejection_message = ''insufficient funds for reversal''\<rparr>
      else \<lparr>rejection_code = FailureCodeBetInsufficientFunds,
            rejection_message = ''insufficient funds for bet''\<rparr>)"

definition reject ::
  "'d Env \<Rightarrow> Context \<Rightarrow> 'd WagerTransaction \<Rightarrow> wagerRejection \<Rightarrow> CommandMetadata \<Rightarrow> time \<Rightarrow>
   'd WagerTransaction act" where
  "reject E ctx transaction rejection metadata now =
     bind_act (lift_sum (MarkRejected transaction (rejection_code rejection) (rejection_message rejection) now))
       (\<lambda>transaction.
     bind_act (WagerRepository_Update E ctx transaction) (\<lambda>_.
     bind_act (createRejectedEvent E ctx transaction metadata now) (\<lambda>_.
     ret transaction)))"

definition lockWallet :: "'d Env \<Rightarrow> Context \<Rightarrow> 'd WagerTransaction \<Rightarrow> 'd Wallet act" where
  "lockWallet E ctx transaction =
     match_act (WalletRepository_FindByIDForUpdate E ctx (tx_walletID transaction))
       (\<lambda>e. if errors_Is e (AppErr ErrNotFound) then throw (AppErr ErrWalletNotFound) else throw e)
       (\<lambda>wallet.
          if wallet_playerID wallet \<noteq> tx_playerID transaction then throw (AppErr ErrWalletMismatch)
          else if \<not> Currency_Equal (money_currency (wallet_balance wallet)) (money_currency (tx_amount transaction))
          then throw (DomainErr ErrCurrencyMismatch)
          else ret wallet)"

text \<open>
  The methods below return the transaction in its final state; \<^verbatim>\<open>resultFromWager(transaction, false)\<close>
  of it is the result the code returns. The transaction is a pointer in the code, so that its
  callers see the same final state.
\<close>

definition applyMovement ::
  "'d Env \<Rightarrow> Context \<Rightarrow> 'd Wallet \<Rightarrow> 'd WagerTransaction \<Rightarrow> CommandMetadata \<Rightarrow> time \<Rightarrow>
   'd WagerTransaction act" where
  "applyMovement E ctx wallet transaction metadata now =
     bind_act (lift_sum (MovementDirection transaction)) (\<lambda>(direction, hasMovement).
     let before = wallet_balance wallet
     in if \<not> hasMovement
        then bind_act (lift_sum (MarkProcessed (E_decimal E) transaction before before now)) (\<lambda>transaction.
             bind_act (WagerRepository_Update E ctx transaction) (\<lambda>_.
             bind_act (createProcessedEvent E ctx transaction metadata now) (\<lambda>_.
             ret transaction)))
        else match_act (lift_sum (Wallet_Move (E_decimal E) direction wallet (tx_amount transaction) now))
          (\<lambda>e. if errors_Is e (DomainErr ErrInsufficientFunds)
               then reject E ctx transaction (insufficientFundsRejection transaction) metadata now
               else throw e)
          (\<lambda>wallet.
             let after = wallet_balance wallet
             in bind_act (lift_sum (MarkProcessed (E_decimal E) transaction before after now)) (\<lambda>transaction.
                bind_act (WalletRepository_Update E ctx wallet) (\<lambda>_.
                bind_act (WagerRepository_Update E ctx transaction) (\<lambda>_.
                bind_act (uuid_New E) (\<lambda>entryID.
                bind_act (lift_sum (NewWalletLedgerEntry (E_decimal E) entryID (wallet_id wallet)
                           (tx_id transaction) direction (tx_amount transaction) before after now)) (\<lambda>entry.
                bind_act (WalletLedgerRepository_Create E ctx entry) (\<lambda>_.
                bind_act (createProcessedEvent E ctx transaction metadata now) (\<lambda>_.
                bind_act (createBalanceChangedEvent E ctx wallet entry metadata now) (\<lambda>_.
                ret transaction))))))))))"

definition settle ::
  "'d Env \<Rightarrow> Context \<Rightarrow> 'd Wallet \<Rightarrow> 'd WagerTransaction \<Rightarrow> CommandMetadata \<Rightarrow> time \<Rightarrow>
   'd WagerTransaction act" where
  "settle E ctx wallet transaction metadata now =
     (if RequiresReference (tx_type transaction)
      then bind_act (HasProcessedDirectReversal E ctx (tx_referenceTransactionID transaction)) (\<lambda>duplicate.
           if duplicate
           then reject E ctx transaction
                  \<lparr>rejection_code = FailureCodeDuplicateReversal,
                   rejection_message = ''referenced transaction already has a successful direct reversal''\<rparr>
                  metadata now
           else applyMovement E ctx wallet transaction metadata now)
      else applyMovement E ctx wallet transaction metadata now)"

section \<open>References\<close>

text \<open>
  \<^verbatim>\<open>referenceOutcome\<close>: the reference is not there yet, it is resolved in the transaction, or the
  transaction has to be rejected.
\<close>

datatype 'd referenceOutcome =
    NotAvailable
  | Available "'d WagerTransaction"
  | Rejection wagerRejection

definition resolveReference ::
  "'d Env \<Rightarrow> Context \<Rightarrow> 'd WagerTransaction \<Rightarrow> time \<Rightarrow> 'd referenceOutcome act" where
  "resolveReference E ctx transaction now =
     match_act
       (FindByProviderAndExternalTransactionID E ctx (tx_providerID transaction)
          (tx_referenceExternalTransactionID transaction))
       (\<lambda>e. if errors_Is e (AppErr ErrNotFound) then ret NotAvailable else throw e)
       (\<lambda>reference.
          case tx_status reference of
            PENDING \<Rightarrow> ret NotAvailable
          | PENDING_REFERENCE \<Rightarrow> ret NotAvailable
          | REJECTED \<Rightarrow> ret (Rejection \<lparr>rejection_code = FailureCodeReferenceNotProcessable,
                              rejection_message = ''referenced transaction did not complete successfully''\<rparr>)
          | FAILED \<Rightarrow> ret (Rejection \<lparr>rejection_code = FailureCodeReferenceNotProcessable,
                              rejection_message = ''referenced transaction did not complete successfully''\<rparr>)
          | UnknownStatus s \<Rightarrow> throw (DomainErr ErrInvalidWagerState)
          | PROCESSED \<Rightarrow>
              (case ResolveReference (E_decimal E) transaction (Some reference) now of
                 Inr transaction \<Rightarrow> ret (Available transaction)
               | Inl e \<Rightarrow>
                   if errors_Is e (DomainErr ErrWagerReferenceMismatch)
                   then ret (Rejection \<lparr>rejection_code = FailureCodeReferenceMismatch,
                          rejection_message =
                            ''referenced transaction does not match provider, player, wallet, currency, round or amount''\<rparr>)
                   else if errors_Is e (DomainErr ErrInvalidWagerReference)
                   then ret (Rejection \<lparr>rejection_code = FailureCodeReferenceTypeNotAllowed,
                          rejection_message = ''referenced transaction type cannot be used by this operation''\<rparr>)
                   else throw e))"

definition markPendingReference ::
  "'d Env \<Rightarrow> ReferenceRetryPolicy \<Rightarrow> Context \<Rightarrow> 'd WagerTransaction \<Rightarrow> CommandMetadata \<Rightarrow> time \<Rightarrow>
   'd WagerTransaction act" where
  "markPendingReference E P ctx transaction metadata now =
     bind_act (lift_sum (MarkPendingReference transaction now)) (\<lambda>transaction.
     let expiresAt = now + TTL P;
         nextAttemptAt = policy_nextAttemptAt P now expiresAt 1
     in bind_act (WagerRepository_UpdatePendingReference E ctx transaction nextAttemptAt expiresAt metadata) (\<lambda>_.
        bind_act (createPendingReferenceEvent E ctx transaction metadata now) (\<lambda>_.
        ret transaction)))"

definition processNew ::
  "'d Env \<Rightarrow> ReferenceRetryPolicy \<Rightarrow> Context \<Rightarrow> 'd Wallet \<Rightarrow> 'd WagerTransaction \<Rightarrow> CommandMetadata \<Rightarrow> time \<Rightarrow>
   'd WagerTransaction act" where
  "processNew E P ctx wallet transaction metadata now =
     (if tx_referenceExternalTransactionID transaction \<noteq> []
      then bind_act (resolveReference E ctx transaction now) (\<lambda>outcome.
           case outcome of
             Rejection r \<Rightarrow> reject E ctx transaction r metadata now
           | NotAvailable \<Rightarrow> markPendingReference E P ctx transaction metadata now
           | Available transaction \<Rightarrow> settle E ctx wallet transaction metadata now)
      else settle E ctx wallet transaction metadata now)"

definition resolveExistingTransaction ::
  "'d Env \<Rightarrow> Context \<Rightarrow> 'd wagerRequest \<Rightarrow> 'd ProcessWagerResult act" where
  "resolveExistingTransaction E ctx req =
     (let command = req_command req
      in match_act (FindByProviderAndIdempotencyKey E ctx (cmd_ProviderID command) (cmd_IdempotencyKey command))
        (\<lambda>e. if \<not> errors_Is e (AppErr ErrNotFound) then throw e
             else match_act
               (FindByProviderAndExternalTransactionID E ctx (cmd_ProviderID command)
                  (cmd_ExternalTransactionID command))
               (\<lambda>e. if \<not> errors_Is e (AppErr ErrNotFound) then throw e else throw (AppErr ErrAlreadyExists))
               (\<lambda>_. throw (AppErr ErrExternalTransactionConflict)))
        (\<lambda>existing.
           if tx_payloadHash existing \<noteq> req_payloadHash req then throw (AppErr ErrIdempotencyConflict)
           else ret (resultFromWager existing True)))"

text \<open>The function \<^verbatim>\<open>Process\<close> runs in its transaction.\<close>

definition process_body ::
  "'d Env \<Rightarrow> ReferenceRetryPolicy \<Rightarrow> 'd wagerRequest \<Rightarrow> CommandMetadata \<Rightarrow> Context \<Rightarrow> 'd ProcessWagerResult act" where
  "process_body E P req metadata txCtx =
     bind_act (Clock_Now E txCtx) (\<lambda>createdAt.
     bind_act (newTransaction E req createdAt) (\<lambda>transaction.
     match_act (WagerRepository_Create E txCtx transaction)
       (\<lambda>e. if \<not> errors_Is e (AppErr ErrAlreadyExists) then throw e
            else resolveExistingTransaction E txCtx req)
       (\<lambda>_.
          bind_act (lockWallet E txCtx transaction) (\<lambda>wallet.
          bind_act (Clock_Now E txCtx) (\<lambda>now.
          bind_act (processNew E P txCtx wallet transaction metadata now) (\<lambda>transaction.
          ret (resultFromWager transaction False)))))))"

definition Process ::
  "'d Env \<Rightarrow> ReferenceRetryPolicy \<Rightarrow> Context \<Rightarrow> ProcessWagerCommand \<Rightarrow> CommandMetadata \<Rightarrow>
   'd ProcessWagerResult act" where
  "Process E P ctx command metadata =
     (if TrimSpace (CorrelationID metadata) = [] then throw (AppErr ErrInvalidCorrelationID)
      else case parseWagerRequest E command of
             Inl e \<Rightarrow> throw e
           | Inr req \<Rightarrow> in_transaction E ctx (process_body E P req metadata))"

section \<open>Queries\<close>

definition WagerService_GetByID ::
  "'d Env \<Rightarrow> Context \<Rightarrow> string \<Rightarrow> string \<Rightarrow> 'd WagerResult act" where
  "WagerService_GetByID E ctx providerID transactionID =
     (case E_uuid_Parse E transactionID of
        None \<Rightarrow> throw (AppErr ErrNotFound)
      | Some uid \<Rightarrow>
          if uid = uuid_Nil then throw (AppErr ErrNotFound)
          else bind_act (WagerRepository_FindByID E ctx uid) (\<lambda>transaction.
               if tx_providerID transaction \<noteq> providerID then throw (AppErr ErrNotFound)
               else ret (wagerResultFromTransaction transaction)))"

definition WagerService_GetByExternalTransactionID ::
  "'d Env \<Rightarrow> Context \<Rightarrow> string \<Rightarrow> string \<Rightarrow> 'd WagerResult act" where
  "WagerService_GetByExternalTransactionID E ctx providerID externalTransactionID =
     bind_act (FindByProviderAndExternalTransactionID E ctx providerID externalTransactionID)
       (\<lambda>transaction. ret (wagerResultFromTransaction transaction))"

section \<open>Retry of pending references\<close>

record PendingReferenceRetry =
  prr_TransactionID :: uuid
  prr_Kind :: WagerTransactionType
  prr_Status :: WagerTransactionStatus
  prr_FailureCode :: string

definition pendingReferenceRetry :: "'d WagerTransaction \<Rightarrow> PendingReferenceRetry" where
  "pendingReferenceRetry transaction =
     \<lparr>prr_TransactionID = tx_id transaction, prr_Kind = tx_type transaction,
      prr_Status = tx_status transaction, prr_FailureCode = tx_failureCode transaction\<rparr>"

text \<open>\<^verbatim>\<open>retryPendingReference\<close>, with the transaction in its final state.\<close>

definition retryPendingReference ::
  "'d Env \<Rightarrow> ReferenceRetryPolicy \<Rightarrow> Context \<Rightarrow> 'd PendingReferenceWork \<Rightarrow> 'd WagerTransaction act" where
  "retryPendingReference E P ctx work =
     (let transaction = work_Transaction work
      in bind_act (lockWallet E ctx transaction) (\<lambda>wallet.
         bind_act (Clock_Now E ctx) (\<lambda>now.
         if \<not> now < work_ExpiresAt work
         then reject E ctx transaction
                \<lparr>rejection_code = FailureCodeReferenceNotFound,
                 rejection_message = ''referenced transaction was not processed before expiration''\<rparr>
                (work_Metadata work) now
         else bind_act (resolveReference E ctx transaction now) (\<lambda>outcome.
              case outcome of
                Rejection r \<Rightarrow> reject E ctx transaction r (work_Metadata work) now
              | NotAvailable \<Rightarrow>
                  (let retryCount = work_RetryCount work + 1
                   in bind_act (SchedulePendingReferenceRetry E ctx (tx_id transaction) retryCount
                        (policy_nextAttemptAt P now (work_ExpiresAt work) (retryCount + 1))) (\<lambda>_.
                      ret transaction))
              | Available transaction \<Rightarrow> settle E ctx wallet transaction (work_Metadata work) now))))"

text \<open>
  The function \<^verbatim>\<open>RetryNextPendingReference\<close> runs in its transaction, with the captured variable
  \<^verbatim>\<open>claimed\<close>. The code sets it to the transaction of the work, which the retry then changes in
  place; after an error only its identifier and its type are read, and these never change.
\<close>

definition retry_body ::
  "'d Env \<Rightarrow> ReferenceRetryPolicy \<Rightarrow> (unit, 'd WagerTransaction option) closure" where
  "retry_body E P txCtx claimed w =
     (case Clock_Now E txCtx w of
        (Inl e, w1) \<Rightarrow> ((Inl e, None), w1)
      | (Inr now, w1) \<Rightarrow>
     (case FindDuePendingReferenceForUpdate E txCtx now w1 of
        (Inl e, w2) \<Rightarrow>
          if errors_Is e (AppErr ErrNotFound) then ((Inr (), None), w2) else ((Inl e, None), w2)
      | (Inr work, w2) \<Rightarrow>
     (case retryPendingReference E P txCtx work w2 of
        (Inl e, w3) \<Rightarrow> ((Inl e, Some (work_Transaction work)), w3)
      | (Inr transaction, w3) \<Rightarrow> ((Inr (), Some transaction), w3))))"

definition fail_body ::
  "'d Env \<Rightarrow> uuid \<Rightarrow> Context \<Rightarrow> 'd WagerTransaction option act" where
  "fail_body E transactionID txCtx =
     match_act (FindPendingReferenceForUpdate E txCtx transactionID)
       (\<lambda>e. if errors_Is e (AppErr ErrNotFound) then ret None else throw e)
       (\<lambda>work.
          bind_act (Clock_Now E txCtx) (\<lambda>now.
          bind_act (lift_sum (MarkFailed (work_Transaction work) FailureCodeProcessingFailed
                      ''transaction could not be processed; see service logs'' now)) (\<lambda>transaction.
          bind_act (WagerRepository_Update E txCtx transaction) (\<lambda>_.
          ret (Some transaction)))))"

definition failPendingReference ::
  "'d Env \<Rightarrow> Context \<Rightarrow> uuid \<Rightarrow> 'd WagerTransaction option act" where
  "failPendingReference E ctx transactionID = in_transaction E ctx (fail_body E transactionID)"

text \<open>
  \<^verbatim>\<open>RetryNextPendingReference\<close>: the retry it describes, if any, together with its error, if any.
  \<^verbatim>\<open>ctx.Err()\<close> is read once.
\<close>

definition RetryNextPendingReference ::
  "'d Env \<Rightarrow> ReferenceRetryPolicy \<Rightarrow> Context \<Rightarrow> World \<Rightarrow> (PendingReferenceRetry option \<times> err option) \<times> World" where
  "RetryNextPendingReference E P ctx w =
     (case WithinTransaction E ctx (retry_body E P) None w of
        ((r, None), w1) \<Rightarrow> ((None, case r of Inl e \<Rightarrow> Some e | Inr _ \<Rightarrow> None), w1)
      | ((Inr _, Some claimed), w1) \<Rightarrow> ((Some (pendingReferenceRetry claimed), None), w1)
      | ((Inl e, Some claimed), w1) \<Rightarrow>
          (let retry = \<lparr>prr_TransactionID = tx_id claimed, prr_Kind = tx_type claimed,
                        prr_Status = PENDING_REFERENCE, prr_FailureCode = []\<rparr>;
               done = E_ctx_done E (w_step w1);
               w2 = w1\<lparr>w_step := Suc (w_step w1)\<rparr>
           in if done \<or> IsTransient e then ((Some retry, Some e), w2)
              else (case failPendingReference E ctx (tx_id claimed) w2 of
                      (Inl failErr, w3) \<Rightarrow> ((Some retry, Some (Wrapped e failErr)), w3)
                    | (Inr None, w3) \<Rightarrow> ((Some retry, Some e), w3)
                    | (Inr (Some failed), w3) \<Rightarrow> ((Some (pendingReferenceRetry failed), Some e), w3))))"

end
