(* ===== verification/Wager_Invariant.thy ===== *)
theory Wager_Invariant
  imports Wager_Service
begin

text \<open>
  The financial invariant of the database and the proof that the wager service keeps it: whatever a
  command asks, whatever the database answers, the balance of every wallet stays the sum of its
  ledger, and a transaction has exactly the ledger entry its final state tells. The lemmas follow the
  call graph of the service, from the repositories up to the bodies of the transactions, which are
  units of work in the sense of \<^verbatim>\<open>Tx_Manager\<close>.
\<close>

section \<open>The financial invariant\<close>

text \<open>
  What the database holds between transactions, beside the constraints of the schema: every row can
  be read back, the balance of a wallet is the sum of its ledger, and a transaction has a ledger
  entry exactly when it was processed with a movement, with the amount and the balances recorded.
\<close>

definition rows_ok :: "'d Env \<Rightarrow> DB \<Rightarrow> bool" where
  "rows_ok E db \<longleftrightarrow>
     (\<forall>r \<in> set (wallets db). \<exists>w. scanWallet E r = Inr w) \<and> (\<forall>r \<in> set (wagers db). \<exists>t. scanWager E r = Inr t)"

definition ledger_inv :: "DB \<Rightarrow> bool" where
  "ledger_inv db \<longleftrightarrow> (\<forall>r \<in> set (wallets db). wr_balance r = entries_sum (wallet_entries (wr_id r) db))"

definition moved :: "wager_row \<Rightarrow> bool" where
  "moved r \<longleftrightarrow> wg_status r = PROCESSED \<and> wg_type r \<noteq> LOSS"

definition entry_of :: "wager_row \<Rightarrow> ledger_row \<Rightarrow> bool" where
  "entry_of r l \<longleftrightarrow>
     lr_transaction_id l = wg_id r \<and> lr_wallet_id l = wg_wallet_id r \<and> lr_amount l = wg_amount r \<and>
     Some (lr_balance_before l) = wg_balance_before r \<and> Some (lr_balance_after l) = wg_balance_after r"

definition movement_inv :: "DB \<Rightarrow> bool" where
  "movement_inv db \<longleftrightarrow>
     (\<forall>r \<in> set (wagers db).
        if moved r then \<exists>l \<in> set (ledger db). entry_of r l
        else \<forall>l \<in> set (ledger db). lr_transaction_id l \<noteq> wg_id r)"

definition db_inv :: "'d Env \<Rightarrow> DB \<Rightarrow> bool" where
  "db_inv E db \<longleftrightarrow> schema_ok db \<and> rows_ok E db \<and> ledger_inv db \<and> movement_inv db"

text \<open>The row of a transaction in flight: it differs from the transaction only in mutable fields.\<close>

definition current :: "('d \<Rightarrow> rat) \<Rightarrow> DB \<Rightarrow> 'd WagerTransaction \<Rightarrow> bool" where
  "current val db t \<longleftrightarrow>
     (\<exists>r \<in> set (wagers db). \<exists>t0. represents val r t0 \<and> same_business_fields t0 t)"

lemma db_inv_outbox:
  assumes "insert_outbox r db = Inr (n, db')" "db_inv E db" shows "db_inv E db'"
proof -
  have "db' = db\<lparr>outbox := outbox db @ [r]\<rparr>"
    using assms(1) sql_insert_InrD by (fastforce simp: insert_outbox_def apsnd_map_sum_Inr)
  then show ?thesis
    using assms insert_outbox_schema [OF assms(1)]
    by (simp add: db_inv_def rows_ok_def ledger_inv_def movement_inv_def wallet_entries_def)
qed

lemma db_inv_outbox_create:
  assumes "OutboxRepository_Create E ctx ev w = (Inr u, w')" "db_inv E (w_db w)"
  shows "db_inv E (w_db w')"
  using OutboxRepository_Create_Inr [OF assms(1)] db_inv_outbox assms(2) by metis

lemma unique_indexD:
  assumes "unique_index covered key rows" "x \<in> set rows" "y \<in> set rows" "covered x" "covered y" "key x = key y"
  shows "x = y"
  using assms by (auto simp: unique_index_def distinct_map dest: inj_onD)

lemma schema_wager_unique:
  assumes "schema_ok db" "x \<in> set (wagers db)" "y \<in> set (wagers db)" "wg_id x = wg_id y"
  shows "x = y"
  using assms unique_indexD [of "\<lambda>r. True" wg_id "wagers db" x y]
  by (simp add: schema_ok_def table_ok_def wager_indexes_def)

lemma schema_wallet_unique:
  assumes "schema_ok db" "x \<in> set (wallets db)" "y \<in> set (wallets db)" "wr_id x = wr_id y"
  shows "x = y"
  using assms unique_indexD [of "\<lambda>r. True" wr_id "wallets db" x y]
  by (simp add: schema_ok_def table_ok_def wallet_indexes_def)

lemma schema_ledger_wager:
  assumes "schema_ok db" "l \<in> set (ledger db)"
  obtains t where "t \<in> set (wagers db)" "wg_id t = lr_transaction_id l" "wg_wallet_id t = lr_wallet_id l"
  using assms by (auto simp: schema_ok_def list_all_iff list_ex_iff fk_ledger_transaction_def)

lemma schema_wallet_version:
  "\<lbrakk>schema_ok db; r \<in> set (wallets db)\<rbrakk> \<Longrightarrow> wr_version r < 2 ^ 63"
  by (auto simp: schema_ok_def table_ok_def list_all_iff wallet_values_def in_int64_def split: if_splits)

text \<open>The insertion of a pending transaction.\<close>

lemma insert_pending_inv:
  assumes i: "insert_wager r db = Inr (1, db')" and inv: "db_inv E db"
    and r: "\<not> moved r" "\<exists>t. scanWager E r = Inr t"
  shows "db_inv E db'"
proof -
  have db': "db' = db\<lparr>wagers := wagers db @ [r]\<rparr>" using insert_wager_1 [OF i] by simp
  have s: "schema_ok db'" "schema_ok db"
    using insert_wager_schema [OF i] inv by (simp_all add: db_inv_def)
  have "lr_transaction_id l \<noteq> wg_id r" if l: "l \<in> set (ledger db)" for l
  proof
    assume e: "lr_transaction_id l = wg_id r"
    obtain t where t: "t \<in> set (wagers db)" "wg_id t = wg_id r"
      using schema_ledger_wager [OF s(2) l] e by metis
    have "distinct (map wg_id (wagers db @ [r]))"
      using s(1) db' by (simp add: schema_ok_def table_ok_def wager_indexes_def unique_index_def)
    then have "wg_id r \<notin> wg_id ` set (wagers db)" by simp
    with imageI [OF t(1), of wg_id] t(2) show False by simp
  qed
  then show ?thesis
    using inv s(1) db' r by (simp add: db_inv_def rows_ok_def ledger_inv_def movement_inv_def wallet_entries_def)
qed

lemma Wallet_Move_id: "Wallet_Move D dir w amount t = Inr w' \<Longrightarrow> wallet_id w' = wallet_id w"
  by (auto simp: Wallet_Move_def Wallet_Credit_def Wallet_Debit_def applyBalance_def
      split: WalletLedgerDirection.splits option.splits sum.splits if_splits)

context runtime
begin

lemma current_row:
  assumes "current val db t"
  obtains r t0 where "r \<in> set (wagers db)" "represents val r t0" "same_business_fields t0 t" "wg_id r = tx_id t"
    "wg_type r = tx_type t" "wg_wallet_id r = tx_walletID t" "wg_amount r = cents val (tx_amount t)"
proof -
  obtain r t0 where "r \<in> set (wagers db)" "represents val r t0" "same_business_fields t0 t"
    using assms by (auto simp: current_def)
  with that [of r t0] representsD [of r t0] show ?thesis by (simp add: same_business_fields_def)
qed

lemma update_wager_rows_ok:
  assumes "schema_ok db" "rows_ok E db" "current val db t" "tx_wf (E_decimal E) val t"
    "wagers db' = map (\<lambda>r. if wg_id r = tx_id t then
        wager_assign t (map_option (cents val) (tx_balanceBefore t)) (map_option (cents val) (tx_balanceAfter t)) r
        else r) (wagers db)" "wallets db' = wallets db"
  shows "rows_ok E db'"
proof -
  obtain r t0 where r: "r \<in> set (wagers db)" "represents val r t0" "same_business_fields t0 t" "wg_id r = tx_id t"
    using current_row [OF assms(3)] by metis
  let ?a = "wager_assign t (map_option (cents val) (tx_balanceBefore t)) (map_option (cents val) (tx_balanceAfter t))"
  obtain t' where t': "scanWager E (?a r) = Inr t'"
    using represents_scan [OF update_represents [OF r(2,3)] assms(4)] by metis
  have "\<exists>t. scanWager E x = Inr t" if x: "x \<in> set (wagers db')" for x
  proof -
    obtain y where y: "y \<in> set (wagers db)" "x = (if wg_id y = tx_id t then ?a y else y)"
      using x assms(5) by auto
    show ?thesis
    proof (cases "wg_id y = tx_id t")
      case True
      then have "y = r" using schema_wager_unique [OF assms(1) y(1) r(1)] r(4) by simp
      then show ?thesis using t' y True by auto
    next
      case False
      then show ?thesis using y assms(2) by (auto simp: rows_ok_def)
    qed
  qed
  then show ?thesis using assms(2,6) by (auto simp: rows_ok_def)
qed

text \<open>An update that moves nothing: a rejection, a failure, a processed loss.\<close>

lemma WagerRepository_Update_inv:
  assumes u: "WagerRepository_Update E ctx t w = (Inr x, w')"
    and inv: "db_inv E (w_db w)" and cur: "current val (w_db w) t" and wf: "tx_wf (E_decimal E) val t"
    and nm: "tx_status t = PROCESSED \<Longrightarrow> tx_type t = LOSS"
  shows "db_inv E (w_db w')"
proof -
  let ?b = "map_option (cents val) (tx_balanceBefore t)" and ?a = "map_option (cents val) (tx_balanceAfter t)"
  obtain b a n where x: "wagerBalanceBefore E t = Inr b" "wagerBalanceAfter E t = Inr a"
    "w_db w' = (w_db w)\<lparr>wagers := map (\<lambda>r. if wg_id r = tx_id t then wager_assign t b a r else r) (wagers (w_db w))\<rparr>"
    "update_wagers (\<lambda>r. wg_id r = tx_id t) (wager_assign t b a) (w_db w) = Inr (n, w_db w')"
    using WagerRepository_Update_Inr [OF u] .
  have ba: "b = ?b" "a = ?a" using x(1,2) tx_wf_numeric [OF wf] by simp_all
  note d = x(3) [unfolded ba] and up = x(4) [unfolded ba]
  obtain r where r: "r \<in> set (wagers (w_db w))" "wg_id r = tx_id t" "wg_type r = tx_type t"
    using current_row [OF cur] by metis
  have nt: "\<not> IsTerminal (wg_status r)"
    using update_wagers_1(3) [OF up r(1,2)] wager_trigger_None by blast
  have no: "\<forall>l \<in> set (ledger (w_db w)). lr_transaction_id l \<noteq> tx_id t"
    using inv r nt by (auto simp: db_inv_def movement_inv_def moved_def IsTerminal_def split: if_splits)
  have same: "y = r" if "y \<in> set (wagers (w_db w))" "wg_id y = tx_id t" for y
    using schema_wager_unique [OF _ that(1) r(1)] inv that(2) r(2) by (simp add: db_inv_def)
  have "movement_inv (w_db w')"
    using inv no nm same r(3) d by (auto simp: db_inv_def movement_inv_def moved_def wager_assign_def)
  moreover have "rows_ok E (w_db w')"
    using update_wager_rows_ok [OF _ _ cur wf] inv d by (simp add: db_inv_def)
  ultimately show ?thesis
    using inv update_wagers_schema [OF up] d by (simp add: db_inv_def ledger_inv_def wallet_entries_def)
qed

lemma scanWallet_total:
  assumes "currencyCodePattern (wr_currency r)" "0 \<le> wr_balance r" "wr_balance r \<le> max_cents"
    "wr_id r \<noteq> 0" "wr_player_id r \<noteq> 0" "1 \<le> wr_version r" "wr_created_at r \<noteq> 0" "wr_updated_at r \<noteq> 0"
    "wr_created_at r \<le> wr_updated_at r"
  obtains w where "scanWallet E r = Inr w"
proof -
  let ?c = "\<lparr>currency_code = wr_currency r\<rparr>"
  have c: "NewCurrency (wr_currency r) = Inr ?c" "Currency_IsValid ?c"
    using assms(1) by (simp_all add: NewCurrency_def Currency_IsValid_def)
  obtain m where m: "ParseMoney (E_decimal E) (fixed2 (wr_balance r)) ?c = Inr m" "money_ok (E_decimal E) val m"
    "cents val m = wr_balance r"
    using ParseMoney_fixed2 [OF c(2) assms(2,3)] by metis
  have "Money_IsValid (E_decimal E) m" "\<not> Money_IsNegative (E_decimal E) m"
    using m assms(2) sign_cents [of m] by (simp_all add: money_ok_def)
  then show ?thesis
    using that c m assms by (simp add: scanWallet_def RehydrateWallet_def initialWalletVersion_def)
qed

lemma entries_sum_append: "entries_sum (xs @ ys) = entries_sum xs + entries_sum ys"
  by (simp add: entries_sum_def)

text \<open>The writes of a movement, one table at a time.\<close>

lemma movement_ledger:
  assumes "schema_ok db" "ledger_inv db" and r0: "r0 \<in> set (wallets db)"
    and f: "wr_balance (f r0) = wr_balance r0 + (if lr_direction l = CREDIT then lr_amount l else - lr_amount l)"
      "\<And>r. wr_id (f r) = wr_id r" "m r0" "\<And>r. m r \<Longrightarrow> wr_id r = wr_id r0" "lr_wallet_id l = wr_id r0"
    and db': "wallets db' = map (\<lambda>r. if m r then f r else r) (wallets db)" "ledger db' = ledger db @ [l]"
  shows "ledger_inv db'"
  unfolding ledger_inv_def
proof
  fix x assume "x \<in> set (wallets db')"
  then obtain y where y: "y \<in> set (wallets db)" "x = (if m y then f y else y)" using db'(1) by auto
  have "wr_id x = wr_id y" using y(2) f(2) by simp
  then have e: "wallet_entries (wr_id x) db' = wallet_entries (wr_id y) db @ (if wr_id y = wr_id r0 then [l] else [])"
    using f(5) by (simp add: wallet_entries_def db'(2))
  have old: "wr_balance y = entries_sum (wallet_entries (wr_id y) db)"
    using assms(2) y(1) by (simp add: ledger_inv_def)
  show "wr_balance x = entries_sum (wallet_entries (wr_id x) db')"
  proof (cases "wr_id y = wr_id r0")
    case True
    then have "y = r0" using schema_wallet_unique [OF assms(1) y(1) r0] by simp
    then show ?thesis using e old f(1,3) y(2) by (simp add: entries_sum_append) (simp add: entries_sum_def)
  next
    case False
    then show ?thesis using e y f(4) old by auto
  qed
qed

lemma movement_recorded:
  assumes "schema_ok db" "movement_inv db" and rt: "rt \<in> set (wagers db)" "\<not> IsTerminal (wg_status rt)"
    and f: "moved (f rt)" "entry_of (f rt) l" "\<And>r. wg_id (f r) = wg_id r"
    and db': "wagers db' = map (\<lambda>r. if wg_id r = wg_id rt then f r else r) (wagers db)" "ledger db' = ledger db @ [l]"
  shows "movement_inv db'"
  unfolding movement_inv_def
proof
  fix x assume "x \<in> set (wagers db')"
  then obtain y where y: "y \<in> set (wagers db)" "x = (if wg_id y = wg_id rt then f y else y)"
    using db'(1) by auto
  show "if moved x then \<exists>l\<in>set (ledger db'). entry_of x l else \<forall>l\<in>set (ledger db'). lr_transaction_id l \<noteq> wg_id x"
  proof (cases "wg_id y = wg_id rt")
    case True
    then have "y = rt" using schema_wager_unique [OF assms(1) y(1) rt(1)] by simp
    then show ?thesis using y(2) f(1,2) db'(2) by auto
  next
    case False
    have "lr_transaction_id l = wg_id rt" using f(2,3) by (simp add: entry_of_def)
    then show ?thesis using False y assms(2) db'(2) by (auto simp: movement_inv_def)
  qed
qed

lemma moved_wallet_scans:
  assumes r0: "scanWallet E r0 = Inr wal" "wr_version r0 < 2 ^ 63"
    and mv: "Wallet_Move (E_decimal E) dir wal amount now = Inr wal'" "money_ok (E_decimal E) val amount"
    and ver: "wr_version r0 = wallet_version wal' - 1"
  shows "\<exists>w. scanWallet E (wallet_assign wal' (cents val (wallet_balance wal')) r0) = Inr w"
    "wallet_id wal' = wr_id r0"
    "cents val (wallet_balance wal') = wr_balance r0 + (if dir = CREDIT then cents val amount else - cents val amount)"
proof -
  note s = scanWallet_InrD [OF r0(1)]
  have wok: "wallet_ok (E_decimal E) val wal" using s(8) r0(2) by simp
  note m = Move_InrD [OF mv(1) wok mv(2)]
  let ?b = "cents val (wallet_balance wal')"
  let ?x = "wallet_assign wal' ?b r0"
  show idw: "wallet_id wal' = wr_id r0" using s(1) by (subst m(1), simp add: applyBalance_def)
  show "?b = wr_balance r0 + (if dir = CREDIT then cents val amount else - cents val amount)"
    using m(5,10) s(7) by (cases dir) auto
  have now: "wallet_updatedAt wal' = now" by (subst m(1), simp add: applyBalance_def)
  have "0 \<le> ?b" "?b \<le> max_cents" using m(2,6) by (auto simp: money_ok_iff)
  moreover have "currencyCodePattern (wr_currency r0)"
    using s(6,9) by (simp add: money_ok_iff Currency_IsValid_def Currency_Code_def)
  moreover have "wr_id r0 \<noteq> 0" "wr_player_id r0 \<noteq> 0" "1 \<le> wr_version r0" "wr_created_at r0 \<noteq> 0"
    "wr_created_at r0 \<le> wr_updated_at r0" "wr_updated_at r0 \<le> now"
    using wok s(1-5) m(9) by (simp_all add: wallet_ok_def)
  ultimately have "wr_id ?x \<noteq> 0" "wr_player_id ?x \<noteq> 0" "1 \<le> wr_version ?x" "wr_created_at ?x \<noteq> 0"
    "wr_updated_at ?x \<noteq> 0" "wr_created_at ?x \<le> wr_updated_at ?x" "currencyCodePattern (wr_currency ?x)"
    "0 \<le> wr_balance ?x" "wr_balance ?x \<le> max_cents"
    using ver now m(8) by (simp_all add: wallet_assign_def)
  then show "\<exists>w. scanWallet E ?x = Inr w" using scanWallet_total [of ?x] by metis
qed

text \<open>The writes of a movement together.\<close>

lemma movement_keeps_inv:
  assumes inv: "db_inv E db"
    and r0: "r0 \<in> set (wallets db)" "scanWallet E r0 = Inr wal"
    and mv: "Wallet_Move (E_decimal E) dir wal amount now = Inr wal'" "money_ok (E_decimal E) val amount"
    and match: "\<exists>r \<in> set (wallets db). wr_id r = wallet_id wal' \<and> wr_version r = wallet_version wal' - 1"
    and cur: "current val db t" and wf: "tx_wf (E_decimal E) val t"
    and t: "tx_status t = PROCESSED" "tx_type t \<noteq> LOSS" "tx_balanceBefore t = Some (wallet_balance wal)"
      "tx_balanceAfter t = Some (wallet_balance wal')" "cents val (tx_amount t) = cents val amount"
      "tx_walletID t = wr_id r0"
    and nt: "\<And>r. r \<in> set (wagers db) \<Longrightarrow> wg_id r = tx_id t \<Longrightarrow> \<not> IsTerminal (wg_status r)"
    and l: "lr_wallet_id l = wr_id r0" "lr_transaction_id l = tx_id t" "lr_direction l = dir"
      "lr_amount l = cents val amount" "lr_balance_before l = cents val (wallet_balance wal)"
      "lr_balance_after l = cents val (wallet_balance wal')"
    and db': "wallets db' = map (\<lambda>r. if wr_id r = wallet_id wal' \<and> wr_version r = wallet_version wal' - 1
        then wallet_assign wal' (cents val (wallet_balance wal')) r else r) (wallets db)"
      "wagers db' = map (\<lambda>r. if wg_id r = tx_id t then
        wager_assign t (map_option (cents val) (tx_balanceBefore t)) (map_option (cents val) (tx_balanceAfter t)) r
        else r) (wagers db)"
      "ledger db' = ledger db @ [l]" "schema_ok db'"
  shows "db_inv E db'"
proof -
  have sch: "schema_ok db" using inv by (simp add: db_inv_def)
  have v63: "wr_version r0 < 2 ^ 63" using schema_wallet_version [OF sch r0(1)] .
  have s: "wallet_id wal = wr_id r0" using scanWallet_InrD(1) [OF r0(2)] .
  have idw: "wallet_id wal' = wr_id r0" using s Wallet_Move_id [OF mv(1)] by simp
  have ver: "wr_version r0 = wallet_version wal' - 1"
    using match schema_wallet_unique [OF sch _ r0(1)] idw by auto
  note w = moved_wallet_scans [OF r0(2) v63 mv ver]
  obtain rt where rt: "rt \<in> set (wagers db)" "wg_id rt = tx_id t" "wg_type rt = tx_type t"
    "wg_wallet_id rt = tx_walletID t" "wg_amount rt = cents val (tx_amount t)"
    using current_row [OF cur] by metis
  have "ledger_inv db'"
    by (rule movement_ledger [OF sch _ r0(1) _ _ _ _ l(1) db'(1,3)])
      (use inv w(2,3) ver l(3,4) in \<open>simp_all add: db_inv_def wallet_assign_def\<close>)
  moreover have "movement_inv db'"
    by (rule movement_recorded [OF sch _ rt(1) nt [OF rt(1,2)] _ _ _ db'(2) [folded rt(2)] db'(3)])
      (use inv rt t l in \<open>simp_all add: db_inv_def moved_def entry_of_def wager_assign_def\<close>)
  moreover have "\<exists>w. scanWallet E x = Inr w" if x: "x \<in> set (wallets db')" for x
  proof -
    obtain y where y: "y \<in> set (wallets db)" "x = (if wr_id y = wallet_id wal' \<and> wr_version y = wallet_version wal' - 1
        then wallet_assign wal' (cents val (wallet_balance wal')) y else y)" using x db'(1) by auto
    show ?thesis
      using y w(1,2) schema_wallet_unique [OF sch y(1) r0(1)] inv by (auto simp: db_inv_def rows_ok_def split: if_splits)
  qed
  moreover have "rows_ok E (db\<lparr>wagers := wagers db'\<rparr>)"
    using update_wager_rows_ok [OF sch _ cur wf, of "db\<lparr>wagers := wagers db'\<rparr>"] inv db'(2) by (simp add: db_inv_def)
  ultimately show ?thesis using db'(4) by (simp add: db_inv_def rows_ok_def)
qed

end

lemma current_step: "\<lbrakk>current val db t; same_business_fields t t'\<rbrakk> \<Longrightarrow> current val db t'"
  using same_business_trans by (fastforce simp: current_def)

lemma current_self: "\<lbrakk>r \<in> set (wagers db); represents val r t\<rbrakk> \<Longrightarrow> current val db t"
  using same_business_refl by (fastforce simp: current_def)

lemma current_wagers: "wagers db' = wagers db \<Longrightarrow> current val db' t = current val db t"
  by (simp add: current_def)

text \<open>What \<^verbatim>\<open>lockWallet\<close> gives.\<close>

definition locked :: "'d Env \<Rightarrow> DB \<Rightarrow> 'd WagerTransaction \<Rightarrow> 'd Wallet \<Rightarrow> bool" where
  "locked E db t wal \<longleftrightarrow> (\<exists>r \<in> set (wallets db). scanWallet E r = Inr wal \<and> wr_id r = tx_walletID t)"

text \<open>The domain operations on a well-formed transaction.\<close>

context decimal_pkg
begin

lemma MarkRejected_wf:
  assumes "MarkRejected t c m now = Inr t'" "tx_wf D val t"
  shows "tx_wf D val t'" "same_business_fields t t'" "tx_status t' = REJECTED"
proof -
  note d = completeWithFailure_InrD(1) [OF assms(1) [unfolded MarkRejected_def]]
  have "tx_ok D t'"
    using completeWithFailure_tx_ok [OF _ assms(1) [unfolded MarkRejected_def]] assms(2) by (simp add: tx_wf_def)
  then show "tx_wf D val t'" using assms(2) by (simp add: tx_wf_def d balance_ok_def)
  show "same_business_fields t t'" "tx_status t' = REJECTED" by (simp_all add: d same_business_fields_def)
qed

lemma MarkFailed_wf:
  assumes "MarkFailed t c m now = Inr t'" "tx_wf D val t"
  shows "tx_wf D val t'" "same_business_fields t t'" "tx_status t' = FAILED"
proof -
  note d = completeWithFailure_InrD(1) [OF assms(1) [unfolded MarkFailed_def]]
  have "tx_ok D t'"
    using completeWithFailure_tx_ok [OF _ assms(1) [unfolded MarkFailed_def]] assms(2) by (simp add: tx_wf_def)
  then show "tx_wf D val t'" using assms(2) by (simp add: tx_wf_def d balance_ok_def)
  show "same_business_fields t t'" "tx_status t' = FAILED" by (simp_all add: d same_business_fields_def)
qed

lemma MarkPendingReference_wf:
  assumes "MarkPendingReference t now = Inr t'" "tx_wf D val t"
  shows "tx_wf D val t'" "t' = t\<lparr>tx_status := PENDING_REFERENCE, tx_updatedAt := now\<rparr>"
proof -
  show d: "t' = t\<lparr>tx_status := PENDING_REFERENCE, tx_updatedAt := now\<rparr>"
    using MarkPendingReference_InrD(1) [OF assms(1)] .
  have "tx_ok D t'" using MarkPendingReference_tx_ok [OF _ assms(1)] assms(2) by (simp add: tx_wf_def)
  then show "tx_wf D val t'" using assms(2) by (simp add: tx_wf_def d balance_ok_def)
qed

lemma ResolveReference_wf:
  assumes "ResolveReference D t (Some r) now = Inr t'" "tx_wf D val t" "tx_id r \<noteq> 0"
  shows "tx_wf D val t'" "same_business_fields t t'" "tx_status t' = PENDING \<or> t' = t"
proof -
  have ok: "tx_ok D t'" using ResolveReference_tx_ok [OF _ assms(3,1)] assms(2) by (simp add: tx_wf_def)
  from ResolveReference_InrD(3) [OF assms(1)]
  consider "t' = t" | "t' = t\<lparr>tx_status := PENDING, tx_referenceTransactionID := tx_id r,
              tx_referenceTransactionType := tx_type r, tx_updatedAt := now\<rparr>" by blast
  then have "tx_wf D val t' \<and> same_business_fields t t' \<and> (tx_status t' = PENDING \<or> t' = t)"
  proof cases
    case 1 then show ?thesis using assms(2) by simp
  next
    case 2 then show ?thesis using ok assms(2) by (simp add: tx_wf_def same_business_fields_def)
  qed
  then show "tx_wf D val t'" "same_business_fields t t'" "tx_status t' = PENDING \<or> t' = t" by simp_all
qed

lemma MarkProcessed_wf:
  assumes "MarkProcessed D t b a now = Inr t'" "tx_wf D val t" "money_ok D val b" "money_ok D val a"
  shows "tx_wf D val t'" "same_business_fields t t'" "tx_status t' = PROCESSED" "tx_balanceBefore t' = Some b"
    "tx_balanceAfter t' = Some a"
proof -
  note d = MarkProcessed_InrD [OF assms(1)]
  have ok: "tx_ok D t'" using MarkProcessed_tx_ok [OF _ assms(1)] assms(2) by (simp add: tx_wf_def)
  have w: "whole_cents val b" "whole_cents val a" using assms(3,4) by (simp_all add: money_ok_def)
  have "money_currency b = money_currency (tx_amount t)" "money_currency a = money_currency (tx_amount t)"
    "0 \<le> cents val b" "0 \<le> cents val a"
    using d(4) sign_cents [OF w(1)] sign_cents [OF w(2)]
    by (auto simp: validateObservedBalances_def split: if_splits)
  then show "tx_wf D val t'" using ok assms by (simp add: tx_wf_def d(1) balance_ok_def)
  show "same_business_fields t t'" "tx_status t' = PROCESSED" "tx_balanceBefore t' = Some b"
    "tx_balanceAfter t' = Some a" by (simp_all add: d(1) same_business_fields_def)
qed

end

text \<open>The events only add to the outbox.\<close>

lemma NewEvent_db: "newEvent E ty agg md t d w = (Inr ev, w') \<Longrightarrow> w_db w' = w_db w"
  by (drule newEvent_Inr) simp

lemmas new_event_defs = NewWagerTransactionProcessedEvent_def NewWagerTransactionRejectedEvent_def
  NewWalletBalanceChangedEvent_def NewWagerTransactionPendingReferenceEvent_def

lemma createProcessedEvent_inv:
  "\<lbrakk>createProcessedEvent E ctx t md now w = (Inr u, w'); db_inv E (w_db w)\<rbrakk> \<Longrightarrow> db_inv E (w_db w')"
  unfolding createProcessedEvent_def new_event_defs bind_act_Inr
  by (elim exE conjE) (drule NewEvent_db, erule db_inv_outbox_create, simp)

lemma createBalanceChangedEvent_inv:
  "\<lbrakk>createBalanceChangedEvent E ctx wal e md now w = (Inr u, w'); db_inv E (w_db w)\<rbrakk> \<Longrightarrow> db_inv E (w_db w')"
  unfolding createBalanceChangedEvent_def new_event_defs bind_act_Inr
  by (elim exE conjE) (drule NewEvent_db, erule db_inv_outbox_create, simp)

lemma createRejectedEvent_inv:
  "\<lbrakk>createRejectedEvent E ctx t md now w = (Inr u, w'); db_inv E (w_db w)\<rbrakk> \<Longrightarrow> db_inv E (w_db w')"
  unfolding createRejectedEvent_def new_event_defs bind_act_Inr
  by (elim exE conjE) (drule NewEvent_db, erule db_inv_outbox_create, simp)

lemma createPendingReferenceEvent_inv:
  "\<lbrakk>createPendingReferenceEvent E ctx t md now w = (Inr u, w'); db_inv E (w_db w)\<rbrakk> \<Longrightarrow> db_inv E (w_db w')"
  unfolding createPendingReferenceEvent_def new_event_defs bind_act_Inr
  by (elim exE conjE) (drule NewEvent_db, erule db_inv_outbox_create, simp)

context runtime
begin

lemma reject_inv:
  assumes "reject E ctx t rej md now w = (Inr t', w')" "db_inv E (w_db w)" "current val (w_db w) t"
    "tx_wf (E_decimal E) val t"
  shows "db_inv E (w_db w')"
proof -
  obtain v v2 where m: "MarkRejected t (rejection_code rej) (rejection_message rej) now = Inr t'"
    and u: "WagerRepository_Update E ctx t' w = (Inr (), v)" and e: "createRejectedEvent E ctx t' md now v = (Inr (), v2)"
    and w': "w' = v2"
    using assms(1) by (auto simp: reject_def bind_act_Inr)
  note wf = MarkRejected_wf [OF m assms(4)]
  have "db_inv E (w_db v)"
    by (rule WagerRepository_Update_inv [OF u assms(2) current_step [OF assms(3) wf(2)] wf(1)]) (simp add: wf(3))
  then show ?thesis using createRejectedEvent_inv [OF e] w' by simp
qed

lemma lockWallet_Inr:
  assumes "lockWallet E ctx t w = (Inr wal, w')"
  shows "locked E (w_db w) t wal" "w_db w' = w_db w" "wallet_playerID wal = tx_playerID t"
    "money_currency (wallet_balance wal) = money_currency (tx_amount t)"
proof -
  have f: "WalletRepository_FindByIDForUpdate E ctx (tx_walletID t) w = (Inr wal, w')"
    "wallet_playerID wal = tx_playerID t" "money_currency (wallet_balance wal) = money_currency (tx_amount t)"
    using assms by (auto simp: lockWallet_def match_act_Inr split: if_splits)
  obtain r where "r \<in> set (wallets (w_db w))" "wr_id r = tx_walletID t" "scanWallet E r = Inr wal"
    "w' = w\<lparr>w_step := Suc (w_step w)\<rparr>" using WalletRepository_FindByIDForUpdate_Inr [OF f(1)] .
  with f show "locked E (w_db w) t wal" "w_db w' = w_db w" "wallet_playerID wal = tx_playerID t"
    "money_currency (wallet_balance wal) = money_currency (tx_amount t)" by (auto simp: locked_def)
qed

lemma ledger_row_of_ok:
  assumes "ledger_row_of E e = Inr l" "entry_ok (E_decimal E) val e"
  shows "lr_wallet_id l = entry_walletID e" "lr_transaction_id l = entry_transactionID e"
    "lr_direction l = entry_direction e" "lr_amount l = cents val (entry_amount e)"
    "lr_balance_before l = cents val (entry_balanceBefore e)" "lr_balance_after l = cents val (entry_balanceAfter e)"
proof -
  have "whole_cents val (entry_amount e)" "whole_cents val (entry_balanceBefore e)" "whole_cents val (entry_balanceAfter e)"
    using assms(2) by (simp_all add: entry_ok_def money_ok_def)
  then have "numeric_arg E (entry_amount e) = Inr (cents val (entry_amount e))"
    "numeric_arg E (entry_balanceBefore e) = Inr (cents val (entry_balanceBefore e))"
    "numeric_arg E (entry_balanceAfter e) = Inr (cents val (entry_balanceAfter e))" by (simp_all add: numeric_arg_ok)
  with assms(1) show "lr_wallet_id l = entry_walletID e" "lr_transaction_id l = entry_transactionID e"
    "lr_direction l = entry_direction e" "lr_amount l = cents val (entry_amount e)"
    "lr_balance_before l = cents val (entry_balanceBefore e)" "lr_balance_after l = cents val (entry_balanceAfter e)"
    by (auto simp: ledger_row_of_def)
qed

text \<open>The steps of a movement that succeeded.\<close>

lemma applyMovement_Inr:
  assumes "applyMovement E ctx wal t md now w = (Inr t', w')"
  obtains (none) v where "tx_type t = LOSS"
      "MarkProcessed (E_decimal E) t (wallet_balance wal) (wallet_balance wal) now = Inr t'"
      "WagerRepository_Update E ctx t' w = (Inr (), v)" "createProcessedEvent E ctx t' md now v = (Inr (), w')"
  | (rejected) rej where "reject E ctx t rej md now w = (Inr t', w')"
  | (moved) dir wal' v1 v2 v3 v4 v5 i e where "MovementDirection t = Inr (dir, True)"
      "Wallet_Move (E_decimal E) dir wal (tx_amount t) now = Inr wal'"
      "MarkProcessed (E_decimal E) t (wallet_balance wal) (wallet_balance wal') now = Inr t'"
      "WalletRepository_Update E ctx wal' w = (Inr (), v1)"
      "WagerRepository_Update E ctx t' v1 = (Inr (), v2)"
      "uuid_New E v2 = (Inr i, v3)"
      "NewWalletLedgerEntry (E_decimal E) i (wallet_id wal') (tx_id t') dir (tx_amount t') (wallet_balance wal)
         (wallet_balance wal') now = Inr e"
      "WalletLedgerRepository_Create E ctx e v3 = (Inr (), v4)"
      "createProcessedEvent E ctx t' md now v4 = (Inr (), v5)"
      "createBalanceChangedEvent E ctx wal' e md now v5 = (Inr (), w')"
proof -
  obtain dm where "MovementDirection t = Inr dm"
    using assms by (cases "MovementDirection t") (auto simp: applyMovement_def bind_act_Inr)
  then obtain dir mvm where d: "MovementDirection t = Inr (dir, mvm)" by (cases dm) simp
  show thesis
  proof (cases mvm)
    case False
    have "tx_type t = LOSS" using d False
      by (auto simp: MovementDirection_def split: WagerTransactionType.splits)
    then show thesis
      using assms d False none by (auto simp: applyMovement_def bind_act_Inr Let_def)
  next
    case True
    then have d: "MovementDirection t = Inr (dir, True)" using d by simp
    show thesis
    proof (cases "Wallet_Move (E_decimal E) dir wal (tx_amount t) now")
      case (Inl e)
      then show thesis
        using assms d True rejected by (auto simp: applyMovement_def bind_act_Inr match_act_Inr Let_def split: if_splits)
    next
      case (Inr wal')
      obtain v1 v2 v3 v4 v5 i e where
        "MarkProcessed (E_decimal E) t (wallet_balance wal) (wallet_balance wal') now = Inr t'"
        "WalletRepository_Update E ctx wal' w = (Inr (), v1)" "WagerRepository_Update E ctx t' v1 = (Inr (), v2)"
        "uuid_New E v2 = (Inr i, v3)"
        "NewWalletLedgerEntry (E_decimal E) i (wallet_id wal') (tx_id t') dir (tx_amount t') (wallet_balance wal)
           (wallet_balance wal') now = Inr e"
        "WalletLedgerRepository_Create E ctx e v3 = (Inr (), v4)"
        "createProcessedEvent E ctx t' md now v4 = (Inr (), v5)"
        "createBalanceChangedEvent E ctx wal' e md now v5 = (Inr (), w')"
        using assms d True Inr by (auto simp: applyMovement_def bind_act_Inr match_act_Inr Let_def)
      from moved [OF d Inr this] show thesis .
    qed
  qed
qed

lemma MovementDirection_LOSS: "MovementDirection t = Inr (dir, True) \<Longrightarrow> tx_type t \<noteq> LOSS"
  by (auto simp: MovementDirection_def)

lemma applyMovement_inv:
  assumes a: "applyMovement E ctx wal t md now w = (Inr t', w')" and inv: "db_inv E (w_db w)"
    and cur: "current val (w_db w) t" and wf: "tx_wf (E_decimal E) val t" and lk: "locked E (w_db w) t wal"
  shows "db_inv E (w_db w')"
proof -
  obtain r0 where r0: "r0 \<in> set (wallets (w_db w))" "scanWallet E r0 = Inr wal" "wr_id r0 = tx_walletID t"
    using lk by (auto simp: locked_def)
  note s = scanWallet_InrD [OF r0(2)]
  have wok: "wallet_ok (E_decimal E) val wal"
    using s(8) schema_wallet_version [OF _ r0(1)] inv by (simp add: db_inv_def)
  from a show ?thesis
  proof (cases rule: applyMovement_Inr)
    case (none v)
    note p = MarkProcessed_wf [OF none(2) wf s(9) s(9)]
    have "tx_type t' = LOSS" using p(2) none(1) by (simp add: same_business_fields_def)
    then have "db_inv E (w_db v)"
      using WagerRepository_Update_inv [OF none(3) inv current_step [OF cur p(2)] p(1)] by simp
    then show ?thesis using createProcessedEvent_inv [OF none(4)] by simp
  next
    case (rejected rej)
    then show ?thesis using reject_inv inv cur wf by blast
  next
    case (moved dir wal' v1 v2 v3 v4 v5 i e)
    have am: "money_ok (E_decimal E) val (tx_amount t)" using wf by (simp add: tx_wf_def)
    note m = Move_InrD [OF moved(2) wok am]
    note p = MarkProcessed_wf [OF moved(3) wf s(9) m(2)]
    have b: "tx_id t' = tx_id t" "tx_amount t' = tx_amount t" "tx_type t' = tx_type t" "tx_walletID t' = tx_walletID t"
      using p(2) by (simp_all add: same_business_fields_def)
    have e: "entry_ok (E_decimal E) val e" "entry_walletID e = wallet_id wal'" "entry_transactionID e = tx_id t'"
      "entry_direction e = dir" "entry_amount e = tx_amount t" "entry_balanceBefore e = wallet_balance wal"
      "entry_balanceAfter e = wallet_balance wal'"
      using iffD1 [OF build_entry_iff [OF am s(9) m(2)] moved(7) [unfolded NewWalletLedgerEntry_def b(2)]] by auto
    obtain bb n1 where u1: "numeric_arg E (wallet_balance wal') = Inr bb"
      "w_db v1 = (w_db w)\<lparr>wallets := map (\<lambda>r. if wr_id r = wallet_id wal' \<and> wr_version r = wallet_version wal' - 1
         then wallet_assign wal' bb r else r) (wallets (w_db w))\<rparr>"
      "update_wallets (\<lambda>r. wr_id r = wallet_id wal' \<and> wr_version r = wallet_version wal' - 1) (wallet_assign wal' bb) (w_db w) =
         Inr (n1, w_db v1)"
      "\<exists>r \<in> set (wallets (w_db w)). wr_id r = wallet_id wal' \<and> wr_version r = wallet_version wal' - 1"
      using WalletRepository_Update_Inr [OF moved(4)] .
    have bb: "bb = cents val (wallet_balance wal')" using u1(1) numeric_arg_ok m(2) by (simp add: money_ok_def)
    obtain x y n2 where u2: "wagerBalanceBefore E t' = Inr x" "wagerBalanceAfter E t' = Inr y"
      "w_db v2 = (w_db v1)\<lparr>wagers := map (\<lambda>r. if wg_id r = tx_id t' then wager_assign t' x y r else r) (wagers (w_db v1))\<rparr>"
      "update_wagers (\<lambda>r. wg_id r = tx_id t') (wager_assign t' x y) (w_db v1) = Inr (n2, w_db v2)"
      using WagerRepository_Update_Inr [OF moved(5)] .
    have xy: "x = map_option (cents val) (tx_balanceBefore t')" "y = map_option (cents val) (tx_balanceAfter t')"
      using u2(1,2) tx_wf_numeric [OF p(1)] by simp_all
    have v3: "w_db v3 = w_db v2" using moved(6) by (simp add: uuid_New_Inr)
    obtain l n3 where u3: "ledger_row_of E e = Inr l" "w_db v4 = (w_db v3)\<lparr>ledger := ledger (w_db v3) @ [l]\<rparr>"
      "insert_ledger l (w_db v3) = Inr (n3, w_db v4)"
      using WalletLedgerRepository_Create_Inr [OF moved(8)] .
    note l = ledger_row_of_ok [OF u3(1) e(1)]
    have sch: "schema_ok (w_db v4)"
      using insert_ledger_schema [OF u3(3)] update_wagers_schema [OF u2(4)] update_wallets_schema [OF u1(3)] inv v3
      by (simp add: db_inv_def)
    have "db_inv E (w_db v4)"
    proof (rule movement_keeps_inv [OF inv r0(1,2) moved(2) am u1(4) current_step [OF cur p(2)] p(1) p(3) _ p(4,5)])
      show "tx_type t' \<noteq> LOSS" using MovementDirection_LOSS [OF moved(1)] b by simp
      show "cents val (tx_amount t') = cents val (tx_amount t)" "tx_walletID t' = wr_id r0" using b r0(3) by simp_all
      show "lr_wallet_id l = wr_id r0" "lr_transaction_id l = tx_id t'" "lr_direction l = dir"
        "lr_amount l = cents val (tx_amount t)" "lr_balance_before l = cents val (wallet_balance wal)"
        "lr_balance_after l = cents val (wallet_balance wal')"
        using l e Wallet_Move_id [OF moved(2)] s(1) by simp_all
      show "\<not> IsTerminal (wg_status r)" if "r \<in> set (wagers (w_db w))" "wg_id r = tx_id t'" for r
        using update_wagers_1(3) [OF u2(4), of r] wager_trigger_None that u1(2) by auto
    qed (use sch u1(2) u2(3) u3(2) v3 bb xy in simp_all)
    then show ?thesis using createProcessedEvent_inv [OF moved(9)] createBalanceChangedEvent_inv [OF moved(10)] by simp
  qed
qed

lemma settle_inv:
  assumes "settle E ctx wal t md now w = (Inr t', w')" "db_inv E (w_db w)" "current val (w_db w) t"
    "tx_wf (E_decimal E) val t" "locked E (w_db w) t wal"
  shows "db_inv E (w_db w')"
proof (cases "RequiresReference (tx_type t)")
  case False
  then show ?thesis using assms applyMovement_inv by (simp add: settle_def)
next
  case True
  obtain d v where h: "HasProcessedDirectReversal E ctx (tx_referenceTransactionID t) w = (Inr d, v)"
    and k: "(if d then reject E ctx t \<lparr>rejection_code = FailureCodeDuplicateReversal,
       rejection_message = ''referenced transaction already has a successful direct reversal''\<rparr> md now
       else applyMovement E ctx wal t md now) v = (Inr t', w')"
    using assms(1) True by (auto simp: settle_def bind_act_Inr)
  have "w_db v = w_db w" using HasProcessedDirectReversal_Inr [OF h] by simp
  then show ?thesis using k assms(2-5) reject_inv applyMovement_inv by (cases d) auto
qed

end

lemma NewExternal_fields:
  assumes "NewExternalWagerTransaction D p = Inr t"
  shows "tx_status t = PENDING" "tx_type t = np_Type p" "tx_amount t = np_Amount p" "tx_id t = np_ID p"
    "tx_balanceBefore t = None" "tx_balanceAfter t = None"
    "tx_providerID t = np_ProviderID p" "tx_idempotencyKey t = np_IdempotencyKey p"
    "tx_externalTransactionID t = np_ExternalTransactionID p" "tx_payloadHash t = np_PayloadHash p"
    "tx_walletID t = np_WalletID p" "tx_playerID t = np_PlayerID p"
    "tx_referenceExternalTransactionID t = np_ReferenceExternalTransactionID p"
  using assms by (auto simp: NewExternalWagerTransaction_def split: option.splits)

text \<open>A query changes nothing, however it ends.\<close>

lemma request_read:
  assumes "\<And>now clk db a db'. f now clk db = Inr (a, db') \<Longrightarrow> db' = db"
  shows "request E ctx f w = (r, w') \<Longrightarrow> w_db w' = w_db w"
  using assms by (auto simp: request_def Let_def split: if_splits reply.splits sum.splits)

lemma bind_option_db:
  "\<lbrakk>bind_act m (\<lambda>r. case r of None \<Rightarrow> throw e | Some a \<Rightarrow> ret a) w = (x, w');
    \<And>r v. m w = (r, v) \<Longrightarrow> w_db v = w_db w\<rbrakk> \<Longrightarrow> w_db w' = w_db w"
  by (auto simp: bind_act_def throw_def ret_def split: prod.splits sum.splits option.splits)

lemma query_row_db: "query_row E ctx q w = (r, w') \<Longrightarrow> w_db w' = w_db w"
  unfolding query_row_def query_def
  by (erule bind_option_db, rule request_read [where f = "\<lambda>now clk db. Inr (q db, db)"]) auto

lemma query_row_text_db: "query_row_text E ctx ts q w = (r, w') \<Longrightarrow> w_db w' = w_db w"
  unfolding query_row_text_def
  by (erule bind_option_db, erule request_read [rotated]) (auto split: if_splits)

lemma scan_row_db:
  "\<lbrakk>scan_row row dec w = (r, w'); \<And>r v. row w = (r, v) \<Longrightarrow> w_db v = w_db w\<rbrakk> \<Longrightarrow> w_db w' = w_db w"
  by (auto simp: scan_row_def match_act_def throw_def lift_sum_def split: prod.splits sum.splits)

lemma FindByProviderAndExternalTransactionID_db:
  "FindByProviderAndExternalTransactionID E ctx p x w = (r, w') \<Longrightarrow> w_db w' = w_db w"
  unfolding FindByProviderAndExternalTransactionID_def by (erule scan_row_db) (rule query_row_text_db)

lemma FindByProviderAndIdempotencyKey_db:
  "FindByProviderAndIdempotencyKey E ctx p x w = (r, w') \<Longrightarrow> w_db w' = w_db w"
  unfolding FindByProviderAndIdempotencyKey_def by (erule scan_row_db) (rule query_row_text_db)

lemma WagerRepository_FindByID_db:
  "WagerRepository_FindByID E ctx u w = (r, w') \<Longrightarrow> w_db w' = w_db w"
  unfolding WagerRepository_FindByID_def by (erule scan_row_db) (rule query_row_db)

context runtime
begin

text \<open>The outcome of a reference lookup leaves the database alone; a resolved transaction stays well-formed.\<close>

lemma resolveReference_Inr:
  assumes "resolveReference E ctx t now w = (Inr out, w')"
  shows "w_db w' = w_db w"
    "out = Available t' \<Longrightarrow> \<exists>r ref. r \<in> set (wagers (w_db w)) \<and> scanWager E r = Inr ref \<and> tx_id ref \<noteq> 0 \<and>
       ResolveReference (E_decimal E) t (Some ref) now = Inr t'"
proof -
  let ?find = "FindByProviderAndExternalTransactionID E ctx (tx_providerID t) (tx_referenceExternalTransactionID t)"
  consider (err) e where "?find w = (Inl e, w')" "out = NotAvailable"
    | (found) ref v where "?find w = (Inr ref, v)" "w' = v"
        "out = Available t' \<longrightarrow> ResolveReference (E_decimal E) t (Some ref) now = Inr t'"
    using assms unfolding resolveReference_def match_act_Inr
    by (fastforce split: if_splits WagerTransactionStatus.splits sum.splits)
  then show "w_db w' = w_db w"
    "out = Available t' \<Longrightarrow> \<exists>r ref. r \<in> set (wagers (w_db w)) \<and> scanWager E r = Inr ref \<and> tx_id ref \<noteq> 0 \<and>
       ResolveReference (E_decimal E) t (Some ref) now = Inr t'"
  proof (atomize (full), cases)
    case found
    obtain r where r: "r \<in> set (wagers (w_db w))" "scanWager E r = Inr ref" "v = w\<lparr>w_step := Suc (w_step w)\<rparr>"
      using FindByProviderAndExternalTransactionID_Inr [OF found(1)] .
    have "tx_id ref \<noteq> 0" using scanWager_InrD(2) [OF r(2)] tx_ok_id by (auto simp: tx_wf_def)
    then show "w_db w' = w_db w \<and> (out = Available t' \<longrightarrow> (\<exists>r ref. r \<in> set (wagers (w_db w)) \<and>
       scanWager E r = Inr ref \<and> tx_id ref \<noteq> 0 \<and> ResolveReference (E_decimal E) t (Some ref) now = Inr t'))"
      using found r by auto
  qed (use FindByProviderAndExternalTransactionID_db in auto)
qed

text \<open>An update of one row that is pending before and after.\<close>

lemma pending_update_inv:
  assumes up: "update_wagers m f db = Inr (n, db')" and inv: "db_inv E db" and r: "r \<in> set (wagers db)" "m r"
    and m: "\<And>x. m x \<Longrightarrow> wg_id x = wg_id r" and f: "\<And>x. wg_id (f x) = wg_id x" "\<not> moved (f r)" "\<exists>t. scanWager E (f r) = Inr t"
    and nt: "\<not> moved r"
  shows "db_inv E db'"
proof -
  note d = update_wagers_1(1) [OF up]
  have sch: "schema_ok db" using inv by (simp add: db_inv_def)
  have rows: "x \<in> set (wagers db) \<or> x = f r" if x: "x \<in> set (wagers db')" for x
  proof -
    obtain y where y: "y \<in> set (wagers db)" "x = (if m y then f y else y)" using x d by auto
    show ?thesis
    proof (cases "m y")
      case True
      then have "y = r" using schema_wager_unique [OF sch y(1) r(1)] m by blast
      then show ?thesis using y True by simp
    qed (use y in simp)
  qed
  have no: "\<forall>l \<in> set (ledger db). lr_transaction_id l \<noteq> wg_id r"
    using inv r(1) nt by (auto simp: db_inv_def movement_inv_def)
  have "rows_ok E db'"
    unfolding rows_ok_def
  proof (intro conjI ballI)
    show "\<exists>t. scanWager E x = Inr t" if "x \<in> set (wagers db')" for x
      using rows [OF that] f(3) inv by (auto simp: rows_ok_def db_inv_def)
    show "\<exists>w. scanWallet E x = Inr w" if "x \<in> set (wallets db')" for x
      using that inv d by (simp add: rows_ok_def db_inv_def)
  qed
  moreover have "movement_inv db'"
    unfolding movement_inv_def
  proof
    fix x assume "x \<in> set (wagers db')"
    from rows [OF this] consider "x \<in> set (wagers db)" | "x = f r" by blast
    then show "if moved x then \<exists>l\<in>set (ledger db'). entry_of x l else \<forall>l\<in>set (ledger db'). lr_transaction_id l \<noteq> wg_id x"
      by cases (use inv f(1,2) no d in \<open>auto simp: db_inv_def movement_inv_def\<close>)
  qed
  ultimately show ?thesis
    using inv update_wagers_schema [OF up sch] d by (simp add: db_inv_def ledger_inv_def wallet_entries_def)
qed

lemma markPendingReference_inv:
  assumes "markPendingReference E P ctx t md now w = (Inr t', w')" "db_inv E (w_db w)"
    and rep: "\<exists>r \<in> set (wagers (w_db w)). represents val r t" and wf: "tx_wf (E_decimal E) val t"
  shows "db_inv E (w_db w')"
proof -
  obtain v where m: "MarkPendingReference t now = Inr t'"
    and u: "WagerRepository_UpdatePendingReference E ctx t' (policy_nextAttemptAt P now (now + TTL P) 1) (now + TTL P) md w = (Inr (), v)"
    and e: "createPendingReferenceEvent E ctx t' md now v = (Inr (), w')"
    using assms(1) by (auto simp: markPendingReference_def bind_act_Inr Let_def)
  note t' = MarkPendingReference_wf [OF m wf]
  let ?f = "\<lambda>r. r\<lparr>wg_status := tx_status t', wg_updated_at := tx_updatedAt t', wg_reference_retry_count := 0,
      wg_next_reference_attempt_at := Some (policy_nextAttemptAt P now (now + TTL P) 1),
      wg_reference_expires_at := Some (now + TTL P), wg_reference_correlation_id := Some (CorrelationID md),
      wg_reference_causation_id := nullableString (CausationID md)\<rparr>"
  obtain n where x: "exec_stmt E ctx (update_wagers (\<lambda>r. wg_id r = tx_id t') ?f) w = (Inr n, v)"
    using u by (auto simp: WagerRepository_UpdatePendingReference_def bind_act_Inr split: if_splits)
  from exec_stmt_Inr [OF x] have up: "update_wagers (\<lambda>r. wg_id r = tx_id t') ?f (w_db w) = Inr (n, w_db v)" by auto
  obtain r where r: "r \<in> set (wagers (w_db w))" "represents val r t" using rep by blast
  have rid: "wg_id r = tx_id t'" using representsD(1) [OF r(2)] t'(2) by simp
  have "represents val (?f r) t'"
    using r(2) by (simp add: t'(2) represents_def params_of_def row_params_def)
  then obtain t2 where sc: "scanWager E (?f r) = Inr t2" using represents_scan [OF _ t'(1)] by metis
  have nt: "\<not> IsTerminal (wg_status r)" using update_wagers_1(3) [OF up r(1) rid] wager_trigger_None by blast
  have "db_inv E (w_db v)"
    by (rule pending_update_inv [OF up assms(2) r(1) rid])
      (use sc nt t'(2) rid in \<open>auto simp: moved_def IsTerminal_def\<close>)
  then show ?thesis using createPendingReferenceEvent_inv [OF e] by simp
qed

lemma SchedulePendingReferenceRetry_inv:
  assumes "SchedulePendingReferenceRetry E ctx uid k next w = (Inr u, w')" "db_inv E (w_db w)"
  shows "db_inv E (w_db w')"
proof -
  let ?m = "\<lambda>r. wg_id r = uid \<and> wg_status r = PENDING_REFERENCE"
  let ?f = "\<lambda>clk r. r\<lparr>wg_reference_retry_count := k, wg_next_reference_attempt_at := Some next, wg_updated_at := clk\<rparr>"
  obtain n where n: "request E ctx (\<lambda>now clk db. if 2 ^ 31 \<le> k \<or> k < - (2 ^ 31) then Inl (PgError ''22003'' [])
      else update_wagers ?m (?f clk) db) w = (Inr n, w')" "n \<noteq> 0"
    using assms(1) unfolding SchedulePendingReferenceRetry_def bind_act_Inr by (auto split: if_splits)
  define clk where "clk = E_clock E (w_step w)"
  from request_Inr [OF n(1)] have up: "update_wagers ?m (?f clk) (w_db w) = Inr (n, w_db w')"
    by (auto simp: clk_def split: if_splits)
  obtain r where r: "r \<in> set (wagers (w_db w))" "?m r"
    using update_wagers_1(2) [OF up] n(2) by (auto simp: filter_empty_conv)
  obtain t where t: "scanWager E r = Inr t" using assms(2) r(1) by (auto simp: db_inv_def rows_ok_def)
  note s = scanWager_InrD [OF t]
  let ?t = "t\<lparr>tx_updatedAt := clk\<rparr>"
  have "schema_ok (w_db w')" using update_wagers_schema [OF up] assms(2) by (simp add: db_inv_def)
  moreover have "?f clk r \<in> set (wagers (w_db w'))" using update_wagers_1(1) [OF up] r by force
  ultimately have "wg_created_at r \<le> clk"
    by (auto simp: schema_ok_def table_ok_def list_all_iff wager_checks_def chk_wager_timestamps_def)
  moreover have st: "tx_status t = PENDING_REFERENCE" "tx_createdAt t = wg_created_at r"
    using representsD [OF s(1)] r(2) by simp_all
  moreover have ty: "tx_type t \<noteq> OPENING" "external_core (E_decimal E) t" "reference_core t" "status_core (E_decimal E) (tx_status t) t"
    using tx_ok_pending_cores [of "E_decimal E" t] s(2) st(1) by (simp_all add: tx_wf_def)
  ultimately have "tx_ok (E_decimal E) ?t"
    using clock_pos [of "w_step w"] tx_ok_external [of ?t "E_decimal E"]
    by (simp add: external_core_def reference_core_def clk_def)
  then have "tx_wf (E_decimal E) val ?t" using s(2) by (simp add: tx_wf_def)
  moreover have "represents val (?f clk r) ?t"
    using s(1) by (simp add: represents_def params_of_def row_params_def)
  ultimately obtain t2 where t2: "scanWager E (?f clk r) = Inr t2" using represents_scan by metis
  show ?thesis
    by (rule pending_update_inv [OF up assms(2) r]) (use r(2) t2 in \<open>auto simp: moved_def\<close>)
qed

text \<open>A new transaction, once its row is there.\<close>

lemma processNew_inv:
  assumes p: "processNew E P ctx wal t md now w = (Inr t', w')" and inv: "db_inv E (w_db w)"
    and rep: "\<exists>r \<in> set (wagers (w_db w)). represents val r t" and wf: "tx_wf (E_decimal E) val t"
    and lk: "locked E (w_db w) t wal"
  shows "db_inv E (w_db w')"
proof (cases "tx_referenceExternalTransactionID t = []")
  case True
  have "current val (w_db w) t" using rep current_self by blast
  then show ?thesis using p inv wf lk settle_inv True by (simp add: processNew_def)
next
  case False
  obtain out v where o: "resolveReference E ctx t now w = (Inr out, v)"
    and k: "(case out of Rejection r \<Rightarrow> reject E ctx t r md now | NotAvailable \<Rightarrow> markPendingReference E P ctx t md now
      | Available t \<Rightarrow> settle E ctx wal t md now) v = (Inr t', w')"
    using p False by (auto simp: processNew_def bind_act_Inr)
  have db: "w_db v = w_db w" using resolveReference_Inr(1) [OF o] .
  have cur: "current val (w_db v) t" using rep current_self db by metis
  show ?thesis
  proof (cases out)
    case NotAvailable
    then show ?thesis using k markPendingReference_inv inv rep wf db by simp
  next
    case (Rejection r)
    then show ?thesis using k reject_inv [OF _ _ cur wf] inv db by simp
  next
    case (Available t1)
    obtain ref where ref: "tx_id ref \<noteq> 0" "ResolveReference (E_decimal E) t (Some ref) now = Inr t1"
      using resolveReference_Inr(2) [OF o Available] by blast
    note t1 = ResolveReference_wf [OF ref(2) wf ref(1)]
    have "locked E (w_db v) t1 wal" using lk t1(2) db by (simp add: locked_def same_business_fields_def)
    then show ?thesis using k Available settle_inv [OF _ _ current_step [OF cur t1(2)] t1(1)] inv db by simp
  qed
qed

end

lemma resolveExistingTransaction_db:
  "resolveExistingTransaction E ctx req w = (r, w') \<Longrightarrow> w_db w' = w_db w"
  unfolding resolveExistingTransaction_def Let_def match_act_def
  by (auto simp: throw_def ret_def split: prod.splits sum.splits if_splits
      dest!: FindByProviderAndExternalTransactionID_db FindByProviderAndIdempotencyKey_db)

text \<open>The two ways the body of \<^verbatim>\<open>Process\<close> succeeds.\<close>

lemma process_body_Inr:
  assumes "process_body E P req md ctx w = (Inr res, w')"
  obtains (replay) now i t v v' e where "E_clock E (w_step w) = now" "NewExternalWagerTransaction (E_decimal E) i = Inr t"
      "w_db v = w_db w" "WagerRepository_Create E ctx t v = (Inl e, v')" "errors_Is e (AppErr ErrAlreadyExists)"
      "w_db v' = w_db w" "resolveExistingTransaction E ctx req v' = (Inr res, w')"
  | (new) now i t v v1 wal v2 v3 now' t' where "NewExternalWagerTransaction (E_decimal E) i = Inr t"
      "i = \<lparr>np_ID = E_uuid E (Suc (w_step w)), np_ProviderID = cmd_ProviderID (req_command req),
        np_ExternalTransactionID = cmd_ExternalTransactionID (req_command req),
        np_IdempotencyKey = cmd_IdempotencyKey (req_command req), np_PayloadHash = req_payloadHash req,
        np_WalletID = req_walletID req, np_PlayerID = req_playerID req, np_RoundID = cmd_RoundID (req_command req),
        np_GameID = cmd_GameID (req_command req), np_Type = req_transactionType req, np_Amount = req_amount req,
        np_ReferenceExternalTransactionID = cmd_ReferenceExternalTransactionID (req_command req), np_CreatedAt = now\<rparr>"
      "w_db v = w_db w" "WagerRepository_Create E ctx t v = (Inr (), v1)" "lockWallet E ctx t v1 = (Inr wal, v2)"
      "w_db v3 = w_db v2" "processNew E P ctx wal t md now' v3 = (Inr t', w')" "res = resultFromWager t' False"
proof -
  let ?i = "\<lambda>now. \<lparr>np_ID = E_uuid E (Suc (w_step w)), np_ProviderID = cmd_ProviderID (req_command req),
        np_ExternalTransactionID = cmd_ExternalTransactionID (req_command req),
        np_IdempotencyKey = cmd_IdempotencyKey (req_command req), np_PayloadHash = req_payloadHash req,
        np_WalletID = req_walletID req, np_PlayerID = req_playerID req, np_RoundID = cmd_RoundID (req_command req),
        np_GameID = cmd_GameID (req_command req), np_Type = req_transactionType req, np_Amount = req_amount req,
        np_ReferenceExternalTransactionID = cmd_ReferenceExternalTransactionID (req_command req), np_CreatedAt = now\<rparr>"
  obtain now v0 t v where c: "Clock_Now E ctx w = (Inr now, v0)" and n: "newTransaction E req now v0 = (Inr t, v)"
    and k: "match_act (WagerRepository_Create E ctx t)
       (\<lambda>e. if \<not> errors_Is e (AppErr ErrAlreadyExists) then throw e else resolveExistingTransaction E ctx req)
       (\<lambda>_. bind_act (lockWallet E ctx t) (\<lambda>wallet. bind_act (Clock_Now E ctx) (\<lambda>now.
          bind_act (processNew E P ctx wallet t md now) (\<lambda>t. ret (resultFromWager t False))))) v = (Inr res, w')"
    using assms unfolding process_body_def bind_act_Inr by blast
  have v0: "v0 = w\<lparr>w_step := Suc (w_step w)\<rparr>" "now = E_clock E (w_step w)" using Clock_Now_Inr [OF c] by simp_all
  have t: "NewExternalWagerTransaction (E_decimal E) (?i now) = Inr t" "w_db v = w_db w"
    using n v0 by (auto simp: newTransaction_def bind_act_Inr uuid_New_Inr)
  from k [unfolded match_act_Inr] show thesis
  proof (elim disjE exE conjE)
    fix e v' assume e: "WagerRepository_Create E ctx t v = (Inl e, v')"
      and r: "(if \<not> errors_Is e (AppErr ErrAlreadyExists) then throw e else resolveExistingTransaction E ctx req) v' = (Inr res, w')"
    then have ee: "errors_Is e (AppErr ErrAlreadyExists)" by (auto split: if_splits)
    then have "w_db v' = w_db w" "resolveExistingTransaction E ctx req v' = (Inr res, w')"
      using WagerRepository_Create_exists(1) [OF e ee] r t(2) by simp_all
    from replay [OF refl t e ee this] show thesis .
  next
    fix a :: unit and v1 assume cr: "WagerRepository_Create E ctx t v = (Inr a, v1)"
      and "bind_act (lockWallet E ctx t) (\<lambda>wallet. bind_act (Clock_Now E ctx) (\<lambda>now.
          bind_act (processNew E P ctx wallet t md now) (\<lambda>t. ret (resultFromWager t False)))) v1 = (Inr res, w')"
    then obtain wal v2 now' v3 t' where l: "lockWallet E ctx t v1 = (Inr wal, v2)" "Clock_Now E ctx v2 = (Inr now', v3)"
      "processNew E P ctx wal t md now' v3 = (Inr t', w')" "res = resultFromWager t' False"
      by (auto simp: bind_act_Inr)
    have cr': "WagerRepository_Create E ctx t v = (Inr (), v1)" using cr by simp
    have "w_db v3 = w_db v2" using Clock_Now_Inr [OF l(2)] by simp
    from new [OF t(1) refl t(2) cr' l(1) this l(3,4)] show thesis .
  qed
qed

context runtime
begin

lemma NewExternal_wf:
  assumes "NewExternalWagerTransaction (E_decimal E) i = Inr t" "money_ok (E_decimal E) val (np_Amount i)"
  shows "tx_wf (E_decimal E) val t" "tx_status t = PENDING"
  using NewExternal_tx_ok [OF assms(1)] NewExternal_fields [OF assms(1)] assms(2)
  by (simp_all add: tx_wf_def balance_ok_def)

lemma process_body_inv:
  assumes "process_body E P req md ctx w = (Inr res, w')" "db_inv E (w_db w)" "money_ok (E_decimal E) val (req_amount req)"
  shows "db_inv E (w_db w')"
  using assms(1)
proof (cases rule: process_body_Inr)
  case (replay now i t v v' e)
  then show ?thesis using resolveExistingTransaction_db assms(2) by metis
next
  case (new now i t v v1 wal v2 v3 now' t')
  have wf: "tx_wf (E_decimal E) val t" "tx_status t = PENDING"
    using NewExternal_wf [OF new(1)] assms(3) new(2) by simp_all
  obtain r where r: "wager_row_of E t = Inr r" "insert_wager r (w_db v) = Inr (1, w_db v1)"
    "w_db v1 = (w_db v)\<lparr>wagers := wagers (w_db v) @ [r]\<rparr>"
    using WagerRepository_Create_Inr [OF new(4)] .
  have rep: "represents val r t" using wager_row_of_represents [OF wf(1)] r(1) by (metis sum.inject(2))
  obtain t2 where "scanWager E r = Inr t2" using represents_scan [OF rep wf(1)] by metis
  moreover have "\<not> moved r" using representsD(5) [OF rep] wf(2) by (simp add: moved_def)
  ultimately have inv1: "db_inv E (w_db v1)" using insert_pending_inv [OF r(2), of E] assms(2) new(3) by metis
  note lk = lockWallet_Inr [OF new(5)]
  have "\<exists>r \<in> set (wagers (w_db v1)). represents val r t" using r(3) rep by auto
  then show ?thesis using processNew_inv [OF new(7)] inv1 wf(1) lk new(6) by simp
qed

lemma parsed_amount_ok:
  "parseWagerRequest E command = Inr req \<Longrightarrow> money_ok (E_decimal E) val (req_amount req)"
  using parseWagerRequest_InrD(9) ParseMoney_InrD(3) by blast

lemma process_unit_of_work:
  assumes "parseWagerRequest E command = Inr req"
  shows "unit_of_work (db_inv E) (closure_of (process_body E P req md))"
  by unfold_locales (use process_body_inv parsed_amount_ok [OF assms] in \<open>auto simp: closure_of_eq\<close>)

lemma Process_inv:
  assumes "Process E P background command md w = (r, w')" "db_inv E (w_db w)"
  shows "db_inv E (w_db w')"
proof (cases "parseWagerRequest E command")
  case (Inr req)
  show ?thesis
    using assms unit_of_work.within_keeps [OF process_unit_of_work [OF Inr]] Inr
    by (auto simp: Process_def in_transaction_def throw_def split: if_splits prod.splits)
qed (use assms in \<open>auto simp: Process_def throw_def split: if_splits\<close>)

text \<open>The retry of a pending reference.\<close>

lemma scanPendingReferenceWork_Inr:
  assumes "scanPendingReferenceWork E ctx row w = (Inr work, w')"
    "\<And>r v. row w = (Inr r, v) \<Longrightarrow> w_db v = w_db w"
  obtains r where "r \<in> set (wagers (w_db w))" "scanWager E r = Inr (work_Transaction work)" "w_db w' = w_db w"
proof -
  obtain r0 v where r0: "row w = (Inr r0, v)" and f: "WagerRepository_FindByID E ctx (wg_id r0) v = (Inr (work_Transaction work), w')"
    using assms(1) by (auto simp: scanPendingReferenceWork_def match_act_Inr bind_act_Inr split: option.splits)
  obtain r where "r \<in> set (wagers (w_db v))" "scanWager E r = Inr (work_Transaction work)" "w' = v\<lparr>w_step := Suc (w_step v)\<rparr>"
    using WagerRepository_FindByID_Inr [OF f] .
  then show thesis using that assms(2) [OF r0] by simp
qed

lemma retryPendingReference_inv:
  assumes p: "retryPendingReference E P ctx work w = (Inr t', w')" and inv: "db_inv E (w_db w)"
    and r: "r \<in> set (wagers (w_db w))" "scanWager E r = Inr (work_Transaction work)"
  shows "db_inv E (w_db w')"
proof -
  let ?t = "work_Transaction work" and ?md = "work_Metadata work"
  note wf = scanWager_InrD [OF r(2)]
  obtain wal v1 now v2 where l: "lockWallet E ctx ?t w = (Inr wal, v1)" and c: "Clock_Now E ctx v1 = (Inr now, v2)"
    and k: "(if \<not> now < work_ExpiresAt work then reject E ctx ?t \<lparr>rejection_code = FailureCodeReferenceNotFound,
                 rejection_message = ''referenced transaction was not processed before expiration''\<rparr> ?md now
         else bind_act (resolveReference E ctx ?t now) (\<lambda>outcome.
              case outcome of
                Rejection r \<Rightarrow> reject E ctx ?t r ?md now
              | NotAvailable \<Rightarrow>
                  (let retryCount = work_RetryCount work + 1
                   in bind_act (SchedulePendingReferenceRetry E ctx (tx_id ?t) retryCount
                        (policy_nextAttemptAt P now (work_ExpiresAt work) (retryCount + 1))) (\<lambda>_. ret ?t))
              | Available t \<Rightarrow> settle E ctx wal t ?md now)) v2 = (Inr t', w')"
    using p unfolding retryPendingReference_def Let_def bind_act_Inr by blast
  note lk = lockWallet_Inr [OF l]
  have db: "w_db v2 = w_db w" using Clock_Now_Inr [OF c] lk(2) by simp
  have cur: "current val (w_db v2) ?t" using current_self [OF r(1) wf(1)] db by simp
  have inv2: "db_inv E (w_db v2)" using inv db by simp
  show ?thesis
  proof (cases "now < work_ExpiresAt work")
    case False
    then show ?thesis using k reject_inv [OF _ inv2 cur wf(2)] by simp
  next
    case True
    obtain out v where o: "resolveReference E ctx ?t now v2 = (Inr out, v)"
      and k': "(case out of Rejection r \<Rightarrow> reject E ctx ?t r ?md now
              | NotAvailable \<Rightarrow> bind_act (SchedulePendingReferenceRetry E ctx (tx_id ?t) (work_RetryCount work + 1)
                        (policy_nextAttemptAt P now (work_ExpiresAt work) (2 + work_RetryCount work))) (\<lambda>_. ret ?t)
              | Available t \<Rightarrow> settle E ctx wal t ?md now) v = (Inr t', w')"
      using k True by (auto simp: bind_act_Inr Let_def)
    have dbv: "w_db v = w_db v2" using resolveReference_Inr(1) [OF o] .
    show ?thesis
    proof (cases out)
      case NotAvailable
      then show ?thesis using k' SchedulePendingReferenceRetry_inv inv2 dbv by (auto simp: bind_act_Inr)
    next
      case (Rejection x)
      then show ?thesis using k' reject_inv [of ctx ?t x ?md now v t' w'] inv2 cur wf(2) dbv by simp
    next
      case (Available t1)
      obtain ref where ref: "tx_id ref \<noteq> 0" "ResolveReference (E_decimal E) ?t (Some ref) now = Inr t1"
        using resolveReference_Inr(2) [OF o Available] by blast
      note t1 = ResolveReference_wf [OF ref(2) wf(2) ref(1)]
      have "locked E (w_db v) t1 wal" using lk(1) t1(2) db dbv by (simp add: locked_def same_business_fields_def)
      then show ?thesis
        using k' Available settle_inv [of ctx wal t1 ?md now v t' w'] current_step [OF cur t1(2)] t1(1) inv2 dbv by simp
    qed
  qed
qed

lemma retry_unit_of_work: "unit_of_work (db_inv E) (retry_body E P)"
proof
  fix w w' c c' and a :: unit
  assume inv: "db_inv E (w_db w)" and b: "retry_body E P tx_context c w = ((Inr a, c'), w')"
  obtain now w1 where c: "Clock_Now E tx_context w = (Inr now, w1)"
    using b by (auto simp: retry_body_def split: prod.splits sum.splits)
  have w1: "w_db w1 = w_db w" using Clock_Now_Inr [OF c] by simp
  let ?q = "query_row E tx_context (\<lambda>db. case due_rows now db of [] \<Rightarrow> None | r # _ \<Rightarrow> Some r)"
  show "db_inv E (w_db w')"
  proof (cases "FindDuePendingReferenceForUpdate E tx_context now w1")
    case (Pair r w2)
    show ?thesis
    proof (cases r)
      case (Inl e)
      have "w_db w2 = w_db w1"
        using Pair Inl
        by (auto simp: FindDuePendingReferenceForUpdate_def scanPendingReferenceWork_def match_act_def bind_act_def
            throw_def ret_def split: prod.splits sum.splits option.splits dest!: query_row_db WagerRepository_FindByID_db)
      then show ?thesis using b c Pair Inl inv w1 by (auto simp: retry_body_def split: if_splits)
    next
      case (Inr work)
      obtain x where x: "x \<in> set (wagers (w_db w1))" "scanWager E x = Inr (work_Transaction work)" "w_db w2 = w_db w1"
        using scanPendingReferenceWork_Inr [OF Pair [unfolded FindDuePendingReferenceForUpdate_def Inr]] query_row_db
        by metis
      obtain t' where "retryPendingReference E P tx_context work w2 = (Inr t', w')"
        using b c Pair Inr by (auto simp: retry_body_def split: prod.splits sum.splits)
      then show ?thesis using retryPendingReference_inv x inv w1 by metis
    qed
  qed
qed

lemma scanPendingReferenceWork_db:
  assumes "scanPendingReferenceWork E ctx row w = (r, w')" "\<And>r v. row w = (r, v) \<Longrightarrow> w_db v = w_db w"
  shows "w_db w' = w_db w"
proof (cases "row w")
  case (Pair x v)
  have v: "w_db v = w_db w" using assms(2) [OF Pair] .
  show ?thesis
  proof (cases x)
    case (Inl e)
    then show ?thesis using assms(1) Pair v by (simp add: scanPendingReferenceWork_def match_act_def throw_def)
  next
    case (Inr y)
    obtain z v' where f: "WagerRepository_FindByID E ctx (wg_id y) v = (z, v')" by (metis surj_pair)
    have "w' = v \<or> w' = v'"
      using assms(1) Pair Inr f
      by (cases "wg_reference_expires_at y"; cases z)
        (simp_all add: scanPendingReferenceWork_def match_act_def bind_act_def throw_def ret_def)
    then show ?thesis using v WagerRepository_FindByID_db [OF f] by auto
  qed
qed

lemma fail_body_inv:
  assumes "fail_body E uid ctx w = (Inr x, w')" "db_inv E (w_db w)"
  shows "db_inv E (w_db w')"
proof -
  consider (none) e where "FindPendingReferenceForUpdate E ctx uid w = (Inl e, w')"
    | (some) work v1 now v2 t where "FindPendingReferenceForUpdate E ctx uid w = (Inr work, v1)"
      "Clock_Now E ctx v1 = (Inr now, v2)"
      "MarkFailed (work_Transaction work) FailureCodeProcessingFailed
         ''transaction could not be processed; see service logs'' now = Inr t"
      "WagerRepository_Update E ctx t v2 = (Inr (), w')"
    using assms(1) unfolding fail_body_def match_act_Inr bind_act_Inr
    by (auto split: if_splits)
  then show ?thesis
  proof cases
    case none
    have "w_db w' = w_db w"
      by (rule scanPendingReferenceWork_db [OF none [unfolded FindPendingReferenceForUpdate_def] query_row_db])
    then show ?thesis using assms(2) by simp
  next
    case some
    obtain r where r: "r \<in> set (wagers (w_db w))" "scanWager E r = Inr (work_Transaction work)" "w_db v1 = w_db w"
      by (rule scanPendingReferenceWork_Inr [OF some(1) [unfolded FindPendingReferenceForUpdate_def] query_row_db])
    note wf = scanWager_InrD [OF r(2)]
    note f = MarkFailed_wf [OF some(3) wf(2)]
    have db: "w_db v2 = w_db w" using Clock_Now_Inr [OF some(2)] r(3) by simp
    show ?thesis
      by (rule WagerRepository_Update_inv [OF some(4) _ current_step [OF current_self [of r] f(2)] f(1)])
        (use assms(2) db r(1) wf(1) f(3) in simp_all)
  qed
qed

lemma fail_unit_of_work: "unit_of_work (db_inv E) (closure_of (fail_body E uid))"
  by unfold_locales (use fail_body_inv in \<open>auto simp: closure_of_eq\<close>)

end

text \<open>The two transactions of the retry are units of work: they meet the contract of the manager.\<close>

sublocale runtime \<subseteq> retry_work: unit_of_work "db_inv E" "retry_body E P" for P
  by (rule retry_unit_of_work)

sublocale runtime \<subseteq> fail_work: unit_of_work "db_inv E" "closure_of (fail_body E uid)" for uid
  by (rule fail_unit_of_work)

context runtime
begin

lemma failPendingReference_inv:
  assumes "failPendingReference E background uid w = (r, w')" "db_inv E (w_db w)"
  shows "db_inv E (w_db w')"
  using assms fail_work.within_keeps
  by (auto simp: failPendingReference_def in_transaction_def split: prod.splits)

lemma RetryNextPendingReference_inv:
  assumes "RetryNextPendingReference E P background w = (r, w')" "db_inv E (w_db w)"
  shows "db_inv E (w_db w')"
proof -
  obtain x c w1 where x: "WithinTransaction E background (retry_body E P) None w = ((x, c), w1)" by (metis surj_pair)
  have w1: "db_inv E (w_db w1)" using retry_work.within_keeps [OF assms(2) x] .
  show ?thesis
    using assms(1) x w1 failPendingReference_inv [of _ "w1\<lparr>w_step := Suc (w_step w1)\<rparr>"]
    by (auto simp: RetryNextPendingReference_def Let_def split: option.splits sum.splits if_splits prod.splits)
qed

end

end
