(* ===== verification/Wallet_Service.thy ===== *)
theory Wallet_Service
  imports Wager_Invariant
begin

text \<open>
  \<^verbatim>\<open>internal/application/wallet_service.go\<close>: the creation of a wallet with its opening records, the
  queries, and the reconciliation of the stored balance with the ledger.
\<close>

record 'd WalletResult =
  wallres_WalletID :: uuid
  wallres_PlayerID :: uuid
  wallres_Balance :: "'d Money"
  wallres_Version :: int

type_synonym 'd CreateWalletResult = "'d WalletResult"

record 'd WalletReconciliationResult =
  rec_WalletID :: uuid
  rec_StoredBalance :: "'d Money"
  rec_CalculatedBalance :: "'d Money"
  rec_Difference :: "'d Money"
  rec_Consistent :: bool
  rec_CheckedEntries :: nat

definition createOpeningEvents ::
  "'d Env \<Rightarrow> Context \<Rightarrow> 'd Wallet \<Rightarrow> 'd WagerTransaction \<Rightarrow> 'd WalletLedgerEntry \<Rightarrow> CommandMetadata \<Rightarrow> time \<Rightarrow>
   unit act" where
  "createOpeningEvents E ctx wallet openingTx entry metadata occurredAt =
     bind_act (lift_sum (processedEventData openingTx)) (\<lambda>processed.
     bind_act (NewWagerTransactionProcessedEvent E metadata occurredAt processed) (\<lambda>ev.
     bind_act (OutboxRepository_Create E ctx (Envelope (marshal_processed E) ev)) (\<lambda>_.
     bind_act (NewWalletBalanceChangedEvent E metadata occurredAt (balanceChangedEventData wallet entry)) (\<lambda>ev.
     OutboxRepository_Create E ctx (Envelope (marshal_balance_changed E) ev)))))"

definition createOpening ::
  "'d Env \<Rightarrow> Context \<Rightarrow> 'd Wallet \<Rightarrow> 'd Money \<Rightarrow> CommandMetadata \<Rightarrow> time \<Rightarrow> unit act" where
  "createOpening E ctx wallet initialBalance metadata occurredAt =
     bind_act (uuid_New E) (\<lambda>txID.
     bind_act (lift_sum (NewOpeningWagerTransaction (E_decimal E)
       \<lparr>op_ID = txID, op_WalletID = wallet_id wallet, op_PlayerID = wallet_playerID wallet,
        op_Amount = initialBalance, op_CreatedAt = occurredAt\<rparr>)) (\<lambda>openingTx.
     bind_act (WagerRepository_Create E ctx openingTx) (\<lambda>_.
     bind_act (lift_sum (Zero (E_decimal E) (money_currency initialBalance))) (\<lambda>zero.
     bind_act (uuid_New E) (\<lambda>entryID.
     bind_act (lift_sum (NewWalletLedgerEntry (E_decimal E) entryID (wallet_id wallet) (tx_id openingTx) CREDIT
                 initialBalance zero initialBalance occurredAt)) (\<lambda>entry.
     bind_act (WalletLedgerRepository_Create E ctx entry) (\<lambda>_.
     createOpeningEvents E ctx wallet openingTx entry metadata occurredAt)))))))"

text \<open>The function \<^verbatim>\<open>Create\<close> runs in its transaction.\<close>

definition create_wallet_body ::
  "'d Env \<Rightarrow> uuid \<Rightarrow> 'd Money \<Rightarrow> CommandMetadata \<Rightarrow> Context \<Rightarrow> 'd CreateWalletResult act" where
  "create_wallet_body E playerID initialBalance metadata txCtx =
     bind_act (Clock_Now E txCtx) (\<lambda>now.
     bind_act (uuid_New E) (\<lambda>walletID.
     bind_act (lift_sum (NewWallet (E_decimal E) walletID playerID initialBalance now)) (\<lambda>wallet.
     match_act (WalletRepository_Create E txCtx wallet)
       (\<lambda>e. if errors_Is e (AppErr ErrAlreadyExists) then throw (AppErr ErrWalletAlreadyExists) else throw e)
       (\<lambda>_.
          bind_act
            (if \<not> Money_IsZero (E_decimal E) initialBalance
             then createOpening E txCtx wallet initialBalance metadata now else ret ())
            (\<lambda>_. ret \<lparr>wallres_WalletID = wallet_id wallet, wallres_PlayerID = wallet_playerID wallet,
                      wallres_Balance = wallet_balance wallet, wallres_Version = wallet_version wallet\<rparr>)))))"

definition WalletService_Create ::
  "'d Env \<Rightarrow> Context \<Rightarrow> CreateWalletCommand \<Rightarrow> CommandMetadata \<Rightarrow> 'd CreateWalletResult act" where
  "WalletService_Create E ctx command metadata =
     (if TrimSpace (CorrelationID metadata) = [] then throw (AppErr ErrInvalidCorrelationID)
      else
     (case E_uuid_Parse E (cw_PlayerID command) of
        None \<Rightarrow> throw (DomainErr ErrInvalidPlayerID)
      | Some playerID \<Rightarrow>
          if playerID = uuid_Nil then throw (DomainErr ErrInvalidPlayerID)
          else
     (case NewCurrency (cw_Currency command) of
        Inl e \<Rightarrow> throw e
      | Inr currency \<Rightarrow>
     (case ParseMoney (E_decimal E) (cw_InitialBalance command) currency of
        Inl e \<Rightarrow> throw e
      | Inr initialBalance \<Rightarrow> in_transaction E ctx (create_wallet_body E playerID initialBalance metadata)))))"

text \<open>The identifier of a wallet in a query; a text that is none finds no wallet.\<close>

definition parse_wallet_id :: "'d Env \<Rightarrow> string \<Rightarrow> err + uuid" where
  "parse_wallet_id E walletID =
     (case E_uuid_Parse E walletID of
        None \<Rightarrow> Inl (AppErr ErrWalletNotFound)
      | Some uid \<Rightarrow> if uid = uuid_Nil then Inl (AppErr ErrWalletNotFound) else Inr uid)"

definition WalletService_Get :: "'d Env \<Rightarrow> Context \<Rightarrow> string \<Rightarrow> 'd WalletResult act" where
  "WalletService_Get E ctx walletID =
     bind_act (lift_sum (parse_wallet_id E walletID)) (\<lambda>uid.
     bind_act (WalletRepository_FindByID E ctx uid) (\<lambda>wallet.
     ret \<lparr>wallres_WalletID = wallet_id wallet, wallres_PlayerID = wallet_playerID wallet,
          wallres_Balance = wallet_balance wallet, wallres_Version = wallet_version wallet\<rparr>))"

definition WalletService_ListLedger ::
  "'d Env \<Rightarrow> Context \<Rightarrow> string \<Rightarrow> time option \<Rightarrow> uuid option \<Rightarrow> int \<Rightarrow> 'd WalletLedgerEntry list act" where
  "WalletService_ListLedger E ctx walletID beforeCreatedAt beforeID limit =
     bind_act (lift_sum (parse_wallet_id E walletID)) (\<lambda>uid.
     bind_act (WalletRepository_FindByID E ctx uid) (\<lambda>_.
     ListByWallet E ctx uid beforeCreatedAt beforeID limit))"

definition WalletService_Reconcile :: "'d Env \<Rightarrow> Context \<Rightarrow> string \<Rightarrow> 'd WalletReconciliationResult act" where
  "WalletService_Reconcile E ctx walletID =
     bind_act (lift_sum (parse_wallet_id E walletID)) (\<lambda>uid.
     match_act (ReconciliationSnapshot_of E ctx uid)
       (\<lambda>e. if errors_Is e (AppErr ErrNotFound) then throw (AppErr ErrWalletNotFound) else throw e)
       (\<lambda>snapshot.
          bind_act (lift_sum (Money_Sub (E_decimal E) (snap_StoredBalance snapshot) (snap_CalculatedBalance snapshot)))
            (\<lambda>difference.
          ret \<lparr>rec_WalletID = uid,
               rec_StoredBalance = snap_StoredBalance snapshot,
               rec_CalculatedBalance = snap_CalculatedBalance snapshot,
               rec_Difference = difference,
               rec_Consistent = Money_IsZero (E_decimal E) difference,
               rec_CheckedEntries = snap_CheckedEntries snapshot\<rparr>)))"

section \<open>Lemmas\<close>

lemma WalletRepository_Create_Inr:
  assumes "WalletRepository_Create E ctx wal w = (Inr u, w')"
  obtains r n where "wallet_row_of E wal = Inr r" "w_db w' = (w_db w)\<lparr>wallets := wallets (w_db w) @ [r]\<rparr>"
    "insert_wallet r (w_db w) = Inr (n, w_db w')"
proof -
  obtain n where "exec_stmt E ctx (\<lambda>db. case wallet_row_of E wal of Inl e \<Rightarrow> Inl e | Inr r \<Rightarrow> insert_wallet r db) w = (Inr n, w')"
    using assms by (auto simp: WalletRepository_Create_def match_act_Inr split: if_splits)
  from exec_stmt_Inr [OF this] obtain r where r: "wallet_row_of E wal = Inr r" "insert_wallet r (w_db w) = Inr (n, w_db w')"
    by (auto split: sum.splits)
  from that [OF r(1) insert_wallet_1 [OF r(2)] r(2)] show ?thesis .
qed

lemma distinct_snoc_key: "\<lbrakk>distinct (map f (xs @ [r])); x \<in> set xs\<rbrakk> \<Longrightarrow> f x \<noteq> f r"
proof
  assume "distinct (map f (xs @ [r]))" "x \<in> set xs" "f x = f r"
  then have "f r \<notin> f ` set xs" "f r \<in> f ` set xs" by (simp, metis imageI)
  then show False by simp
qed

text \<open>A new wallet has no ledger entry yet: entries refer to wallets by foreign key.\<close>

lemma new_wallet_entries:
  assumes i: "insert_wallet r db = Inr (n, db')" and sch: "schema_ok db"
  shows "wallet_entries (wr_id r) db = []" "x \<in> set (wagers db) \<Longrightarrow> wg_wallet_id x \<noteq> wr_id r"
proof -
  have "distinct (map wr_id (wallets db @ [r]))"
    using insert_wallet_schema [OF i sch] insert_wallet_1 [OF i]
    by (simp add: schema_ok_def table_ok_def wallet_indexes_def unique_index_def)
  note new = distinct_snoc_key [OF this]
  show "wallet_entries (wr_id r) db = []"
    using sch new by (auto simp: wallet_entries_def filter_empty_conv schema_ok_def list_all_iff list_ex_iff fk_ledger_wallet_def)
  show "x \<in> set (wagers db) \<Longrightarrow> wg_wallet_id x \<noteq> wr_id r"
    using sch new by (fastforce simp: schema_ok_def list_all_iff list_ex_iff fk_wager_wallet_def)
qed

context runtime
begin

lemma NewWallet_InrD:
  assumes "NewWallet (E_decimal E) uid pid m now = Inr wal"
  shows "wal = \<lparr>wallet_id = uid, wallet_playerID = pid, wallet_balance = m, wallet_version = 1,
      wallet_createdAt = now, wallet_updatedAt = now\<rparr>"
    "uid \<noteq> 0" "pid \<noteq> 0" "now \<noteq> 0"
  using assms by (auto simp: NewWallet_def initialWalletVersion_def split: if_splits)

lemma wallet_row_of_new:
  assumes "NewWallet (E_decimal E) uid pid m now = Inr wal" "money_ok (E_decimal E) val m" "0 \<le> cents val m"
    "wallet_row_of E wal = Inr r"
  shows "wr_id r = uid" "wr_balance r = cents val m" "\<exists>w. scanWallet E r = Inr w"
proof -
  note n = NewWallet_InrD [OF assms(1)]
  have r: "r = \<lparr>wr_id = uid, wr_player_id = pid, wr_currency = currency_code (money_currency m),
      wr_balance = cents val m, wr_version = 1, wr_created_at = now, wr_updated_at = now\<rparr>"
    using assms(4) numeric_arg_ok [of m] assms(2) n(1) by (auto simp: wallet_row_of_def money_ok_def Currency_Code_def)
  show "wr_id r = uid" "wr_balance r = cents val m" by (simp_all add: r)
  have "cents val m \<le> max_cents" "currencyCodePattern (currency_code (money_currency m))"
    using assms(2) by (auto simp: money_ok_iff Currency_IsValid_def)
  then show "\<exists>w. scanWallet E r = Inr w"
    using scanWallet_total [of r] n assms(3) r by (metis (no_types, lifting) one_le_numeral order_refl
      wallet_row.select_convs)
qed

lemma createOpeningEvents_inv:
  assumes "createOpeningEvents E ctx wal t e md now w = (Inr u, w')" "db_inv E (w_db w)"
  shows "db_inv E (w_db w')"
proof -
  obtain d ev v1 v2 ev' v3 where "NewWagerTransactionProcessedEvent E md now d w = (Inr ev, v1)"
    "OutboxRepository_Create E ctx (Envelope (marshal_processed E) ev) v1 = (Inr (), v2)"
    "NewWalletBalanceChangedEvent E md now (balanceChangedEventData wal e) v2 = (Inr ev', v3)"
    "OutboxRepository_Create E ctx (Envelope (marshal_balance_changed E) ev') v3 = (Inr u, w')"
    using assms(1) unfolding createOpeningEvents_def bind_act_Inr by auto
  then show ?thesis using assms(2) NewEvent_db db_inv_outbox_create unfolding new_event_defs by metis
qed

text \<open>The opening of a wallet: its row, the opening transaction and the ledger entry together.\<close>

lemma opening_keeps_inv:
  assumes inv: "db_inv E db" and iw: "insert_wallet r db = Inr (n, db1)" "\<exists>w. scanWallet E r = Inr w"
    and it: "insert_wager t db1 = Inr (1, db2)" "\<exists>x. scanWager E t = Inr x" "wg_status t = PROCESSED" "wg_type t = OPENING"
      "wg_wallet_id t = wr_id r"
    and il: "insert_ledger l db2 = Inr (k, db3)" "entry_of t l" "lr_direction l = CREDIT"
    and b: "wr_balance r = lr_amount l"
  shows "db_inv E db3"
proof -
  have sch: "schema_ok db" "schema_ok db1" "schema_ok db2" "schema_ok db3"
    using inv insert_wallet_schema [OF iw(1)] insert_wager_schema [OF it(1)] insert_ledger_schema [OF il(1)]
    by (simp_all add: db_inv_def)
  have d: "db1 = db\<lparr>wallets := wallets db @ [r]\<rparr>" "db2 = db1\<lparr>wagers := wagers db1 @ [t]\<rparr>"
    "db3 = db2\<lparr>ledger := ledger db2 @ [l]\<rparr>"
    using insert_wallet_1 [OF iw(1)] insert_wager_1 [OF it(1)] insert_ledger_1 [OF il(1)] by simp_all
  have d3: "wallets db3 = wallets db @ [r]" "wagers db3 = wagers db @ [t]" "ledger db3 = ledger db @ [l]"
    unfolding d by simp_all
  have lw: "lr_wallet_id l = wr_id r" "lr_transaction_id l = wg_id t" using il(2) it(5) by (simp_all add: entry_of_def)
  have dw: "distinct (map wr_id (wallets db @ [r]))" "distinct (map wg_id (wagers db @ [t]))"
    using sch(4) by (simp_all add: schema_ok_def table_ok_def wallet_indexes_def wager_indexes_def unique_index_def d3)
  note e0 = new_wallet_entries(1) [OF iw(1) sch(1)]
  have "ledger_inv db3"
    unfolding ledger_inv_def
  proof
    fix x assume "x \<in> set (wallets db3)"
    then consider "x \<in> set (wallets db)" | "x = r" unfolding d3 by auto
    then show "wr_balance x = entries_sum (wallet_entries (wr_id x) db3)"
    proof cases
      case 1
      then have "wr_id x \<noteq> wr_id r" using distinct_snoc_key [OF dw(1)] by blast
      then have "wallet_entries (wr_id x) db3 = wallet_entries (wr_id x) db" using lw(1) by (simp add: wallet_entries_def d3)
      then show ?thesis using 1 inv by (simp add: db_inv_def ledger_inv_def)
    next
      case 2
      then have "wallet_entries (wr_id x) db3 = [l]" using e0 lw(1) by (simp add: wallet_entries_def d3)
      then show ?thesis using 2 b il(3) by (simp add: entries_sum_def)
    qed
  qed
  moreover have "movement_inv db3"
    unfolding movement_inv_def
  proof
    fix x assume "x \<in> set (wagers db3)"
    then consider "x \<in> set (wagers db)" | "x = t" unfolding d3 by auto
    then show "if moved x then \<exists>l\<in>set (ledger db3). entry_of x l else \<forall>l\<in>set (ledger db3). lr_transaction_id l \<noteq> wg_id x"
    proof cases
      case 1
      then have "wg_id x \<noteq> wg_id t" using distinct_snoc_key [OF dw(2)] by blast
      then show ?thesis using 1 inv lw(2) by (auto simp: db_inv_def movement_inv_def d3)
    next
      case 2
      then show ?thesis using it(3,4) il(2) by (simp add: moved_def d3)
    qed
  qed
  moreover have "rows_ok E db3" using inv iw(2) it(2) by (auto simp: db_inv_def rows_ok_def d3)
  ultimately show ?thesis using sch(4) by (simp add: db_inv_def)
qed

lemma NewOpening_wf:
  assumes "NewOpeningWagerTransaction (E_decimal E) p = Inr t" "money_ok (E_decimal E) val (op_Amount p)"
  shows "tx_wf (E_decimal E) val t"
proof -
  note d = NewOpening_InrD [OF assms(1)]
  have m: "Currency_IsValid (money_currency (op_Amount p))" "0 < cents val (op_Amount p)"
    using assms(2) d(5) sign_cents [of "op_Amount p"] by (simp_all add: money_ok_iff)
  show ?thesis
    using NewOpening_tx_ok [OF assms(1)] assms(2) Money_Zero_ok(2) [OF m(1)] m(2)
    by (simp add: tx_wf_def d(7) balance_ok_def cents_zero)
qed

lemma createOpening_inv:
  assumes c: "createOpening E ctx wal m md now w = (Inr u, w')" and inv: "db_inv E db"
    and iw: "insert_wallet r db = Inr (n, w_db w)" "\<exists>x. scanWallet E r = Inr x" "wr_id r = wallet_id wal"
      "wr_balance r = cents val m" and m: "money_ok (E_decimal E) val m"
  shows "db_inv E (w_db w')"
proof -
  obtain i1 t v2 zero i2 e v4 where
    t: "NewOpeningWagerTransaction (E_decimal E) \<lparr>op_ID = i1, op_WalletID = wallet_id wal,
        op_PlayerID = wallet_playerID wal, op_Amount = m, op_CreatedAt = now\<rparr> = Inr t"
    and cr: "WagerRepository_Create E ctx t (w\<lparr>w_step := Suc (w_step w)\<rparr>) = (Inr (), v2)"
    and z: "Zero (E_decimal E) (money_currency m) = Inr zero"
    and e: "NewWalletLedgerEntry (E_decimal E) i2 (wallet_id wal) (tx_id t) CREDIT m zero m now = Inr e"
    and l: "WalletLedgerRepository_Create E ctx e (v2\<lparr>w_step := Suc (w_step v2)\<rparr>) = (Inr (), v4)"
    and ev: "createOpeningEvents E ctx wal t e md now v4 = (Inr u, w')"
    using c unfolding createOpening_def by (auto simp: bind_act_Inr uuid_New_Inr)
  note d = NewOpening_InrD [OF t]
  have wf: "tx_wf (E_decimal E) val t" using NewOpening_wf [OF t] m by simp
  obtain rt where rt: "wager_row_of E t = Inr rt"
    "insert_wager rt (w_db (w\<lparr>w_step := Suc (w_step w)\<rparr>)) = Inr (1, w_db v2)"
    using WagerRepository_Create_Inr [OF cr] .
  have rep: "represents val rt t" using wager_row_of_represents [OF wf] rt(1) by (metis sum.inject(2))
  have zz: "zero = \<lparr>money_amount = dZero (E_decimal E), money_currency = money_currency m\<rparr>"
    "money_ok (E_decimal E) val zero"
    using z Money_Zero_ok m by (auto simp: money_ok_iff)
  have eo: "entry_ok (E_decimal E) val e" "entry_walletID e = wallet_id wal" "entry_transactionID e = tx_id t"
    "entry_direction e = CREDIT" "entry_amount e = m" "entry_balanceBefore e = zero" "entry_balanceAfter e = m"
    using iffD1 [OF build_entry_iff [OF m zz(2) m] e [unfolded NewWalletLedgerEntry_def]] by auto
  obtain lr k where lr: "ledger_row_of E e = Inr lr"
    "insert_ledger lr (w_db (v2\<lparr>w_step := Suc (w_step v2)\<rparr>)) = Inr (k, w_db v4)"
    using WalletLedgerRepository_Create_Inr [OF l] .
  note lo = ledger_row_of_ok [OF lr(1) eo(1)]
  have bal: "wg_balance_before rt = Some 0" "wg_balance_after rt = Some (cents val m)"
    using rep [unfolded represents_def] by (simp_all add: d(7) cents_zero eq_commute [of _ "wg_balance_after rt"])
  have "db_inv E (w_db v4)"
  proof (rule opening_keeps_inv [OF inv iw(1,2) _ _ _ _ _ _])
    show "insert_wager rt (w_db w) = Inr (1, w_db v2)" "insert_ledger lr (w_db v2) = Inr (k, w_db v4)"
      using rt(2) lr(2) by simp_all
    show "\<exists>x. scanWager E rt = Inr x" using represents_scan [OF rep wf] by metis
    show "wg_status rt = PROCESSED" "wg_type rt = OPENING" "wg_wallet_id rt = wr_id r"
      using representsD [OF rep] iw(3) by (simp_all add: d(7))
    show "entry_of rt lr" "lr_direction lr = CREDIT" "wr_balance r = lr_amount lr"
      using lo eo bal representsD [OF rep] iw(4) by (simp_all add: entry_of_def d(7) zz(1) cents_zero)
  qed
  then show ?thesis using createOpeningEvents_inv [OF ev] by simp
qed

lemma empty_wallet_inv:
  assumes inv: "db_inv E db" and iw: "insert_wallet r db = Inr (n, db')" "\<exists>w. scanWallet E r = Inr w" "wr_balance r = 0"
  shows "db_inv E db'"
proof -
  have d: "db' = db\<lparr>wallets := wallets db @ [r]\<rparr>" using insert_wallet_1 [OF iw(1)] .
  have "ledger_inv db'"
    using inv new_wallet_entries(1) [OF iw(1)] iw(3)
    by (auto simp: d db_inv_def ledger_inv_def wallet_entries_def entries_sum_def)
  then show ?thesis
    using inv insert_wallet_schema [OF iw(1)] iw(2) d by (auto simp: db_inv_def rows_ok_def movement_inv_def)
qed

lemma create_wallet_body_inv:
  assumes b: "create_wallet_body E pid m md ctx w = (Inr res, w')" and inv: "db_inv E (w_db w)"
    and m: "money_ok (E_decimal E) val m" "0 \<le> cents val m"
  shows "db_inv E (w_db w')"
proof -
  obtain now v0 uid v1 wal v2 where c: "Clock_Now E ctx w = (Inr now, v0)" "uuid_New E v0 = (Inr uid, v1)"
    "NewWallet (E_decimal E) uid pid m now = Inr wal" "WalletRepository_Create E ctx wal v1 = (Inr (), v2)"
    "(if \<not> Money_IsZero (E_decimal E) m then createOpening E ctx wal m md now else ret ()) v2 = (Inr (), w')"
    using b unfolding create_wallet_body_def bind_act_Inr match_act_Inr by (auto split: if_splits)
  have db: "w_db v1 = w_db w" using Clock_Now_Inr [OF c(1)] c(2) by (simp add: uuid_New_Inr)
  obtain r n where r: "wallet_row_of E wal = Inr r" "insert_wallet r (w_db w) = Inr (n, w_db v2)"
    using WalletRepository_Create_Inr [OF c(4)] db by metis
  note s = wallet_row_of_new [OF c(3) m r(1)]
  have wid: "wr_id r = wallet_id wal" using s(1) NewWallet_InrD(1) [OF c(3)] by simp
  have z: "Money_IsZero (E_decimal E) m \<longleftrightarrow> cents val m = 0" using sign_cents(1) m(1) by (simp add: money_ok_def)
  show ?thesis
  proof (cases "Money_IsZero (E_decimal E) m")
    case True
    then show ?thesis using empty_wallet_inv [OF inv r(2) s(3)] s(2) z c(5) by simp
  next
    case False
    then show ?thesis using createOpening_inv [OF _ inv r(2) s(3) wid s(2) m(1)] c(5) by simp
  qed
qed

lemma create_unit_of_work:
  assumes "money_ok (E_decimal E) val m" "0 \<le> cents val m"
  shows "unit_of_work (db_inv E) (closure_of (create_wallet_body E pid m md))"
  by unfold_locales (use create_wallet_body_inv assms in \<open>auto simp: closure_of_eq\<close>)

lemma WalletService_Create_keeps:
  assumes "WalletService_Create E background command md w = (r, w')" "db_inv E (w_db w)"
  shows "db_inv E (w_db w')"
proof (cases "\<exists>pid m. WalletService_Create E background command md =
      in_transaction E background (create_wallet_body E pid m md) \<and> money_ok (E_decimal E) val m \<and> 0 \<le> cents val m")
  case True
  then obtain pid m where k: "WalletService_Create E background command md =
      in_transaction E background (create_wallet_body E pid m md)" "money_ok (E_decimal E) val m" "0 \<le> cents val m" by blast
  show ?thesis
    using assms unit_of_work.within_keeps [OF create_unit_of_work [OF k(2,3)]]
    by (auto simp: k(1) in_transaction_def split: prod.splits)
next
  case False
  then have "w' = w"
    using assms(1) ParseMoney_InrD
    by (fastforce simp: WalletService_Create_def throw_def split: if_splits option.splits sum.splits)
  then show ?thesis using assms(2) by simp
qed

end

end
