(* ===== verification/Storage_Correctness.thy ===== *)
theory Storage_Correctness
  imports Domain_Correctness Wallet_Service
begin

text \<open>
  The properties of the storage layer: the transaction manager, the schema, and the mapping between
  rows and domain values. A concrete environment, in which every request is answered, and a small
  consistent database serve the examples here and in the theories above.
\<close>

section \<open>A concrete environment\<close>

definition demo_env :: "fixed Env" where
  "demo_env =
     \<lparr>E_decimal = fixed_decimal,
      E_uuid_Parse = (\<lambda>s. if s = [] \<or> \<not> list_all is_digit s then None else Some (word_of_nat (digits_val 0 s))),
      E_uuid_String = (\<lambda>u. nat_str (unat u)),
      E_reply = (\<lambda>k. Reply),
      E_clock = (\<lambda>k. 5000 + int k),
      E_uuid = (\<lambda>k. word_of_nat (100 + k)),
      E_ctx_done = (\<lambda>k. False)\<rparr>"

lemma demo_env_simps [simp]:
  "E_decimal demo_env = fixed_decimal" "E_reply demo_env k = Reply" "E_ctx_done demo_env k = False"
  "E_clock demo_env k = 5000 + int k"
  by (simp_all add: demo_env_def)

interpretation demo: runtime demo_env fixed_val
  by (rule runtime.intro) (simp_all add: fixed.decimal_pkg_axioms)

text \<open>A wallet opened with 100.00 and a bet of 25.50 on it.\<close>

definition demo_wallet_row :: wallet_row where
  "demo_wallet_row =
     \<lparr>wr_id = 7, wr_player_id = 9, wr_currency = ''BRL'', wr_balance = 7450, wr_version = 2,
      wr_created_at = 1000, wr_updated_at = 2000\<rparr>"

definition demo_opening_row :: wager_row where
  "demo_opening_row =
     \<lparr>wg_id = 20, wg_provider_id = None, wg_external_transaction_id = None, wg_idempotency_key = None,
      wg_payload_hash = None, wg_wallet_id = 7, wg_player_id = 9, wg_round_id = None, wg_game_id = None,
      wg_type = OPENING, wg_amount = 10000, wg_currency = ''BRL'', wg_reference_external_transaction_id = None,
      wg_reference_transaction_id = None, wg_reference_transaction_type = None, wg_status = PROCESSED,
      wg_failure_code = None, wg_failure_message = None, wg_balance_before = Some 0, wg_balance_after = Some 10000,
      wg_next_reference_attempt_at = None, wg_reference_expires_at = None, wg_created_at = 1000,
      wg_updated_at = 1000, wg_completed_at = Some 1000, wg_reference_retry_count = 0,
      wg_reference_correlation_id = None, wg_reference_causation_id = None\<rparr>"

definition demo_bet_row :: wager_row where
  "demo_bet_row =
     demo_opening_row\<lparr>wg_id := 21, wg_provider_id := Some ''prov'', wg_external_transaction_id := Some ''e1'',
      wg_idempotency_key := Some ''k1'', wg_payload_hash := Some ''h'', wg_round_id := Some ''r1'',
      wg_game_id := Some ''g1'', wg_type := BET, wg_amount := 2550, wg_balance_before := Some 10000,
      wg_balance_after := Some 7450, wg_created_at := 2000, wg_updated_at := 2000, wg_completed_at := Some 2000\<rparr>"

definition demo_db :: DB where
  "demo_db =
     \<lparr>wallets = [demo_wallet_row], wagers = [demo_opening_row, demo_bet_row],
      ledger =
        [\<lparr>lr_id = 31, lr_wallet_id = 7, lr_transaction_id = 20, lr_direction = CREDIT, lr_amount = 10000,
          lr_currency = ''BRL'', lr_balance_before = 0, lr_balance_after = 10000, lr_created_at = 1000\<rparr>,
         \<lparr>lr_id = 32, lr_wallet_id = 7, lr_transaction_id = 21, lr_direction = DEBIT, lr_amount = 2550,
          lr_currency = ''BRL'', lr_balance_before = 10000, lr_balance_after = 7450, lr_created_at = 2000\<rparr>],
      inbox = [], outbox = []\<rparr>"

definition demo_world :: World where
  "demo_world = \<lparr>w_db = demo_db, w_calls = [], w_step = 0, w_aborted = False, w_tx_start = 0\<rparr>"

lemma demo_db_simps [simp]:
  "w_db demo_world = demo_db" "demo_bet_row \<in> set (wagers demo_db)" "demo_wallet_row \<in> set (wallets demo_db)"
  "wg_provider_id demo_bet_row = Some ''prov''" "wg_idempotency_key demo_bet_row = Some ''k1''"
  by (simp_all add: demo_world_def demo_db_def demo_bet_row_def)

lemma demo_db_schema: "schema_ok demo_db"
  by code_simp

lemma not_isl_Inr: "\<not> isl x \<Longrightarrow> \<exists>y. x = Inr y"
  by (cases x) auto

lemma demo_db_rows: "rows_ok demo_env demo_db"
proof -
  have "list_all (\<lambda>r. \<not> isl (scanWallet demo_env r)) (wallets demo_db)"
    "list_all (\<lambda>r. \<not> isl (scanWager demo_env r)) (wagers demo_db)"
    by code_simp+
  then show ?thesis by (auto simp: rows_ok_def list_all_iff dest!: not_isl_Inr)
qed

lemma demo_db_inv: "db_inv demo_env demo_db"
proof -
  have "ledger_inv demo_db" "movement_inv demo_db" by code_simp+
  with demo_db_schema demo_db_rows show ?thesis by (simp add: db_inv_def)
qed

text \<open>A bet of 25.50 on the wallet, as a provider sends it.\<close>

definition demo_command :: ProcessWagerCommand where
  "demo_command =
     \<lparr>cmd_ProviderID = ''prov'', cmd_ExternalTransactionID = ''e1'', cmd_IdempotencyKey = ''k1'', cmd_WalletID = ''7'',
      cmd_PlayerID = ''9'', cmd_RoundID = ''r1'', cmd_GameID = ''g1'', cmd_Type = ''BET'', cmd_Amount = ''25.50'',
      cmd_Currency = ''BRL'', cmd_ReferenceExternalTransactionID = []\<rparr>"

definition demo_metadata :: CommandMetadata where
  "demo_metadata = \<lparr>CorrelationID = ''corr'', CausationID = []\<rparr>"

section \<open>Transactions\<close>

text \<open>
  C26: a transaction is all or nothing. When \<^verbatim>\<open>WithinTransaction\<close> succeeds, the database is
  what one complete run of the function made of it, whatever attempts failed before. When it reports
  an error, the database is unchanged, except that a complete run of the function was committed when
  only the answer to the commit was lost.
\<close>

theorem in_transaction_atomic:
  "case in_transaction E background m w of
     (Inr a, w') \<Rightarrow> \<exists>v v'. w_db v = w_db w \<and> m tx_context v = (Inr a, v') \<and> w_db w' = w_db v'
   | (Inl e, w') \<Rightarrow> w_db w' = w_db w \<or>
       (\<exists>v v' a i. w_db v = w_db w \<and> m tx_context v = (Inr a, v') \<and> w_db w' = w_db v' \<and>
          E_reply E (w_step v') = LostReply i)"
proof (cases "in_transaction E background m w")
  case (Pair r w')
  show ?thesis
  proof (cases r)
    case (Inl e)
    then show ?thesis using Pair within_InlD [of E m w e w'] by (simp, blast)
  next
    case (Inr a)
    obtain v v' where "w_db v = w_db w" "m tx_context v = (Inr a, v')" "w_db w' = w_db v'"
      using within_InrD [OF Pair [unfolded Inr]] .
    then show ?thesis using Pair Inr by auto
  qed
qed

text \<open>A closure that also counts how often it is called.\<close>

definition counting :: "('a, 'c) closure \<Rightarrow> ('a, 'c \<times> nat) closure" where
  "counting fn ctx cn w = (case fn ctx (fst cn) w of ((r, c'), w') \<Rightarrow> ((r, (c', Suc (snd cn))), w'))"

lemma run_tx_counting:
  "run_tx E (counting fn) (c, n) w = ((r, (c', k)), w') \<Longrightarrow> k \<le> Suc n"
  by (auto simp: run_tx_def counting_def split: prod.splits sum.splits option.splits)

lemma tx_attempts_counting:
  "tx_attempts left E (counting fn) (c, n) w = ((r, (c', k)), w') \<Longrightarrow> k \<le> n + max 1 left"
proof (induction left arbitrary: c n w)
  case 0
  then show ?case
    using run_tx_counting [of E fn c n w]
    by (fastforce simp: tx_attempts.simps [of 0] split: prod.splits sum.splits if_splits bool.splits)
next
  case (Suc left)
  obtain s c1 k1 v1 where run: "run_tx E (counting fn) (c, n) w = ((s, (c1, k1)), v1)" by (metis surj_pair)
  have k1: "k1 \<le> Suc n" using run_tx_counting [OF run] .
  show ?case
  proof (cases "\<exists>e v2. s = Inl e \<and> isRetryableConflict e \<and> \<not> Suc left \<le> 1 \<and> waitRetry E v1 = (True, v2)")
    case True
    then obtain e v2 where e: "s = Inl e" "isRetryableConflict e" "\<not> Suc left \<le> 1" "waitRetry E v1 = (True, v2)" by blast
    have "tx_attempts left E (counting fn) (c1, k1) v2 = ((r, (c', k)), w')"
      using Suc.prems run e by (simp add: tx_attempts.simps [of "Suc left"])
    from Suc.IH [OF this] k1 e(3) show ?thesis by simp
  next
    case False
    then have "k = k1"
      using Suc.prems run
      by (cases s) (auto simp: tx_attempts.simps [of "Suc left"] split: if_splits prod.splits bool.splits)
    then show ?thesis using k1 by simp
  qed
qed

text \<open>
  C39: \<^verbatim>\<open>WithinTransaction\<close> always ends, after calling the function at most three times.
\<close>

theorem WithinTransaction_attempts:
  "snd (snd (fst (WithinTransaction E background (counting fn) (c, 0) w))) \<le> 3"
proof -
  obtain r c' k w' where a: "tx_attempts maxTransactionAttempts E (counting fn) (c, 0) w = ((r, (c', k)), w')"
    by (metis surj_pair)
  have "k \<le> 3" using tx_attempts_counting [OF a] by (simp add: maxTransactionAttempts_def)
  then show ?thesis using a by (cases r) (simp_all add: WithinTransaction_def)
qed
section \<open>Schema\<close>



section \<open>Rows and domain values\<close>

context runtime
begin

lemma represents_same_fields:
  assumes "represents val r w" "represents val r w'"
  shows "w' = w\<lparr>tx_amount := tx_amount w', tx_balanceBefore := tx_balanceBefore w', tx_balanceAfter := tx_balanceAfter w'\<rparr>"
proof -
  have p: "params_of w = row_params r (tx_amount w) (tx_balanceBefore w) (tx_balanceAfter w)"
    "params_of w' = row_params r (tx_amount w') (tx_balanceBefore w') (tx_balanceAfter w')"
    using assms by (simp_all add: represents_def)
  show ?thesis
    by (rule WagerTransaction.equality) (use p in \<open>simp_all add: params_of_def row_params_def\<close>)
qed

lemma wager_row_roundtrip:
  assumes "tx_wf (E_decimal E) val w"
  shows "\<exists>r w'. wager_row_of E w = Inr r \<and> scanWager E r = Inr w' \<and>
    w' = w\<lparr>tx_amount := tx_amount w', tx_balanceBefore := tx_balanceBefore w', tx_balanceAfter := tx_balanceAfter w'\<rparr> \<and>
    money_eq val (tx_amount w) (tx_amount w') \<and>
    rel_option (money_eq val) (tx_balanceBefore w) (tx_balanceBefore w') \<and>
    rel_option (money_eq val) (tx_balanceAfter w) (tx_balanceAfter w')"
proof -
  obtain r where r: "wager_row_of E w = Inr r" "represents val r w" using wager_row_of_represents [OF assms] .
  obtain w' where w': "scanWager E r = Inr w'" "represents val r w'" "money_eq val (tx_amount w) (tx_amount w')"
    "rel_option (money_eq val) (tx_balanceBefore w) (tx_balanceBefore w')"
    "rel_option (money_eq val) (tx_balanceAfter w) (tx_balanceAfter w')"
    using represents_scan [OF r(2) assms] .
  from represents_same_fields [OF r(2) w'(2)] r(1) w' show ?thesis by blast
qed

lemma wallet_row_roundtrip:
  assumes "wallet_ok (E_decimal E) val w"
  shows "\<exists>r w'. wallet_row_of E w = Inr r \<and> scanWallet E r = Inr w' \<and>
    w' = w\<lparr>wallet_balance := wallet_balance w'\<rparr> \<and> money_eq val (wallet_balance w) (wallet_balance w')"
proof -
  note o = wallet_okD [OF assms]
  let ?r = "\<lparr>wr_id = wallet_id w, wr_player_id = wallet_playerID w,
        wr_currency = Currency_Code (money_currency (wallet_balance w)), wr_balance = cents val (wallet_balance w),
        wr_version = wallet_version w, wr_created_at = wallet_createdAt w, wr_updated_at = wallet_updatedAt w\<rparr>"
  have r: "wallet_row_of E w = Inr ?r" by (simp add: wallet_row_of_def numeric_arg_ok [OF o(2)])
  have "currencyCodePattern (Currency_Code (money_currency (wallet_balance w)))"
    using o(1) by (simp add: money_ok_iff Currency_IsValid_def Currency_Code_def)
  then obtain w' where w': "scanWallet E ?r = Inr w'"
    using scanWallet_total [of ?r] o assms by (auto simp: wallet_ok_def)
  note s = scanWallet_InrD [OF w']
  have wc: "whole_cents val (wallet_balance w')" using s(9) by (simp add: money_ok_def)
  have "val (money_amount (wallet_balance w)) = val (money_amount (wallet_balance w'))"
    unfolding whole_centsD [OF o(2)] whole_centsD [OF wc] using s(7) by simp
  then have "money_eq val (wallet_balance w) (wallet_balance w')"
    using s(6) by (simp add: money_eq_def Currency_Code_def)
  moreover have "w' = w\<lparr>wallet_balance := wallet_balance w'\<rparr>"
    using s(1-5) by (cases w, cases w') simp
  ultimately show ?thesis using r w' by blast
qed

end

text \<open>
  C36: a well-formed transaction survives storage. The row \<^verbatim>\<open>Create\<close> writes is read back
  by \<^verbatim>\<open>scanWager\<close> as the same transaction, every field as it was, with amounts of the same value and
  currency.
\<close>

theorem wager_store_roundtrip:
  assumes "runtime E val" "tx_wf (E_decimal E) val w"
  shows "\<exists>r w'. wager_row_of E w = Inr r \<and> scanWager E r = Inr w' \<and>
    w' = w\<lparr>tx_amount := tx_amount w', tx_balanceBefore := tx_balanceBefore w', tx_balanceAfter := tx_balanceAfter w'\<rparr> \<and>
    money_eq val (tx_amount w) (tx_amount w') \<and>
    rel_option (money_eq val) (tx_balanceBefore w) (tx_balanceBefore w') \<and>
    rel_option (money_eq val) (tx_balanceAfter w) (tx_balanceAfter w')"
  by (rule runtime.wager_row_roundtrip [OF assms])

theorem wager_store_roundtrip_witness:
  "\<exists>r w'. wager_row_of demo_env (example_tx BET []) = Inr r \<and> scanWager demo_env r = Inr w' \<and> tx_status w' = PENDING"
proof -
  have "tx_amount (example_tx BET []) = brl_cents 2550" "tx_balanceBefore (example_tx BET []) = None"
    "tx_balanceAfter (example_tx BET []) = None"
    by code_simp+
  then have "tx_wf (E_decimal demo_env) fixed_val (example_tx BET [])"
    using NewExternal_tx_ok [OF example_tx_new(1)] by (simp add: tx_wf_def balance_ok_def)
  from wager_store_roundtrip [OF demo.runtime_axioms this] obtain r w' where
    w: "wager_row_of demo_env (example_tx BET []) = Inr r" "scanWager demo_env r = Inr w'"
    and e: "w' = (example_tx BET [])\<lparr>tx_amount := tx_amount w', tx_balanceBefore := tx_balanceBefore w',
        tx_balanceAfter := tx_balanceAfter w'\<rparr>"
    by blast
  have "tx_status w' = PENDING" by (subst e) (simp add: example_tx_new(3))
  with w show ?thesis by blast
qed

text \<open>
  A well-formed wallet survives storage: its row is read back by \<^verbatim>\<open>scanWallet\<close> as the
  same wallet, with a balance of the same value and currency.
\<close>

lemma wallet_store_roundtrip:
  assumes "runtime E val" "wallet_ok (E_decimal E) val w"
  shows "\<exists>r w'. wallet_row_of E w = Inr r \<and> scanWallet E r = Inr w' \<and>
    w' = w\<lparr>wallet_balance := wallet_balance w'\<rparr> \<and> money_eq val (wallet_balance w) (wallet_balance w')"
  by (rule runtime.wallet_row_roundtrip [OF assms])

text \<open>
  C37: no update of a wallet is lost. \<^verbatim>\<open>Update\<close> succeeds only when the stored version is the one the
  wallet was read with, just before the version it writes; otherwise it reports an error and the
  wallets stay as they were, unless only the answer to the statement was lost.
\<close>

theorem wallet_update_not_lost:
  "case WalletRepository_Update E ctx wal w of
     (Inr u, w') \<Rightarrow> in_tx ctx \<and> (\<exists>r \<in> set (wallets (w_db w)). wr_id r = wallet_id wal \<and> wr_version r = wallet_version wal - 1)
   | (Inl e, w') \<Rightarrow> wallets (w_db w') = wallets (w_db w) \<or> (\<exists>i. E_reply E (w_step w) = LostReply i)"
proof (cases "WalletRepository_Update E ctx wal w")
  case (Pair r w')
  show ?thesis
  proof (cases r)
    case (Inr u)
    have "in_tx ctx" using Pair Inr by (auto simp: WalletRepository_Update_def split: if_splits)
    then show ?thesis using WalletRepository_Update_Inr [OF Pair [unfolded Inr]] Pair Inr by simp
  next
    case (Inl e)
    show ?thesis
    proof (cases "\<exists>i. E_reply E (w_step w) = LostReply i")
      case False
      have "update_wallets m f (w_db w) = Inr (0, db) \<Longrightarrow> wallets db = wallets (w_db w)" for m f db
        using update_wallets_1(1,2) [of m f "w_db w" 0 db] by (auto simp: filter_empty_conv intro!: map_idI)
      then have "wallets (w_db w') = wallets (w_db w)"
        using Pair Inl False
        by (auto simp: WalletRepository_Update_def bind_act_def exec_stmt_def request_def Let_def throw_def ret_def
            split: if_splits sum.splits reply.splits prod.splits)
      then show ?thesis using Pair Inl by simp
    qed (use Pair Inl in simp)
  qed
qed

end
