(* ===== verification/Event_Correctness.thy ===== *)
theory Event_Correctness
  imports Storage_Correctness
begin

text \<open>
  The transactional outbox: the events a command writes in the transaction that carries out its
  changes, and nothing but these.
\<close>

definition event_keys :: "outbox_row list \<Rightarrow> (string \<times> uuid) list" where
  "event_keys evs = map (\<lambda>e. (ob_event_type e, ob_aggregate_id e)) evs"

text \<open>The outbox grew by unpublished events of the given types and aggregates.\<close>

definition appended :: "(string \<times> uuid) list \<Rightarrow> DB \<Rightarrow> DB \<Rightarrow> bool" where
  "appended keys db db' \<longleftrightarrow>
     (\<exists>evs. outbox db' = outbox db @ evs \<and> event_keys evs = keys \<and> list_all (\<lambda>e. ob_published_at e = None) evs)"

text \<open>The events a transaction owes to the outside world in its state.\<close>

definition events_of :: "'d WagerTransaction \<Rightarrow> (string \<times> uuid) list" where
  "events_of t =
     (case tx_status t of
        PROCESSED \<Rightarrow>
          (EventTypeWagerTransactionProcessed, tx_id t) #
          (if tx_type t = LOSS then [] else [(EventTypeWalletBalanceChanged, tx_walletID t)])
      | REJECTED \<Rightarrow> [(EventTypeWagerTransactionRejected, tx_id t)]
      | PENDING_REFERENCE \<Rightarrow> [(EventTypeWagerTransactionPendingReference, tx_id t)]
      | _ \<Rightarrow> [])"

lemma appended_same: "outbox db' = outbox db \<Longrightarrow> appended [] db db'"
  by (simp add: appended_def event_keys_def)

lemma appended_trans: "\<lbrakk>appended ks db db'; appended ks' db' db''\<rbrakk> \<Longrightarrow> appended (ks @ ks') db db''"
  unfolding appended_def event_keys_def
  by (elim exE conjE, rule_tac x = "evs @ evsa" in exI) simp

lemma appended_after: "\<lbrakk>outbox db' = outbox db; appended ks db' db''\<rbrakk> \<Longrightarrow> appended ks db db''"
  by (simp add: appended_def)

lemma OutboxRepository_Create_appends:
  assumes "OutboxRepository_Create E ctx (Envelope f ev) w = (Inr u, w')"
  shows "appended [(ev_EventType ev, ev_AggregateID ev)] (w_db w) (w_db w')"
proof -
  obtain env r where e: "Envelope f ev = Inr env" "ob_event_type r = ev_EventType env"
    "ob_aggregate_id r = ev_AggregateID env" "ob_published_at r = None" "w_db w' = (w_db w)\<lparr>outbox := outbox (w_db w) @ [r]\<rparr>"
    using OutboxRepository_Create_Inr [OF assms] .
  then have "ev_EventType env = ev_EventType ev" "ev_AggregateID env = ev_AggregateID ev"
    by (auto simp: Envelope_def split: sum.splits)
  with e show ?thesis by (simp add: appended_def event_keys_def)
qed

lemma created_event_appends:
  assumes "newEvent E ty agg md t d w = (Inr ev, v)" "OutboxRepository_Create E ctx (Envelope f ev) v = (Inr u, w')"
  shows "appended [(ty, agg)] (w_db w) (w_db w')"
  using OutboxRepository_Create_appends [OF assms(2)] newEvent_Inr [OF assms(1)] by simp

lemma createProcessedEvent_appends:
  "createProcessedEvent E ctx t md now w = (Inr u, w') \<Longrightarrow>
     appended [(EventTypeWagerTransactionProcessed, tx_id t)] (w_db w) (w_db w')"
  unfolding createProcessedEvent_def bind_act_Inr NewWagerTransactionProcessedEvent_def
  by (elim exE conjE) (auto dest: created_event_appends simp: processedEventData_def split: option.splits)

lemma createBalanceChangedEvent_appends:
  "createBalanceChangedEvent E ctx wal e md now w = (Inr u, w') \<Longrightarrow>
     appended [(EventTypeWalletBalanceChanged, wallet_id wal)] (w_db w) (w_db w')"
  unfolding createBalanceChangedEvent_def bind_act_Inr NewWalletBalanceChangedEvent_def
  by (elim exE conjE) (auto dest: created_event_appends simp: balanceChangedEventData_def)

lemma createRejectedEvent_appends:
  "createRejectedEvent E ctx t md now w = (Inr u, w') \<Longrightarrow>
     appended [(EventTypeWagerTransactionRejected, tx_id t)] (w_db w) (w_db w')"
  unfolding createRejectedEvent_def bind_act_Inr NewWagerTransactionRejectedEvent_def
  by (elim exE conjE) (auto dest: created_event_appends)

lemma createPendingReferenceEvent_appends:
  "createPendingReferenceEvent E ctx t md now w = (Inr u, w') \<Longrightarrow>
     appended [(EventTypeWagerTransactionPendingReference, tx_id t)] (w_db w) (w_db w')"
  unfolding createPendingReferenceEvent_def bind_act_Inr NewWagerTransactionPendingReferenceEvent_def
  by (elim exE conjE) (auto dest: created_event_appends)

text \<open>The other statements leave the outbox alone.\<close>

lemma repository_outbox:
  "WagerRepository_Update E ctx t w = (Inr u, w') \<Longrightarrow> outbox (w_db w') = outbox (w_db w)"
  "WalletRepository_Update E ctx wal w = (Inr u, w') \<Longrightarrow> outbox (w_db w') = outbox (w_db w)"
  "WagerRepository_Create E ctx t w = (Inr u, w') \<Longrightarrow> outbox (w_db w') = outbox (w_db w)"
  "WalletLedgerRepository_Create E ctx e w = (Inr u, w') \<Longrightarrow> outbox (w_db w') = outbox (w_db w)"
  by (erule WagerRepository_Update_Inr WalletRepository_Update_Inr WagerRepository_Create_Inr
      WalletLedgerRepository_Create_Inr, simp)+

lemma UpdatePendingReference_outbox:
  assumes "WagerRepository_UpdatePendingReference E ctx t n x md w = (Inr u, w')"
  shows "outbox (w_db w') = outbox (w_db w)"
proof -
  obtain f k where "exec_stmt E ctx (update_wagers (\<lambda>r. wg_id r = tx_id t) f) w = (Inr k, w')"
    using assms by (auto simp: WagerRepository_UpdatePendingReference_def bind_act_Inr split: if_splits)
  from exec_stmt_Inr [OF this] show ?thesis using update_wagers_1(1) by fastforce
qed

lemma reject_appends:
  assumes "reject E ctx t rej md now w = (Inr t', w')"
  shows "appended (events_of t') (w_db w) (w_db w')" "tx_id t' = tx_id t" "tx_type t' = tx_type t"
proof -
  obtain v where m: "MarkRejected t (rejection_code rej) (rejection_message rej) now = Inr t'"
    and u: "WagerRepository_Update E ctx t' w = (Inr (), v)" "createRejectedEvent E ctx t' md now v = (Inr (), w')"
    using assms by (auto simp: reject_def bind_act_Inr)
  note d = completeWithFailure_InrD(1) [OF m [unfolded MarkRejected_def]]
  then show "tx_id t' = tx_id t" "tx_type t' = tx_type t" by simp_all
  have "events_of t' = [(EventTypeWagerTransactionRejected, tx_id t')]" using d by (simp add: events_of_def)
  then show "appended (events_of t') (w_db w) (w_db w')"
    using appended_after [OF repository_outbox(1) [OF u(1)] createRejectedEvent_appends [OF u(2)]] by simp
qed

context runtime
begin

lemma applyMovement_appends:
  assumes "applyMovement E ctx wal t md now w = (Inr t', w')" "wallet_id wal = tx_walletID t"
  shows "appended (events_of t') (w_db w) (w_db w')" "tx_type t' = tx_type t"
proof -
  have "appended (events_of t') (w_db w) (w_db w') \<and> tx_type t' = tx_type t"
    using assms(1)
  proof (cases rule: applyMovement_Inr)
    case (none v)
    note d = MarkProcessed_InrD(1) [OF none(2)]
    have "events_of t' = [(EventTypeWagerTransactionProcessed, tx_id t')]" using d none(1) by (simp add: events_of_def)
    then show ?thesis
      using appended_after [OF repository_outbox(1) [OF none(3)] createProcessedEvent_appends [OF none(4)]] d by simp
  next
    case (rejected rej)
    from reject_appends [OF rejected] show ?thesis by simp
  next
    case (moved dir wal' v1 v2 v3 v4 v5 i e)
    note d = MarkProcessed_InrD(1) [OF moved(3)]
    have "w_db v3 = w_db v2" using moved(6) by (simp add: uuid_New_Inr)
    then have "outbox (w_db v4) = outbox (w_db w)"
      using repository_outbox(1) [OF moved(5)] repository_outbox(2) [OF moved(4)] repository_outbox(4) [OF moved(8)] by simp
    then have "appended [(EventTypeWagerTransactionProcessed, tx_id t')] (w_db w) (w_db v5)"
      using appended_after createProcessedEvent_appends [OF moved(9)] by metis
    from appended_trans [OF this createBalanceChangedEvent_appends [OF moved(10)]]
    have "appended ([(EventTypeWagerTransactionProcessed, tx_id t')] @ [(EventTypeWalletBalanceChanged, wallet_id wal')])
      (w_db w) (w_db w')" .
    moreover have "events_of t' =
        [(EventTypeWagerTransactionProcessed, tx_id t')] @ [(EventTypeWalletBalanceChanged, wallet_id wal')]"
      using d MovementDirection_LOSS [OF moved(1)] Wallet_Move_id [OF moved(2)] assms(2) by (simp add: events_of_def)
    ultimately show ?thesis using d by simp
  qed
  then show "appended (events_of t') (w_db w) (w_db w')" "tx_type t' = tx_type t" by simp_all
qed

lemma settle_appends:
  assumes "settle E ctx wal t md now w = (Inr t', w')" "wallet_id wal = tx_walletID t"
  shows "appended (events_of t') (w_db w) (w_db w')" "tx_type t' = tx_type t"
proof -
  consider v where "applyMovement E ctx wal t md now v = (Inr t', w')" "w_db v = w_db w"
    | rej v where "reject E ctx t rej md now v = (Inr t', w')" "w_db v = w_db w"
    using assms(1)
    by (auto simp: settle_def bind_act_Inr split: if_splits dest!: HasProcessedDirectReversal_Inr)
  then have "appended (events_of t') (w_db w) (w_db w') \<and> tx_type t' = tx_type t"
  proof cases
    case 1
    then show ?thesis using applyMovement_appends [OF 1(1) assms(2)] by simp
  next
    case 2
    then show ?thesis using reject_appends [OF 2(1)] by simp
  qed
  then show "appended (events_of t') (w_db w) (w_db w')" "tx_type t' = tx_type t" by simp_all
qed

lemma markPendingReference_appends:
  assumes "markPendingReference E P ctx t md now w = (Inr t', w')"
  shows "appended (events_of t') (w_db w) (w_db w')" "tx_type t' = tx_type t"
proof -
  obtain v n x where m: "MarkPendingReference t now = Inr t'"
    and u: "WagerRepository_UpdatePendingReference E ctx t' n x md w = (Inr (), v)"
    and e: "createPendingReferenceEvent E ctx t' md now v = (Inr (), w')"
    using assms by (auto simp: markPendingReference_def bind_act_Inr Let_def)
  note d = MarkPendingReference_InrD(1) [OF m]
  then show "tx_type t' = tx_type t" by simp
  have "events_of t' = [(EventTypeWagerTransactionPendingReference, tx_id t')]" using d by (simp add: events_of_def)
  then show "appended (events_of t') (w_db w) (w_db w')"
    using appended_after [OF UpdatePendingReference_outbox [OF u] createPendingReferenceEvent_appends [OF e]] by simp
qed

lemma ResolveReference_same:
  assumes "ResolveReference D t (Some r) now = Inr t'"
  shows "tx_type t' = tx_type t" "tx_walletID t' = tx_walletID t"
  using ResolveReference_InrD(3) [OF assms] by auto

lemma processNew_appends:
  assumes p: "processNew E P ctx wal t md now w = (Inr t', w')" and wid: "wallet_id wal = tx_walletID t"
  shows "appended (events_of t') (w_db w) (w_db w')" "tx_type t' = tx_type t"
proof -
  have "appended (events_of t') (w_db w) (w_db w') \<and> tx_type t' = tx_type t"
  proof (cases "tx_referenceExternalTransactionID t = []")
    case True
    then have "settle E ctx wal t md now w = (Inr t', w')" using p by (simp add: processNew_def)
    from settle_appends [OF this wid] show ?thesis by blast
  next
    case False
    obtain out v where o: "resolveReference E ctx t now w = (Inr out, v)"
      and k: "(case out of Rejection r \<Rightarrow> reject E ctx t r md now | NotAvailable \<Rightarrow> markPendingReference E P ctx t md now
        | Available t \<Rightarrow> settle E ctx wal t md now) v = (Inr t', w')"
      using p False by (auto simp: processNew_def bind_act_Inr)
    have db: "w_db v = w_db w" using resolveReference_Inr(1) [OF o] .
    show ?thesis
    proof (cases out)
      case NotAvailable
      then have "markPendingReference E P ctx t md now v = (Inr t', w')" using k by simp
      from markPendingReference_appends [OF this] db show ?thesis by simp
    next
      case (Rejection r)
      then have "reject E ctx t r md now v = (Inr t', w')" using k by simp
      from reject_appends [OF this] db show ?thesis by simp
    next
      case (Available t1)
      obtain ref where "ResolveReference (E_decimal E) t (Some ref) now = Inr t1"
        using resolveReference_Inr(2) [OF o Available] by blast
      note t1 = ResolveReference_same [OF this]
      have "settle E ctx wal t1 md now v = (Inr t', w')" using k Available by simp
      from settle_appends [OF this] wid t1 db show ?thesis by simp
    qed
  qed
  then show "appended (events_of t') (w_db w) (w_db w')" "tx_type t' = tx_type t" by simp_all
qed

lemma locked_wallet_id: "locked E db t wal \<Longrightarrow> wallet_id wal = tx_walletID t"
  using scanWallet_InrD(1) by (auto simp: locked_def)

lemma process_body_events:
  assumes "process_body E P req md ctx w = (Inr res, w')"
  shows "(pr_IdempotentReplay res \<and> w_db w' = w_db w) \<or>
    (\<exists>t. res = resultFromWager t False \<and> tx_type t = req_transactionType req \<and> appended (events_of t) (w_db w) (w_db w'))"
  using assms
proof (cases rule: process_body_Inr)
  case (replay now i t v v' e)
  obtain t' where "res = resultFromWager t' True"
    using replay(7) by (auto simp: resolveExistingTransaction_def Let_def match_act_Inr split: if_splits)
  then show ?thesis using resolveExistingTransaction_db [OF replay(7)] replay(6) by (simp add: resultFromWager_def)
next
  case (new now i t v v1 wal v2 v3 now' t')
  note l = lockWallet_Inr [OF new(5)]
  note a = processNew_appends [OF new(7) locked_wallet_id [OF l(1)]]
  have "outbox (w_db v3) = outbox (w_db w)" using repository_outbox(3) [OF new(4)] l(2) new(3,6) by simp
  from appended_after [OF this a(1)] have "appended (events_of t') (w_db w) (w_db w')" .
  moreover have "tx_type t' = req_transactionType req" using a(2) NewExternal_fields [OF new(1)] new(2) by simp
  ultimately show ?thesis using new(8) by blast
qed

end



end
