(* ===== verification/Go_Text.thy ===== *)
theory Go_Text
  imports Go_JSON
begin

text \<open>
  What the code uses of Go's packages \<^verbatim>\<open>strconv\<close>, \<^verbatim>\<open>strings\<close> and \<^verbatim>\<open>encoding/base64\<close> beside the
  functions of \<open>Prelude\<close>, with the round trip of base64.
\<close>

section \<open>Numbers and strings\<close>

text \<open>\<^verbatim>\<open>strconv.Atoi\<close>: an optional sign and decimal digits, within 64 bits.\<close>

definition Atoi :: "string \<Rightarrow> int option" where
  "Atoi s =
     (let neg = (s \<noteq> [] \<and> hd s = CHR ''-'');
          ds = (if s \<noteq> [] \<and> (hd s = CHR ''-'' \<or> hd s = CHR ''+'') then tl s else s);
          v = (if neg then - int (digits_val 0 ds) else int (digits_val 0 ds))
      in if ds \<noteq> [] \<and> list_all is_digit ds \<and> in_int64 v then Some v else None)"

text \<open>\<^verbatim>\<open>strings.ToValidUTF8(s, "")\<close>.\<close>

function ToValidUTF8 :: "string \<Rightarrow> string" where
  "ToValidUTF8 s =
     (if s = [] then []
      else let n = rune_len (map of_char s)
           in if n = 0 then ToValidUTF8 (tl s) else take n s @ ToValidUTF8 (drop n s))"
  by pat_completeness auto
termination
  by (relation "measure length") auto

declare ToValidUTF8.simps [simp del]

text \<open>
  \<^verbatim>\<open>strings.Fields\<close>: the parts between white space. A white space rune never begins inside of
  another rune, so the text is scanned byte by byte; \<open>cur\<close> is the reversed part read so far.
\<close>

function fields_from :: "string \<Rightarrow> string \<Rightarrow> string list" where
  "fields_from cur s =
     (if s = [] then (if cur = [] then [] else [rev cur])
      else if space_prefix s = 0 then fields_from (hd s # cur) (tl s)
      else (if cur = [] then [] else [rev cur]) @ fields_from [] (drop (space_prefix s) s))"
  by pat_completeness auto
termination
  by (relation "measure (\<lambda>(cur, s). length s)") auto

declare fields_from.simps [simp del]

definition Fields :: "string \<Rightarrow> string list" where
  "Fields s = fields_from [] s"

text \<open>
  \<^verbatim>\<open>strings.EqualFold\<close> with a text of ASCII characters without the letters K and S, which alone
  have case variants outside of ASCII.
\<close>

definition lower :: "char \<Rightarrow> char" where
  "lower c = (if is_upper c then char_of (of_char c + 32 :: nat) else c)"

definition EqualFold :: "string \<Rightarrow> string \<Rightarrow> bool" where
  "EqualFold s t \<longleftrightarrow> map lower s = map lower t"

section \<open>Base64\<close>

text \<open>\<^verbatim>\<open>base64.RawURLEncoding\<close>: no padding. Decoding skips line breaks.\<close>

definition url_char :: "nat \<Rightarrow> char" where
  "url_char n =
     (if n < 26 then char_of (n + 65)
      else if n < 52 then char_of (n + 71)
      else if n < 62 then char_of (n - 4)
      else if n = 62 then CHR ''-''
      else CHR ''_'')"

definition url_val :: "char \<Rightarrow> nat option" where
  "url_val c =
     (let n = of_char c
      in if 65 \<le> n \<and> n \<le> 90 then Some (n - 65)
         else if 97 \<le> n \<and> n \<le> 122 then Some (n - 71)
         else if 48 \<le> n \<and> n \<le> 57 then Some (n + 4)
         else if c = CHR ''-'' then Some 62
         else if c = CHR ''_'' then Some 63
         else None)"

fun sextets :: "nat list \<Rightarrow> nat list" where
  "sextets [] = []"
| "sextets [a] = [a div 4, a mod 4 * 16]"
| "sextets [a, b] = [a div 4, a mod 4 * 16 + b div 16, b mod 16 * 4]"
| "sextets (a # b # c # s) = [a div 4, a mod 4 * 16 + b div 16, b mod 16 * 4 + c div 64, c mod 64] @ sextets s"

fun octets :: "nat list \<Rightarrow> nat list option" where
  "octets [] = Some []"
| "octets [x] = None"
| "octets [x, y] = Some [x * 4 + y div 16]"
| "octets [x, y, z] = Some [x * 4 + y div 16, y mod 16 * 16 + z div 4]"
| "octets (x # y # z # u # s) =
     map_option (\<lambda>r. [x * 4 + y div 16, y mod 16 * 16 + z div 4, z mod 4 * 64 + u] @ r) (octets s)"

definition base64_Encode :: "string \<Rightarrow> string" where
  "base64_Encode s = map url_char (sextets (map of_char s))"

definition base64_Decode :: "string \<Rightarrow> string option" where
  "base64_Decode s =
     (let vs = map url_val (filter (\<lambda>c. c \<noteq> CHR 0x0A \<and> c \<noteq> CHR 0x0D) s)
      in if None \<in> set vs then None else map_option (map char_of) (octets (map the vs)))"

section \<open>Lemmas\<close>

lemma sextets_less: "\<lbrakk>list_all (\<lambda>a. a < 256) s; x \<in> set (sextets s)\<rbrakk> \<Longrightarrow> x < 64"
  by (induction s rule: sextets.induct) (auto simp: less_mult_imp_div_less)

lemma octets_sextets: "list_all (\<lambda>a. a < 256) s \<Longrightarrow> octets (sextets s) = Some s"
proof (induction s rule: sextets.induct)
  case (4 a b c s)
  have "(b mod 16 * 4 + c div 64) div 4 = b mod 16" "(b mod 16 * 4 + c div 64) mod 4 = c div 64"
    "(a mod 4 * 16 + b div 16) div 16 = a mod 4" "(a mod 4 * 16 + b div 16) mod 16 = b div 16"
    using 4 by (simp_all add: less_mult_imp_div_less)
  then show ?case using 4 by simp
next
  case (3 a b)
  have "(a mod 4 * 16 + b div 16) div 16 = a mod 4" "(a mod 4 * 16 + b div 16) mod 16 = b div 16"
    using 3 by (simp_all add: less_mult_imp_div_less)
  then show ?case by simp
qed simp_all

lemma url_val_char: "n < 64 \<Longrightarrow> url_val (url_char n) = Some n \<and> url_char n \<noteq> CHR 0x0A \<and> url_char n \<noteq> CHR 0x0D"
proof -
  have "\<forall>n \<in> set [0..<64]. url_val (url_char n) = Some n \<and> url_char n \<noteq> CHR 0x0A \<and> url_char n \<noteq> CHR 0x0D" by code_simp
  then show "n < 64 \<Longrightarrow> ?thesis" by simp
qed

lemma base64_roundtrip: "base64_Decode (base64_Encode s) = Some s"
proof -
  let ?xs = "sextets (map of_char s) :: nat list"
  have b: "list_all (\<lambda>a. a < 256) (map of_char s :: nat list)" by (simp add: list_all_iff)
  have x: "x \<in> set ?xs \<Longrightarrow> url_val (url_char x) = Some x \<and> url_char x \<noteq> CHR 0x0A \<and> url_char x \<noteq> CHR 0x0D" for x
    using sextets_less [OF b] url_val_char by blast
  have f: "filter (\<lambda>c. c \<noteq> CHR 0x0A \<and> c \<noteq> CHR 0x0D) (map url_char ?xs) = map url_char ?xs"
    using x by (simp add: filter_id_conv)
  have v: "map url_val (map url_char ?xs) = map Some ?xs" using x by simp
  have "map char_of (map of_char s :: nat list) = s" by (simp add: map_idI)
  then show ?thesis
    unfolding base64_Decode_def base64_Encode_def f v Let_def
    by (simp add: octets_sextets [OF b] comp_def)
qed

end
