(* ===== verification/Sqs_Consumer.thy ===== *)
theory Sqs_Consumer
  imports Wager_Service Go_JSON Go_Text
begin

text \<open>
  The queue of wager messages: \<^verbatim>\<open>wager_message.go\<close>, \<^verbatim>\<open>wager_handler.go\<close>, \<^verbatim>\<open>consumer.go\<close> and
  \<^verbatim>\<open>publisher.go\<close> of \<^verbatim>\<open>internal/infrastructure/sqs\<close>. Logging is left out, metrics are in \<open>Observability\<close>. The queues,
  the allowed providers and the texts of errors are arguments.
\<close>

section \<open>Messages\<close>

record WagerMessageMoney =
  mm_Amount :: string
  mm_Currency :: string

record WagerMessageData =
  md_ProviderID :: string
  md_ExternalTransactionID :: string
  md_IdempotencyKey :: string
  md_PlayerID :: string
  md_WalletID :: string
  md_RoundID :: string
  md_GameID :: string
  md_Kind :: string
  md_Money :: WagerMessageMoney
  md_ReferenceExternalTransactionID :: "string option"

record WagerMessageEnvelope =
  me_MessageID :: string
  me_Type :: string
  me_OccurredAt :: time
  me_Data :: WagerMessageData

definition wagerRequestedMessageType :: string where
  "wagerRequestedMessageType = ''WagerTransactionRequested''"

definition zero_envelope :: WagerMessageEnvelope where
  "zero_envelope =
     \<lparr>me_MessageID = [], me_Type = [], me_OccurredAt = 0,
      me_Data =
        \<lparr>md_ProviderID = [], md_ExternalTransactionID = [], md_IdempotencyKey = [], md_PlayerID = [],
         md_WalletID = [], md_RoundID = [], md_GameID = [], md_Kind = [],
         md_Money = \<lparr>mm_Amount = [], mm_Currency = []\<rparr>, md_ReferenceExternalTransactionID = None\<rparr>\<rparr>"

text \<open>The fields of the structs, by their JSON names.\<close>

definition money_fields :: "(string \<times> (jvalue \<Rightarrow> WagerMessageMoney \<Rightarrow> WagerMessageMoney option)) list" where
  "money_fields =
     [(''amount'', decode_string (\<lambda>s r. r\<lparr>mm_Amount := s\<rparr>)),
      (''currency'', decode_string (\<lambda>s r. r\<lparr>mm_Currency := s\<rparr>))]"

definition data_fields :: "(string \<times> (jvalue \<Rightarrow> WagerMessageData \<Rightarrow> WagerMessageData option)) list" where
  "data_fields =
     [(''providerId'', decode_string (\<lambda>s r. r\<lparr>md_ProviderID := s\<rparr>)),
      (''externalTransactionId'', decode_string (\<lambda>s r. r\<lparr>md_ExternalTransactionID := s\<rparr>)),
      (''idempotencyKey'', decode_string (\<lambda>s r. r\<lparr>md_IdempotencyKey := s\<rparr>)),
      (''playerId'', decode_string (\<lambda>s r. r\<lparr>md_PlayerID := s\<rparr>)),
      (''walletId'', decode_string (\<lambda>s r. r\<lparr>md_WalletID := s\<rparr>)),
      (''roundId'', decode_string (\<lambda>s r. r\<lparr>md_RoundID := s\<rparr>)),
      (''gameId'', decode_string (\<lambda>s r. r\<lparr>md_GameID := s\<rparr>)),
      (''kind'', decode_string (\<lambda>s r. r\<lparr>md_Kind := s\<rparr>)),
      (''money'', \<lambda>v r. map_option (\<lambda>m. r\<lparr>md_Money := m\<rparr>) (decode_struct money_fields v (md_Money r))),
      (''referenceExternalTransactionId'', decode_string_ptr (\<lambda>s r. r\<lparr>md_ReferenceExternalTransactionID := s\<rparr>))]"

definition envelope_fields :: "(string \<times> (jvalue \<Rightarrow> WagerMessageEnvelope \<Rightarrow> WagerMessageEnvelope option)) list" where
  "envelope_fields =
     [(''messageId'', decode_string (\<lambda>s r. r\<lparr>me_MessageID := s\<rparr>)),
      (''type'', decode_string (\<lambda>s r. r\<lparr>me_Type := s\<rparr>)),
      (''occurredAt'', decode_time (\<lambda>t r. r\<lparr>me_OccurredAt := t\<rparr>)),
      (''data'', \<lambda>v r. map_option (\<lambda>d. r\<lparr>me_Data := d\<rparr>) (decode_struct data_fields v (me_Data r)))]"

text \<open>An error of \<^verbatim>\<open>json.Unmarshal\<close>, whose text is left open.\<close>

abbreviation (input) json_error :: err where
  "json_error \<equiv> OtherError ''json''"

definition parseWagerMessage :: "string \<Rightarrow> err + WagerMessageEnvelope" where
  "parseWagerMessage body =
     (if TrimSpace body = [] then Inl (SqsErr ErrInvalidMessageBody)
      else case Option.bind (parse_json body) (\<lambda>v. decode_struct envelope_fields v zero_envelope) of
             None \<Rightarrow> Inl json_error
           | Some message \<Rightarrow>
               if TrimSpace (me_MessageID message) = [] then Inl (SqsErr ErrInvalidWagerMessageID)
               else if me_Type message \<noteq> wagerRequestedMessageType then Inl (SqsErr ErrInvalidWagerMessageType)
               else if IsZeroTime (me_OccurredAt message) then Inl (SqsErr ErrInvalidWagerMessageOccurredAt)
               else Inr message)"

section \<open>The handler\<close>

definition wagerConsumerName :: string where
  "wagerConsumerName = ''wager-transactions''"

definition wagerMessageToCommand :: "WagerMessageData \<Rightarrow> ProcessWagerCommand" where
  "wagerMessageToCommand d =
     \<lparr>cmd_ProviderID = md_ProviderID d, cmd_ExternalTransactionID = md_ExternalTransactionID d,
      cmd_IdempotencyKey = md_IdempotencyKey d, cmd_WalletID = md_WalletID d, cmd_PlayerID = md_PlayerID d,
      cmd_RoundID = md_RoundID d, cmd_GameID = md_GameID d, cmd_Type = md_Kind d,
      cmd_Amount = mm_Amount (md_Money d), cmd_Currency = mm_Currency (md_Money d),
      cmd_ReferenceExternalTransactionID =
        (case md_ReferenceExternalTransactionID d of None \<Rightarrow> [] | Some s \<Rightarrow> s)\<rparr>"

definition hashMessage :: "string \<Rightarrow> string" where
  "hashMessage body = hex_EncodeToString (Sum256 (map of_char body))"

text \<open>
  The function \<^verbatim>\<open>Handle\<close> runs in a transaction; its result is \<^verbatim>\<open>result\<close>, or nothing for a
  \<^verbatim>\<open>duplicate\<close>. The handler only logs and counts it.
\<close>

definition handle_body ::
  "'d Env \<Rightarrow> ReferenceRetryPolicy \<Rightarrow> WagerMessageEnvelope \<Rightarrow> string \<Rightarrow> Context \<Rightarrow> 'd ProcessWagerResult option act" where
  "handle_body E P message messageHash txCtx =
     bind_act (InboxRepository_Register E txCtx wagerConsumerName (me_MessageID message) messageHash) (\<lambda>completed.
     if completed then ret None
     else
       bind_act (Process E P txCtx (wagerMessageToCommand (me_Data message))
                   \<lparr>CorrelationID = me_MessageID message, CausationID = me_MessageID message\<rparr>) (\<lambda>result.
       bind_act (Clock_Now E txCtx) (\<lambda>now.
       bind_act (InboxRepository_Complete E txCtx wagerConsumerName (me_MessageID message) now) (\<lambda>_.
       ret (Some result)))))"

definition Handle ::
  "'d Env \<Rightarrow> ReferenceRetryPolicy \<Rightarrow> string list \<Rightarrow> string \<Rightarrow> string \<Rightarrow> unit act" where
  "Handle E P allowedProviders transportMessageID body =
     (if TrimSpace transportMessageID = [] then throw (SqsErr ErrInvalidMessageID)
      else case parseWagerMessage body of
             Inl e \<Rightarrow> throw e
           | Inr message \<Rightarrow>
               if md_ProviderID (me_Data message) \<notin> set allowedProviders then throw (SqsErr ErrProviderNotAllowed)
               else bind_act (in_transaction E background (handle_body E P message (hashMessage body))) (\<lambda>_. ret ()))"

section \<open>The consumer\<close>

text \<open>
  A message as \<^verbatim>\<open>ReceiveMessage\<close> delivers it. The service always sets its identifier, its body and
  its receipt handle; an attribute that is missing reads as the empty text.
\<close>

record Message =
  sm_MessageId :: string
  sm_Body :: string
  sm_ReceiptHandle :: string
  sm_Attributes :: "(string \<times> string) list"

definition attribute :: "Message \<Rightarrow> string \<Rightarrow> string" where
  "attribute message name = (case map_of (sm_Attributes message) name of None \<Rightarrow> [] | Some v \<Rightarrow> v)"

record Consumer =
  cs_queueURL :: string
  cs_dlqURL :: string
  cs_allowedProviders :: "string list"
  cs_policy :: ReferenceRetryPolicy
  cs_errorText :: "err \<Rightarrow> string"

definition retryBaseDelay :: duration where
  "retryBaseDelay = 5 * Second"

definition retryMaxDelay :: duration where
  "retryMaxDelay = 5 * Minute"

definition maxFailureReasonLength :: nat where
  "maxFailureReasonLength = 256"

definition receiveCount :: "Message \<Rightarrow> int" where
  "receiveCount message =
     (case Atoi (attribute message ''ApproximateReceiveCount'') of
        None \<Rightarrow> 1
      | Some count \<Rightarrow> if count < 1 then 1 else count)"

function retry_delay_loop :: "int \<Rightarrow> int \<Rightarrow> duration \<Rightarrow> duration" where
  "retry_delay_loop i count delay =
     (if i < count \<and> delay < retryMaxDelay then retry_delay_loop (i + 1) count (wrap64 (delay * 2)) else delay)"
  by pat_completeness auto
termination
  by (relation "measure (\<lambda>(i, count, _). nat (count - i))") auto

declare retry_delay_loop.simps [simp del]

definition retryDelay :: "Message \<Rightarrow> duration" where
  "retryDelay message = min (retry_delay_loop 1 (receiveCount message) retryBaseDelay) retryMaxDelay"

definition isTransient :: "err \<Rightarrow> bool" where
  "isTransient e \<longleftrightarrow> IsTransient e \<or> errors_Is e (InfraErr ContextCanceled)"

definition truncate :: "string \<Rightarrow> nat \<Rightarrow> string" where
  "truncate s n = (if length s \<le> n then s else ToValidUTF8 (take n s))"

definition moveToDLQ :: "'d Env \<Rightarrow> Consumer \<Rightarrow> Message \<Rightarrow> err \<Rightarrow> unit act" where
  "moveToDLQ E c message cause =
     (let groupID = (if attribute message ''MessageGroupId'' = [] then sm_MessageId message
                     else attribute message ''MessageGroupId'')
      in bind_act
           (sqs_request E
              (SendMessage (cs_dlqURL c) (sm_Body message) groupID (sm_MessageId message)
                 [(''failureReason'', truncate (cs_errorText c cause) maxFailureReasonLength)]))
           (\<lambda>_. sqs_request E (DeleteMessage (cs_queueURL c) (sm_ReceiptHandle message))))"

text \<open>A delay in whole seconds. Failures are only logged.\<close>

fun release :: "'d Env \<Rightarrow> Consumer \<Rightarrow> (Message \<Rightarrow> duration) \<Rightarrow> Message list \<Rightarrow> World \<Rightarrow> World" where
  "release E c delay [] w = w"
| "release E c delay (message # messages) w =
     release E c delay messages
       (snd (sqs_request E
          (ChangeMessageVisibility (cs_queueURL c) (sm_ReceiptHandle message) (delay message div Second)) w))"

definition processMessage :: "'d Env \<Rightarrow> Consumer \<Rightarrow> Message \<Rightarrow> unit act" where
  "processMessage E c message w =
     (case Handle E (cs_policy c) (cs_allowedProviders c) (sm_MessageId message) (sm_Body message) w of
        (Inr _, w') \<Rightarrow> sqs_request E (DeleteMessage (cs_queueURL c) (sm_ReceiptHandle message)) w'
      | (Inl e, w') \<Rightarrow>
          if isTransient e then (Inl e, release E c (\<lambda>_. retryDelay message) [message] w')
          else moveToDLQ E c message e w')"

text \<open>
  \<^verbatim>\<open>PollOnce\<close> tells whether there was work, and an error. \<open>stop\<close> tells whether the stop context is
  done at a step, \<open>receive\<close> what the queue answers to a receive.
\<close>

fun poll_loop ::
  "'d Env \<Rightarrow> Consumer \<Rightarrow> (nat \<Rightarrow> bool) \<Rightarrow> bool \<Rightarrow> Message list \<Rightarrow> World \<Rightarrow> (bool \<times> err option) \<times> World" where
  "poll_loop E c stop received [] w = ((received, None), w)"
| "poll_loop E c stop received (message # messages) w =
     (if stop (w_step w) then ((True, None), release E c (\<lambda>_. 0) (message # messages) w)
      else case processMessage E c message w of
             (Inl e, w') \<Rightarrow> ((True, Some e), release E c retryDelay messages w')
           | (Inr _, w') \<Rightarrow> poll_loop E c stop received messages w')"

definition PollOnce ::
  "'d Env \<Rightarrow> Consumer \<Rightarrow> (nat \<Rightarrow> bool) \<Rightarrow> (nat \<Rightarrow> err + Message list) \<Rightarrow> World \<Rightarrow> (bool \<times> err option) \<times> World" where
  "PollOnce E c stop receive w =
     (let w1 = w\<lparr>w_step := Suc (w_step w)\<rparr>
      in case receive (w_step w) of
           Inl e \<Rightarrow> if stop (w_step w1) then ((False, None), w1) else ((False, Some e), w1)
         | Inr messages \<Rightarrow> poll_loop E c stop (messages \<noteq> []) messages w1)"

section \<open>The publisher\<close>

definition Publisher_Send :: "'d Env \<Rightarrow> string \<Rightarrow> string \<Rightarrow> string \<Rightarrow> string \<Rightarrow> unit act" where
  "Publisher_Send E queueURL body groupID deduplicationID =
     (if TrimSpace body = [] then throw (SqsErr ErrInvalidMessageBody)
      else if TrimSpace groupID = [] then throw (SqsErr ErrInvalidGroupID)
      else if TrimSpace deduplicationID = [] then throw (SqsErr ErrInvalidDedupID)
      else sqs_request E (SendMessage queueURL body groupID deduplicationID []))"

end
