(* ===== verification/Service_Correctness.thy ===== *)
theory Service_Correctness
  imports Storage_Correctness
begin

text \<open>
  The properties of the application services: what a command may change, the idempotency of
  commands, the events written with a change, the queries, the reconciliation and the retry policy.
\<close>

section \<open>Idempotency\<close>

lemma snoc_index_fresh:
  assumes "unique_index covered key (xs @ [r])" "covered r" "x \<in> set xs" "covered x"
  shows "key x \<noteq> key r"
  using assms distinct_snoc_key [of key "filter covered xs" r x] by (simp add: unique_index_def)

lemma insert_wager_indexes:
  "insert_wager r db = Inr (1, db') \<Longrightarrow> list_all (\<lambda>i. snd i (wagers db @ [r])) wager_indexes"
  using sql_insert_InrD by (fastforce simp: insert_wager_def apsnd_map_sum_Inr)

lemma schema_provider_not_opening:
  assumes "schema_ok db" "r \<in> set (wagers db)" "wg_provider_id r \<noteq> None"
  shows "wg_type r \<noteq> OPENING"
  using assms by (auto simp: schema_ok_def table_ok_def list_all_iff wager_checks_def chk_origin_def)

lemma schema_key_unique:
  assumes "schema_ok db" "x \<in> set (wagers db)" "y \<in> set (wagers db)" "wg_provider_id x = Some p" "wg_provider_id y = Some p"
    "wg_idempotency_key x = Some k" "wg_idempotency_key y = Some k"
  shows "x = y"
proof -
  have "wg_type x \<noteq> OPENING" "wg_type y \<noteq> OPENING" using schema_provider_not_opening [OF assms(1)] assms by auto
  then show ?thesis
    using assms unique_indexD
      [of "\<lambda>r. wg_type r \<noteq> OPENING \<and> wg_provider_id r \<noteq> None \<and> wg_idempotency_key r \<noteq> None"
        "\<lambda>r. (wg_provider_id r, wg_idempotency_key r)" "wagers db" x y]
    by (simp add: schema_ok_def table_ok_def wager_indexes_def)
qed

lemma insert_key_fresh:
  assumes "schema_ok db" "insert_wager r db = Inr (1, db')" "wg_type r \<noteq> OPENING" "x \<in> set (wagers db)"
    "wg_provider_id x = Some p" "wg_provider_id r = Some p" "wg_idempotency_key x = Some k" "wg_idempotency_key r = Some k"
  shows False
proof -
  have "wg_type x \<noteq> OPENING" using schema_provider_not_opening [OF assms(1)] assms by auto
  then show False
    using insert_wager_indexes [OF assms(2)] assms snoc_index_fresh
      [of "\<lambda>r. wg_type r \<noteq> OPENING \<and> wg_provider_id r \<noteq> None \<and> wg_idempotency_key r \<noteq> None"
        "\<lambda>r. (wg_provider_id r, wg_idempotency_key r)" "wagers db" r x]
    by (simp add: wager_indexes_def)
qed

text \<open>A new external transaction is stored under the provider and the key of its command.\<close>

lemma NewExternal_identifiers:
  assumes "NewExternalWagerTransaction D i = Inr t"
  shows "tx_providerID t = np_ProviderID i" "tx_idempotencyKey t = np_IdempotencyKey i" "tx_type t \<noteq> OPENING"
    "np_ProviderID i \<noteq> []" "np_IdempotencyKey i \<noteq> []"
  using assms
  by (auto simp: NewExternalWagerTransaction_def validateExternalWager_def isValidIdentifier_def Type_IsExternal_def
      split: option.splits if_splits)

lemma wager_row_of_identifiers:
  assumes "wager_row_of E t = Inr r"
  shows "wg_provider_id r = nullableString (tx_providerID t)" "wg_idempotency_key r = nullableString (tx_idempotencyKey t)"
    "wg_type r = tx_type t"
  using assms by (auto simp: wager_row_of_def split: sum.splits)

lemma resolveExisting_Inr:
  assumes "resolveExistingTransaction E ctx req w = (Inr res, w')"
  obtains r t where "r \<in> set (wagers (w_db w))" "wg_provider_id r = Some (cmd_ProviderID (req_command req))"
    "wg_idempotency_key r = Some (cmd_IdempotencyKey (req_command req))" "scanWager E r = Inr t"
    "tx_payloadHash t = req_payloadHash req" "res = resultFromWager t True"
proof -
  obtain t v where f: "FindByProviderAndIdempotencyKey E ctx (cmd_ProviderID (req_command req))
      (cmd_IdempotencyKey (req_command req)) w = (Inr t, v)"
    and k: "tx_payloadHash t = req_payloadHash req" "res = resultFromWager t True"
    using assms by (auto simp: resolveExistingTransaction_def Let_def match_act_Inr split: if_splits)
  from FindByProviderAndIdempotencyKey_Inr [OF f] that k show thesis by metis
qed

lemma process_body_known_key:
  assumes b: "process_body E P req md ctx w = (Inr res, w')" and s: "schema_ok (w_db w)"
    and r: "r \<in> set (wagers (w_db w))" "wg_provider_id r = Some (cmd_ProviderID (req_command req))"
      "wg_idempotency_key r = Some (cmd_IdempotencyKey (req_command req))"
  shows "w_db w' = w_db w" "\<exists>t. scanWager E r = Inr t \<and> tx_payloadHash t = req_payloadHash req \<and> res = resultFromWager t True"
proof -
  have "w_db w' = w_db w \<and> (\<exists>t. scanWager E r = Inr t \<and> tx_payloadHash t = req_payloadHash req \<and> res = resultFromWager t True)"
    using b
  proof (cases rule: process_body_Inr)
    case (replay now i t v v' e)
    obtain r' t' where r': "r' \<in> set (wagers (w_db v'))" "wg_provider_id r' = Some (cmd_ProviderID (req_command req))"
      "wg_idempotency_key r' = Some (cmd_IdempotencyKey (req_command req))" "scanWager E r' = Inr t'"
      "tx_payloadHash t' = req_payloadHash req" "res = resultFromWager t' True"
      using resolveExisting_Inr [OF replay(7)] .
    have "r' = r" using schema_key_unique [OF s _ r(1)] r r'(1-3) replay(6) by metis
    then show ?thesis using r'(4-6) resolveExistingTransaction_db [OF replay(7)] replay(6) by simp
  next
    case (new now i t v v1 wal v2 v3 now' t')
    obtain x where x: "wager_row_of E t = Inr x" "insert_wager x (w_db v) = Inr (1, w_db v1)"
      using WagerRepository_Create_Inr [OF new(4)] .
    note n = NewExternal_identifiers [OF new(1)] and y = wager_row_of_identifiers [OF x(1)]
    have "wg_provider_id x = Some (cmd_ProviderID (req_command req))"
      "wg_idempotency_key x = Some (cmd_IdempotencyKey (req_command req))" "wg_type x \<noteq> OPENING"
      using n y new(2) by (simp_all add: nullableString_def)
    then have False using insert_key_fresh [OF _ x(2) _ _ r(2) _ r(3)] s r(1) new(3) by simp
    then show ?thesis ..
  qed
  then show "w_db w' = w_db w" "\<exists>t. scanWager E r = Inr t \<and> tx_payloadHash t = req_payloadHash req \<and> res = resultFromWager t True"
    by blast+
qed

lemma Process_known_key:
  assumes "schema_ok (w_db w)" "r \<in> set (wagers (w_db w))" "wg_provider_id r = Some (cmd_ProviderID command)"
    "wg_idempotency_key r = Some (cmd_IdempotencyKey command)"
    and "Process E P background command md w = (x, w')"
  shows "w_db w' = w_db w \<and>
    (\<forall>res. x = Inr res \<longrightarrow>
      (\<exists>req t. parseWagerRequest E command = Inr req \<and> scanWager E r = Inr t \<and>
         tx_payloadHash t = req_payloadHash req \<and> res = resultFromWager t True))"
proof (cases "parseWagerRequest E command")
  case (Inl e)
  then show ?thesis using assms(5) by (auto simp: Process_def throw_def split: if_splits)
next
  case (Inr req)
  have c: "req_command req = command" using parseWagerRequest_InrD(1) [OF Inr] .
  show ?thesis
  proof (cases "TrimSpace (CorrelationID md) = []")
    case True
    then show ?thesis using assms(5) by (auto simp: Process_def throw_def)
  next
    case False
    then have p: "in_transaction E background (process_body E P req md) w = (x, w')"
      using assms(5) Inr by (simp add: Process_def)
    note known = process_body_known_key [of E P req md tx_context, unfolded c, OF _ _ _ assms(3,4)]
    show ?thesis
    proof (cases x)
      case (Inl e)
      have "w_db w' = w_db w" using within_InlD [OF p [unfolded Inl]] known(1) assms(1,2) by metis
      then show ?thesis using Inl by simp
    next
      case (Inr res)
      obtain v v' where v: "w_db v = w_db w" "process_body E P req md tx_context v = (Inr res, v')" "w_db w' = w_db v'"
        using within_InrD [OF p [unfolded Inr]] .
      then show ?thesis
        using known [OF v(2)] assms(1,2) \<open>parseWagerRequest E command = Inr req\<close> Inr by auto
    qed
  qed
qed

text \<open>
  C4: an idempotency key is processed at most once. Once a transaction of a provider is
  stored under a key, no later command with that key changes the database, whatever it asks and
  whatever the database answers; and when such a command succeeds, its payload hash is the stored one
  and the answer is the stored result, marked as a replay.
\<close>

theorem key_processed_once:
  assumes "schema_ok (w_db w)" "r \<in> set (wagers (w_db w))" "wg_provider_id r = Some (cmd_ProviderID command)"
    "wg_idempotency_key r = Some (cmd_IdempotencyKey command)"
    and "Process E P background command md w = (x, w')"
  shows "w_db w' = w_db w \<and>
    (\<forall>res. x = Inr res \<longrightarrow>
      (\<exists>req t. parseWagerRequest E command = Inr req \<and> scanWager E r = Inr t \<and>
         tx_payloadHash t = req_payloadHash req \<and> res = resultFromWager t True))"
  by (rule Process_known_key [OF assms])

theorem key_processed_once_witness:
  "w_db (snd (Process demo_env DefaultReferenceRetryPolicy background demo_command demo_metadata demo_world)) = demo_db"
proof -
  obtain x w' where p: "Process demo_env DefaultReferenceRetryPolicy background demo_command demo_metadata demo_world = (x, w')"
    by (metis surj_pair)
  have "w_db w' = w_db demo_world"
    by (rule conjunct1 [OF key_processed_once [OF _ _ _ _ p, of demo_bet_row]])
      (simp_all add: demo_db_schema demo_command_def)
  with p show ?thesis by simp
qed
section \<open>Reconciliation\<close>

lemma fixed2_not_negative: "0 \<le> n \<Longrightarrow> \<not> HasPrefix (fixed2 n) ''-''"
proof -
  assume "0 \<le> n"
  have s: "nat_str k \<noteq> []" "list_all is_digit (nat_str k)" for k
    using nat_str_digits [of k] by (simp_all add: nat_str.simps [of k] list_all_iff)
  have "is_digit (hd (nat_str (nat n div 100)))" using s by (metis list.set_sel(1) list_all_iff)
  then have "hd (nat_str (nat n div 100)) \<noteq> CHR ''-''" by (auto simp: is_digit_def)
  then show ?thesis
    using \<open>0 \<le> n\<close> s(1) [of "nat n div 100"]
    by (cases "nat_str (nat n div 100)") (auto simp: HasPrefix_def fixed2_def)
qed

context runtime
begin

lemma same_money_difference:
  assumes "money_ok (E_decimal E) val m"
  shows "\<exists>d. Money_Sub (E_decimal E) m m = Inr d \<and> Money_IsZero (E_decimal E) d \<and> cents val d = 0"
proof -
  obtain d where d: "Money_Sub (E_decimal E) m m = Inr d" "money_ok (E_decimal E) val d" "cents val d = 0"
    using Sub_exact [OF assms assms] by (auto split: sum.splits)
  then show ?thesis using sign_cents(1) by (auto simp: money_ok_def)
qed

lemma snapshot_Inr:
  assumes "ReconciliationSnapshot_of E ctx uid w = (Inr s, w')"
  obtains r c where "r \<in> set (wallets (w_db w))" "wr_id r = uid" "NewCurrency (wr_currency r) = Inr c"
    "ParseMoney (E_decimal E) (fixed2 (wr_balance r)) c = Inr (snap_StoredBalance s)"
    "parseSignedMoney E (fixed2 (entries_sum (wallet_entries uid (w_db w)))) c = Inr (snap_CalculatedBalance s)"
    "snap_CheckedEntries s = length (wallet_entries uid (w_db w))" "w_db w' = w_db w"
proof -
  let ?f = "\<lambda>now clk db. let total = entries_sum (wallet_entries uid db)
             in if find (\<lambda>w. wr_id w = uid) (wallets db) \<noteq> None \<and> \<not> numeric_20_2 total
                then Inl (PgError ''22003'' [])
                else Inr (map_option (\<lambda>w. (wr_currency w, fixed2 (wr_balance w), fixed2 total,
                             length (wallet_entries uid db)))
                       (find (\<lambda>w. wr_id w = uid) (wallets db)), db)"
  obtain a v where a: "request E ctx ?f w = (Inr a, v)"
    and k: "(case a of None \<Rightarrow> throw (InfraErr ErrNoRows) | Some a \<Rightarrow> ret a) v \<noteq> (Inl (InfraErr ErrNoRows), v)"
    and rest: "\<exists>cc st ca n. a = Some (cc, st, ca, n) \<and> w' = v \<and>
       (case NewCurrency cc of Inl e \<Rightarrow> Inl e | Inr currency \<Rightarrow>
         (case ParseMoney (E_decimal E) st currency of Inl e \<Rightarrow> Inl e | Inr storedBalance \<Rightarrow>
         (case parseSignedMoney E ca currency of Inl e \<Rightarrow> Inl e | Inr calculatedBalance \<Rightarrow>
            Inr \<lparr>snap_StoredBalance = storedBalance, snap_CalculatedBalance = calculatedBalance,
                 snap_CheckedEntries = n\<rparr>))) = Inr s"
    using assms unfolding ReconciliationSnapshot_of_def match_act_Inr bind_act_Inr
    by (fastforce simp: throw_def ret_def split: option.splits prod.splits)
  from request_Inr [OF a] have v: "w_db v = w_db w" and
    f: "a = map_option (\<lambda>r. (wr_currency r, fixed2 (wr_balance r), fixed2 (entries_sum (wallet_entries uid (w_db w))),
          length (wallet_entries uid (w_db w)))) (find (\<lambda>r. wr_id r = uid) (wallets (w_db w)))"
    by (auto simp: Let_def split: if_splits)
  from rest f obtain r where r: "find (\<lambda>r. wr_id r = uid) (wallets (w_db w)) = Some r" by auto
  from rest f r v show thesis
    using in_set_find [OF r] that [of r] by (auto split: sum.splits)
qed

lemma Reconcile_Inr:
  assumes inv: "db_inv E (w_db w)" and r: "WalletService_Reconcile E ctx walletID w = (Inr res, w')"
  shows "rec_Consistent res \<and> cents val (rec_Difference res) = 0 \<and>
    cents val (rec_StoredBalance res) = entries_sum (wallet_entries (rec_WalletID res) (w_db w)) \<and>
    rec_CheckedEntries res = length (wallet_entries (rec_WalletID res) (w_db w)) \<and> w_db w' = w_db w"
proof -
  obtain uid s d where s: "ReconciliationSnapshot_of E ctx uid w = (Inr s, w')"
    and d: "Money_Sub (E_decimal E) (snap_StoredBalance s) (snap_CalculatedBalance s) = Inr d"
    and res: "res = \<lparr>rec_WalletID = uid, rec_StoredBalance = snap_StoredBalance s,
       rec_CalculatedBalance = snap_CalculatedBalance s, rec_Difference = d,
       rec_Consistent = Money_IsZero (E_decimal E) d, rec_CheckedEntries = snap_CheckedEntries s\<rparr>"
    using r by (auto simp: WalletService_Reconcile_def bind_act_Inr match_act_Inr split: if_splits)
  obtain x c where x: "x \<in> set (wallets (w_db w))" "wr_id x = uid"
    and p: "ParseMoney (E_decimal E) (fixed2 (wr_balance x)) c = Inr (snap_StoredBalance s)"
      "parseSignedMoney E (fixed2 (entries_sum (wallet_entries uid (w_db w)))) c = Inr (snap_CalculatedBalance s)"
    and n: "snap_CheckedEntries s = length (wallet_entries uid (w_db w))" "w_db w' = w_db w"
    using snapshot_Inr [OF s] by metis
  have b: "wr_balance x = entries_sum (wallet_entries uid (w_db w))"
    using inv x by (auto simp: db_inv_def ledger_inv_def)
  note m = ParseMoney_fixed2_InrD [OF p(1)]
  have "0 \<le> wr_balance x" using ParseMoney_InrD(6) [OF p(1)] m by simp
  then have "parseSignedMoney E (fixed2 (wr_balance x)) c = Inr (snap_StoredBalance s)"
    using p(1) fixed2_not_negative by (simp add: parseSignedMoney_def)
  then have e: "snap_CalculatedBalance s = snap_StoredBalance s" using p(2) b by simp
  obtain d' where d': "Money_Sub (E_decimal E) (snap_StoredBalance s) (snap_StoredBalance s) = Inr d'"
    "Money_IsZero (E_decimal E) d'" "cents val d' = 0"
    using same_money_difference ParseMoney_InrD(3) [OF p(1)] by blast
  then have "d = d'" using d e by simp
  then show ?thesis using d' res n b m by simp
qed

end

text \<open>
  C27: reconciliation never finds a divergence in a database the services made: the stored balance of a
  wallet is the sum of its ledger entries to the hundredth, all of them are counted, and the
  database is left alone.
\<close>

theorem Reconcile_consistent:
  assumes "runtime E val" "db_inv E (w_db w)" "WalletService_Reconcile E ctx walletID w = (Inr res, w')"
  shows "rec_Consistent res \<and> cents val (rec_Difference res) = 0 \<and>
    cents val (rec_StoredBalance res) = entries_sum (wallet_entries (rec_WalletID res) (w_db w)) \<and>
    rec_CheckedEntries res = length (wallet_entries (rec_WalletID res) (w_db w)) \<and> w_db w' = w_db w"
  by (rule runtime.Reconcile_Inr [OF assms])

theorem Reconcile_consistent_witness:
  "\<exists>res w'. WalletService_Reconcile demo_env background ''7'' demo_world = (Inr res, w') \<and> rec_Consistent res \<and>
     rec_CheckedEntries res = 2"
proof -
  have r: "\<not> isl (fst (WalletService_Reconcile demo_env background ''7'' demo_world))"
    "(case fst (WalletService_Reconcile demo_env background ''7'' demo_world) of Inr res \<Rightarrow> rec_CheckedEntries res = 2 | Inl e \<Rightarrow> False)"
    by code_simp+
  then obtain res w' where w: "WalletService_Reconcile demo_env background ''7'' demo_world = (Inr res, w')"
    using not_isl_Inr by (metis prod.collapse)
  from Reconcile_consistent [OF demo.runtime_axioms _ w] w r(2) show ?thesis by (simp add: demo_db_inv)
qed

section \<open>One wallet per player and currency\<close>

lemma map_sum_Inr: "map_sum f g x = Inr y \<longleftrightarrow> (\<exists>z. x = Inr z \<and> y = g z)"
  by (cases x) auto

lemma insert_wallet_indexes:
  "insert_wallet r db = Inr (n, db') \<Longrightarrow> list_all (\<lambda>i. snd i (wallets db @ [r])) wallet_indexes"
  using sql_insert_InrD by (fastforce simp: insert_wallet_def apsnd_map_sum_Inr)

lemma insert_wallet_fresh:
  assumes "insert_wallet r db = Inr (n, db')" "x \<in> set (wallets db)" "wr_player_id x = wr_player_id r"
  shows "wr_currency x \<noteq> wr_currency r"
  using insert_wallet_indexes [OF assms(1)] assms(2,3)
    snoc_index_fresh [of "\<lambda>r. True" "\<lambda>r. (wr_player_id r, wr_currency r)" "wallets db" r x]
  by (simp add: wallet_indexes_def)

lemma create_wallet_body_new:
  assumes "create_wallet_body E pid m md ctx w = (Inr res, w')" "x \<in> set (wallets (w_db w))" "wr_player_id x = pid"
  shows "wr_currency x \<noteq> currency_code (money_currency m)"
proof -
  obtain now v0 uid v1 wal v2 where c: "Clock_Now E ctx w = (Inr now, v0)" "uuid_New E v0 = (Inr uid, v1)"
    "NewWallet (E_decimal E) uid pid m now = Inr wal" "WalletRepository_Create E ctx wal v1 = (Inr (), v2)"
    using assms(1) unfolding create_wallet_body_def bind_act_Inr match_act_Inr by (auto split: if_splits)
  have db: "w_db v1 = w_db w" using Clock_Now_Inr [OF c(1)] c(2) by (simp add: uuid_New_Inr)
  obtain r n where r: "wallet_row_of E wal = Inr r" "insert_wallet r (w_db v1) = Inr (n, w_db v2)"
    using WalletRepository_Create_Inr [OF c(4)] by metis
  have w: "wallet_playerID wal = pid" "wallet_balance wal = m"
    using c(3) by (auto simp: NewWallet_def split: if_splits)
  have "wr_player_id r = wallet_playerID wal" "wr_currency r = currency_code (money_currency (wallet_balance wal))"
    using r(1) by (auto simp: wallet_row_of_def Currency_Code_def map_sum_Inr)
  then have "wr_player_id r = pid" "wr_currency r = currency_code (money_currency m)" by (simp_all add: w)
  then show ?thesis using insert_wallet_fresh [OF r(2)] assms(2,3) db by simp
qed

text \<open>
  A player has at most one wallet per currency. Once there is one, \<^verbatim>\<open>Create\<close> for the same
  player and currency never succeeds and never changes the database, whatever the database answers.
\<close>

lemma one_wallet_per_currency:
  assumes "x \<in> set (wallets (w_db w))" "E_uuid_Parse E (cw_PlayerID command) = Some (wr_player_id x)"
    "wr_currency x = cw_Currency command"
  shows "\<exists>e w'. WalletService_Create E background command md w = (Inl e, w') \<and> w_db w' = w_db w"
proof (cases "\<exists>m. money_currency m = \<lparr>currency_code = cw_Currency command\<rparr> \<and> WalletService_Create E background command md =
      in_transaction E background (create_wallet_body E (wr_player_id x) m md)")
  case True
  then obtain m where m: "money_currency m = \<lparr>currency_code = cw_Currency command\<rparr>"
    "WalletService_Create E background command md = in_transaction E background (create_wallet_body E (wr_player_id x) m md)"
    by blast
  have no: "create_wallet_body E (wr_player_id x) m md tx_context v \<noteq> (Inr res, v')" if "w_db v = w_db w" for v v' res
    using create_wallet_body_new [of E "wr_player_id x" m md tx_context v res v' x] assms m(1) that by auto
  obtain r w' where p: "in_transaction E background (create_wallet_body E (wr_player_id x) m md) w = (r, w')"
    by (metis surj_pair)
  show ?thesis
  proof (cases r)
    case (Inl e)
    then show ?thesis using within_InlD [OF p [unfolded Inl]] no p m(2) by auto
  next
    case (Inr res)
    then show ?thesis using within_InrD [OF p [unfolded Inr]] no by metis
  qed
next
  case False
  obtain r w' where p: "WalletService_Create E background command md w = (r, w')" by (metis surj_pair)
  have "money_currency m = c" if "ParseMoney D s c = Inr m" for D s m and c
    using that by (auto simp: ParseMoney_def newMoney_def split: if_splits option.splits)
  moreover have "c = \<lparr>currency_code = cw_Currency command\<rparr>" if "NewCurrency (cw_Currency command) = Inr c" for c
    using that by (auto simp: NewCurrency_def split: if_splits)
  ultimately have "\<exists>e. r = Inl e \<and> w' = w"
    using p False assms(2)
    by (fastforce simp: WalletService_Create_def throw_def split: if_splits option.splits sum.splits)
  then show ?thesis using p by auto
qed

definition demo_create :: CreateWalletCommand where
  "demo_create = \<lparr>cw_PlayerID = ''9'', cw_Currency = ''BRL'', cw_InitialBalance = ''0.00''\<rparr>"

section \<open>Queries\<close>

lemma Rehydrate_provider: "RehydrateWagerTransaction D p = Inr t \<Longrightarrow> tx_providerID t = rp_ProviderID p"
  unfolding RehydrateWagerTransaction_def by (simp split: option.splits) (erule subst, simp)

lemma scanWager_provider:
  assumes "scanWager E r = Inr t"
  shows "tx_providerID t = stringValue (wg_provider_id r)"
proof -
  obtain p where "RehydrateWagerTransaction (E_decimal E) p = Inr t" "rp_ProviderID p = stringValue (wg_provider_id r)"
    using assms unfolding scanWager_def by (simp split: sum.splits)
  then show ?thesis using Rehydrate_provider by metis
qed

lemma wres_provider: "wres_ProviderID (wagerResultFromTransaction t) = tx_providerID t"
  by (simp add: wagerResultFromTransaction_def)

lemma scanWager_own: "\<lbrakk>scanWager E r = Inr t; tx_providerID t \<noteq> []\<rbrakk> \<Longrightarrow> wg_provider_id r = Some (tx_providerID t)"
  using scanWager_provider [of E r t] by (simp add: stringValue_def split: option.splits)

lemma GetByID_own:
  assumes "providerID \<noteq> []"
  shows "case WagerService_GetByID E ctx providerID transactionID w of
    (Inr res, w') \<Rightarrow> w_db w' = w_db w \<and> wres_ProviderID res = providerID \<and>
      (\<exists>r t. r \<in> set (wagers (w_db w)) \<and> scanWager E r = Inr t \<and> res = wagerResultFromTransaction t \<and>
         E_uuid_Parse E transactionID = Some (wg_id r) \<and> wg_provider_id r = Some providerID)
  | (Inl e, w') \<Rightarrow> w_db w' = w_db w"
proof (cases "WagerService_GetByID E ctx providerID transactionID w")
  case (Pair x w')
  show ?thesis
  proof (cases "\<exists>uid. E_uuid_Parse E transactionID = Some uid \<and> uid \<noteq> uuid_Nil")
    case False
    then show ?thesis using Pair by (auto simp: WagerService_GetByID_def throw_def split: option.splits)
  next
    case True
    then obtain uid where u: "E_uuid_Parse E transactionID = Some uid" "uid \<noteq> uuid_Nil" by blast
    obtain y v where f: "WagerRepository_FindByID E ctx uid w = (y, v)" by (metis surj_pair)
    have v: "w_db v = w_db w" using WagerRepository_FindByID_db [OF f] .
    show ?thesis
    proof (cases y)
      case (Inl e)
      then show ?thesis using Pair u f v by (auto simp: WagerService_GetByID_def bind_act_def)
    next
      case (Inr t)
      obtain r where r: "r \<in> set (wagers (w_db w))" "scanWager E r = Inr t" "wg_id r = uid"
        using WagerRepository_FindByID_Inr [OF f [unfolded Inr]] .
      have x: "x = (if tx_providerID t \<noteq> providerID then Inl (AppErr ErrNotFound)
          else Inr (wagerResultFromTransaction t))" "w' = v"
        using Pair u f Inr
        by (auto simp: WagerService_GetByID_def bind_act_def throw_def ret_def split: if_splits)
      show ?thesis
      proof (cases "tx_providerID t = providerID")
        case True
        then have "wg_provider_id r = Some providerID" using scanWager_own [OF r(2)] assms by simp
        moreover have "x = Inr (wagerResultFromTransaction t)" using x True by simp
        ultimately show ?thesis using Pair x(2) v u r True wres_provider [of t] by auto
      qed (use Pair x v in simp)
    qed
  qed
qed

lemma GetByExternalTransactionID_own:
  "case WagerService_GetByExternalTransactionID E ctx providerID externalID w of
    (Inr res, w') \<Rightarrow> w_db w' = w_db w \<and>
      (\<exists>r t. r \<in> set (wagers (w_db w)) \<and> scanWager E r = Inr t \<and> res = wagerResultFromTransaction t \<and>
         wg_external_transaction_id r = Some externalID \<and> wg_provider_id r = Some providerID)
  | (Inl e, w') \<Rightarrow> w_db w' = w_db w"
proof -
  obtain y v where f: "FindByProviderAndExternalTransactionID E ctx providerID externalID w = (y, v)" by (metis surj_pair)
  have v: "w_db v = w_db w" using FindByProviderAndExternalTransactionID_db [OF f] .
  show ?thesis
  proof (cases y)
    case (Inl e)
    then show ?thesis using f v by (simp add: WagerService_GetByExternalTransactionID_def bind_act_def)
  next
    case (Inr t)
    obtain r where "r \<in> set (wagers (w_db w))" "scanWager E r = Inr t" "wg_provider_id r = Some providerID"
      "wg_external_transaction_id r = Some externalID"
      using FindByProviderAndExternalTransactionID_Inr [OF f [unfolded Inr]] .
    then show ?thesis
      using f v Inr by (auto simp: WagerService_GetByExternalTransactionID_def bind_act_def ret_def)
  qed
qed

text \<open>
  C28: a provider only sees its own transactions. What \<^verbatim>\<open>GetByID\<close> and
  \<^verbatim>\<open>GetByExternalTransactionID\<close> return to a provider is a stored transaction of that provider with the
  identifier asked for, and neither changes the database.
\<close>

theorem provider_isolation:
  assumes "providerID \<noteq> []"
  shows "(case WagerService_GetByID E ctx providerID transactionID w of
      (Inr res, w') \<Rightarrow> w_db w' = w_db w \<and> wres_ProviderID res = providerID \<and>
        (\<exists>r t. r \<in> set (wagers (w_db w)) \<and> scanWager E r = Inr t \<and> res = wagerResultFromTransaction t \<and>
           E_uuid_Parse E transactionID = Some (wg_id r) \<and> wg_provider_id r = Some providerID)
    | (Inl e, w') \<Rightarrow> w_db w' = w_db w) \<and>
    (case WagerService_GetByExternalTransactionID E ctx providerID externalID w of
      (Inr res, w') \<Rightarrow> w_db w' = w_db w \<and>
        (\<exists>r t. r \<in> set (wagers (w_db w)) \<and> scanWager E r = Inr t \<and> res = wagerResultFromTransaction t \<and>
           wg_external_transaction_id r = Some externalID \<and> wg_provider_id r = Some providerID)
    | (Inl e, w') \<Rightarrow> w_db w' = w_db w)"
  using GetByID_own [OF assms] GetByExternalTransactionID_own by (rule conjI)

theorem provider_isolation_witness:
  "\<exists>e w'. WagerService_GetByID demo_env background ''other'' ''21'' demo_world = (Inl e, w')"
proof -
  have "isl (fst (WagerService_GetByID demo_env background ''other'' ''21'' demo_world))"
    using provider_isolation [where providerID = "''other''" and E = demo_env and ctx = background and transactionID = "''21''" and w = demo_world and externalID = "''e1''"]
    by (auto simp: demo_db_def demo_bet_row_def demo_opening_row_def split: prod.splits sum.splits)
  then show ?thesis by (metis isl_def prod.collapse)
qed

section \<open>Retry policy\<close>

lemma delay_loop_doubles:
  "\<lbrakk>0 < d; d \<le> 2 ^ 62; mx \<le> 2 ^ 62\<rbrakk> \<Longrightarrow>
     min (delay_loop i n d mx) mx = min (d * 2 ^ nat (n - i)) mx"
proof (induction i n d mx rule: delay_loop.induct)
  case (1 i n d mx)
  show ?case
  proof (cases "i < n \<and> d < mx")
    case True
    have w: "wrap64 (d * 2) = d * 2" using True 1 by (simp add: in_int64_def)
    have e: "nat (n - i) = Suc (nat (n - (i + 1)))" using True by linarith
    show ?thesis
    proof (cases "d * 2 \<le> 2 ^ 62")
      case True
      then have "min (delay_loop (i + 1) n (d * 2) mx) mx = min (d * 2 * 2 ^ nat (n - (i + 1))) mx"
        using "1.IH" \<open>i < n \<and> d < mx\<close> "1.prems" w by simp
      then show ?thesis using \<open>i < n \<and> d < mx\<close> w e by (simp add: delay_loop.simps [of i])
    next
      case False
      then have big: "mx < d * 2" using "1.prems" by simp
      then have "delay_loop (i + 1) n (d * 2) mx = d * 2" by (simp add: delay_loop.simps [of "i + 1"])
      moreover have "mx \<le> d * (2 * 2 ^ nat (n - (i + 1)))"
      proof -
        have "d * 2 * 1 \<le> d * 2 * 2 ^ nat (n - (i + 1))" using "1.prems"(1) by (intro mult_left_mono) simp_all
        then show ?thesis using big by (simp only: mult.assoc mult_1_right)
      qed
      ultimately show ?thesis using \<open>i < n \<and> d < mx\<close> w e big by (simp add: delay_loop.simps [of i])
    qed
  next
    case False
    then have "delay_loop i n d mx = d" by (subst delay_loop.simps) auto
    moreover have "n \<le> i \<or> mx \<le> d" using False by auto
    moreover have "d \<le> d * 2 ^ nat (n - i)" using "1.prems" by simp
    ultimately show ?thesis by auto
  qed
qed

end
