(* ===== verification/Effects.thy ===== *)
theory Effects
  imports Wallet_Service
begin

text \<open>
  What any operation of the services can do: nothing but a sequence of the statements of
  \<^verbatim>\<open>Database\<close>, and no call of the queue service. Events enter the outbox unpublished and are left
  alone, and so are the completed messages of the inbox. This holds for every outcome, errors and lost answers included, so that a property every
  single statement keeps is kept by every operation, and a relation every statement respects holds
  between the database before and after any run of the services.
\<close>

inductive statement :: "DB \<Rightarrow> DB \<Rightarrow> bool" where
  insert_wallet: "insert_wallet r db = Inr (n, db') \<Longrightarrow> statement db db'"
| update_wallets: "update_wallets m f db = Inr (n, db') \<Longrightarrow> statement db db'"
| insert_wager: "insert_wager r db = Inr (n, db') \<Longrightarrow> statement db db'"
| update_wagers: "update_wagers m f db = Inr (n, db') \<Longrightarrow> statement db db'"
| insert_ledger: "insert_ledger r db = Inr (n, db') \<Longrightarrow> statement db db'"
| insert_inbox: "insert_inbox r db = Inr (n, db') \<Longrightarrow> statement db db'"
| update_inbox: "\<lbrakk>update_inbox m f db = Inr (n, db'); \<And>r. m r \<Longrightarrow> ib_completed_at r = None\<rbrakk> \<Longrightarrow> statement db db'"
| insert_outbox: "\<lbrakk>insert_outbox r db = Inr (n, db'); ob_published_at r = None\<rbrakk> \<Longrightarrow> statement db db'"

abbreviation statements :: "DB \<Rightarrow> DB \<Rightarrow> bool" where
  "statements \<equiv> statement\<^sup>*\<^sup>*"

definition only_statements :: "'a act \<Rightarrow> bool" where
  "only_statements m \<longleftrightarrow> (\<forall>w r w'. m w = (r, w') \<longrightarrow> statements (w_db w) (w_db w') \<and> w_calls w' = w_calls w)"

named_theorems effects \<open>operations that run only statements\<close>

lemma only_statementsD:
  assumes "only_statements m" "m w = (r, w')"
  shows "statements (w_db w) (w_db w')" "w_calls w' = w_calls w"
  using assms by (simp_all add: only_statements_def)

lemma effects_basic [effects]:
  "only_statements (ret a)" "only_statements (throw e)" "only_statements (lift_sum s)" "only_statements (uuid_New E)"
  by (auto simp: only_statements_def ret_def throw_def lift_sum_def uuid_New_def)

lemma effects_bind [effects]:
  assumes "only_statements m" "\<And>a. only_statements (k a)"
  shows "only_statements (bind_act m k)"
  unfolding only_statements_def
proof (intro allI impI)
  fix w r w' assume b: "bind_act m k w = (r, w')"
  obtain x v where m: "m w = (x, v)" by (cases "m w")
  note 1 = only_statementsD [OF assms(1) m]
  show "statements (w_db w) (w_db w') \<and> w_calls w' = w_calls w"
  proof (cases x)
    case (Inl e)
    then show ?thesis using b m 1 by (simp add: bind_act_def)
  next
    case (Inr a)
    then have "k a v = (r, w')" using b m by (simp add: bind_act_def)
    note only_statementsD [OF assms(2) this]
    with 1 show ?thesis by (metis rtranclp_trans)
  qed
qed

lemma effects_match [effects]:
  assumes "only_statements m" "\<And>e. only_statements (h e)" "\<And>a. only_statements (k a)"
  shows "only_statements (match_act m h k)"
  unfolding only_statements_def
proof (intro allI impI)
  fix w r w' assume b: "match_act m h k w = (r, w')"
  obtain x v where m: "m w = (x, v)" by (cases "m w")
  have "only_statements (case x of Inl e \<Rightarrow> h e | Inr a \<Rightarrow> k a)" using assms by (cases x) auto
  moreover have "(case x of Inl e \<Rightarrow> h e | Inr a \<Rightarrow> k a) v = (r, w')" using b m by (cases x) (simp_all add: match_act_def)
  ultimately show "statements (w_db w) (w_db w') \<and> w_calls w' = w_calls w"
    using only_statementsD [OF assms(1) m] by (metis only_statementsD rtranclp_trans)
qed

lemma effects_request:
  assumes "\<And>now clk db a db'. f now clk db = Inr (a, db') \<Longrightarrow> statements db db'"
  shows "only_statements (request E ctx f)"
  unfolding only_statements_def
proof (intro allI impI)
  fix w r w' assume b: "request E ctx f w = (r, w')"
  then have "(w_db w' = w_db w \<or> (\<exists>now clk a. f now clk (w_db w) = Inr (a, w_db w'))) \<and> w_calls w' = w_calls w"
    by (auto simp: request_def Let_def split: if_splits reply.splits sum.splits)
  then show "statements (w_db w) (w_db w') \<and> w_calls w' = w_calls w" using assms by auto
qed

lemma effects_exec [effects]:
  "(\<And>db n db'. f db = Inr (n, db') \<Longrightarrow> statements db db') \<Longrightarrow> only_statements (exec_stmt E ctx f)"
  unfolding exec_stmt_def by (rule effects_request)

lemma effects_query [effects]: "only_statements (query E ctx q)" "only_statements (Clock_Now E ctx)"
  unfolding query_def Clock_Now_def by (rule effects_request, simp)+

lemma effects_query_row [effects]: "only_statements (query_row E ctx q)"
  unfolding query_row_def by (intro effects) (simp split: option.split add: effects)

lemma effects_query_text [effects]: "only_statements (query_row_text E ctx ts q)"
  unfolding query_row_text_def
  by (intro effects effects_request) (auto split: if_splits option.split simp: effects)

lemma effects_scan_row [effects]: "only_statements m \<Longrightarrow> only_statements (scan_row m d)"
  unfolding scan_row_def by (intro effects)

lemma effects_if [effects]:
  "\<lbrakk>b \<Longrightarrow> only_statements m; \<not> b \<Longrightarrow> only_statements k\<rbrakk> \<Longrightarrow> only_statements (if b then m else k)"
  by simp

lemma statement_run:
  "insert_wallet r db = Inr (n, db') \<Longrightarrow> statements db db'"
  "update_wallets m f db = Inr (n, db') \<Longrightarrow> statements db db'"
  "insert_wager r2 db = Inr (n, db') \<Longrightarrow> statements db db'"
  "update_wagers m2 f2 db = Inr (n, db') \<Longrightarrow> statements db db'"
  "insert_ledger r3 db = Inr (n, db') \<Longrightarrow> statements db db'"
  "insert_inbox r4 db = Inr (n, db') \<Longrightarrow> statements db db'"
  "\<lbrakk>update_inbox m3 f3 db = Inr (n, db'); \<And>r. m3 r \<Longrightarrow> ib_completed_at r = None\<rbrakk> \<Longrightarrow> statements db db'"
  "\<lbrakk>insert_outbox r5 db = Inr (n, db'); ob_published_at r5 = None\<rbrakk> \<Longrightarrow> statements db db'"
  by (blast intro: statement.intros r_into_rtranclp)+

section \<open>Repositories\<close>

lemma effects_wallets [effects]:
  "only_statements (WalletRepository_Create E ctx wal)" "only_statements (WalletRepository_FindByID E ctx uid)"
  "only_statements (WalletRepository_FindByIDForUpdate E ctx uid)" "only_statements (WalletRepository_Update E ctx wal)"
  unfolding WalletRepository_Create_def WalletRepository_FindByID_def WalletRepository_FindByIDForUpdate_def
    WalletRepository_Update_def
  by (intro effects; auto split: sum.splits if_splits intro: statement_run)+

lemma effects_wagers [effects]:
  "only_statements (WagerRepository_Create E ctx t)" "only_statements (WagerRepository_Update E ctx t)"
  "only_statements (WagerRepository_UpdatePendingReference E ctx t n x md)" "only_statements (WagerRepository_FindByID E ctx uid)"
  "only_statements (FindByProviderAndExternalTransactionID E ctx p s)"
  "only_statements (FindByProviderAndIdempotencyKey E ctx p s)" "only_statements (HasProcessedDirectReversal E ctx uid)"
  unfolding WagerRepository_Create_def WagerRepository_Update_def WagerRepository_UpdatePendingReference_def
    WagerRepository_FindByID_def FindByProviderAndExternalTransactionID_def FindByProviderAndIdempotencyKey_def
    HasProcessedDirectReversal_def
  by (intro effects; auto split: sum.splits if_splits intro: statement_run)+

lemma effects_Schedule [effects]: "only_statements (SchedulePendingReferenceRetry E ctx uid k n)"
  unfolding SchedulePendingReferenceRetry_def
  by (intro effects effects_request) (auto split: if_splits intro: statement_run)

lemma effects_pending_work [effects]:
  "only_statements m \<Longrightarrow> only_statements (scanPendingReferenceWork E ctx m)"
  unfolding scanPendingReferenceWork_def by (intro effects) (auto split: option.split intro!: effects)

lemma effects_pending [effects]:
  "only_statements (FindDuePendingReferenceForUpdate E ctx now)" "only_statements (FindPendingReferenceForUpdate E ctx uid)"
  unfolding FindDuePendingReferenceForUpdate_def FindPendingReferenceForUpdate_def by (intro effects)+

lemma effects_ledger [effects]:
  "only_statements (WalletLedgerRepository_Create E ctx e)" "only_statements (OutboxRepository_Create E ctx ev)"
  unfolding WalletLedgerRepository_Create_def OutboxRepository_Create_def
  by (intro effects effects_request; auto split: sum.splits if_splits intro: statement_run)+

lemma effects_inbox [effects]:
  "only_statements (InboxRepository_Register E ctx c m h)" "only_statements (InboxRepository_Complete E ctx c m t)"
  unfolding InboxRepository_Register_def InboxRepository_Complete_def
  by (intro effects effects_request; auto intro: statement_run)+

section \<open>Services\<close>

lemma effects_newEvent [effects]: "only_statements (newEvent E ty agg md t d)"
  unfolding newEvent_def by (intro effects)

lemma effects_events [effects]:
  "only_statements (createProcessedEvent E ctx t md now)" "only_statements (createBalanceChangedEvent E ctx wal e md now)"
  "only_statements (createRejectedEvent E ctx t md now)" "only_statements (createPendingReferenceEvent E ctx t md now)"
  unfolding createProcessedEvent_def createBalanceChangedEvent_def createRejectedEvent_def createPendingReferenceEvent_def
    new_event_defs
  by (intro effects)+

lemma effects_steps [effects]:
  "only_statements (reject E ctx t rej md now)" "only_statements (lockWallet E ctx t)"
  "only_statements (markPendingReference E P ctx t md now)"
  unfolding reject_def lockWallet_def markPendingReference_def Let_def by (intro effects)+

lemma effects_applyMovement [effects]: "only_statements (applyMovement E ctx wal t md now)"
  unfolding applyMovement_def Let_def by (intro effects) (auto split: prod.split intro!: effects)

lemma effects_settle [effects]: "only_statements (settle E ctx wal t md now)"
  unfolding settle_def by (intro effects)

lemma effects_resolveReference [effects]: "only_statements (resolveReference E ctx t now)"
  unfolding resolveReference_def
  by (intro effects) (auto split: WagerTransactionStatus.split sum.split intro!: effects)

lemma effects_processNew [effects]: "only_statements (processNew E P ctx wal t md now)"
  unfolding processNew_def by (intro effects) (auto split: referenceOutcome.split intro!: effects)

lemma effects_resolveExisting [effects]: "only_statements (resolveExistingTransaction E ctx req)"
  unfolding resolveExistingTransaction_def Let_def by (intro effects)

lemma effects_process_body [effects]: "only_statements (process_body E P req md ctx)"
  unfolding process_body_def newTransaction_def by (intro effects)

lemma effects_retryPendingReference [effects]: "only_statements (retryPendingReference E P ctx work)"
  unfolding retryPendingReference_def Let_def by (intro effects) (auto split: referenceOutcome.split intro!: effects)

lemma effects_fail_body [effects]: "only_statements (fail_body E uid ctx)"
  unfolding fail_body_def by (intro effects)

lemma effects_createOpening [effects]: "only_statements (createOpening E ctx wal m md now)"
  unfolding createOpening_def createOpeningEvents_def new_event_defs by (intro effects)

lemma effects_create_wallet_body [effects]: "only_statements (create_wallet_body E pid m md ctx)"
  unfolding create_wallet_body_def by (intro effects)

section \<open>Transactions\<close>

definition only_statements_closure :: "('a, 'c) closure \<Rightarrow> bool" where
  "only_statements_closure fn \<longleftrightarrow>
     (\<forall>c w x w'. fn tx_context c w = (x, w') \<longrightarrow> statements (w_db w) (w_db w') \<and> w_calls w' = w_calls w)"

lemma run_tx_calls:
  assumes "only_statements_closure fn" "run_tx E fn c w = (x, w')"
  shows "w_calls w' = w_calls w"
proof -
  obtain r v where b: "begin_tx E w = (r, v)" by (cases "begin_tx E w")
  obtain y v2 where f: "fn tx_context (c) v = (y, v2)" by (metis surj_pair)
  have "w_calls v = w_calls w"
    using b by (auto simp: begin_tx_def request_def Let_def split: prod.splits sum.splits if_splits reply.splits)
  moreover have "w_calls v2 = w_calls v" using assms(1) f unfolding only_statements_closure_def by blast
  ultimately show ?thesis
    using assms(2) b f by (auto simp: run_tx_def commit_tx_def Let_def split: prod.splits sum.splits if_splits reply.splits)
qed

lemma tx_attempts_calls:
  "\<lbrakk>only_statements_closure fn; tx_attempts n E fn c w = (x, w')\<rbrakk> \<Longrightarrow> w_calls w' = w_calls w"
proof (induction n E fn c w rule: tx_attempts.induct)
  case (1 left E fn c w)
  obtain s c1 v1 where run: "run_tx E fn c w = ((s, c1), v1)" by (metis surj_pair)
  note v1 = run_tx_calls [OF "1.prems"(1) run]
  show ?case
  proof (cases "\<exists>e. s = Inl e \<and> isRetryableConflict e \<and> \<not> left \<le> 1 \<and> fst (waitRetry E v1)")
    case True
    then obtain e where e: "s = Inl e" "isRetryableConflict e" "\<not> left \<le> 1" "fst (waitRetry E v1)" by blast
    obtain v2 where w2: "waitRetry E v1 = (True, v2)" using e(4) by (cases "waitRetry E v1") auto
    have "tx_attempts (left - 1) E fn c1 v2 = (x, w')"
      using "1.prems"(2) run e w2 by (simp add: tx_attempts.simps [of left])
    from "1.IH" [OF run [symmetric] refl e(1) _ w2 [symmetric] refl "1.prems"(1) this] e w2 v1 show ?thesis
      by (auto simp: waitRetry_def)
  next
    case False
    then show ?thesis
      using "1.prems"(2) run v1
      by (cases s) (auto simp: tx_attempts.simps [of left] waitRetry_def split: if_splits prod.splits bool.splits)
  qed
qed

lemma effects_WithinTransaction:
  assumes "only_statements_closure fn" "WithinTransaction E background fn c w = (x, w')"
  shows "statements (w_db w) (w_db w')" "w_calls w' = w_calls w"
proof -
  obtain r c' where x: "x = (r, c')" by (cases x)
  show "statements (w_db w) (w_db w')"
  proof (cases r)
    case (Inl e)
    show ?thesis
      using WithinTransaction_InlD [OF assms(2) [unfolded x Inl]] assms(1)
      by (auto simp: only_statements_closure_def) metis
  next
    case (Inr a)
    obtain v v' c0 where "w_db v = w_db w" "fn tx_context c0 v = ((Inr a, c'), v')" "w_db w' = w_db v'"
      using WithinTransaction_InrD [OF assms(2) [unfolded x Inr]] by metis
    then show ?thesis using assms(1) unfolding only_statements_closure_def by metis
  qed
  obtain y where "tx_attempts maxTransactionAttempts E fn c w = (y, w')"
    using assms(2) by (auto simp: WithinTransaction_def split: prod.splits sum.splits)
  then show "w_calls w' = w_calls w" by (rule tx_attempts_calls [OF assms(1)])
qed

lemma effects_closure_of: "(\<And>ctx. only_statements (m ctx)) \<Longrightarrow> only_statements_closure (closure_of m)"
  unfolding only_statements_closure_def closure_of_eq
  by (metis closure_of_eq only_statementsD prod.collapse)

lemma effects_in_transaction [effects]:
  assumes "\<And>ctx. only_statements (m ctx)"
  shows "only_statements (in_transaction E background m)"
  unfolding only_statements_def in_transaction_def
  using effects_WithinTransaction [OF effects_closure_of [OF assms]] by (auto split: prod.splits)

lemma in_transaction_nested: "in_transaction E tx_context m = m tx_context"
  by (rule ext) (simp add: in_transaction_def WithinTransaction_def closure_of_def split: prod.splits)

lemma effects_Process_nested [effects]: "only_statements (Process E P tx_context command md)"
  unfolding Process_def in_transaction_nested by (intro effects) (auto split: sum.split intro!: effects)

lemma effects_Process [effects]: "only_statements (Process E P background command md)"
  unfolding Process_def by (intro effects) (auto split: sum.split intro!: effects)

lemma effects_Create [effects]: "only_statements (WalletService_Create E background command md)"
  unfolding WalletService_Create_def
  by (intro effects) (auto split: sum.split option.split intro!: effects)

lemma effects_failPendingReference [effects]: "only_statements (failPendingReference E background uid)"
  unfolding failPendingReference_def by (intro effects)

lemma retry_body_statements: "only_statements_closure (retry_body E P)"
  unfolding only_statements_closure_def
proof (intro allI impI)
  fix c w x w' assume b: "retry_body E P tx_context c w = (x, w')"
  have "\<exists>r. bind_act (Clock_Now E tx_context) (\<lambda>now. match_act (FindDuePendingReferenceForUpdate E tx_context now)
      throw (\<lambda>work. retryPendingReference E P tx_context work)) w = (r, w')"
    using b by (auto simp: retry_body_def bind_act_def match_act_def throw_def split: prod.splits sum.splits if_splits)
  moreover have "only_statements (bind_act (Clock_Now E tx_context) (\<lambda>now. match_act (FindDuePendingReferenceForUpdate E tx_context now)
      throw (\<lambda>work. retryPendingReference E P tx_context work)))"
    by (intro effects)
  ultimately show "statements (w_db w) (w_db w') \<and> w_calls w' = w_calls w" using only_statementsD by blast
qed

lemma effects_Retry:
  assumes "RetryNextPendingReference E P background w = (x, w')"
  shows "statements (w_db w) (w_db w')" "w_calls w' = w_calls w"
proof -
  obtain y c w1 where t: "WithinTransaction E background (retry_body E P) None w = ((y, c), w1)" by (metis surj_pair)
  note 1 = effects_WithinTransaction [OF retry_body_statements t]
  let ?w2 = "w1\<lparr>w_step := Suc (w_step w1)\<rparr>"
  have "w_db w' = w_db w1 \<and> w_calls w' = w_calls w1 \<or> (\<exists>uid z. failPendingReference E background uid ?w2 = (z, w'))"
    using assms t
    by (auto simp: RetryNextPendingReference_def Let_def split: option.splits sum.splits if_splits prod.splits)
  then have "statements (w_db w) (w_db w') \<and> w_calls w' = w_calls w"
  proof (elim disjE exE)
    fix uid z assume "failPendingReference E background uid ?w2 = (z, w')"
    from only_statementsD [OF effects_failPendingReference this] 1 show ?thesis by simp
  qed (use 1 in simp)
  then show "statements (w_db w) (w_db w')" "w_calls w' = w_calls w" by simp_all
qed

lemma effects_Reconcile [effects]: "only_statements (WalletService_Reconcile E ctx walletID)"
  unfolding WalletService_Reconcile_def ReconciliationSnapshot_of_def
  by (intro effects effects_request) (auto simp: Let_def split: if_splits option.split prod.split sum.split intro!: effects)

section \<open>History\<close>

text \<open>
  What statements never do: take a row away, change an identity or a business field, change a
  transaction in a final state, an entry of the ledger, or the content of an event, or lower the
  version of a wallet. The constraints on the new rows are those of the schema and the triggers.
\<close>

definition same_wager :: "wager_row \<Rightarrow> wager_row \<Rightarrow> bool" where
  "same_wager a b \<longleftrightarrow>
     wg_id b = wg_id a \<and> wg_provider_id b = wg_provider_id a \<and>
     wg_external_transaction_id b = wg_external_transaction_id a \<and> wg_idempotency_key b = wg_idempotency_key a \<and>
     wg_payload_hash b = wg_payload_hash a \<and> wg_wallet_id b = wg_wallet_id a \<and> wg_player_id b = wg_player_id a \<and>
     wg_round_id b = wg_round_id a \<and> wg_game_id b = wg_game_id a \<and> wg_type b = wg_type a \<and>
     wg_amount b = wg_amount a \<and> wg_currency b = wg_currency a \<and>
     wg_reference_external_transaction_id b = wg_reference_external_transaction_id a \<and>
     wg_created_at b = wg_created_at a \<and> (IsTerminal (wg_status a) \<longrightarrow> b = a)"

definition same_wallet :: "wallet_row \<Rightarrow> wallet_row \<Rightarrow> bool" where
  "same_wallet a b \<longleftrightarrow>
     wr_id b = wr_id a \<and> wr_player_id b = wr_player_id a \<and> wr_currency b = wr_currency a \<and>
     wr_created_at b = wr_created_at a \<and> wr_version a \<le> wr_version b \<and> (wr_version b = wr_version a \<longrightarrow> wr_balance b = wr_balance a)"

definition same_event :: "outbox_row \<Rightarrow> outbox_row \<Rightarrow> bool" where
  "same_event a b \<longleftrightarrow>
     ob_event_id b = ob_event_id a \<and> ob_event_type b = ob_event_type a \<and> ob_aggregate_id b = ob_aggregate_id a \<and>
     ob_correlation_id b = ob_correlation_id a \<and>
     ob_causation_id b = ob_causation_id a \<and> ob_version b = ob_version a \<and> ob_payload b = ob_payload a \<and> ob_occurred_at b = ob_occurred_at a"

definition extends :: "('r \<Rightarrow> 'r \<Rightarrow> bool) \<Rightarrow> 'r list \<Rightarrow> 'r list \<Rightarrow> bool" where
  "extends R xs ys \<longleftrightarrow> length xs \<le> length ys \<and> list_all2 R xs (take (length xs) ys)"

definition history :: "DB \<Rightarrow> DB \<Rightarrow> bool" where
  "history db db' \<longleftrightarrow>
     extends same_wallet (wallets db) (wallets db') \<and> extends same_wager (wagers db) (wagers db') \<and>
     extends (=) (ledger db) (ledger db') \<and> extends same_event (outbox db) (outbox db')"

lemma extends_append: "(\<And>x. R x x) \<Longrightarrow> extends R xs (xs @ ys)"
  by (simp add: extends_def list.rel_refl)

lemma extends_refl: "(\<And>x. R x x) \<Longrightarrow> extends R xs xs"
  by (simp add: extends_def list.rel_refl)

lemma extends_map: "(\<And>x. x \<in> set xs \<Longrightarrow> R x (f x)) \<Longrightarrow> extends R xs (map f xs)"
  by (simp add: extends_def list_all2_conv_all_nth)

lemma extends_nth: "extends R xs ys \<longleftrightarrow> length xs \<le> length ys \<and> (\<forall>i < length xs. R (xs ! i) (ys ! i))"
  by (auto simp: extends_def list_all2_conv_all_nth)

lemma extends_trans:
  assumes "extends R xs ys" "extends R ys zs" "\<And>x y z. R x y \<Longrightarrow> R y z \<Longrightarrow> R x z"
  shows "extends R xs zs"
  unfolding extends_nth
proof (intro conjI allI impI)
  show "length xs \<le> length zs" using assms(1,2) by (simp add: extends_nth)
  fix i assume i: "i < length xs"
  then have "R (xs ! i) (ys ! i)" "R (ys ! i) (zs ! i)" using assms(1,2) by (simp_all add: extends_nth)
  then show "R (xs ! i) (zs ! i)" by (rule assms(3))
qed

lemma same_row_refl: "same_wager r r" "same_wallet v v" "same_event e e"
  by (simp_all add: same_wager_def same_wallet_def same_event_def)

lemma same_row_trans:
  "same_wager r r2 \<Longrightarrow> same_wager r2 r3 \<Longrightarrow> same_wager r r3"
  "same_wallet v v2 \<Longrightarrow> same_wallet v2 v3 \<Longrightarrow> same_wallet v v3"
  "same_event e e2 \<Longrightarrow> same_event e2 e3 \<Longrightarrow> same_event e e3"
  by (force simp: same_wager_def, force simp: same_wallet_def, simp add: same_event_def)

lemma history_refl: "history db db"
  by (simp add: history_def extends_refl same_row_refl)

lemma history_trans: "\<lbrakk>history a b; history b c\<rbrakk> \<Longrightarrow> history a c"
  unfolding history_def by (elim conjE, intro conjI) (erule (1) extends_trans, blast intro: same_row_trans)+

lemma trigger_same_row:
  "prevent_wager_transaction_mutation r r' = None \<Longrightarrow> same_wager r r'"
  "enforce_wallet_update_rules v v' = None \<Longrightarrow> same_wallet v v'"
  "prevent_outbox_payload_mutation e e' = None \<Longrightarrow> same_event e e'"
  by (auto simp: prevent_wager_transaction_mutation_def same_wager_def enforce_wallet_update_rules_def same_wallet_def
      prevent_outbox_payload_mutation_def same_event_def split: if_splits)

lemma insert_extends:
  assumes "sql_insert oc vals checks indexes fks r rows = Inr (n, rows')" "\<And>x. R x x"
  shows "extends R rows rows'"
  using sql_insert_InrD [OF assms(1)] assms(2) extends_refl [of R] extends_append [of R] by auto

lemma update_extends:
  assumes "sql_update matching assign vals trigger checks indexes fks rows = Inr (n, rows')"
    "\<And>x. R x x" "\<And>x y. trigger x y = None \<Longrightarrow> R x y"
  shows "extends R rows rows'"
  unfolding sql_update_InrD(2) [OF assms(1)]
  using sql_update_InrD(3) [OF assms(1)] assms(2,3) by (intro extends_map) auto

lemma statement_history: "statement db db' \<Longrightarrow> history db db'"
proof (induction rule: statement.induct)
qed (auto simp: insert_wallet_def update_wallets_def insert_wager_def update_wagers_def insert_ledger_def insert_inbox_def
    update_inbox_def insert_outbox_def apsnd_map_sum_Inr history_def
    intro!: extends_refl same_row_refl
    elim!: insert_extends update_extends intro: trigger_same_row)

lemma statements_history: "statements db db' \<Longrightarrow> history db db'"
  by (induction rule: rtranclp_induct) (auto intro: history_refl history_trans statement_history)

text \<open>The outbox only grows, by unpublished events.\<close>

definition outbox_grows :: "DB \<Rightarrow> DB \<Rightarrow> bool" where
  "outbox_grows db db' \<longleftrightarrow>
     (\<exists>evs. outbox db' = outbox db @ evs \<and> list_all (\<lambda>e. ob_published_at e = None) evs)"

lemma statement_outbox_grows: "statement db db' \<Longrightarrow> outbox_grows db db'"
  by (induction rule: statement.induct)
    (auto simp: outbox_grows_def insert_wallet_def update_wallets_def insert_wager_def update_wagers_def
      insert_ledger_def insert_inbox_def update_inbox_def insert_outbox_def apsnd_map_sum_Inr dest: sql_insert_InrD)

lemma statements_outbox_grows: "statements db db' \<Longrightarrow> outbox_grows db db'"
proof (induction rule: rtranclp_induct)
  case (step db1 db2)
  with statement_outbox_grows [OF step(2)] show ?case
    by (auto simp: outbox_grows_def)
qed (simp add: outbox_grows_def)

text \<open>A completed message stays in the inbox as it is.\<close>

lemma update_keeps_row:
  "\<lbrakk>sql_update m f vals trigger checks indexes fks rows = Inr (n, rows'); r \<in> set rows; \<not> m r\<rbrakk> \<Longrightarrow> r \<in> set rows'"
  by (drule sql_update_InrD(2)) force

lemma statement_inbox:
  assumes "statement db db'" "r \<in> set (inbox db)" "ib_completed_at r \<noteq> None"
  shows "r \<in> set (inbox db')"
  using assms
proof (induction rule: statement.induct)
  case (insert_inbox r' db n db')
  then obtain rows where "db' = db\<lparr>inbox := rows\<rparr>"
    "sql_insert True inbox_values inbox_checks inbox_indexes [] r' (inbox db) = Inr (n, rows)"
    by (auto simp: insert_inbox_def apsnd_map_sum_Inr)
  then show ?case using sql_insert_InrD insert_inbox.prems(1) by fastforce
next
  case (update_inbox m f db n db')
  then obtain rows where "db' = db\<lparr>inbox := rows\<rparr>"
    "sql_update m f inbox_values (\<lambda>old new. None) inbox_checks inbox_indexes [] (inbox db) = Inr (n, rows)"
    by (auto simp: update_inbox_def apsnd_map_sum_Inr)
  moreover have "\<not> m r" using update_inbox by auto
  ultimately show ?case using update_keeps_row update_inbox.prems(1) by fastforce
qed (auto simp: insert_wallet_def update_wallets_def insert_wager_def update_wagers_def insert_ledger_def insert_outbox_def
    apsnd_map_sum_Inr)

lemma statements_inbox:
  "\<lbrakk>statements db db'; r \<in> set (inbox db); ib_completed_at r \<noteq> None\<rbrakk> \<Longrightarrow> r \<in> set (inbox db')"
  by (induction rule: rtranclp_induct) (auto intro: statement_inbox)

lemma statement_schema_ok: "\<lbrakk>statement db db'; schema_ok db\<rbrakk> \<Longrightarrow> schema_ok db'"
  by (induction rule: statement.induct) (auto intro: statement_schema)

lemma statements_schema_ok: "\<lbrakk>statements db db'; schema_ok db\<rbrakk> \<Longrightarrow> schema_ok db'"
  by (induction rule: rtranclp_induct) (auto intro: statement_schema_ok)

end
