(* ===== verification/Message_Handling.thy ===== *)
theory Message_Handling
  imports Sqs_Consumer Service_Correctness Effects
begin

text \<open>
  The handler of wager messages: it runs only statements, keeps the invariant of the database, and a
  message that was completed once never changes the database again.
\<close>

lemma any_context:
  fixes ctx :: Context
  obtains "ctx = background" | "ctx = tx_context"
  by (cases ctx; cases "in_tx ctx") auto

lemma effects_Process_any [effects]: "only_statements (Process E P ctx command md)"
  by (cases ctx rule: any_context) (auto intro: effects)

lemma effects_handle_body [effects]: "only_statements (handle_body E P m h ctx)"
  unfolding handle_body_def by (intro effects)

lemma effects_Handle [effects]: "only_statements (Handle E P allowed i body)"
  unfolding Handle_def by (intro effects) (auto split: sum.split intro!: effects)

section \<open>The invariant\<close>

lemma db_inv_inbox:
  assumes "insert_inbox r db = Inr (n, db') \<or> update_inbox m f db = Inr (n, db')" "db_inv E db"
  shows "db_inv E db'"
proof -
  have "\<exists>rows. db' = db\<lparr>inbox := rows\<rparr>"
    using assms(1) by (auto simp: insert_inbox_def update_inbox_def apsnd_map_sum_Inr)
  moreover have "schema_ok db'" using assms insert_inbox_schema update_inbox_schema by (metis db_inv_def)
  ultimately show ?thesis
    using assms(2) by (auto simp: db_inv_def rows_ok_def ledger_inv_def movement_inv_def wallet_entries_def)
qed

lemmas db_inv_insert_inbox = db_inv_inbox [OF disjI1] and db_inv_update_inbox = db_inv_inbox [OF disjI2]

text \<open>What registering a message does, with any result.\<close>

lemma Register_effect:
  assumes "InboxRepository_Register E ctx c i h w = (x, w')"
  shows "w_db w' = w_db w \<or> (\<exists>r n. insert_inbox r (w_db w) = Inr (n, w_db w'))"
proof -
  obtain y v where y: "request E ctx (\<lambda>now clk. insert_inbox \<lparr>ib_consumer_name = c, ib_message_id = i,
      ib_message_hash = h, ib_received_at = now, ib_completed_at = None\<rparr>) w = (y, v)" by (metis surj_pair)
  have "w_db v = w_db w \<or> (\<exists>r n. insert_inbox r (w_db w) = Inr (n, w_db v))"
    using y by (auto simp: request_def Let_def split: if_splits reply.splits sum.splits)
  moreover have "w_db w' = w_db v"
  proof -
    have q: "w_db u' = w_db u" if "query_row_text E ctx ts q u = (z, u')" for ts and q :: "DB \<Rightarrow> inbox_row option" and u z u'
      using query_row_text_db [OF that] .
    show ?thesis
      using assms y by (auto simp: InboxRepository_Register_def bind_act_def match_act_def throw_def ret_def
          split: sum.splits if_splits prod.splits dest: q)
  qed
  ultimately show ?thesis by simp
qed

lemma Register_inv:
  "\<lbrakk>InboxRepository_Register E ctx c i h w = (x, w'); db_inv E (w_db w)\<rbrakk> \<Longrightarrow> db_inv E (w_db w')"
  by (drule Register_effect) (auto intro: db_inv_insert_inbox)

lemma Complete_effect:
  assumes "InboxRepository_Complete E ctx c i t w = (Inr u, w')"
  shows "update_inbox (\<lambda>r. ib_consumer_name r = c \<and> ib_message_id r = i \<and> ib_completed_at r = None)
    (\<lambda>r. r\<lparr>ib_completed_at := Some t\<rparr>) (w_db w) = Inr (1, w_db w')"
proof -
  obtain n v where n: "exec_stmt E ctx (update_inbox (\<lambda>r. ib_consumer_name r = c \<and> ib_message_id r = i \<and> ib_completed_at r = None)
      (\<lambda>r. r\<lparr>ib_completed_at := Some t\<rparr>)) w = (Inr n, v)" "(if n \<noteq> 1 then throw (AppErr ErrInboxMessageNotFound) else ret ()) v = (Inr u, w')"
    using assms unfolding InboxRepository_Complete_def bind_act_Inr by blast
  then have "n = 1" "v = w'" by (auto split: if_splits)
  then show ?thesis using exec_stmt_Inr [OF n(1)] by auto
qed

abbreviation message_metadata :: "WagerMessageEnvelope \<Rightarrow> CommandMetadata" where
  "message_metadata m \<equiv> \<lparr>CorrelationID = me_MessageID m, CausationID = me_MessageID m\<rparr>"

lemma handle_body_Inr:
  assumes "handle_body E P m h ctx w = (Inr a, w')"
  obtains (duplicate) "InboxRepository_Register E ctx wagerConsumerName (me_MessageID m) h w = (Inr True, w')" "a = None"
  | (new) v res v2 t v3 where "InboxRepository_Register E ctx wagerConsumerName (me_MessageID m) h w = (Inr False, v)"
      "Process E P ctx (wagerMessageToCommand (me_Data m)) (message_metadata m) v = (Inr res, v2)"
      "Clock_Now E ctx v2 = (Inr t, v3)" "InboxRepository_Complete E ctx wagerConsumerName (me_MessageID m) t v3 = (Inr (), w')"
      "a = Some res"
proof -
  obtain d v where r: "InboxRepository_Register E ctx wagerConsumerName (me_MessageID m) h w = (Inr d, v)"
    and k: "(if d then ret None
      else bind_act (Process E P ctx (wagerMessageToCommand (me_Data m)) (message_metadata m)) (\<lambda>result.
       bind_act (Clock_Now E ctx) (\<lambda>now.
       bind_act (InboxRepository_Complete E ctx wagerConsumerName (me_MessageID m) now) (\<lambda>_.
       ret (Some result))))) v = (Inr a, w')"
    using assms unfolding handle_body_def
    by (subst (asm) bind_act_Inr) (elim exE conjE, rule that)
  show thesis
  proof (cases d)
    case True
    then show ?thesis using r k duplicate by simp
  next
    case False
    then obtain res v2 t v3 where "Process E P ctx (wagerMessageToCommand (me_Data m)) (message_metadata m) v = (Inr res, v2)"
      "Clock_Now E ctx v2 = (Inr t, v3)" "InboxRepository_Complete E ctx wagerConsumerName (me_MessageID m) t v3 = (Inr (), w')"
      "a = Some res" using k by (auto simp: bind_act_Inr)
    with False r new show ?thesis by simp
  qed
qed

lemma Process_nested_Inr:
  assumes "Process E P tx_context command md w = (Inr res, w')"
  obtains req where "parseWagerRequest E command = Inr req" "process_body E P req md tx_context w = (Inr res, w')"
  using assms that by (auto simp: Process_def in_transaction_nested split: if_splits sum.splits)

context runtime
begin

lemma handle_body_inv:
  assumes "handle_body E P m h tx_context w = (Inr a, w')" "db_inv E (w_db w)"
  shows "db_inv E (w_db w')"
  using assms(1)
proof (cases rule: handle_body_Inr)
  case duplicate
  then show ?thesis using Register_inv [OF duplicate(1) assms(2)] by simp
next
  case (new v res v2 t v3)
  have iv: "db_inv E (w_db v)" using Register_inv [OF new(1) assms(2)] .
  obtain req where req: "parseWagerRequest E (wagerMessageToCommand (me_Data m)) = Inr req"
    "process_body E P req (message_metadata m) tx_context v = (Inr res, v2)"
    using Process_nested_Inr [OF new(2)] .
  have "db_inv E (w_db v2)" using process_body_inv [OF req(2) iv parsed_amount_ok [OF req(1)]] .
  moreover have "w_db v3 = w_db v2" using Clock_Now_Inr [OF new(3)] by simp
  ultimately show ?thesis by (intro db_inv_update_inbox [OF Complete_effect [OF new(4)]]) simp
qed

lemma handle_unit_of_work: "unit_of_work (db_inv E) (closure_of (handle_body E P m h))"
  by unfold_locales (use handle_body_inv in \<open>auto simp: closure_of_eq\<close>)

end

sublocale runtime \<subseteq> handle_work: unit_of_work "db_inv E" "closure_of (handle_body E P m h)" for P m h
  by (rule handle_unit_of_work)

context runtime
begin

lemma Handle_inv:
  assumes "Handle E P allowed i body w = (x, w')" "db_inv E (w_db w)"
  shows "db_inv E (w_db w')"
proof (cases "in_transaction E background (handle_body E P (projr (parseWagerMessage body)) (hashMessage body)) w")
  case (Pair y v)
  have "w_db w' = w_db w \<or> w' = v"
    using assms(1) Pair by (auto simp: Handle_def throw_def bind_act_def ret_def split: if_splits sum.splits)
  moreover have "db_inv E (w_db v)"
    using Pair handle_work.within_keeps assms(2) by (auto simp: in_transaction_def split: prod.splits)
  ultimately show ?thesis using assms(2) by auto
qed

end

section \<open>Completed messages\<close>

definition inbox_row_for :: "string \<Rightarrow> inbox_row \<Rightarrow> bool" where
  "inbox_row_for i r \<longleftrightarrow> ib_consumer_name r = wagerConsumerName \<and> ib_message_id r = i"

definition completed :: "string \<Rightarrow> DB \<Rightarrow> bool" where
  "completed i db \<longleftrightarrow> (\<exists>r \<in> set (inbox db). inbox_row_for i r \<and> ib_completed_at r \<noteq> None)"

lemma inbox_row_unique:
  assumes "schema_ok db" "r \<in> set (inbox db)" "r' \<in> set (inbox db)" "inbox_row_for i r" "inbox_row_for i r'"
  shows "r = r'"
  using assms unique_indexD [of "\<lambda>r. True" "\<lambda>r. (ib_consumer_name r, ib_message_id r)" "inbox db" r r']
  by (simp add: schema_ok_def table_ok_def inbox_indexes_def inbox_row_for_def)

lemma insert_known_message:
  assumes "insert_inbox r db = Inr (n, db')" "r' \<in> set (inbox db)" "inbox_row_for i r'" "inbox_row_for i r"
  shows "n = 0 \<and> db' = db"
proof -
  have "\<not> unique_index (\<lambda>r. True) (\<lambda>r. (ib_consumer_name r, ib_message_id r)) (inbox db @ [r])"
    using assms(2-4) by (force simp: unique_index_def inbox_row_for_def)
  then have "first_failing inbox_indexes (inbox db @ [r]) \<noteq> None"
    by (simp add: first_failing_None inbox_indexes_def)
  then show ?thesis
    using assms(1) by (auto simp: insert_inbox_def sql_insert_def Let_def split: option.splits)
qed

lemma find_message:
  assumes "schema_ok db" "r \<in> set (inbox db)" "inbox_row_for i r"
  shows "find (\<lambda>r. ib_consumer_name r = wagerConsumerName \<and> ib_message_id r = i) (inbox db) = Some r"
proof -
  have "find (\<lambda>r. ib_consumer_name r = wagerConsumerName \<and> ib_message_id r = i) (inbox db) \<noteq> None"
    using assms(2,3) by (auto simp: find_None_iff inbox_row_for_def)
  then obtain r' where r': "find (\<lambda>r. ib_consumer_name r = wagerConsumerName \<and> ib_message_id r = i) (inbox db) = Some r'" by auto
  then have "r' \<in> set (inbox db)" "inbox_row_for i r'"
    by (auto simp: find_Some_iff inbox_row_for_def)
  then show ?thesis using inbox_row_unique [OF assms(1)] assms(2,3) r' by blast
qed

text \<open>Registering a message that has a row finds that row, whatever the answers.\<close>

lemma Register_known:
  assumes "InboxRepository_Register E ctx wagerConsumerName i h w = (x, w')" "schema_ok (w_db w)"
    "r \<in> set (inbox (w_db w))" "inbox_row_for i r"
  shows "w_db w' = w_db w \<and> (\<forall>b. x = Inr b \<longrightarrow> b = (ib_completed_at r \<noteq> None) \<and> ib_message_hash r = h)"
proof -
  let ?new = "\<lambda>now. \<lparr>ib_consumer_name = wagerConsumerName, ib_message_id = i, ib_message_hash = h, ib_received_at = now,
    ib_completed_at = None\<rparr>"
  obtain y v where y: "request E ctx (\<lambda>now clk. insert_inbox (?new now)) w = (y, v)" by (metis surj_pair)
  have k: "insert_inbox (?new now) (w_db w) = Inr (n, db') \<Longrightarrow> n = 0 \<and> db' = w_db w" for now n db'
    by (rule insert_known_message [OF _ assms(3,4)]) (auto simp: inbox_row_for_def)
  have v: "w_db v = w_db w" "y = Inr n \<Longrightarrow> n = 0" for n
    using y by (auto simp: request_def Let_def dest: k split: if_splits reply.splits sum.splits)
  show ?thesis
  proof (cases y)
    case (Inl e)
    then show ?thesis using assms(1) y v(1) by (auto simp: InboxRepository_Register_def bind_act_def)
  next
    case (Inr n)
    obtain z u where z: "query_row_text E ctx [wagerConsumerName, i]
      (\<lambda>db. find (\<lambda>r. ib_consumer_name r = wagerConsumerName \<and> ib_message_id r = i) (inbox db)) v = (z, u)" by (metis surj_pair)
    have u: "w_db u = w_db w" using query_row_text_db [OF z] v(1) by simp
    have f: "r' = r" if "z = Inr r'" for r'
      using query_row_text_Inr [OF z [unfolded that]] find_message [OF assms(2-4)] v(1) by simp
    show ?thesis
      using assms(1) y z u f Inr v(2) [OF Inr]
      by (auto simp: InboxRepository_Register_def bind_act_def match_act_def throw_def ret_def split: sum.splits if_splits)
  qed
qed

lemma handle_body_known:
  assumes "handle_body E P m h ctx w = (x, w')" "schema_ok (w_db w)" "completed (me_MessageID m) (w_db w)"
  shows "w_db w' = w_db w"
proof -
  obtain r where r: "r \<in> set (inbox (w_db w))" "inbox_row_for (me_MessageID m) r" "ib_completed_at r \<noteq> None"
    using assms(3) by (auto simp: completed_def)
  obtain y v where y: "InboxRepository_Register E ctx wagerConsumerName (me_MessageID m) h w = (y, v)" by (metis surj_pair)
  note k = Register_known [OF y assms(2) r(1,2)]
  show ?thesis
  proof (cases y)
    case (Inr b)
    then have "w' = v" using assms(1) y k r(3) by (simp add: handle_body_def bind_act_def ret_def)
    then show ?thesis using k by simp
  qed (use assms(1) y k in \<open>simp add: handle_body_def bind_act_def\<close>)
qed

lemma in_transaction_same:
  assumes "in_transaction E background m w = (x, w')"
    "\<And>v y v'. \<lbrakk>w_db v = w_db w; m tx_context v = (y, v')\<rbrakk> \<Longrightarrow> w_db v' = w_db w"
  shows "w_db w' = w_db w"
proof (cases x)
  case (Inr a)
  then obtain v v' where "w_db v = w_db w" "m tx_context v = (Inr a, v')" "w_db w' = w_db v'"
    using within_InrD assms(1) by metis
  then show ?thesis using assms(2) by metis
next
  case (Inl e)
  obtain y c where "WithinTransaction E background (closure_of m) () w = ((Inl e, c), w')"
    using assms(1) Inl by (auto simp: in_transaction_def split: prod.splits)
  from WithinTransaction_InlD [OF this] show ?thesis using assms(2) by (metis closure_of_eq)
qed

lemma completed_statements: "\<lbrakk>statements db db'; completed i db\<rbrakk> \<Longrightarrow> completed i db'"
  unfolding completed_def using statements_inbox by blast

lemma Complete_completes:
  assumes "InboxRepository_Complete E ctx wagerConsumerName i t w = (Inr u, w')"
  shows "completed i (w_db w')"
proof -
  let ?m = "\<lambda>r. ib_consumer_name r = wagerConsumerName \<and> ib_message_id r = i \<and> ib_completed_at r = None"
  let ?f = "\<lambda>r. r\<lparr>ib_completed_at := Some t\<rparr>"
  obtain rows where rows: "w_db w' = (w_db w)\<lparr>inbox := rows\<rparr>"
    and u: "sql_update ?m ?f inbox_values (\<lambda>old new. None) inbox_checks inbox_indexes [] (inbox (w_db w)) = Inr (1, rows)"
    using Complete_effect [OF assms] by (auto simp: update_inbox_def apsnd_map_sum_Inr)
  have "filter ?m (inbox (w_db w)) \<noteq> []" using sql_update_InrD(1) [OF u] by auto
  then obtain r where "r \<in> set (inbox (w_db w))" "?m r" by (auto simp: filter_empty_conv)
  then have "?f r \<in> set rows" unfolding sql_update_InrD(2) [OF u] by force
  moreover have "inbox_row_for i (?f r)" using \<open>?m r\<close> by (simp add: inbox_row_for_def)
  ultimately show ?thesis unfolding completed_def rows by (intro bexI [of _ "?f r"]) simp_all
qed

lemma Register_True:
  assumes "InboxRepository_Register E ctx wagerConsumerName i h w = (Inr True, w')"
  shows "completed i (w_db w')"
proof -
  obtain y v where "request E ctx (\<lambda>now clk. insert_inbox \<lparr>ib_consumer_name = wagerConsumerName, ib_message_id = i,
      ib_message_hash = h, ib_received_at = now, ib_completed_at = None\<rparr>) w = (y, v)" by (metis surj_pair)
  then obtain r where q: "query_row_text E ctx [wagerConsumerName, i]
      (\<lambda>db. find (\<lambda>r. ib_consumer_name r = wagerConsumerName \<and> ib_message_id r = i) (inbox db)) v = (Inr r, w')"
    "ib_completed_at r \<noteq> None"
    using assms by (auto simp: InboxRepository_Register_def bind_act_def match_act_def throw_def ret_def
        split: sum.splits if_splits prod.splits)
  note f = query_row_text_Inr [OF q(1)]
  then have "find (\<lambda>r. ib_consumer_name r = wagerConsumerName \<and> ib_message_id r = i) (inbox (w_db w')) = Some r" by simp
  then have "r \<in> set (inbox (w_db w'))" "inbox_row_for i r" by (auto simp: find_Some_iff inbox_row_for_def)
  then show ?thesis using q(2) by (auto simp: completed_def)
qed

text \<open>What a handled message leaves behind.\<close>

lemma Handle_Inr:
  assumes "Handle E P allowed tid body w = (Inr u, w')"
  obtains m where "parseWagerMessage body = Inr m" "md_ProviderID (me_Data m) \<in> set allowed"
    "completed (me_MessageID m) (w_db w')"
proof -
  obtain m where m: "parseWagerMessage body = Inr m" "md_ProviderID (me_Data m) \<in> set allowed"
    "bind_act (in_transaction E background (handle_body E P m (hashMessage body))) (\<lambda>_. ret ()) w = (Inr u, w')"
    using assms by (auto simp: Handle_def split: if_splits sum.splits)
  obtain a where "in_transaction E background (handle_body E P m (hashMessage body)) w = (Inr a, w')"
    using m(3) by (auto simp: bind_act_Inr)
  then obtain v v' where b: "handle_body E P m (hashMessage body) tx_context v = (Inr a, v')" "w_db w' = w_db v'"
    using within_InrD by metis
  from b(1) have "completed (me_MessageID m) (w_db v')"
    by (cases rule: handle_body_Inr) (auto dest: Register_True Complete_completes)
  then show ?thesis using that m b by simp
qed

lemma Handle_known:
  assumes "Handle E P allowed tid body w = (x, w')" "parseWagerMessage body = Inr m"
    "schema_ok (w_db w)" "completed (me_MessageID m) (w_db w)"
  shows "w_db w' = w_db w"
proof -
  obtain y v where y: "in_transaction E background (handle_body E P m (hashMessage body)) w = (y, v)" by (metis surj_pair)
  have "w_db v = w_db w"
  proof (rule in_transaction_same [OF y])
    fix u z u' assume "w_db u = w_db w" "handle_body E P m (hashMessage body) tx_context u = (z, u')"
    then show "w_db u' = w_db w" using handle_body_known assms(3,4) by metis
  qed
  then show ?thesis
    using assms(1,2) y by (auto simp: Handle_def throw_def bind_act_def ret_def split: if_splits sum.splits)
qed

end
