(* ===== verification/System.thy ===== *)
theory System
  imports Event_Correctness Message_Handling
begin

text \<open>
  The program as a whole: from an empty database, any sequence of commands, wallet creations,
  messages and retries of pending references, in any order, with any answers of the database. The properties
  here hold in every state the system can reach.
\<close>

inductive service_step :: "'d Env \<Rightarrow> ReferenceRetryPolicy \<Rightarrow> World \<Rightarrow> World \<Rightarrow> bool" for E P where
  process: "Process E P background command md w = (x, w') \<Longrightarrow> service_step E P w w'"
| create: "WalletService_Create E background ccommand md w = (y, w') \<Longrightarrow> service_step E P w w'"
| handle: "Handle E P allowed tid body w = (u, w') \<Longrightarrow> service_step E P w w'"
| retry: "RetryNextPendingReference E P background w = (z, w') \<Longrightarrow> service_step E P w w'"

inductive reachable_world :: "'d Env \<Rightarrow> ReferenceRetryPolicy \<Rightarrow> World \<Rightarrow> bool" for E P where
  start: "w_db w = empty_db \<Longrightarrow> reachable_world E P w"
| step: "\<lbrakk>reachable_world E P w; service_step E P w w'\<rbrakk> \<Longrightarrow> reachable_world E P w'"

inductive_cases service_stepE: "service_step E P w w'"

lemma empty_db_inv: "db_inv E empty_db"
  by (simp add: db_inv_def empty_db_def schema_ok_def table_ok_def rows_ok_def ledger_inv_def movement_inv_def
      wallet_indexes_def wager_indexes_def ledger_indexes_def inbox_indexes_def outbox_indexes_def unique_index_def)

lemma service_step_statements: "service_step E P w w' \<Longrightarrow> statements (w_db w) (w_db w')"
  by (erule service_stepE)
    (auto intro: only_statementsD [OF effects_Process] only_statementsD [OF effects_Create]
      only_statementsD [OF effects_Handle] effects_Retry)

lemma service_steps_history: "(service_step E P)\<^sup>*\<^sup>* w w' \<Longrightarrow> history (w_db w) (w_db w')"
  by (induction rule: rtranclp_induct)
    (auto intro: history_refl history_trans statements_history service_step_statements)

context runtime
begin

lemma service_step_inv: "\<lbrakk>service_step E P w w'; db_inv E (w_db w)\<rbrakk> \<Longrightarrow> db_inv E (w_db w')"
  by (erule service_stepE) (auto intro: Process_inv WalletService_Create_keeps Handle_inv RetryNextPendingReference_inv)

lemma reachable_inv: "reachable_world E P w \<Longrightarrow> db_inv E (w_db w)"
  by (induction rule: reachable_world.induct) (auto intro: service_step_inv simp: empty_db_inv)

end

text \<open>A wallet the services created in an empty database.\<close>

definition demo_created :: World where
  "demo_created = snd (WalletService_Create demo_env background demo_create demo_metadata (demo_world\<lparr>w_db := empty_db\<rparr>))"

lemma demo_created_reachable: "reachable_world demo_env DefaultReferenceRetryPolicy demo_created"
  unfolding demo_created_def
  by (rule reachable_world.step [OF reachable_world.start service_step.create [OF prod.collapse [symmetric]]]) simp

lemma demo_created_wallet: "map wr_balance (wallets (w_db demo_created)) = [0]"
  by code_simp

section \<open>Invariants of every reachable state\<close>

context runtime
begin

lemma reachable_balance:
  assumes "reachable_world E P w" "r \<in> set (wallets (w_db w))"
  shows "0 \<le> wr_balance r \<and> wr_balance r = entries_sum (wallet_entries (wr_id r) (w_db w)) \<and> (\<exists>wal. scanWallet E r = Inr wal)"
proof -
  have i: "db_inv E (w_db w)" using reachable_inv [OF assms(1)] .
  then have "0 \<le> wr_balance r"
    using assms(2) by (auto simp: db_inv_def schema_ok_def table_ok_def list_all_iff wallet_checks_def)
  then show ?thesis using i assms(2) by (simp add: db_inv_def ledger_inv_def rows_ok_def)
qed

lemma entry_unique:
  assumes "schema_ok db" "l \<in> set (ledger db)" "l' \<in> set (ledger db)" "lr_transaction_id l' = lr_transaction_id l"
  shows "l' = l"
proof -
  obtain t where t: "t \<in> set (wagers db)" "wg_id t = lr_transaction_id l" "wg_wallet_id t = lr_wallet_id l"
    using schema_ledger_wager [OF assms(1,2)] .
  obtain t' where t': "t' \<in> set (wagers db)" "wg_id t' = lr_transaction_id l'" "wg_wallet_id t' = lr_wallet_id l'"
    using schema_ledger_wager [OF assms(1,3)] .
  have "t' = t" using schema_wager_unique [OF assms(1) t'(1) t(1)] t t' assms(4) by simp
  then have "(lr_wallet_id l', lr_transaction_id l') = (lr_wallet_id l, lr_transaction_id l)" using t t' assms(4) by simp
  then show ?thesis
    using assms unique_indexD [of "\<lambda>r. True" "\<lambda>r. (lr_wallet_id r, lr_transaction_id r)" "ledger db" l' l]
    by (simp add: schema_ok_def table_ok_def ledger_indexes_def)
qed

lemma reachable_entry:
  assumes "reachable_world E P w" "x \<in> set (wagers (w_db w))"
  shows "if moved x
    then \<exists>l \<in> set (ledger (w_db w)). entry_of x l \<and>
       lr_balance_after l = lr_balance_before l + signed (lr_direction l) (lr_amount l) \<and>
       (\<forall>l' \<in> set (ledger (w_db w)). lr_transaction_id l' = wg_id x \<longrightarrow> l' = l)
    else \<forall>l \<in> set (ledger (w_db w)). lr_transaction_id l \<noteq> wg_id x"
proof (cases "moved x")
  case True
  have i: "db_inv E (w_db w)" using reachable_inv [OF assms(1)] .
  then have "\<exists>l \<in> set (ledger (w_db w)). entry_of x l"
    using assms(2) True by (simp add: db_inv_def movement_inv_def)
  then obtain l where l: "l \<in> set (ledger (w_db w))" "entry_of x l" ..
  have s: "schema_ok (w_db w)" using i by (simp add: db_inv_def)
  have "lr_balance_after l = lr_balance_before l + signed (lr_direction l) (lr_amount l)"
    using s l(1) by (auto simp: schema_ok_def table_ok_def list_all_iff ledger_checks_def)
  moreover have "lr_transaction_id l' = wg_id x \<Longrightarrow> l' = l" if "l' \<in> set (ledger (w_db w))" for l'
    using entry_unique [OF s l(1) that] l(2) by (simp add: entry_of_def)
  ultimately show ?thesis using True l by auto
next
  case False
  then show ?thesis using reachable_inv [OF assms(1)] assms(2) by (simp add: db_inv_def movement_inv_def)
qed

end

text \<open>
  C1: in every reachable state, whatever requests failed or lost their answers, the balance of
  every wallet is not negative, is to the hundredth the sum of the ledger entries of the wallet, and the
  row can be read back.
\<close>

theorem balance_is_ledger_sum:
  assumes "runtime E val" "reachable_world E P w" "r \<in> set (wallets (w_db w))"
  shows "0 \<le> wr_balance r \<and> wr_balance r = entries_sum (wallet_entries (wr_id r) (w_db w)) \<and> (\<exists>wal. scanWallet E r = Inr wal)"
  by (rule runtime.reachable_balance [OF assms])

theorem balance_is_ledger_sum_witness:
  "\<exists>r \<in> set (wallets (w_db demo_created)). wr_balance r = entries_sum (wallet_entries (wr_id r) (w_db demo_created))"
proof -
  obtain r where "r \<in> set (wallets (w_db demo_created))"
    using demo_created_wallet by (cases "wallets (w_db demo_created)") auto
  with balance_is_ledger_sum [OF demo.runtime_axioms demo_created_reachable] show ?thesis by blast
qed



text \<open>
  C6: history is immutable. Between any two states of the program no wallet, transaction, ledger entry
  or event disappears; the business fields of a transaction never change and a transaction in a final
  state does not change at all; the ledger only grows; a balance only changes with the version of its
  wallet, which never goes down; and the content of an event never changes.
\<close>

theorem history_immutable:
  assumes "(service_step E P)\<^sup>*\<^sup>* w w'"
  shows "history (w_db w) (w_db w')"
  by (rule service_steps_history [OF assms])

theorem history_immutable_witness:
  "history empty_db (w_db demo_created)"
proof -
  have "service_step demo_env DefaultReferenceRetryPolicy (demo_world\<lparr>w_db := empty_db\<rparr>) demo_created"
    unfolding demo_created_def by (rule service_step.create [OF prod.collapse [symmetric]])
  from history_immutable [OF r_into_rtranclp [of "service_step demo_env DefaultReferenceRetryPolicy", OF this]]
  show ?thesis by simp
qed

text \<open>
  C7: in every reachable state the identifiers that must be unique are: no two transactions of a provider
  share an external identifier or an idempotency key, no transaction is reversed twice, and no two
  wallets share their player and currency.
\<close>

theorem no_double_processing:
  assumes "runtime E val" "reachable_world E P w"
  shows "distinct (map (\<lambda>r. (wg_provider_id r, wg_external_transaction_id r)) (filter (\<lambda>r. wg_type r \<noteq> OPENING) (wagers (w_db w)))) \<and>
    distinct (map (\<lambda>r. (wg_provider_id r, wg_idempotency_key r)) (filter (\<lambda>r. wg_type r \<noteq> OPENING) (wagers (w_db w)))) \<and>
    distinct (map wg_reference_transaction_id (filter is_reversal (wagers (w_db w)))) \<and>
    distinct (map (\<lambda>r. (wr_player_id r, wr_currency r)) (wallets (w_db w)))"
proof -
  have s: "schema_ok (w_db w)" using runtime.reachable_inv [OF assms] by (simp add: db_inv_def)
  then have c: "list_all (\<lambda>r. chk_origin r \<and> chk_processed_reference r) (wagers (w_db w))"
    by (simp add: schema_ok_def table_ok_def wager_checks_def list_all_iff)
  have "wg_provider_id r \<noteq> None \<and> wg_external_transaction_id r \<noteq> None \<and> wg_idempotency_key r \<noteq> None"
    if "r \<in> set (wagers (w_db w))" "wg_type r \<noteq> OPENING" for r
    using c that by (auto simp: list_all_iff chk_origin_def not_blank_def split: option.splits)
  moreover have "wg_reference_transaction_id r \<noteq> None" if "r \<in> set (wagers (w_db w))" "is_reversal r" for r
    using c that by (auto simp: list_all_iff chk_processed_reference_def is_reversal_def)
  ultimately have f:
    "filter (\<lambda>r. wg_type r \<noteq> OPENING \<and> wg_provider_id r \<noteq> None \<and> wg_external_transaction_id r \<noteq> None) (wagers (w_db w)) =
       filter (\<lambda>r. wg_type r \<noteq> OPENING) (wagers (w_db w))"
    "filter (\<lambda>r. wg_type r \<noteq> OPENING \<and> wg_provider_id r \<noteq> None \<and> wg_idempotency_key r \<noteq> None) (wagers (w_db w)) =
       filter (\<lambda>r. wg_type r \<noteq> OPENING) (wagers (w_db w))"
    "filter (\<lambda>r. is_reversal r \<and> wg_reference_transaction_id r \<noteq> None) (wagers (w_db w)) = filter is_reversal (wagers (w_db w))"
    by (auto intro!: filter_cong)
  show ?thesis
    using s
    by (simp add: schema_ok_def table_ok_def wager_indexes_def wallet_indexes_def unique_index_def f del: not_None_eq)
qed

theorem no_double_processing_witness:
  "distinct (map (\<lambda>r. (wr_player_id r, wr_currency r)) (wallets (w_db demo_created)))"
  using no_double_processing [OF demo.runtime_axioms demo_created_reachable] by simp

end
