(* ===== verification/Outbox_Correctness.thy ===== *)
theory Outbox_Correctness
  imports Outbox_Dispatcher JSON_Correctness System
begin

text \<open>
  The delivery of events: what the dispatcher claims, sends and records, the schedule of its retries,
  and any number of dispatchers at work together, their requests interleaved with each other and with
  the services.
\<close>

section \<open>Retry delays\<close>

lemma outbox_delay_loop_doubles:
  "\<lbrakk>0 < d; d \<le> 300 * Second\<rbrakk> \<Longrightarrow>
     outbox_delay_loop a n d = min (d * 2 ^ nat (n - a)) (300 * Second)"
proof (induction a n d rule: outbox_delay_loop.induct)
  case (1 a n d)
  have mx: "maxOutboxRetryDelay = 300 * Second" by (simp add: maxOutboxRetryDelay_def)
  show ?case
  proof (cases "a < n")
    case True
    then have e: "nat (n - a) = Suc (nat (n - (a + 1)))" by linarith
    show ?thesis
    proof (cases "150 * Second \<le> d")
      case True
      have "d * 2 * 1 \<le> d * 2 * 2 ^ nat (n - (a + 1))" using "1.prems"(1) by (intro mult_left_mono) simp_all
      then have "300 * Second \<le> d * 2 ^ nat (n - a)" unfolding e power_Suc using True by (simp only: mult.assoc)
      then show ?thesis using \<open>a < n\<close> True by (simp add: outbox_delay_loop.simps [of a] mx)
    next
      case False
      have "wrap64 (d * 2) = d * 2" using False "1.prems" by (simp add: in_int64_def)
      then show ?thesis
        using "1.IH" [OF \<open>a < n\<close>] False "1.prems" \<open>a < n\<close> e by (simp add: outbox_delay_loop.simps [of a] mx)
    qed
  next
    case False
    then show ?thesis using "1.prems" by (simp add: outbox_delay_loop.simps [of a])
  qed
qed

lemma outbox_delay_closed:
  "policy_delay DefaultReferenceRetryPolicy n = outboxRetryDelay n \<and>
   outboxRetryDelay n = min (5 * 2 ^ nat (n - 1)) 300 * Second"
proof -
  let ?k = "(2::int) ^ nat (n - 1)"
  have "outboxRetryDelay n = min (5 * Second * ?k) (300 * Second)"
  proof (cases "n \<le> 1")
    case True
    then have "nat (n - 1) = 0" by linarith
    then show ?thesis using True by (simp add: outboxRetryDelay_def initialOutboxRetryDelay_def)
  qed (simp add: outboxRetryDelay_def initialOutboxRetryDelay_def outbox_delay_loop_doubles)
  moreover have "policy_delay DefaultReferenceRetryPolicy n = min (5 * Second * ?k) (300 * Second)"
    unfolding policy_delay_def DefaultReferenceRetryPolicy_def by (simp add: delay_loop_doubles)
  moreover have "min (5 * Second * ?k) (300 * Second) = min (5 * ?k) 300 * Second" by (simp add: min_def)
  ultimately show ?thesis by simp
qed

section \<open>What a request of the dispatcher does\<close>

lemma request_effect:
  "request E ctx f w = (r, w') \<Longrightarrow>
     w_calls w' = w_calls w \<and> (w_db w' = w_db w \<or> (\<exists>now clk a. f now clk (w_db w) = Inr (a, w_db w')))"
  by (auto simp: request_def Let_def split: if_splits reply.splits sum.splits)

lemma Clock_Now_effect: "Clock_Now E ctx w = (r, w') \<Longrightarrow> w_calls w' = w_calls w \<and> w_db w' = w_db w"
  unfolding Clock_Now_def by (drule request_effect) auto

text \<open>The assignments of the dispatcher leave the content of an event alone, and a published event as it is.\<close>

definition delivery :: "DB \<Rightarrow> DB \<Rightarrow> bool" where
  "delivery db db' \<longleftrightarrow>
     db' = db \<or>
     (\<exists>now r n wid t. r \<in> set (outbox db) \<and> claimable now r \<and>
        update_outbox (\<lambda>x. ob_event_id x = ob_event_id r) (claim_assign wid t) db = Inr (n, db')) \<or>
     (\<exists>i wid t n. update_outbox (claimed_by i wid)
        (\<lambda>r. r\<lparr>ob_next_attempt_at := t, ob_claimed_by := None, ob_claimed_until := None\<rparr>) db = Inr (n, db'))"

lemma claim_candidates_in: "claim_candidates now db = r # rs \<Longrightarrow> r \<in> set (outbox db) \<and> claimable now r"
proof -
  assume "claim_candidates now db = r # rs"
  then have "r \<in> set (claim_candidates now db)" by simp
  then show ?thesis by (simp add: claim_candidates_def)
qed

lemma claim_query_Inr:
  assumes "claim_query wid t now db = Inr (x, db')"
  shows "case x of None \<Rightarrow> claim_candidates now db = [] \<and> db' = db
    | Some r' \<Rightarrow> (\<exists>r rs n. claim_candidates now db = r # rs \<and> r' = claim_assign wid t r \<and>
        update_outbox (\<lambda>x. ob_event_id x = ob_event_id r) (claim_assign wid t) db = Inr (n, db'))"
  using assms by (auto simp: claim_query_def map_sum_Inr split: list.splits if_splits)

lemma claim_query_delivery:
  assumes "claim_query wid t now db = Inr (x, db')"
  shows "delivery db db'"
proof (cases x)
  case (Some r')
  then obtain r rs n where "claim_candidates now db = r # rs"
    "update_outbox (\<lambda>x. ob_event_id x = ob_event_id r) (claim_assign wid t) db = Inr (n, db')"
    using claim_query_Inr [OF assms] by auto
  then show ?thesis using claim_candidates_in unfolding delivery_def by blast
qed (use claim_query_Inr [OF assms] in \<open>simp add: delivery_def\<close>)

lemma ClaimPending_effect:
  assumes "ClaimPending E wid t w = (x, w')"
  shows "w_calls w' = w_calls w \<and> delivery (w_db w) (w_db w')"
proof -
  obtain y v where y: "request E background (\<lambda>now clk. claim_query wid t now) w = (y, v)" by (metis surj_pair)
  then have "w_calls w' = w_calls v" "w_db w' = w_db v"
    using assms by (auto simp: ClaimPending_def bind_act_def throw_def ret_def split: sum.splits option.splits)
  moreover have "delivery (w_db w) (w_db w)" by (simp add: delivery_def)
  ultimately show ?thesis using request_effect [OF y] claim_query_delivery by metis
qed

lemma exec_effect:
  "exec_stmt E ctx f w = (x, v) \<Longrightarrow> w_calls v = w_calls w \<and> (w_db v = w_db w \<or> (\<exists>n. f (w_db w) = Inr (n, w_db v)))"
  unfolding exec_stmt_def by (drule request_effect) auto

lemma ScheduleRetry_effect:
  assumes "ScheduleRetry E i wid t w = (x, w')"
  shows "w_calls w' = w_calls w \<and> delivery (w_db w) (w_db w')"
proof -
  obtain y v where y: "exec_stmt E background (update_outbox (claimed_by i wid)
     (\<lambda>r. r\<lparr>ob_next_attempt_at := t, ob_claimed_by := None, ob_claimed_until := None\<rparr>)) w = (y, v)" by (metis surj_pair)
  then have "w_calls w' = w_calls v" "w_db w' = w_db v"
    using assms by (auto simp: ScheduleRetry_def bind_act_def throw_def ret_def split: sum.splits if_splits)
  then show ?thesis using exec_effect [OF y] unfolding delivery_def by metis
qed

lemma MarkPublished_effect:
  assumes "MarkPublished E i wid t w = (x, w')"
  shows "w_calls w' = w_calls w \<and> (w_db w' = w_db w \<or>
    (\<exists>n. update_outbox (claimed_by i wid)
       (\<lambda>r. r\<lparr>ob_published_at := Some t, ob_claimed_by := None, ob_claimed_until := None\<rparr>) (w_db w) = Inr (n, w_db w')))"
proof -
  obtain y v where y: "exec_stmt E background (update_outbox (claimed_by i wid)
     (\<lambda>r. r\<lparr>ob_published_at := Some t, ob_claimed_by := None, ob_claimed_until := None\<rparr>)) w = (y, v)" by (metis surj_pair)
  then have "w_calls w' = w_calls v" "w_db w' = w_db v"
    using assms by (auto simp: MarkPublished_def bind_act_def throw_def ret_def split: sum.splits if_splits)
  then show ?thesis using exec_effect [OF y] by metis
qed

section \<open>Dispatchers at work together\<close>

text \<open>
  A dispatcher between two of its requests: what it holds in its local variables. \<open>worker_request\<close>
  is the next request of a dispatcher, in the order \<^verbatim>\<open>DispatchNext\<close> makes them.
\<close>

datatype phase =
    Idle
  | Timed time
  | Claimed PendingOutboxEvent
  | Sent PendingOutboxEvent
  | Stamped PendingOutboxEvent time
  | PublishFailed PendingOutboxEvent err
  | Rescheduling PendingOutboxEvent err time

fun worker_request :: "'d Env \<Rightarrow> string \<Rightarrow> string \<Rightarrow> phase \<Rightarrow> World \<Rightarrow> phase \<times> World" where
  "worker_request E q i Idle w =
     (case Clock_Now E background w of (Inl e, w') \<Rightarrow> (Idle, w') | (Inr now, w') \<Rightarrow> (Timed now, w'))"
| "worker_request E q i (Timed now) w =
     (case ClaimPending E i (now + outboxLeaseDuration) w of
        (Inl e, w') \<Rightarrow> (Idle, w') | (Inr ev, w') \<Rightarrow> (Claimed ev, w'))"
| "worker_request E q i (Claimed ev) w =
     (case OutboxPublisher_Publish E q ev w of
        (Inl e, w') \<Rightarrow> (PublishFailed ev e, w') | (Inr u, w') \<Rightarrow> (Sent ev, w'))"
| "worker_request E q i (Sent ev) w =
     (case Clock_Now E background w of (Inl e, w') \<Rightarrow> (Idle, w') | (Inr t, w') \<Rightarrow> (Stamped ev t, w'))"
| "worker_request E q i (Stamped ev t) w = (Idle, snd (MarkPublished E (po_EventID ev) i t w))"
| "worker_request E q i (PublishFailed ev e) w =
     (case Clock_Now E background w of
        (Inl e', w') \<Rightarrow> (Idle, w')
      | (Inr now, w') \<Rightarrow> (Rescheduling ev e (now + outboxRetryDelay (po_Attempts ev)), w'))"
| "worker_request E q i (Rescheduling ev e t) w = (Idle, snd (ScheduleRetry E (po_EventID ev) i t w))"

definition worker_run :: "'d Env \<Rightarrow> string \<Rightarrow> string \<Rightarrow> nat \<Rightarrow> World \<Rightarrow> phase \<times> World" where
  "worker_run E q i n w = ((\<lambda>(p, w). worker_request E q i p w) ^^ n) (Idle, w)"

lemma worker_run_simps [simp]:
  "worker_run E q i 0 w = (Idle, w)"
  "worker_run E q i (Suc n) w = (case worker_run E q i n w of (p, w') \<Rightarrow> worker_request E q i p w')"
  by (simp_all add: worker_run_def)

text \<open>
  The requests of a dispatcher are those of \<^verbatim>\<open>DispatchNext\<close>: a call of it makes between one and
  five requests and leaves the world as they do, with nothing held in between calls. So what is proved
  of interleaved requests holds of concurrent calls of \<^verbatim>\<open>DispatchNext\<close>.
\<close>

lemma DispatchNext_requests:
  "\<exists>n. 1 \<le> n \<and> n \<le> 5 \<and> worker_run E q i n w = (Idle, snd (DispatchNext E q i w))"
proof -
  obtain x w1 where c: "Clock_Now E background w = (x, w1)" by (metis surj_pair)
  show ?thesis
  proof (cases x)
    case (Inl e)
    then have "worker_run E q i 1 w = (Idle, snd (DispatchNext E q i w))" using c by (simp add: DispatchNext_def)
    then show ?thesis by (intro exI [of _ 1]) simp
  next
    case now: (Inr now)
    obtain y w2 where cl: "ClaimPending E i (now + outboxLeaseDuration) w1 = (y, w2)" by (metis surj_pair)
    show ?thesis
    proof (cases y)
      case (Inl e)
      then have "worker_run E q i 2 w = (Idle, snd (DispatchNext E q i w))"
        using c now cl by (simp add: DispatchNext_def numeral_2_eq_2)
      then show ?thesis by (intro exI [of _ 2]) simp
    next
      case ev: (Inr ev)
      obtain z w3 where p: "OutboxPublisher_Publish E q ev w2 = (z, w3)" by (metis surj_pair)
      obtain t w4 where c2: "Clock_Now E background w3 = (t, w4)" by (metis surj_pair)
      note d = DispatchNext_def handlePublishFailure_def
      show ?thesis
      proof (cases t)
        case (Inl e)
        then have "worker_run E q i 4 w = (Idle, snd (DispatchNext E q i w))"
          using c now cl ev p c2 by (simp add: d eval_nat_numeral split: sum.split)
        then show ?thesis by (intro exI [of _ 4]) simp
      next
        case (Inr u)
        then have "worker_run E q i 5 w = (Idle, snd (DispatchNext E q i w))"
          using c now cl ev p c2 by (simp add: d eval_nat_numeral split: sum.split prod.split)
        then show ?thesis by (intro exI [of _ 5]) simp
      qed
    qed
  qed
qed


text \<open>
  The whole node: the services and any number of dispatchers, named by their worker identifiers,
  share one world. A step is an operation of a service, one request of one dispatcher, or the crash
  of a dispatcher, which forgets what it held.
\<close>

type_synonym node = "World \<times> (string \<Rightarrow> phase)"

inductive node_step :: "'d Env \<Rightarrow> ReferenceRetryPolicy \<Rightarrow> string \<Rightarrow> node \<Rightarrow> node \<Rightarrow> bool" for E P q where
  worker: "worker_request E q i (ph i) w = (p, w') \<Longrightarrow> node_step E P q (w, ph) (w', ph(i := p))"
| crash: "node_step E P q (w, ph) (w, ph(i := Idle))"
| service: "service_step E P w w' \<Longrightarrow> node_step E P q (w, ph) (w', ph)"

inductive reachable_node :: "'d Env \<Rightarrow> ReferenceRetryPolicy \<Rightarrow> string \<Rightarrow> node \<Rightarrow> bool" for E P q where
  start: "w_db w = empty_db \<Longrightarrow> reachable_node E P q (w, \<lambda>i. Idle)"
| step: "\<lbrakk>reachable_node E P q s; node_step E P q s s'\<rbrakk> \<Longrightarrow> reachable_node E P q s'"

inductive_cases node_stepE: "node_step E P q s s'"

fun held :: "phase \<Rightarrow> PendingOutboxEvent option" where
  "held (Claimed ev) = Some ev"
| "held (Sent ev) = Some ev"
| "held (Stamped ev t) = Some ev"
| "held (PublishFailed ev e) = Some ev"
| "held (Rescheduling ev e t) = Some ev"
| "held _ = None"

fun was_sent :: "phase \<Rightarrow> bool" where
  "was_sent (Sent ev) = True"
| "was_sent (Stamped ev t) = True"
| "was_sent _ = False"

text \<open>A held event is one of the outbox.\<close>

definition stored :: "'d Env \<Rightarrow> string \<Rightarrow> PendingOutboxEvent \<Rightarrow> DB \<Rightarrow> bool" where
  "stored E q ev db \<longleftrightarrow>
     (\<exists>r \<in> set (outbox db). ob_event_id r = po_EventID ev \<and> outbox_message E q (pending_event r) = outbox_message E q ev)"

definition phase_ok :: "'d Env \<Rightarrow> string \<Rightarrow> World \<Rightarrow> phase \<Rightarrow> bool" where
  "phase_ok E q w p \<longleftrightarrow>
     (case held p of None \<Rightarrow> True
      | Some ev \<Rightarrow> stored E q ev (w_db w) \<and> (was_sent p \<longrightarrow> outbox_message E q ev \<in> set (w_calls w)))"

definition published_ok :: "'d Env \<Rightarrow> string \<Rightarrow> World \<Rightarrow> bool" where
  "published_ok E q w \<longleftrightarrow>
     (\<forall>r \<in> set (outbox (w_db w)). ob_published_at r \<noteq> None \<longrightarrow> outbox_message E q (pending_event r) \<in> set (w_calls w))"

definition node_inv :: "'d Env \<Rightarrow> string \<Rightarrow> node \<Rightarrow> bool" where
  "node_inv E q s \<longleftrightarrow> db_inv E (w_db (fst s)) \<and> published_ok E q (fst s) \<and> (\<forall>i. phase_ok E q (fst s) (snd s i))"

text \<open>How the outbox moves: events stay as they are, and only those of \<open>S\<close> become published.\<close>

definition evolves :: "uuid set \<Rightarrow> DB \<Rightarrow> DB \<Rightarrow> bool" where
  "evolves S db db' \<longleftrightarrow>
     (\<forall>r \<in> set (outbox db). \<exists>r' \<in> set (outbox db'). same_event r r') \<and>
     (\<forall>r' \<in> set (outbox db'). ob_published_at r' = None \<or>
        (\<exists>r \<in> set (outbox db). same_event r r' \<and> (ob_published_at r' = ob_published_at r \<or> ob_event_id r \<in> S)))"

lemma evolves_refl: "evolves S db db"
  using same_row_refl(3) by (auto simp: evolves_def)

lemma evolves_grows: "outbox_grows db db' \<Longrightarrow> evolves S db db'"
  using same_row_refl(3) by (fastforce simp: evolves_def outbox_grows_def list_all_iff)

lemma evolves_update:
  assumes "update_outbox m f db = Inr (n, db')"
    "\<And>r. \<lbrakk>r \<in> set (outbox db); m r\<rbrakk> \<Longrightarrow> ob_published_at (f r) = ob_published_at r \<or> ob_event_id r \<in> S"
  shows "evolves S db db'"
proof -
  obtain rows where rows: "db' = db\<lparr>outbox := rows\<rparr>"
    and u: "sql_update m f outbox_values prevent_outbox_payload_mutation outbox_checks outbox_indexes [] (outbox db) = Inr (n, rows)"
    using assms(1) by (auto simp: update_outbox_def apsnd_map_sum_Inr)
  have s: "same_event r (if m r then f r else r)" if "r \<in> set (outbox db)" for r
    using sql_update_InrD(3) [OF u that] trigger_same_row(3) same_row_refl(3) by auto
  have o: "set (outbox db') = (\<lambda>r. if m r then f r else r) ` set (outbox db)"
    unfolding rows by (simp add: sql_update_InrD(2) [OF u])
  show ?thesis unfolding evolves_def o
  proof (intro conjI ballI)
    fix r assume "r \<in> set (outbox db)"
    then show "\<exists>r' \<in> (\<lambda>r. if m r then f r else r) ` set (outbox db). same_event r r'" using s by blast
  next
    fix r' assume "r' \<in> (\<lambda>r. if m r then f r else r) ` set (outbox db)"
    then obtain r where r: "r \<in> set (outbox db)" "r' = (if m r then f r else r)" by blast
    have "ob_published_at r' = ob_published_at r \<or> ob_event_id r \<in> S" using r assms(2) by simp
    then show "ob_published_at r' = None \<or>
        (\<exists>r \<in> set (outbox db). same_event r r' \<and> (ob_published_at r' = ob_published_at r \<or> ob_event_id r \<in> S))"
      using r s by blast
  qed
qed

lemma delivery_evolves: "delivery db db' \<Longrightarrow> evolves S db db'"
  unfolding delivery_def
  by (elim disjE exE conjE) (auto intro: evolves_refl evolves_update simp: claim_assign_def)

lemma same_event_message: "same_event r r' \<Longrightarrow> outbox_message E q (pending_event r') = outbox_message E q (pending_event r)"
  by (simp add: same_event_def outbox_message_def buildOutboxMessage_def message_json_def pending_event_def)

lemma stored_evolves: "\<lbrakk>stored E q ev db; evolves S db db'\<rbrakk> \<Longrightarrow> stored E q ev db'"
  unfolding stored_def evolves_def by (metis same_event_def same_event_message)

lemma schema_event_unique:
  "\<lbrakk>schema_ok db; r \<in> set (outbox db); r' \<in> set (outbox db); ob_event_id r = ob_event_id r'\<rbrakk> \<Longrightarrow> r = r'"
  using unique_indexD [of "\<lambda>r. True" ob_event_id "outbox db" r r']
  by (simp add: schema_ok_def table_ok_def outbox_indexes_def)

lemma published_evolves:
  assumes "published_ok E q w" "evolves S (w_db w) (w_db w')" "schema_ok (w_db w')"
    "set (w_calls w) \<subseteq> set (w_calls w')"
    "\<And>j. j \<in> S \<Longrightarrow> \<exists>ev. po_EventID ev = j \<and> stored E q ev (w_db w') \<and> outbox_message E q ev \<in> set (w_calls w')"
  shows "published_ok E q w'"
  unfolding published_ok_def
proof (intro ballI impI)
  fix r' assume r': "r' \<in> set (outbox (w_db w'))" "ob_published_at r' \<noteq> None"
  then obtain r where r: "r \<in> set (outbox (w_db w))" "same_event r r'"
    "ob_published_at r' = ob_published_at r \<or> ob_event_id r \<in> S" using assms(2) by (auto simp: evolves_def)
  from r(3) show "outbox_message E q (pending_event r') \<in> set (w_calls w')"
  proof
    assume "ob_published_at r' = ob_published_at r"
    then have "outbox_message E q (pending_event r) \<in> set (w_calls w)"
      using assms(1) r(1) r'(2) by (simp add: published_ok_def)
    then show ?thesis unfolding same_event_message [OF r(2)] using assms(4) by blast
  next
    assume "ob_event_id r \<in> S"
    then obtain ev where e: "po_EventID ev = ob_event_id r" "stored E q ev (w_db w')"
      "outbox_message E q ev \<in> set (w_calls w')" using assms(5) by blast
    then obtain r0 where ev: "r0 \<in> set (outbox (w_db w'))" "ob_event_id r0 = po_EventID ev"
      "outbox_message E q (pending_event r0) = outbox_message E q ev" unfolding stored_def by blast
    have "r0 = r'" using schema_event_unique [OF assms(3) ev(1) r'(1)] ev(2) e(1) r(2) by (simp add: same_event_def)
    then show ?thesis using ev(3) e(3) by simp
  qed
qed

lemma phase_evolves:
  "\<lbrakk>phase_ok E q w p; evolves S (w_db w) (w_db w'); set (w_calls w) \<subseteq> set (w_calls w')\<rbrakk> \<Longrightarrow> phase_ok E q w' p"
  by (auto simp: phase_ok_def split: option.splits intro: stored_evolves)

lemma update_outbox_rows:
  "update_outbox m f db = Inr (n, db') \<Longrightarrow> db' = db\<lparr>outbox := map (\<lambda>r. if m r then f r else r) (outbox db)\<rparr>"
  by (auto simp: update_outbox_def apsnd_map_sum_Inr dest: sql_update_InrD(2))

lemma db_inv_update_outbox:
  assumes "update_outbox m f db = Inr (n, db')" "db_inv E db" shows "db_inv E db'"
  using assms update_outbox_schema [OF assms(1)] update_outbox_rows [OF assms(1)]
  by (simp add: db_inv_def rows_ok_def ledger_inv_def movement_inv_def wallet_entries_def)

lemma delivery_inv: "\<lbrakk>delivery db db'; db_inv E db\<rbrakk> \<Longrightarrow> db_inv E db'"
  unfolding delivery_def by (elim disjE exE conjE) (simp_all add: db_inv_update_outbox)

lemma service_step_calls: "service_step E P w w' \<Longrightarrow> w_calls w' = w_calls w"
  by (erule service_stepE)
    (auto dest: only_statementsD(2) [OF effects_Process] only_statementsD(2) [OF effects_Create]
      only_statementsD(2) [OF effects_Handle] effects_Retry(2))

text \<open>What a claim returns is a row of the outbox, as the claim left it.\<close>

lemma ClaimPending_row:
  assumes "ClaimPending E i t w = (Inr ev, w')"
  shows "\<exists>r rs n. claim_candidates (E_clock E (w_step w)) (w_db w) = r # rs \<and> ev = pending_event (claim_assign i t r) \<and>
    update_outbox (\<lambda>x. ob_event_id x = ob_event_id r) (claim_assign i t) (w_db w) = Inr (n, w_db w')"
proof -
  obtain x v where b: "request E background (\<lambda>now clk. claim_query i t now) w = (Inr x, v)"
    "(case x of None \<Rightarrow> throw (AppErr ErrNotFound) | Some r \<Rightarrow> ret (pending_event r)) v = (Inr ev, w')"
    using assms unfolding ClaimPending_def bind_act_Inr by blast
  then obtain r' where r': "x = Some r'" "ev = pending_event r'" "w' = v"
    by (cases x) (auto simp: throw_def ret_def)
  have "claim_query i t (E_clock E (w_step w)) (w_db w) = Inr (x, w_db v)" using request_Inr [OF b(1)] by auto
  from claim_query_Inr [OF this] show ?thesis using r' by auto
qed

lemma ClaimPending_stored:
  assumes "ClaimPending E i t w = (Inr ev, w')"
  shows "stored E q ev (w_db w')"
proof -
  obtain r rs n where c: "claim_candidates (E_clock E (w_step w)) (w_db w) = r # rs" "ev = pending_event (claim_assign i t r)"
    "update_outbox (\<lambda>x. ob_event_id x = ob_event_id r) (claim_assign i t) (w_db w) = Inr (n, w_db w')"
    using ClaimPending_row [OF assms] by blast
  have "r \<in> set (outbox (w_db w))" using claim_candidates_in [OF c(1)] by simp
  then have "claim_assign i t r \<in> set (outbox (w_db w'))" unfolding update_outbox_rows [OF c(3)] by force
  then show ?thesis unfolding stored_def c(2)
    by (rule bexI [rotated]) (simp add: claim_assign_def pending_event_def)
qed

lemma node_keeps:
  assumes "node_inv E q (w, ph)" "evolves S (w_db w) (w_db w')" "db_inv E (w_db w')" "set (w_calls w) \<subseteq> set (w_calls w')"
    "\<And>j. j \<in> S \<Longrightarrow> \<exists>ev. po_EventID ev = j \<and> stored E q ev (w_db w) \<and> outbox_message E q ev \<in> set (w_calls w)"
  shows "published_ok E q w' \<and> (\<forall>i. phase_ok E q w' (ph i))"
proof
  have i: "published_ok E q w" "\<forall>i. phase_ok E q w (ph i)" using assms(1) by (simp_all add: node_inv_def)
  have "schema_ok (w_db w')" using assms(3) by (simp add: db_inv_def)
  moreover have "\<exists>ev. po_EventID ev = j \<and> stored E q ev (w_db w') \<and> outbox_message E q ev \<in> set (w_calls w')" if "j \<in> S" for j
    using assms(5) [OF that] stored_evolves [OF _ assms(2)] assms(4) by blast
  ultimately show "published_ok E q w'" using published_evolves [OF i(1) assms(2) _ assms(4)] by blast
  show "\<forall>i. phase_ok E q w' (ph i)" using i(2) phase_evolves [OF _ assms(2,4)] by blast
qed

lemma node_keeps_phase:
  assumes "node_inv E q (w, ph)" "evolves S (w_db w) (w_db w')" "db_inv E (w_db w')" "set (w_calls w) \<subseteq> set (w_calls w')"
    "\<And>j. j \<in> S \<Longrightarrow> \<exists>ev. po_EventID ev = j \<and> stored E q ev (w_db w) \<and> outbox_message E q ev \<in> set (w_calls w)"
    "phase_ok E q w' p"
  shows "node_inv E q (w', ph(i := p))"
  using node_keeps [OF assms(1-5)] assms(3,6) by (simp add: node_inv_def)

lemma node_quiet:
  assumes "node_inv E q (w, ph)" "w_calls w' = w_calls w \<and> delivery (w_db w) (w_db w')" "phase_ok E q w' p"
  shows "node_inv E q (w', ph(i := p))"
proof (rule node_keeps_phase [OF assms(1) delivery_evolves [of _ _ "{}"] _ _ _ assms(3)])
  show "db_inv E (w_db w')" using assms(1,2) delivery_inv by (auto simp: node_inv_def)
qed (use assms(2) in auto)

lemma Clock_quiet: "Clock_Now E ctx w = (r, w') \<Longrightarrow> w_calls w' = w_calls w \<and> delivery (w_db w) (w_db w')"
  using Clock_Now_effect by (fastforce simp: delivery_def)

lemma phase_quiet:
  "\<lbrakk>node_inv E q (w, ph); w_calls w' = w_calls w \<and> delivery (w_db w) (w_db w')\<rbrakk> \<Longrightarrow> phase_ok E q w' (ph i)"
  using phase_evolves [OF _ delivery_evolves, of E q w "ph i" w'] by (simp add: node_inv_def)

lemma idle_ok [simp]: "phase_ok E q w Idle" "phase_ok E q w (Timed t)"
  by (simp_all add: phase_ok_def)

lemma same_phase: "\<lbrakk>phase_ok E q w p; held p = held p'; was_sent p' \<longrightarrow> was_sent p\<rbrakk> \<Longrightarrow> phase_ok E q w p'"
  by (auto simp: phase_ok_def split: option.splits)

lemma worker_publishes:
  assumes "node_inv E q (w, ph)" "ph i = Claimed ev" "OutboxPublisher_Publish E q ev w = (r, w')"
    "p = (case r of Inl e \<Rightarrow> PublishFailed ev e | Inr u \<Rightarrow> Sent ev)"
  shows "node_inv E q (w', ph(i := p))"
proof -
  have s: "w_db w' = w_db w" "set (w_calls w) \<subseteq> set (w_calls w')"
    "r = Inr u \<Longrightarrow> outbox_message E q ev \<in> set (w_calls w')" for u
    using sqs_request_cases [OF assms(3) [unfolded OutboxPublisher_Publish_def]] by (auto split: sum.splits)
  have "phase_ok E q w (ph i)" using assms(1) by (simp add: node_inv_def)
  then have "stored E q ev (w_db w')" using assms(2) s(1) by (simp add: phase_ok_def)
  then have "phase_ok E q w' p" using s(3) assms(4) by (auto simp: phase_ok_def split: sum.splits)
  moreover have "db_inv E (w_db w')" using assms(1) s(1) by (simp add: node_inv_def)
  ultimately show ?thesis
    by (intro node_keeps_phase [OF assms(1), of "{}"]) (simp_all add: s evolves_refl)
qed

lemma worker_marks:
  assumes "node_inv E q (w, ph)" "ph i = Stamped ev t" "MarkPublished E (po_EventID ev) i t w = (r, w')"
  shows "node_inv E q (w', ph(i := Idle))"
proof -
  note m = MarkPublished_effect [OF assms(3)]
  have "phase_ok E q w (ph i)" using assms(1) by (simp add: node_inv_def)
  then have ev: "stored E q ev (w_db w)" "outbox_message E q ev \<in> set (w_calls w)"
    using assms(2) by (simp_all add: phase_ok_def)
  have "evolves {po_EventID ev} (w_db w) (w_db w')"
    using m by (auto intro!: evolves_refl elim!: evolves_update simp: claimed_by_def)
  moreover have "db_inv E (w_db w')" using m assms(1) db_inv_update_outbox by (auto simp: node_inv_def)
  ultimately show ?thesis
    by (rule node_keeps_phase [OF assms(1)]) (use m ev in auto)
qed

lemma worker_keeps:
  assumes i: "node_inv E q (w, ph)" and s: "worker_request E q i (ph i) w = (p, w')"
  shows "node_inv E q (w', ph(i := p))"
proof (cases "ph i")
  case Idle
  obtain r v where c: "Clock_Now E background w = (r, v)" by (metis surj_pair)
  then have "w' = v" "phase_ok E q w' p" using s Idle by (auto split: sum.splits)
  then show ?thesis using node_quiet [OF i] Clock_quiet [OF c] by blast
next
  case (Timed now)
  obtain r v where c: "ClaimPending E i (now + outboxLeaseDuration) w = (r, v)" by (metis surj_pair)
  then have "w' = v" "phase_ok E q w' p" using s Timed ClaimPending_stored [of E i _ w] by (auto simp: phase_ok_def split: sum.splits)
  then show ?thesis using node_quiet [OF i] ClaimPending_effect [OF c] by blast
next
  case (Claimed ev)
  obtain r v where c: "OutboxPublisher_Publish E q ev w = (r, v)" by (metis surj_pair)
  have "p = (case r of Inl e \<Rightarrow> PublishFailed ev e | Inr u \<Rightarrow> Sent ev)" "w' = v"
    using s Claimed c by (auto split: sum.splits)
  then show ?thesis using worker_publishes [OF i Claimed c] by blast
next
  case (Sent ev)
  obtain r v where c: "Clock_Now E background w = (r, v)" by (metis surj_pair)
  note o = phase_quiet [OF i Clock_quiet [OF c], of i]
  have "w' = v" "phase_ok E q w' p" using s Sent c o by (auto intro: same_phase split: sum.splits)
  then show ?thesis using node_quiet [OF i] Clock_quiet [OF c] by blast
next
  case (Stamped ev t)
  obtain r v where c: "MarkPublished E (po_EventID ev) i t w = (r, v)" by (metis surj_pair)
  then show ?thesis using worker_marks [OF i Stamped c] s Stamped by simp
next
  case (PublishFailed ev e)
  obtain r v where c: "Clock_Now E background w = (r, v)" by (metis surj_pair)
  note o = phase_quiet [OF i Clock_quiet [OF c], of i]
  have "w' = v" "phase_ok E q w' p" using s PublishFailed c o by (auto intro: same_phase split: sum.splits)
  then show ?thesis using node_quiet [OF i] Clock_quiet [OF c] by blast
next
  case (Rescheduling ev e t)
  obtain r v where c: "ScheduleRetry E (po_EventID ev) i t w = (r, v)" by (metis surj_pair)
  then have "w' = v" "p = Idle" using s Rescheduling by auto
  then show ?thesis using node_quiet [OF i] ScheduleRetry_effect [OF c] by simp
qed

context runtime
begin

lemma node_step_inv:
  assumes "node_step E P q s s'" "node_inv E q s" shows "node_inv E q s'"
  using assms(1)
proof (cases rule: node_step.cases)
  case (worker i ph w p w')
  then show ?thesis using worker_keeps assms(2) by metis
next
  case (crash w ph i)
  then show ?thesis using assms(2) by (simp add: node_inv_def)
next
  case (service w w' ph)
  note o = statements_outbox_grows [OF service_step_statements [OF service(3)]]
  have "db_inv E (w_db w')" using service_step_inv [OF service(3)] assms(2) service by (simp add: node_inv_def)
  then have "published_ok E q w' \<and> (\<forall>i. phase_ok E q w' (ph i))"
    using node_keeps [OF _ evolves_grows [OF o], of E q ph "{}"] assms(2) service service_step_calls [OF service(3)] by simp
  with \<open>db_inv E (w_db w')\<close> show ?thesis using service by (simp add: node_inv_def)
qed

lemma reachable_node_inv: "reachable_node E P q s \<Longrightarrow> node_inv E q s"
proof (induction rule: reachable_node.induct)
  case (start w)
  then show ?case by (simp add: node_inv_def published_ok_def empty_db_inv) (simp add: empty_db_def)
qed (rule node_step_inv)

end

text \<open>
  C8: whatever operations of the services, requests of dispatchers and crashes follow each
  other, in any order and with any answers, an event marked published was sent, with its content, to the
  event queue; and the invariants of the database hold all along.
\<close>

theorem published_was_sent:
  assumes "runtime E val" "reachable_node E P q (w, ph)"
  shows "db_inv E (w_db w) \<and>
    (\<forall>r \<in> set (outbox (w_db w)). ob_published_at r \<noteq> None \<longrightarrow> outbox_message E q (pending_event r) \<in> set (w_calls w))"
  using runtime.reachable_node_inv [OF assms] by (simp add: node_inv_def published_ok_def)

theorem published_was_sent_witness:
  "db_inv demo_env (w_db (snd (worker_request demo_env ''events'' ''w1'' Idle demo_created)))"
proof -
  let ?w = "demo_world\<lparr>w_db := empty_db\<rparr>" and ?P = DefaultReferenceRetryPolicy
  have "reachable_node demo_env ?P ''events'' (?w, \<lambda>i. Idle)" by (rule reachable_node.start) simp
  then have "reachable_node demo_env ?P ''events'' (demo_created, \<lambda>i. Idle)"
    unfolding demo_created_def
    by (rule reachable_node.step [OF _ node_step.service [OF service_step.create [OF prod.collapse [symmetric]]]])
  then have "reachable_node demo_env ?P ''events'' (snd (worker_request demo_env ''events'' ''w1'' Idle demo_created),
      (\<lambda>i. Idle)(''w1'' := fst (worker_request demo_env ''events'' ''w1'' Idle demo_created)))"
    by (rule reachable_node.step) (rule node_step.worker, simp)
  from published_was_sent [OF demo.runtime_axioms this] show ?thesis by simp
qed

lemma update_keeps_published:
  assumes "update_outbox m f db = Inr (n, db')" "r \<in> set (outbox db)" "\<not> m r"
  shows "r \<in> set (outbox db')"
  unfolding update_outbox_rows [OF assms(1)] using assms(2,3) by force

lemma delivery_keeps_published:
  assumes "delivery db db'" "schema_ok db" "r \<in> set (outbox db)" "ob_published_at r \<noteq> None"
  shows "r \<in> set (outbox db')"
  using assms(1) unfolding delivery_def
proof (elim disjE exE conjE)
  fix now x n wid t assume x: "x \<in> set (outbox db)" "claimable now x"
    and u: "update_outbox (\<lambda>y. ob_event_id y = ob_event_id x) (claim_assign wid t) db = Inr (n, db')"
  have "ob_event_id r \<noteq> ob_event_id x"
    using schema_event_unique [OF assms(2,3) x(1)] x(2) assms(4) by (auto simp: claimable_def)
  then show ?thesis using update_keeps_published [OF u assms(3)] by simp
next
  fix i wid t n assume u: "update_outbox (claimed_by i wid)
    (\<lambda>r. r\<lparr>ob_next_attempt_at := t, ob_claimed_by := None, ob_claimed_until := None\<rparr>) db = Inr (n, db')"
  show ?thesis by (rule update_keeps_published [OF u assms(3)]) (use assms(4) in \<open>simp add: claimed_by_def\<close>)
qed (use assms(3) in simp)

lemma delivery_schema: "\<lbrakk>delivery db db'; schema_ok db\<rbrakk> \<Longrightarrow> schema_ok db'"
  unfolding delivery_def by (elim disjE exE conjE) (simp_all add: update_outbox_schema)

text \<open>The database after a request of a dispatcher.\<close>

definition keeps_row :: "outbox_row \<Rightarrow> World \<Rightarrow> bool" where
  "keeps_row r w \<longleftrightarrow> schema_ok (w_db w) \<and> r \<in> set (outbox (w_db w))"

lemma worker_keeps_published:
  assumes "worker_request E q i p w = (p', w')" "keeps_row r w" "ob_published_at r \<noteq> None"
  shows "keeps_row r w'"
proof -
  have k: "schema_ok (w_db w)" "r \<in> set (outbox (w_db w))" using assms(2) by (simp_all add: keeps_row_def)
  have d: "keeps_row r v" if "w_calls v = w_calls w \<and> delivery (w_db w) (w_db v)" for v
    using that delivery_keeps_published [OF _ k assms(3)] delivery_schema [OF _ k(1)] by (simp add: keeps_row_def)
  have c: "keeps_row r v" if "Clock_Now E background w = (x, v)" for x v using d Clock_quiet [OF that] by simp
  have cp: "keeps_row r v" if "ClaimPending E i t w = (x, v)" for x v t using d ClaimPending_effect [OF that] by simp
  have pu: "keeps_row r v" if "OutboxPublisher_Publish E q ev w = (x, v)" for x v ev
    using sqs_request_cases [OF that [unfolded OutboxPublisher_Publish_def]] assms(2) by (simp add: keeps_row_def)
  have mp: "keeps_row r (snd (MarkPublished E e i t w))" for e t
    using MarkPublished_effect [OF prod.collapse [symmetric], of E e i t w] assms(3)
      update_keeps_published [OF _ k(2)] update_outbox_schema [OF _ k(1)] k
    by (auto simp: keeps_row_def claimed_by_def)
  have sr: "keeps_row r (snd (ScheduleRetry E e i t w))" for e t
    using d ScheduleRetry_effect [OF prod.collapse [symmetric]] by blast
  show ?thesis
    by (cases p) (use assms(1) mp sr in \<open>auto split: prod.splits sum.splits dest: c cp pu\<close>)
qed

lemma node_step_keeps_published:
  assumes "node_step E P q s s'" "keeps_row r (fst s)" "ob_published_at r \<noteq> None"
  shows "keeps_row r (fst s')"
  using assms(1)
proof (cases rule: node_step.cases)
  case (worker i ph w p w')
  then show ?thesis using worker_keeps_published [OF worker(3)] assms(2,3) by simp
next
  case (service w w' ph)
  note st = service_step_statements [OF service(3)]
  show ?thesis
    using statements_outbox_grows [OF st] statements_schema_ok [OF st] service assms(2)
    by (auto simp: outbox_grows_def keeps_row_def)
qed (use assms(2) in simp)

lemma node_steps_keep_published:
  assumes "(node_step E P q)\<^sup>*\<^sup>* s s'" "keeps_row r (fst s)" "ob_published_at r \<noteq> None"
  shows "keeps_row r (fst s')"
  using assms by (induction rule: rtranclp_induct) (auto intro: node_step_keeps_published)

text \<open>
  C21: once an event is marked published, no step of the services or of a dispatcher
  changes its row again: it is never claimed, rescheduled or marked another time.
\<close>

theorem published_is_final:
  assumes "schema_ok (w_db w)" "(node_step E P q)\<^sup>*\<^sup>* (w, ph) (w', ph')"
    "r \<in> set (outbox (w_db w))" "ob_published_at r \<noteq> None"
  shows "r \<in> set (outbox (w_db w'))"
  using node_steps_keep_published [OF assms(2)] assms(1,3,4) by (simp add: keeps_row_def)

text \<open>An event of the wallet of 100.00, waiting in the outbox.\<close>

definition demo_event_row :: outbox_row where
  "demo_event_row =
     \<lparr>ob_event_id = 50, ob_event_type = ''Balance'', ob_aggregate_id = 7, ob_correlation_id = ''corr'',
      ob_causation_id = None, ob_version = 1, ob_payload = JObject [(''amount'', JString ''100.00'')],
      ob_occurred_at = 1000, ob_attempts = 0, ob_next_attempt_at = 1000, ob_claimed_by = None,
      ob_claimed_until = None, ob_published_at = None, ob_created_at = 1000\<rparr>"

definition demo_outbox_world :: "outbox_row \<Rightarrow> World" where
  "demo_outbox_world r = demo_world\<lparr>w_db := demo_db\<lparr>outbox := [r]\<rparr>\<rparr>"

lemma demo_outbox_schema:
  assumes "outbox_values r = None \<and> list_all (\<lambda>c. snd c r) outbox_checks"
  shows "schema_ok (w_db (demo_outbox_world r))"
  using demo_db_schema assms
  by (simp add: demo_outbox_world_def schema_ok_def table_ok_def outbox_indexes_def unique_index_def
      fk_wager_wallet_def fk_ledger_wallet_def fk_ledger_transaction_def)

lemma demo_event_ok:
  "outbox_values demo_event_row = None \<and> list_all (\<lambda>c. snd c demo_event_row) outbox_checks"
  by code_simp

lemma demo_published_ok:
  "schema_ok (w_db (demo_outbox_world (demo_event_row\<lparr>ob_published_at := Some 2000\<rparr>)))"
  by (rule demo_outbox_schema) code_simp

theorem published_is_final_witness:
  "demo_event_row\<lparr>ob_published_at := Some 2000\<rparr> \<in>
     set (outbox (w_db (snd (worker_request demo_env ''events'' ''w1'' Idle
       (demo_outbox_world (demo_event_row\<lparr>ob_published_at := Some 2000\<rparr>))))))"
proof -
  let ?r = "demo_event_row\<lparr>ob_published_at := Some 2000\<rparr>"
  obtain p w' where s: "worker_request demo_env ''events'' ''w1'' Idle (demo_outbox_world ?r) = (p, w')" by (metis surj_pair)
  have "node_step demo_env DefaultReferenceRetryPolicy ''events'' (demo_outbox_world ?r, \<lambda>i. Idle) (w', (\<lambda>i. Idle)(''w1'' := p))"
    by (rule node_step.worker) (rule s)
  note n = r_into_rtranclp [of "node_step demo_env DefaultReferenceRetryPolicy ''events''", OF this]
  show ?thesis unfolding s snd_conv
    by (rule published_is_final [OF demo_published_ok n]) (simp_all add: demo_outbox_world_def)
qed

end
