(* ===== verification/Consumer_Correctness.thy ===== *)
theory Consumer_Correctness
  imports Outbox_Correctness
begin

text \<open>
  The consumer of wager messages: every message takes effect once, none is deleted before it took effect
  or was copied to the dead-letter queue, and the delays of the retries.
\<close>

section \<open>Once only\<close>

text \<open>
  C9: a message takes effect once. After the handler accepted a message, whatever
  the program does in between and whatever transport identifier, content or allowed providers come
  with it, a message with the same identifier leaves the database as it is.
\<close>

theorem message_once:
  assumes "schema_ok (w_db w)" "Handle E P allowed tid body w = (Inr (), w1)" "parseWagerMessage body = Inr m"
    "(service_step E P)\<^sup>*\<^sup>* w1 w2"
    "parseWagerMessage body' = Inr m'" "me_MessageID m' = me_MessageID m" "Handle E P allowed' tid' body' w2 = (x, w3)"
  shows "w_db w3 = w_db w2"
proof -
  have c: "completed (me_MessageID m') (w_db w1)" using Handle_Inr [OF assms(2)] assms(3,6) by force
  have st: "statements (w_db w1) (w_db w2)" using assms(4)
    by (induction rule: rtranclp_induct) (auto intro: rtranclp_trans service_step_statements)
  have "schema_ok (w_db w1)"
    using statements_schema_ok [OF only_statementsD(1) [OF effects_Handle assms(2)] assms(1)] .
  then have "schema_ok (w_db w2)" using statements_schema_ok [OF st] by simp
  then show ?thesis using Handle_known [OF assms(7,5)] completed_statements [OF st c] by simp
qed

section \<open>No message is lost\<close>

text \<open>What became of a message when it is deleted from the queue: its effect is stored, or it was copied.\<close>

definition settled :: "Consumer \<Rightarrow> DB \<Rightarrow> sqs_call list \<Rightarrow> Message \<Rightarrow> bool" where
  "settled c db cs m \<longleftrightarrow>
     (\<exists>env. parseWagerMessage (sm_Body m) = Inr env \<and> completed (me_MessageID env) db) \<or>
     (\<exists>g a. SendMessage (cs_dlqURL c) (sm_Body m) g (sm_MessageId m) a \<in> set cs)"

definition deletes_settled :: "Consumer \<Rightarrow> Message list \<Rightarrow> DB \<Rightarrow> sqs_call list \<Rightarrow> bool" where
  "deletes_settled c ms db cs \<longleftrightarrow>
     (\<forall>cs1 q rc cs2. cs = cs1 @ DeleteMessage q rc # cs2 \<longrightarrow>
        q = cs_queueURL c \<and> (\<exists>m \<in> set ms. sm_ReceiptHandle m = rc \<and> settled c db cs1 m))"

lemma settled_mono: "\<lbrakk>settled c db cs m; statements db db'; set cs \<subseteq> set cs'\<rbrakk> \<Longrightarrow> settled c db' cs' m"
  unfolding settled_def using completed_statements by blast

lemma append_eq_mark:
  assumes "xs @ ys = cs1 @ d # cs2"
  obtains us where "xs = cs1 @ d # us" | us where "cs1 = xs @ us" "ys = us @ d # cs2"
  using assms by (auto simp: append_eq_append_conv2 append_eq_Cons_conv Cons_eq_append_conv)

lemma deletes_append:
  assumes "deletes_settled c ms db xs" "deletes_settled c ms' db' ys" "statements db db'"
    "set ms \<subseteq> set ns" "set ms' \<subseteq> set ns"
  shows "deletes_settled c ns db' (xs @ ys)"
  unfolding deletes_settled_def
proof (intro allI impI)
  fix cs1 q rc cs2 assume "xs @ ys = cs1 @ DeleteMessage q rc # cs2"
  then show "q = cs_queueURL c \<and> (\<exists>m \<in> set ns. sm_ReceiptHandle m = rc \<and> settled c db' cs1 m)"
  proof (cases rule: append_eq_mark)
    case (1 us)
    with assms(1) obtain m where "q = cs_queueURL c" "m \<in> set ms" "sm_ReceiptHandle m = rc" "settled c db cs1 m"
      unfolding deletes_settled_def by blast
    then show ?thesis using settled_mono [OF _ assms(3)] assms(4) by blast
  next
    case (2 us)
    with assms(2) obtain m where "q = cs_queueURL c" "m \<in> set ms'" "sm_ReceiptHandle m = rc" "settled c db' us m"
      unfolding deletes_settled_def by blast
    moreover have "set us \<subseteq> set cs1" using 2(1) by simp
    ultimately show ?thesis using settled_mono [of c db' us m db' cs1] assms(5) by blast
  qed
qed

lemma no_deletes: "(\<And>q rc. DeleteMessage q rc \<notin> set cs) \<Longrightarrow> deletes_settled c ms db cs"
  unfolding deletes_settled_def by (metis in_set_conv_decomp)

lemma sqs_calls:
  assumes "sqs_request E call w = (r, w')"
  shows "w_db w' = w_db w \<and> (w_calls w' = w_calls w \<or> w_calls w' = w_calls w @ [call]) \<and>
    (r = Inr u \<longrightarrow> w_calls w' = w_calls w @ [call])"
  using sqs_request_cases [OF assms] by (auto split: sum.splits)

lemma release_calls:
  "\<exists>cs. w_calls (release E c d ms w) = w_calls w @ cs \<and> (\<forall>q rc. DeleteMessage q rc \<notin> set cs) \<and> w_db (release E c d ms w) = w_db w"
proof (induction E c d ms w rule: release.induct)
  case (2 E c d m ms w)
  let ?call = "ChangeMessageVisibility (cs_queueURL c) (sm_ReceiptHandle m) (d m div Second)"
  obtain r v where r: "sqs_request E ?call w = (r, v)" by (metis surj_pair)
  note k = sqs_calls [OF r, of "()"]
  obtain cs where "w_calls (release E c d ms v) = w_calls v @ cs" "\<forall>q rc. DeleteMessage q rc \<notin> set cs"
    "w_db (release E c d ms v) = w_db v" using 2 r by auto
  then show ?case using k r by (auto intro: exI [of _ cs] exI [of _ "?call # cs"])
qed simp

lemma moveToDLQ_calls:
  assumes "moveToDLQ E c m cause w = (x, w')"
  shows "\<exists>cs. w_calls w' = w_calls w @ cs \<and> deletes_settled c [m] db cs \<and> w_db w' = w_db w"
proof -
  obtain g a where s: "moveToDLQ E c m cause = bind_act (sqs_request E (SendMessage (cs_dlqURL c) (sm_Body m) g (sm_MessageId m) a))
      (\<lambda>_. sqs_request E (DeleteMessage (cs_queueURL c) (sm_ReceiptHandle m)))"
    unfolding moveToDLQ_def Let_def by blast
  let ?send = "SendMessage (cs_dlqURL c) (sm_Body m) g (sm_MessageId m) a" and ?del = "DeleteMessage (cs_queueURL c) (sm_ReceiptHandle m)"
  obtain r v where r: "sqs_request E ?send w = (r, v)" by (metis surj_pair)
  note k = sqs_calls [OF r]
  have n: "deletes_settled c [m] db []" "deletes_settled c [m] db [?send]" by (rule no_deletes, simp)+
  have d: "deletes_settled c [m] db [?send, ?del]"
    by (auto simp: deletes_settled_def settled_def Cons_eq_append_conv)
  show ?thesis
  proof (cases r)
    case (Inl e)
    then have "w' = v" using assms r by (simp add: s bind_act_def)
    then show ?thesis using k n by (auto intro: exI [of _ "[]"] exI [of _ "[?send]"])
  next
    case (Inr u)
    then have "sqs_request E ?del v = (x, w')" using assms r by (simp add: s bind_act_def)
    note k2 = sqs_calls [OF this]
    have "w_calls v = w_calls w @ [?send]" using k Inr by blast
    then have "w_calls w' = w_calls w @ [?send] \<or> w_calls w' = w_calls w @ [?send, ?del]" using k2 by auto
    then show ?thesis using k k2 n d by metis
  qed
qed

lemma processMessage_calls:
  assumes "processMessage E c m w = (x, w')"
  shows "\<exists>cs. w_calls w' = w_calls w @ cs \<and> deletes_settled c [m] (w_db w') cs \<and> statements (w_db w) (w_db w')"
proof -
  obtain y v where h: "Handle E (cs_policy c) (cs_allowedProviders c) (sm_MessageId m) (sm_Body m) w = (y, v)" by (metis surj_pair)
  note st = only_statementsD [OF effects_Handle h]
  show ?thesis
  proof (cases y)
    case (Inr u)
    let ?del = "DeleteMessage (cs_queueURL c) (sm_ReceiptHandle m)"
    have "sqs_request E ?del v = (x, w')" using assms h Inr by (simp add: processMessage_def)
    note k = sqs_calls [OF this]
    obtain env where "parseWagerMessage (sm_Body m) = Inr env" "completed (me_MessageID env) (w_db v)"
      using Handle_Inr [OF h [unfolded Inr]] .
    then have "deletes_settled c [m] (w_db w') [?del]" "deletes_settled c [m] (w_db w') []"
      using k by (auto simp: deletes_settled_def settled_def Cons_eq_append_conv)
    then show ?thesis using k st by (metis append_Nil2)
  next
    case (Inl e)
    show ?thesis
    proof (cases "isTransient e")
      case True
      then have "w' = release E c (\<lambda>_. retryDelay m) [m] v" using assms h Inl by (simp add: processMessage_def)
      then show ?thesis using release_calls [of E c "\<lambda>_. retryDelay m" "[m]" v] st no_deletes by metis
    next
      case False
      then have "moveToDLQ E c m e v = (x, w')" using assms h Inl by (simp add: processMessage_def)
      from moveToDLQ_calls [OF this, of "w_db w'"] show ?thesis using st by metis
    qed
  qed
qed

lemma poll_calls:
  assumes "poll_loop E c stop b ms w = (x, w')"
  shows "\<exists>cs. w_calls w' = w_calls w @ cs \<and> deletes_settled c ms (w_db w') cs \<and> statements (w_db w) (w_db w')"
  using assms
proof (induction E c stop b ms w arbitrary: x w' rule: poll_loop.induct)
  case (1 E c stop b w)
  then show ?case by (auto intro!: exI [of _ "[]"] no_deletes)
next
  case (2 E c stop b m ms w)
  show ?case
  proof (cases "stop (w_step w)")
    case True
    then have "w' = release E c (\<lambda>_. 0) (m # ms) w" using "2.prems" by simp
    then show ?thesis using release_calls [of E c "\<lambda>_. 0" "m # ms" w] no_deletes by (metis rtranclp.rtrancl_refl)
  next
    case False
    obtain y v where p: "processMessage E c m w = (y, v)" by (metis surj_pair)
    obtain cs where cs: "w_calls v = w_calls w @ cs" "deletes_settled c [m] (w_db v) cs" "statements (w_db w) (w_db v)"
      using processMessage_calls [OF p] by blast
    have "\<exists>ds. w_calls w' = w_calls v @ ds \<and> deletes_settled c ms (w_db w') ds \<and> statements (w_db v) (w_db w')"
    proof (cases y)
      case (Inl e)
      then have "w' = release E c retryDelay ms v" using "2.prems" False p by simp
      then show ?thesis using release_calls [of E c retryDelay ms v] no_deletes by (metis rtranclp.rtrancl_refl)
    next
      case (Inr u)
      then have "poll_loop E c stop b ms v = (x, w')" using "2.prems" False p by simp
      from "2.IH" [OF False p [symmetric] Inr this] show ?thesis .
    qed
    then obtain ds where ds: "w_calls w' = w_calls v @ ds" "deletes_settled c ms (w_db w') ds" "statements (w_db v) (w_db w')" by blast
    have "deletes_settled c (m # ms) (w_db w') (cs @ ds)" by (rule deletes_append [OF cs(2) ds(2,3)]) auto
    then show ?thesis using cs ds by (intro exI [of _ "cs @ ds"]) auto
  qed
qed

text \<open>
  C11: no message is lost. Whatever the answers of the queue and of the database, a
  poll deletes a message of its batch only after the message took effect and is recorded as completed, or after
  it was copied to the dead-letter queue, under its own identifier and with its own body.
\<close>

theorem deletes_are_safe:
  assumes "PollOnce E c stop receive w = (x, w')" "receive (w_step w) = Inr ms"
  shows "\<exists>cs. w_calls w' = w_calls w @ cs \<and>
    (\<forall>cs1 q rc cs2. cs = cs1 @ DeleteMessage q rc # cs2 \<longrightarrow> q = cs_queueURL c \<and>
      (\<exists>m \<in> set ms. sm_ReceiptHandle m = rc \<and>
        ((\<exists>env. parseWagerMessage (sm_Body m) = Inr env \<and> completed (me_MessageID env) (w_db w')) \<or>
         (\<exists>g a. SendMessage (cs_dlqURL c) (sm_Body m) g (sm_MessageId m) a \<in> set cs1))))"
proof -
  have "poll_loop E c stop (ms \<noteq> []) ms (w\<lparr>w_step := Suc (w_step w)\<rparr>) = (x, w')"
    using assms by (simp add: PollOnce_def Let_def)
  from poll_calls [OF this] obtain cs where "w_calls w' = w_calls w @ cs" "deletes_settled c ms (w_db w') cs" by auto
  then show ?thesis unfolding deletes_settled_def settled_def by blast
qed

text \<open>Every message is answered for: deleted, or given back with a delay.\<close>

definition answered :: "Consumer \<Rightarrow> sqs_call list \<Rightarrow> Message \<Rightarrow> bool" where
  "answered c cs m \<longleftrightarrow>
     DeleteMessage (cs_queueURL c) (sm_ReceiptHandle m) \<in> set cs \<or>
     (\<exists>t \<in> {0..300}. ChangeMessageVisibility (cs_queueURL c) (sm_ReceiptHandle m) t \<in> set cs)"

lemma answered_mono: "\<lbrakk>answered c cs m; set cs \<subseteq> set cs'\<rbrakk> \<Longrightarrow> answered c cs' m"
  by (auto simp: answered_def)

lemma retry_delay_range: "0 \<le> d \<Longrightarrow> d \<le> 600 * Second \<Longrightarrow> 0 \<le> retry_delay_loop i n d"
proof (induction i n d rule: retry_delay_loop.induct)
  case (1 i n d)
  show ?case
  proof (cases "i < n \<and> d < retryMaxDelay")
    case True
    then have d: "d < 300 * Second" by (simp add: retryMaxDelay_def)
    then have "wrap64 (d * 2) = d * 2" using "1.prems" by (simp add: in_int64_def)
    then show ?thesis using "1.IH" [OF True] True d "1.prems" by (simp add: retry_delay_loop.simps [of i])
  qed (use "1.prems" in \<open>auto simp: retry_delay_loop.simps [of i]\<close>)
qed

lemma retryDelay_range: "0 \<le> retryDelay m \<and> retryDelay m \<le> 300 * Second"
  using retry_delay_range [of retryBaseDelay 1 "receiveCount m"]
  by (simp add: retryDelay_def retryMaxDelay_def retryBaseDelay_def)

lemma release_answers:
  assumes "\<And>k. E_reply E k = Reply" "\<And>m. 0 \<le> d m \<and> d m \<le> 300 * Second"
  shows "\<exists>cs. w_calls (release E c d ms w) = w_calls w @ cs \<and> (\<forall>m \<in> set ms. answered c cs m)"
proof (induction ms arbitrary: w)
  case (Cons m ms)
  let ?call = "ChangeMessageVisibility (cs_queueURL c) (sm_ReceiptHandle m) (d m div Second)"
  let ?v = "snd (sqs_request E ?call w)"
  have v: "w_calls ?v = w_calls w @ [?call]" by (simp add: sqs_request_def Let_def assms(1))
  obtain cs where cs: "w_calls (release E c d ms ?v) = w_calls ?v @ cs" "\<forall>m \<in> set ms. answered c cs m"
    using Cons.IH by blast
  have "0 \<le> d m div Second \<and> d m div Second \<le> 300" using assms(2) [of m] by (simp add: pos_imp_zdiv_nonneg_iff) linarith
  then have "answered c (?call # cs) m" by (auto simp: answered_def)
  moreover have "answered c (?call # cs) m'" if "m' \<in> set ms" for m'
    using cs(2) that by (auto intro: answered_mono)
  ultimately have "\<forall>m' \<in> set (m # ms). answered c (?call # cs) m'" by simp
  then show ?case using v cs(1) by (intro exI [of _ "?call # cs"]) simp
qed simp

lemma processMessage_answers:
  assumes "\<And>k. E_reply E k = Reply" "processMessage E c m w = (x, w')"
  shows "\<exists>cs. w_calls w' = w_calls w @ cs \<and> answered c cs m"
proof -
  obtain y v where h: "Handle E (cs_policy c) (cs_allowedProviders c) (sm_MessageId m) (sm_Body m) w = (y, v)" by (metis surj_pair)
  note st = only_statementsD(2) [OF effects_Handle h]
  show ?thesis
  proof (cases y)
    case (Inr u)
    then show ?thesis using assms(2) h st by (auto simp: processMessage_def sqs_request_def Let_def assms(1) answered_def)
  next
    case (Inl e)
    show ?thesis
    proof (cases "isTransient e")
      case True
      then have "w' = release E c (\<lambda>_. retryDelay m) [m] v" using assms h Inl by (simp add: processMessage_def)
      then show ?thesis using release_answers [OF assms(1), of "\<lambda>_. retryDelay m" c "[m]" v] retryDelay_range st by auto
    next
      case False
      then have "moveToDLQ E c m e v = (x, w')" using assms h Inl by (simp add: processMessage_def)
      then show ?thesis using st
        by (auto simp: moveToDLQ_def Let_def bind_act_def sqs_request_def assms(1) answered_def)
    qed
  qed
qed

lemma poll_answers:
  assumes "\<And>k. E_reply E k = Reply" "poll_loop E c stop b ms w = (x, w')"
  shows "\<exists>cs. w_calls w' = w_calls w @ cs \<and> (\<forall>m \<in> set ms. answered c cs m)"
  using assms(2)
proof (induction ms arbitrary: w)
  case (Cons m ms)
  show ?case
  proof (cases "stop (w_step w)")
    case True
    then have "w' = release E c (\<lambda>_. 0) (m # ms) w" using Cons.prems by simp
    then show ?thesis using release_answers [OF assms(1), of "\<lambda>_. 0" c "m # ms" w] by simp
  next
    case False
    obtain y v where p: "processMessage E c m w = (y, v)" by (metis surj_pair)
    obtain cs where cs: "w_calls v = w_calls w @ cs" "answered c cs m"
      using processMessage_answers [OF assms(1) p] by blast
    have "\<exists>ds. w_calls w' = w_calls v @ ds \<and> (\<forall>m \<in> set ms. answered c ds m)"
    proof (cases y)
      case (Inl e)
      then have "w' = release E c retryDelay ms v" using Cons.prems False p by simp
      then show ?thesis using release_answers [OF assms(1), of retryDelay c ms v] retryDelay_range by simp
    next
      case (Inr u)
      then have "poll_loop E c stop b ms v = (x, w')" using Cons.prems False p by simp
      from Cons.IH [OF this] show ?thesis .
    qed
    then obtain ds where ds: "w_calls w' = w_calls v @ ds" "\<forall>m \<in> set ms. answered c ds m" by blast
    have "answered c (cs @ ds) m'" if "m' \<in> set (m # ms)" for m'
      using that cs(2) ds(2) by (auto intro: answered_mono)
    then show ?thesis using cs(1) ds(1) by (intro exI [of _ "cs @ ds"]) simp
  qed
qed simp


section \<open>Delays\<close>

lemma receiveCount_pos: "1 \<le> receiveCount m"
  by (simp add: receiveCount_def split: option.split)

lemma retry_delay_loop_doubles:
  "\<lbrakk>0 < d; d \<le> 600 * Second\<rbrakk> \<Longrightarrow>
     min (retry_delay_loop i n d) (300 * Second) = min (d * 2 ^ nat (n - i)) (300 * Second)"
proof (induction i n d rule: retry_delay_loop.induct)
  case (1 i n d)
  show ?case
  proof (cases "i < n \<and> d < retryMaxDelay")
    case True
    then have d: "d < 300 * Second" by (simp add: retryMaxDelay_def)
    have e: "nat (n - i) = Suc (nat (n - (i + 1)))" using True by linarith
    have w: "wrap64 (d * 2) = d * 2" using "1.prems" d by (simp add: in_int64_def)
    show ?thesis
      using "1.IH" [OF True] True d "1.prems" by (simp add: retry_delay_loop.simps [of i] w e)
  next
    case False
    show ?thesis
    proof (cases "i < n")
      case True
      then have "300 * Second \<le> d" using False by (simp add: retryMaxDelay_def)
      moreover have "d * 1 \<le> d * 2 ^ nat (n - i)" using "1.prems" by (intro mult_left_mono) simp_all
      ultimately have "300 * Second \<le> d * 2 ^ nat (n - i)" by linarith
      moreover have "retry_delay_loop i n d = d" using False by (subst retry_delay_loop.simps) auto
      ultimately show ?thesis using \<open>300 * Second \<le> d\<close> by (simp only: min_absorb2)
    qed (use False in \<open>simp add: retry_delay_loop.simps [of i]\<close>)
  qed
qed

text \<open>
  C40: the three retry schedules of the program, for events, for references that are pending and for
  messages, are one: 5 seconds doubled per attempt and at most 5 minutes.
\<close>

theorem delays_agree:
  "outboxRetryDelay n = min (5 * 2 ^ nat (n - 1)) 300 * Second \<and>
   policy_delay DefaultReferenceRetryPolicy n = outboxRetryDelay n \<and>
   1 \<le> receiveCount m \<and> retryDelay m = outboxRetryDelay (receiveCount m)"
proof -
  have 1: "retryDelay m = min (5 * Second * 2 ^ nat (receiveCount m - 1)) (300 * Second)"
    using retry_delay_loop_doubles [of retryBaseDelay 1 "receiveCount m"]
    by (simp add: retryDelay_def retryMaxDelay_def retryBaseDelay_def)
  have 2: "min (5 * Second * x) (300 * Second) = min (5 * x) 300 * Second" for x :: int by (simp add: min_def)
  show ?thesis unfolding 1 2 using outbox_delay_closed [of n] outbox_delay_closed [of "receiveCount m"] receiveCount_pos by simp
qed

section \<open>Examples\<close>

text \<open>A message of the provider \<^verbatim>\<open>prov\<close>, and the row of the inbox once it was handled.\<close>

definition demo_body :: string where
  "demo_body =
     ''{'' @ [quote] @ ''messageId'' @ [quote, CHR '':'', quote] @ ''m1'' @ [quote, CHR '','', quote] @ ''type'' @
     [quote, CHR '':'', quote] @ ''WagerTransactionRequested'' @ [quote, CHR '','', quote] @ ''occurredAt'' @
     [quote, CHR '':'', quote] @ ''2024-01-01T00:00:00Z'' @ [quote, CHR '','', quote] @ ''data'' @
     [quote, CHR '':'', CHR ''{'', quote] @ ''providerId'' @ [quote, CHR '':'', quote] @ ''prov'' @ [quote] @ ''}}''"

definition demo_inbox_row :: inbox_row where
  "demo_inbox_row =
     \<lparr>ib_consumer_name = wagerConsumerName, ib_message_id = ''m1'', ib_message_hash = hashMessage demo_body,
      ib_received_at = 1000, ib_completed_at = Some 2000\<rparr>"

definition demo_inbox_world :: World where
  "demo_inbox_world = demo_world\<lparr>w_db := demo_db\<lparr>inbox := [demo_inbox_row]\<rparr>\<rparr>"

lemma demo_message:
  obtains m where "parseWagerMessage demo_body = Inr m" "me_MessageID m = ''m1''" "md_ProviderID (me_Data m) = ''prov''"
proof -
  have "case parseWagerMessage demo_body of Inr m \<Rightarrow> me_MessageID m = ''m1'' \<and> md_ProviderID (me_Data m) = ''prov'' | _ \<Rightarrow> False"
    by code_simp
  then show ?thesis using that by (cases "parseWagerMessage demo_body") auto
qed

lemma hash_plain: "c \<in> set (hashMessage body) \<Longrightarrow> plain_byte c"
  unfolding hashMessage_def using Sum256_less by (intro hex_plain [of "Sum256 (map of_char body)"]) auto

lemma hash_text: "pg_text_ok (hashMessage body)" "btrim (hashMessage body) \<noteq> []"
proof -
  have "list_all (\<lambda>c. c \<noteq> CHR 0x00) s \<and> utf8_valid (map of_char s)" if "\<forall>c \<in> set s. plain_byte c" for s
    using that by (induction s) (auto simp: plain_byte_def)
  then show "pg_text_ok (hashMessage body)" using hash_plain by (simp add: pg_text_ok_def)
  have "hashMessage body \<noteq> []" using length_hex [of "Sum256 (map of_char body)"] by (auto simp: hashMessage_def length_Sum256)
  then obtain c s where c: "hashMessage body = c # s" by (cases "hashMessage body") auto
  then have "plain_byte c" using hash_plain [of c body] by simp
  then have "c \<noteq> CHR '' ''" by (auto simp: plain_byte_def)
  then have "c \<in> set (btrim (hashMessage body))" unfolding c by (simp add: btrim_def dropWhile_append)
  then show "btrim (hashMessage body) \<noteq> []" by auto
qed

lemma demo_inbox_schema: "schema_ok (w_db demo_inbox_world)"
proof -
  have "inbox_values demo_inbox_row = None"
    using hash_text by (simp add: inbox_values_def demo_inbox_row_def pg_texts_ok_def) code_simp
  moreover have "list_all (\<lambda>c. snd c demo_inbox_row) inbox_checks"
    using hash_text by (simp add: inbox_checks_def demo_inbox_row_def null_or_def) code_simp
  ultimately show ?thesis
    using demo_db_schema
    by (simp add: demo_inbox_world_def schema_ok_def table_ok_def inbox_indexes_def unique_index_def
        fk_wager_wallet_def fk_ledger_wallet_def fk_ledger_transaction_def)
qed

lemma demo_Handle:
  obtains w1 where "Handle demo_env P [''prov''] ''t1'' demo_body demo_inbox_world = (Inr (), w1)"
proof -
  obtain m where m: "parseWagerMessage demo_body = Inr m" "me_MessageID m = ''m1''" "md_ProviderID (me_Data m) = ''prov''"
    using demo_message .
  have ins: "insert_inbox \<lparr>ib_consumer_name = wagerConsumerName, ib_message_id = ''m1'', ib_message_hash = hashMessage demo_body,
      ib_received_at = t, ib_completed_at = None\<rparr> (w_db demo_inbox_world) = Inr (0, w_db demo_inbox_world)" for t
  proof -
    have v: "pg_text_ok wagerConsumerName \<and> pg_text_ok ''m1'' \<and> btrim wagerConsumerName \<noteq> [] \<and> btrim ''m1'' \<noteq> []" by code_simp
    show ?thesis using v hash_text
      by (simp add: insert_inbox_def sql_insert_def inbox_values_def pg_texts_ok_def inbox_checks_def first_failing_def
          null_or_def inbox_indexes_def unique_index_def demo_inbox_world_def demo_inbox_row_def)
  qed
  have b: "handle_body demo_env P m (hashMessage demo_body) tx_context v = (Inr None, v\<lparr>w_step := w_step v + 2\<rparr>)"
    if "w_db v = w_db demo_inbox_world" "\<not> w_aborted v" for v
  proof -
    have v: "pg_text_ok wagerConsumerName \<and> pg_text_ok ''m1''" by code_simp
    have "w_db demo_inbox_world = w_db v" using that(1) ..
    note ins' = ins [unfolded this]
    have i: "inbox (w_db v) = [demo_inbox_row]" using that(1) by (simp add: demo_inbox_world_def)
    show ?thesis using v that(2) m(2) i
      by (simp add: handle_body_def InboxRepository_Register_def bind_act_def match_act_def request_def Let_def ins'
          query_row_text_def ret_def demo_inbox_row_def)
  qed
  have "TrimSpace ''t1'' \<noteq> []" by code_simp
  then show ?thesis
    using that m b
    by (simp add: Handle_def bind_act_def ret_def in_transaction_def WithinTransaction_def maxTransactionAttempts_def
        tx_attempts.simps [of 3] run_tx_def begin_tx_def request_def Let_def closure_of_def commit_tx_def
        demo_inbox_world_def demo_world_def)
qed

theorem message_once_witness:
  "\<exists>w1 x w3. Handle demo_env DefaultReferenceRetryPolicy [''prov''] ''t1'' demo_body demo_inbox_world = (Inr (), w1) \<and>
     Handle demo_env DefaultReferenceRetryPolicy [''prov''] ''t2'' demo_body w1 = (x, w3) \<and> w_db w3 = w_db w1"
proof -
  let ?P = DefaultReferenceRetryPolicy
  obtain w1 where w1: "Handle demo_env ?P [''prov''] ''t1'' demo_body demo_inbox_world = (Inr (), w1)" using demo_Handle .
  obtain m where m: "parseWagerMessage demo_body = Inr m" using demo_message by metis
  obtain x w3 where w3: "Handle demo_env ?P [''prov''] ''t2'' demo_body w1 = (x, w3)" by (metis surj_pair)
  show ?thesis
    using w1 w3 message_once [OF demo_inbox_schema w1 m rtranclp.rtrancl_refl [of "service_step demo_env ?P"] m refl w3] by blast
qed

text \<open>A poll that receives a message without a body.\<close>

definition demo_consumer :: Consumer where
  "demo_consumer =
     \<lparr>cs_queueURL = ''q'', cs_dlqURL = ''dlq'', cs_allowedProviders = [''prov''],
      cs_policy = DefaultReferenceRetryPolicy, cs_errorText = (\<lambda>e. ''invalid'')\<rparr>"

definition demo_blank :: Message where
  "demo_blank = \<lparr>sm_MessageId = ''t1'', sm_Body = [], sm_ReceiptHandle = ''r1'', sm_Attributes = []\<rparr>"

abbreviation demo_poll :: "(bool \<times> err option) \<times> World" where
  "demo_poll \<equiv> PollOnce demo_env demo_consumer (\<lambda>k. False) (\<lambda>k. Inr [demo_blank]) demo_world"

theorem deletes_are_safe_witness:
  "\<exists>cs. w_calls (snd demo_poll) = cs \<and> (\<forall>cs1 q rc cs2. cs = cs1 @ DeleteMessage q rc # cs2 \<longrightarrow> q = ''q'')"
  using deletes_are_safe [OF prod.collapse [symmetric], where E = demo_env and c = demo_consumer and stop = "\<lambda>k. False"
    and receive = "\<lambda>k. Inr [demo_blank]" and w = demo_world and ms = "[demo_blank]"]
  by (auto simp: demo_world_def demo_consumer_def)


end
