(* ===== verification/Auth.thy ===== *)
theory Auth
  imports Errors Go_Text
begin

text \<open>
  Identities: \<^verbatim>\<open>internal/auth/principal.go\<close>, the verifier of access tokens in
  \<^verbatim>\<open>internal/infrastructure/keycloak\<close>, and \<^verbatim>\<open>bearerToken\<close> of
  \<^verbatim>\<open>transport/http/auth_middleware.go\<close>. Checking the signature, the issuer, the audience and the
  expiry of a token is the library's: \<open>idToken\<close> gives the claims of a token it accepts, as JSON.
\<close>

record Principal =
  prin_Subject :: string
  prin_ClientID :: string
  prin_ProviderID :: string
  prin_Roles :: "string list"

definition HasRole :: "Principal \<Rightarrow> string \<Rightarrow> bool" where
  "HasRole p role \<longleftrightarrow> role \<in> set (prin_Roles p)"

definition IsProvider :: "Principal \<Rightarrow> bool" where
  "IsProvider p \<longleftrightarrow> prin_ProviderID p \<noteq> [] \<and> HasRole p ''provider''"

definition IsInternal :: "Principal \<Rightarrow> bool" where
  "IsInternal p \<longleftrightarrow> HasRole p ''internal''"

section \<open>Claims\<close>

record RealmAccess =
  ra_Roles :: "string list"

record Claims =
  cl_Type :: string
  cl_Subject :: string
  cl_AuthorizedParty :: string
  cl_ProviderID :: string
  cl_RealmAccess :: RealmAccess

text \<open>
  A slice of strings: \<^verbatim>\<open>null\<close> makes it nil, and is the empty string as an element. A second
  \<^verbatim>\<open>roles\<close> member replaces the first.
\<close>

definition decode_strings :: "(string list \<Rightarrow> 'r \<Rightarrow> 'r) \<Rightarrow> jvalue \<Rightarrow> 'r \<Rightarrow> 'r option" where
  "decode_strings put v r =
     (case v of
        VArray vs \<Rightarrow>
          (let ss = map (\<lambda>x. decode_string (\<lambda>s _. s) x []) vs
           in if None \<in> set ss then None else Some (put (map the ss) r))
      | VNull \<Rightarrow> Some (put [] r)
      | _ \<Rightarrow> None)"

definition realm_fields :: "(string \<times> (jvalue \<Rightarrow> RealmAccess \<Rightarrow> RealmAccess option)) list" where
  "realm_fields = [(''roles'', decode_strings (\<lambda>rs r. r\<lparr>ra_Roles := rs\<rparr>))]"

definition claims_fields :: "(string \<times> (jvalue \<Rightarrow> Claims \<Rightarrow> Claims option)) list" where
  "claims_fields =
     [(''typ'', decode_string (\<lambda>s r. r\<lparr>cl_Type := s\<rparr>)),
      (''sub'', decode_string (\<lambda>s r. r\<lparr>cl_Subject := s\<rparr>)),
      (''azp'', decode_string (\<lambda>s r. r\<lparr>cl_AuthorizedParty := s\<rparr>)),
      (''provider_id'', decode_string (\<lambda>s r. r\<lparr>cl_ProviderID := s\<rparr>)),
      (''realm_access'', \<lambda>v r. map_option (\<lambda>a. r\<lparr>cl_RealmAccess := a\<rparr>) (decode_struct realm_fields v (cl_RealmAccess r)))]"

definition zero_claims :: Claims where
  "zero_claims =
     \<lparr>cl_Type = [], cl_Subject = [], cl_AuthorizedParty = [], cl_ProviderID = [], cl_RealmAccess = \<lparr>ra_Roles = []\<rparr>\<rparr>"

abbreviation (input) invalid_token :: "string \<Rightarrow> err" where
  "invalid_token reason \<equiv> Wrapped ErrInvalidToken (OtherError reason)"

definition Verifier_Verify :: "(string \<Rightarrow> string option) \<Rightarrow> string \<Rightarrow> err + Principal" where
  "Verifier_Verify idToken rawToken =
     (if TrimSpace rawToken = [] then Inl ErrInvalidToken
      else case idToken (TrimSpace rawToken) of
             None \<Rightarrow> Inl (invalid_token ''token refused'')
           | Some payload \<Rightarrow>
     (case Option.bind (parse_json payload) (\<lambda>v. decode_struct claims_fields v zero_claims) of
        None \<Rightarrow> Inl (invalid_token ''failed to decode claims'')
      | Some claims \<Rightarrow>
          if cl_Type claims \<noteq> ''Bearer'' then Inl (invalid_token ''not an access token'')
          else if cl_Subject claims = [] then Inl (invalid_token ''missing subject'')
          else if cl_AuthorizedParty claims = [] then Inl (invalid_token ''missing authorized party'')
          else Inr \<lparr>prin_Subject = cl_Subject claims, prin_ClientID = cl_AuthorizedParty claims,
                    prin_ProviderID = cl_ProviderID claims, prin_Roles = ra_Roles (cl_RealmAccess claims)\<rparr>))"

section \<open>The Authorization header\<close>

definition bearerToken :: "string \<Rightarrow> string option" where
  "bearerToken header =
     (case Fields header of
        [scheme, token] \<Rightarrow> if \<not> EqualFold scheme ''Bearer'' \<or> token = [] then None else Some token
      | _ \<Rightarrow> None)"

end
