(* ===== verification/Http_Api.thy ===== *)
theory Http_Api
  imports Wager_Service Wallet_Service Auth
begin

text \<open>
  The HTTP interface: \<^verbatim>\<open>internal/transport/http\<close>. Fiber is a library: a request is what the code
  asks of it (headers, path and query parameters, and what \<^verbatim>\<open>Bind().Body\<close> makes of the body, nothing
  when it fails), a response is the status, the headers and the value given to \<^verbatim>\<open>JSON\<close>. The context of
  a request is never cancelled (\<^verbatim>\<open>c.Context()\<close> is the background context unless something sets
  it). Access logs are left out, metrics are in \<open>Observability\<close>.
\<close>

section \<open>Errors\<close>

datatype APIError =
    APIError (ae_Status: nat) (ae_Code: string) (ae_Message: string) (ae_Details: string) (ae_cause: "http_err option")
and http_err =
    ApiErr APIError
  | ServiceErr err
  | FiberErr nat

definition newAPIError :: "nat \<Rightarrow> string \<Rightarrow> string \<Rightarrow> APIError" where
  "newAPIError status code message = APIError status code message [] None"

definition withDetails :: "APIError \<Rightarrow> string \<Rightarrow> APIError" where
  "withDetails e details = APIError (ae_Status e) (ae_Code e) (ae_Message e) details (ae_cause e)"

definition withCause :: "APIError \<Rightarrow> http_err \<Rightarrow> APIError" where
  "withCause e cause = APIError (ae_Status e) (ae_Code e) (ae_Message e) (ae_Details e) (Some cause)"

definition errInvalidPayload :: APIError where
  "errInvalidPayload = newAPIError 400 ''INVALID_PAYLOAD'' ''the request payload is invalid''"

definition errIdempotencyKeyRequired :: APIError where
  "errIdempotencyKeyRequired = newAPIError 400 ''IDEMPOTENCY_KEY_REQUIRED'' ''the Idempotency-Key header is required''"

definition errUnauthorized :: APIError where
  "errUnauthorized = newAPIError 401 ''UNAUTHORIZED'' ''authentication is required''"

definition errForbidden :: APIError where
  "errForbidden = newAPIError 403 ''FORBIDDEN'' ''access denied''"

definition errNotFound :: APIError where
  "errNotFound = newAPIError 404 ''NOT_FOUND'' ''resource not found''"

definition errMethodNotAllowed :: APIError where
  "errMethodNotAllowed = newAPIError 405 ''METHOD_NOT_ALLOWED'' ''method not allowed''"

definition errWalletAlreadyExists :: APIError where
  "errWalletAlreadyExists =
     newAPIError 409 ''WALLET_ALREADY_EXISTS'' ''a wallet already exists for this player and currency''"

definition errIdempotencyConflict :: APIError where
  "errIdempotencyConflict =
     newAPIError 409 ''IDEMPOTENCY_CONFLICT'' ''the idempotency key was already used with a different payload''"

definition errExternalTransactionConflict :: APIError where
  "errExternalTransactionConflict =
     newAPIError 409 ''EXTERNAL_TRANSACTION_CONFLICT''
       ''the external transaction was already received with another idempotency key''"

definition errConflict :: APIError where
  "errConflict = newAPIError 409 ''CONFLICT'' ''the resource already exists''"

definition errPayloadTooLarge :: APIError where
  "errPayloadTooLarge = newAPIError 413 ''PAYLOAD_TOO_LARGE'' ''the request payload is too large''"

definition errValidation :: APIError where
  "errValidation = newAPIError 422 ''VALIDATION_FAILED'' ''one or more fields are invalid''"

definition errServiceUnavailable :: APIError where
  "errServiceUnavailable =
     newAPIError 503 ''SERVICE_UNAVAILABLE'' ''a dependency is temporarily unavailable, retry later''"

definition errInternal :: APIError where
  "errInternal = newAPIError 500 ''INTERNAL_ERROR'' ''an unexpected error occurred''"

text \<open>The errors whose message may be shown, with the message.\<close>

definition validationErrors :: "(err \<times> string) list" where
  "validationErrors =
     [(DomainErr ErrInvalidCurrency, ''invalid currency''),
      (DomainErr ErrInvalidMoney, ''invalid money''),
      (DomainErr ErrCurrencyMismatch, ''currency mismatch''),
      (DomainErr ErrAmountMustBePositive, ''amount must be positive''),
      (DomainErr ErrInvalidWalletID, ''invalid wallet id''),
      (DomainErr ErrInvalidPlayerID, ''invalid player id''),
      (DomainErr ErrInvalidProviderID, ''invalid provider id''),
      (DomainErr ErrInvalidExternalTransactionID, ''invalid external transaction id''),
      (DomainErr ErrInvalidIdempotencyKey, ''invalid idempotency key''),
      (DomainErr ErrInvalidRoundID, ''invalid round id''),
      (DomainErr ErrInvalidGameID, ''invalid game id''),
      (DomainErr ErrInvalidWagerType, ''invalid wager transaction type''),
      (DomainErr ErrInvalidWagerAmount, ''invalid wager amount''),
      (DomainErr ErrInvalidWagerReference, ''invalid wager reference''),
      (AppErr ErrWalletMismatch, ''wallet does not match wager''),
      (AppErr ErrInvalidWalletReference, ''invalid wallet reference'')]"

fun resolveError :: "http_err \<Rightarrow> APIError" where
  "resolveError (ApiErr apiErr) = apiErr"
| "resolveError (ServiceErr e) =
     (if IsTransient e then withCause errServiceUnavailable (ServiceErr e)
      else if errors_Is e (AppErr ErrIdempotencyConflict) then errIdempotencyConflict
      else if errors_Is e (AppErr ErrExternalTransactionConflict) then errExternalTransactionConflict
      else if errors_Is e (AppErr application_error.ErrWalletAlreadyExists) then errWalletAlreadyExists
      else if errors_Is e (AppErr ErrAlreadyExists) then errConflict
      else if errors_Is e (AppErr ErrNotFound) \<or> errors_Is e (AppErr ErrWalletNotFound) then errNotFound
      else case find (\<lambda>v. errors_Is e (fst v)) validationErrors of
             Some v \<Rightarrow> withDetails errValidation (snd v)
           | None \<Rightarrow> withCause errInternal (ServiceErr e))"
| "resolveError (FiberErr code) =
     (if code = 400 \<or> code = 422 then errInvalidPayload
      else if code = 401 then errUnauthorized
      else if code = 403 then errForbidden
      else if code = 404 then errNotFound
      else if code = 405 then errMethodNotAllowed
      else if code = 413 then errPayloadTooLarge
      else withCause errInternal (FiberErr code))"

section \<open>Requests and responses\<close>

record moneyRequest =
  mr_Amount :: string
  mr_Currency :: string

record createWalletRequest =
  cwr_PlayerID :: string
  cwr_InitialBalance :: moneyRequest

record createWagerRequest =
  cgr_ProviderID :: string
  cgr_ExternalTransactionID :: string
  cgr_PlayerID :: string
  cgr_WalletID :: string
  cgr_RoundID :: string
  cgr_GameID :: string
  cgr_Kind :: string
  cgr_Money :: moneyRequest
  cgr_ReferenceExternalTransactionID :: string

record Request =
  rq_Authorization :: string
  rq_CorrelationID :: string
  rq_IdempotencyKey :: string
  rq_limit :: string
  rq_cursor :: string
  rq_WalletBody :: "createWalletRequest option"
  rq_WagerBody :: "createWagerRequest option"

record 'd walletResponse =
  wrs_ID :: uuid
  wrs_PlayerID :: uuid
  wrs_Balance :: "'d Money"
  wrs_Version :: int

record 'd walletLedgerEntryResponse =
  lrs_ID :: uuid
  lrs_WalletID :: uuid
  lrs_TransactionID :: uuid
  lrs_Direction :: string
  lrs_Money :: "'d Money"
  lrs_BalanceBefore :: "'d Money"
  lrs_BalanceAfter :: "'d Money"
  lrs_CreatedAt :: time

record 'd walletLedgerResponse =
  lrs_Entries :: "'d walletLedgerEntryResponse list"
  lrs_NextCursor :: string

record 'd createWagerResponse =
  grs_TransactionID :: uuid
  grs_Status :: WagerTransactionStatus
  grs_Balance :: "'d Money option"
  grs_FailureCode :: string
  grs_IdempotentReplay :: bool

text \<open>What is written: an \<^verbatim>\<open>APIError\<close> without its status and its cause, which have no JSON names.\<close>

datatype 'd body =
    WalletBody "'d walletResponse"
  | LedgerBody "'d walletLedgerResponse"
  | ReconciliationBody "'d WalletReconciliationResult"
  | WagerBody "'d createWagerResponse"
  | TransactionBody "'d WagerResult"
  | ErrorBody string string string

record 'd Response =
  rs_Status :: nat
  rs_CorrelationID :: string
  rs_RetryAfter :: "string option"
  rs_Body :: "'d body"

type_synonym 'a handler = "World \<Rightarrow> (http_err + 'a) \<times> World"

definition fail :: "APIError \<Rightarrow> 'a handler" where
  "fail e w = (Inl (ApiErr e), w)"

definition reply :: "'a \<Rightarrow> 'a handler" where
  "reply a w = (Inr a, w)"

text \<open>A call of a service whose error the handler returns.\<close>

definition serve :: "'a act \<Rightarrow> ('a \<Rightarrow> 'b handler) \<Rightarrow> 'b handler" where
  "serve m k w = (case m w of (Inl e, w') \<Rightarrow> (Inl (ServiceErr e), w') | (Inr a, w') \<Rightarrow> k a w')"

section \<open>Wallets\<close>

definition defaultLedgerLimit :: int where
  "defaultLedgerLimit = 50"

definition maxLedgerLimit :: int where
  "maxLedgerLimit = 100"

definition WalletHandler_Create :: "'d Env \<Rightarrow> string \<Rightarrow> Request \<Rightarrow> (nat \<times> 'd body) handler" where
  "WalletHandler_Create E correlationID rq =
     (case rq_WalletBody rq of
        None \<Rightarrow> fail errInvalidPayload
      | Some req \<Rightarrow>
          if cwr_PlayerID req = [] \<or> mr_Amount (cwr_InitialBalance req) = [] \<or>
             mr_Currency (cwr_InitialBalance req) = []
          then fail (withDetails errInvalidPayload ''playerId and initialBalance are required'')
          else serve (WalletService_Create E background
                 \<lparr>cw_PlayerID = cwr_PlayerID req, cw_Currency = mr_Currency (cwr_InitialBalance req),
                  cw_InitialBalance = mr_Amount (cwr_InitialBalance req)\<rparr>
                 \<lparr>CorrelationID = correlationID, CausationID = []\<rparr>)
               (\<lambda>result. reply (201, WalletBody
                  \<lparr>wrs_ID = wallres_WalletID result, wrs_PlayerID = wallres_PlayerID result,
                   wrs_Balance = wallres_Balance result, wrs_Version = wallres_Version result\<rparr>)))"

definition WalletHandler_Get :: "'d Env \<Rightarrow> string \<Rightarrow> (nat \<times> 'd body) handler" where
  "WalletHandler_Get E walletId =
     serve (WalletService_Get E background walletId)
       (\<lambda>result. reply (200, WalletBody
          \<lparr>wrs_ID = wallres_WalletID result, wrs_PlayerID = wallres_PlayerID result,
           wrs_Balance = wallres_Balance result, wrs_Version = wallres_Version result\<rparr>))"

record ledgerCursor =
  lc_CreatedAt :: time
  lc_ID :: uuid

text \<open>\<^verbatim>\<open>Time.MarshalJSON\<close> refuses years of more than four digits.\<close>

definition encodeLedgerCursor :: "'d Env \<Rightarrow> 'd WalletLedgerEntry \<Rightarrow> err + string" where
  "encodeLedgerCursor E entry =
     (let year = year_of (entry_createdAt entry div nanos_per_day)
      in if year < 0 \<or> 9999 < year then Inl (OtherError ''Time.MarshalJSON: year outside of range [0,9999]'')
         else Inr (base64_Encode (json_text
           (JObject [(''createdAt'', JString (Format_RFC3339Nano (entry_createdAt entry))),
                     (''id'', JString (E_uuid_String E (entry_id entry)))]))))"

definition cursor_fields :: "'d Env \<Rightarrow> (string \<times> (jvalue \<Rightarrow> ledgerCursor \<Rightarrow> ledgerCursor option)) list" where
  "cursor_fields E =
     [(''createdAt'', decode_time (\<lambda>t r. r\<lparr>lc_CreatedAt := t\<rparr>)),
      (''id'', decode_uuid (E_uuid_Parse E) (\<lambda>u r. r\<lparr>lc_ID := u\<rparr>))]"

text \<open>Nothing is an error, an empty cursor is the beginning.\<close>

definition decodeLedgerCursor :: "'d Env \<Rightarrow> string \<Rightarrow> (time \<times> uuid) option option" where
  "decodeLedgerCursor E value =
     (if value = [] then Some None
      else case Option.bind (base64_Decode value) (\<lambda>raw. Option.bind (parse_json raw)
                  (\<lambda>v. decode_struct (cursor_fields E) v \<lparr>lc_CreatedAt = 0, lc_ID = uuid_Nil\<rparr>)) of
             None \<Rightarrow> None
           | Some cursor \<Rightarrow>
               if IsZeroTime (lc_CreatedAt cursor) \<or> lc_ID cursor = uuid_Nil then None
               else Some (Some (lc_CreatedAt cursor, lc_ID cursor)))"

definition ledger_limit :: "string \<Rightarrow> int option" where
  "ledger_limit rawLimit =
     (if rawLimit = [] then Some defaultLedgerLimit
      else case Atoi rawLimit of
             None \<Rightarrow> None
           | Some n \<Rightarrow> if n < 1 \<or> maxLedgerLimit < n then None else Some n)"

definition entry_response :: "'d WalletLedgerEntry \<Rightarrow> 'd walletLedgerEntryResponse" where
  "entry_response entry =
     \<lparr>lrs_ID = entry_id entry, lrs_WalletID = entry_walletID entry, lrs_TransactionID = entry_transactionID entry,
      lrs_Direction = string_of_direction (entry_direction entry), lrs_Money = entry_amount entry,
      lrs_BalanceBefore = entry_balanceBefore entry, lrs_BalanceAfter = entry_balanceAfter entry,
      lrs_CreatedAt = entry_createdAt entry\<rparr>"

definition ledger_reply :: "'d Env \<Rightarrow> int \<Rightarrow> 'd WalletLedgerEntry list \<Rightarrow> (nat \<times> 'd body) handler" where
  "ledger_reply E limit result =
     (let entries = take (nat limit) result;
          responses = map entry_response entries
      in if limit < int (length result)
         then case encodeLedgerCursor E (last entries) of
                Inl e \<Rightarrow> (\<lambda>w. (Inl (ServiceErr e), w))
              | Inr cursor \<Rightarrow> reply (200, LedgerBody \<lparr>lrs_Entries = responses, lrs_NextCursor = cursor\<rparr>)
         else reply (200, LedgerBody \<lparr>lrs_Entries = responses, lrs_NextCursor = []\<rparr>))"

definition WalletHandler_Ledger :: "'d Env \<Rightarrow> string \<Rightarrow> Request \<Rightarrow> (nat \<times> 'd body) handler" where
  "WalletHandler_Ledger E walletId rq =
     (case ledger_limit (rq_limit rq) of
        None \<Rightarrow> fail (withDetails errInvalidPayload ''limit must be between 1 and 100'')
      | Some limit \<Rightarrow>
     (case decodeLedgerCursor E (rq_cursor rq) of
        None \<Rightarrow> fail (withDetails errInvalidPayload ''invalid cursor'')
      | Some cursor \<Rightarrow>
          serve (WalletService_ListLedger E background walletId (map_option fst cursor) (map_option snd cursor) (limit + 1))
            (ledger_reply E limit)))"

text \<open>A divergence is only logged and counted.\<close>

definition WalletHandler_Reconcile :: "'d Env \<Rightarrow> string \<Rightarrow> (nat \<times> 'd body) handler" where
  "WalletHandler_Reconcile E walletId =
     serve (WalletService_Reconcile E background walletId) (\<lambda>result. reply (200, ReconciliationBody result))"

section \<open>Wager transactions\<close>

definition WagerHandler_Create ::
  "'d Env \<Rightarrow> ReferenceRetryPolicy \<Rightarrow> string \<Rightarrow> Principal option \<Rightarrow> Request \<Rightarrow> (nat \<times> 'd body) handler" where
  "WagerHandler_Create E P correlationID identity rq =
     (case identity of
        None \<Rightarrow> fail errUnauthorized
      | Some p \<Rightarrow>
     (case rq_WagerBody rq of
        None \<Rightarrow> fail errInvalidPayload
      | Some req \<Rightarrow>
          if cgr_ProviderID req = [] \<or> cgr_ExternalTransactionID req = [] \<or> cgr_PlayerID req = [] \<or>
             cgr_WalletID req = [] \<or> cgr_RoundID req = [] \<or> cgr_GameID req = [] \<or>
             cgr_Kind req = [] \<or> mr_Amount (cgr_Money req) = [] \<or> mr_Currency (cgr_Money req) = []
          then fail (withDetails errInvalidPayload
            ''providerId, externalTransactionId, playerId, walletId, roundId, gameId, kind and money are required'')
          else if cgr_ProviderID req \<noteq> prin_ProviderID p then fail errForbidden
          else if rq_IdempotencyKey rq = [] then fail errIdempotencyKeyRequired
          else serve (Process E P background
                 \<lparr>cmd_ProviderID = prin_ProviderID p, cmd_ExternalTransactionID = cgr_ExternalTransactionID req,
                  cmd_IdempotencyKey = rq_IdempotencyKey rq, cmd_WalletID = cgr_WalletID req,
                  cmd_PlayerID = cgr_PlayerID req, cmd_RoundID = cgr_RoundID req, cmd_GameID = cgr_GameID req,
                  cmd_Type = cgr_Kind req, cmd_Amount = mr_Amount (cgr_Money req),
                  cmd_Currency = mr_Currency (cgr_Money req),
                  cmd_ReferenceExternalTransactionID = cgr_ReferenceExternalTransactionID req\<rparr>
                 \<lparr>CorrelationID = correlationID, CausationID = []\<rparr>)
               (\<lambda>result. reply
                  (if pr_Status result = PENDING_REFERENCE \<or> pr_Status result = PENDING then 202 else 200,
                   WagerBody
                     \<lparr>grs_TransactionID = pr_TransactionID result, grs_Status = pr_Status result,
                      grs_Balance = pr_BalanceAfter result, grs_FailureCode = pr_FailureCode result,
                      grs_IdempotentReplay = pr_IdempotentReplay result\<rparr>))))"

definition WagerHandler_GetByID :: "'d Env \<Rightarrow> Principal option \<Rightarrow> string \<Rightarrow> (nat \<times> 'd body) handler" where
  "WagerHandler_GetByID E identity transactionId =
     (case identity of
        None \<Rightarrow> fail errUnauthorized
      | Some p \<Rightarrow>
          serve (WagerService_GetByID E background (prin_ProviderID p) transactionId)
            (\<lambda>result. reply (200, TransactionBody result)))"

definition WagerHandler_GetByExternalTransactionID ::
  "'d Env \<Rightarrow> Principal option \<Rightarrow> string \<Rightarrow> string \<Rightarrow> (nat \<times> 'd body) handler" where
  "WagerHandler_GetByExternalTransactionID E identity providerId externalTransactionId =
     (case identity of
        None \<Rightarrow> fail errUnauthorized
      | Some p \<Rightarrow>
          if providerId \<noteq> prin_ProviderID p then fail errForbidden
          else serve (WagerService_GetByExternalTransactionID E background providerId externalTransactionId)
                 (\<lambda>result. reply (200, TransactionBody result)))"

section \<open>Middleware and routes\<close>

definition Authenticate :: "(string \<Rightarrow> string option) \<Rightarrow> Request \<Rightarrow> APIError + Principal" where
  "Authenticate idToken rq =
     (case bearerToken (rq_Authorization rq) of
        None \<Rightarrow> Inl errUnauthorized
      | Some token \<Rightarrow>
          (case Verifier_Verify idToken token of Inl e \<Rightarrow> Inl errUnauthorized | Inr identity \<Rightarrow> Inr identity))"

definition RequireProvider :: "Principal option \<Rightarrow> 'a handler \<Rightarrow> 'a handler" where
  "RequireProvider identity k =
     (case identity of
        None \<Rightarrow> fail errUnauthorized
      | Some p \<Rightarrow> if \<not> IsProvider p then fail errForbidden else k)"

definition RequireInternal :: "Principal option \<Rightarrow> 'a handler \<Rightarrow> 'a handler" where
  "RequireInternal identity k =
     (case identity of
        None \<Rightarrow> fail errUnauthorized
      | Some p \<Rightarrow> if \<not> IsInternal p then fail errForbidden else k)"

definition correlation_char :: "char \<Rightarrow> bool" where
  "correlation_char c \<longleftrightarrow>
     is_digit c \<or> is_upper c \<or> (97 \<le> (of_char c :: nat) \<and> (of_char c :: nat) \<le> 122) \<or>
     c \<in> {CHR ''.'', CHR ''_'', CHR '':'', CHR ''-''}"

definition correlationIDPattern :: "string \<Rightarrow> bool" where
  "correlationIDPattern s \<longleftrightarrow> 1 \<le> length s \<and> length s \<le> 128 \<and> list_all correlation_char s"

definition requestContext :: "'d Env \<Rightarrow> Request \<Rightarrow> World \<Rightarrow> string \<times> World" where
  "requestContext E rq w =
     (if correlationIDPattern (rq_CorrelationID rq) then (rq_CorrelationID rq, w)
      else (E_uuid_String E (E_uuid E (w_step w)), w\<lparr>w_step := Suc (w_step w)\<rparr>))"

definition errorHandler :: "string \<Rightarrow> http_err \<Rightarrow> 'd Response" where
  "errorHandler correlationID e =
     (let apiErr = resolveError e
      in \<lparr>rs_Status = ae_Status apiErr, rs_CorrelationID = correlationID,
          rs_RetryAfter = (if ae_Status apiErr = 503 then Some ''1'' else None),
          rs_Body = ErrorBody (ae_Code apiErr) (ae_Message apiErr) (ae_Details apiErr)\<rparr>)"

text \<open>The routes of \<^verbatim>\<open>NewRouter\<close> behind authentication, with their path parameters.\<close>

datatype route =
    PostWallets
  | GetWallet string
  | GetLedger string
  | PostReconciliation string
  | PostWagers
  | GetWager string
  | GetProviderWager string string

definition dispatch ::
  "'d Env \<Rightarrow> ReferenceRetryPolicy \<Rightarrow> string \<Rightarrow> Principal \<Rightarrow> route \<Rightarrow> Request \<Rightarrow> (nat \<times> 'd body) handler" where
  "dispatch E P correlationID p r rq =
     (case r of
        PostWallets \<Rightarrow> RequireInternal (Some p) (WalletHandler_Create E correlationID rq)
      | GetWallet walletId \<Rightarrow> RequireInternal (Some p) (WalletHandler_Get E walletId)
      | GetLedger walletId \<Rightarrow> RequireInternal (Some p) (WalletHandler_Ledger E walletId rq)
      | PostReconciliation walletId \<Rightarrow> RequireInternal (Some p) (WalletHandler_Reconcile E walletId)
      | PostWagers \<Rightarrow> RequireProvider (Some p) (WagerHandler_Create E P correlationID (Some p) rq)
      | GetWager transactionId \<Rightarrow> RequireProvider (Some p) (WagerHandler_GetByID E (Some p) transactionId)
      | GetProviderWager providerId externalTransactionId \<Rightarrow>
          RequireProvider (Some p) (WagerHandler_GetByExternalTransactionID E (Some p) providerId externalTransactionId))"

definition handle_request ::
  "'d Env \<Rightarrow> ReferenceRetryPolicy \<Rightarrow> (string \<Rightarrow> string option) \<Rightarrow> route \<Rightarrow> Request \<Rightarrow> World \<Rightarrow> 'd Response \<times> World" where
  "handle_request E P idToken r rq w =
     (case requestContext E rq w of
        (correlationID, w1) \<Rightarrow>
     (case (case Authenticate idToken rq of
              Inl e \<Rightarrow> (Inl (ApiErr e), w1)
            | Inr p \<Rightarrow> dispatch E P correlationID p r rq w1) of
        (Inl e, w2) \<Rightarrow> (errorHandler correlationID e, w2)
      | (Inr (status, b), w2) \<Rightarrow>
          (\<lparr>rs_Status = status, rs_CorrelationID = correlationID, rs_RetryAfter = None, rs_Body = b\<rparr>, w2)))"

end
