(* ===== verification/Acceptance.thy ===== *)
theory Acceptance
  imports Wager_Invariant
begin

text \<open>
  What the database accepts: the statements of the service go through on rows that meet the schema, when
  their identifiers are new.
\<close>

section \<open>Insertions\<close>

lemma sql_insert_accepted:
  "\<lbrakk>vals r = None; list_all (\<lambda>c. snd c r) checks; list_all (\<lambda>i. snd i (rows @ [r])) indexes;
    list_all (\<lambda>k. snd k (rows @ [r]) r) fks\<rbrakk> \<Longrightarrow>
     sql_insert oc vals checks indexes fks r rows = Inr (1, rows @ [r])"
  by (simp add: sql_insert_def first_failing_None [THEN iffD2] find_None_list_all [THEN iffD2])

lemma unique_index_snoc:
  "unique_index cov key (rows @ [r]) \<longleftrightarrow>
     unique_index cov key rows \<and> (cov r \<longrightarrow> (\<forall>x \<in> set rows. cov x \<longrightarrow> key x \<noteq> key r))"
proof (cases "cov r")
  case True
  have "key r \<notin> key ` {x \<in> set rows. cov x} \<longleftrightarrow> (\<forall>x \<in> set rows. cov x \<longrightarrow> key x \<noteq> key r)"
    by (auto simp: image_iff dest: sym)
  then show ?thesis using True by (simp add: unique_index_def)
qed (simp add: unique_index_def)

lemma insert_wager_accepted:
  assumes "schema_ok db" "wager_values r = None" "list_all (\<lambda>c. snd c r) wager_checks" "wg_type r \<noteq> OPENING"
    "\<not> is_reversal r" "\<forall>x \<in> set (wagers db). wg_id x \<noteq> wg_id r"
    "\<forall>x \<in> set (wagers db). wg_provider_id x = wg_provider_id r \<longrightarrow>
       wg_external_transaction_id x \<noteq> wg_external_transaction_id r \<and> wg_idempotency_key x \<noteq> wg_idempotency_key r"
    "fk_wager_wallet db r" "wg_reference_transaction_id r = None"
  shows "insert_wager r db = Inr (1, db\<lparr>wagers := wagers db @ [r]\<rparr>)"
proof -
  have "list_all (\<lambda>i. snd i (wagers db @ [r])) wager_indexes"
    using assms(1,4-7) by (auto simp: schema_ok_def table_ok_def wager_indexes_def unique_index_snoc)
  moreover have "list_all (\<lambda>k. snd k (wagers db @ [r]) r) (wager_fks db)"
    using assms(8,9) by (simp add: wager_fks_def fk_wager_reference_def)
  ultimately show ?thesis using assms(2,3) by (simp add: insert_wager_def sql_insert_accepted)
qed

lemma insert_ledger_accepted:
  assumes "schema_ok db" "ledger_values r = None" "list_all (\<lambda>c. snd c r) ledger_checks"
    "\<forall>x \<in> set (ledger db). lr_id x \<noteq> lr_id r \<and> lr_transaction_id x \<noteq> lr_transaction_id r"
    "fk_ledger_wallet db r" "fk_ledger_transaction db r"
  shows "insert_ledger r db = Inr (1, db\<lparr>ledger := ledger db @ [r]\<rparr>)"
proof -
  have "list_all (\<lambda>i. snd i (ledger db @ [r])) ledger_indexes"
    using assms(1,4) by (auto simp: schema_ok_def table_ok_def ledger_indexes_def unique_index_snoc)
  then show ?thesis using assms by (simp add: insert_ledger_def sql_insert_accepted ledger_fks_def)
qed

lemma insert_outbox_accepted:
  assumes "schema_ok db" "outbox_values r = None" "list_all (\<lambda>c. snd c r) outbox_checks"
    "\<forall>x \<in> set (outbox db). ob_event_id x \<noteq> ob_event_id r"
  shows "insert_outbox r db = Inr (1, db\<lparr>outbox := outbox db @ [r]\<rparr>)"
proof -
  have "list_all (\<lambda>i. snd i (outbox db @ [r])) outbox_indexes"
    using assms(1,4) by (auto simp: schema_ok_def table_ok_def outbox_indexes_def unique_index_snoc)
  then show ?thesis using assms by (simp add: insert_outbox_def sql_insert_accepted)
qed

section \<open>Updates of one row\<close>

lemma sql_update_accepted:
  assumes "\<And>r. \<lbrakk>r \<in> set rows; m r\<rbrakk> \<Longrightarrow> row_refused vals trig checks r (f r) = None"
    "list_all (\<lambda>i. snd i (map (\<lambda>r. if m r then f r else r) rows)) indexes"
    "\<And>r. \<lbrakk>r \<in> set rows; m r\<rbrakk> \<Longrightarrow> list_all (\<lambda>k. snd k (map (\<lambda>r. if m r then f r else r) rows) (f r)) fks"
  shows "sql_update m f vals trig checks indexes fks rows =
    Inr (length (filter m rows), map (\<lambda>r. if m r then f r else r) rows)"
proof -
  have "find (\<lambda>r. row_refused vals trig checks r (f r) \<noteq> None) (filter m rows) = None"
    using assms(1) by (auto simp: find_None_list_all list_all_iff)
  moreover have "first_failing indexes (map (\<lambda>r. if m r then f r else r) rows) = None"
    using assms(2) by (simp add: first_failing_None)
  moreover have "find (\<lambda>k. list_ex (\<lambda>r. \<not> snd k (map (\<lambda>r. if m r then f r else r) rows) (f r)) (filter m rows)) fks = None"
    using assms(3) by (auto simp: find_None_list_all list_all_iff list_ex_iff)
  ultimately show ?thesis by (simp add: sql_update_def Let_def)
qed

text \<open>An index sees only which rows it covers and their keys.\<close>

lemma unique_index_map:
  "(\<And>x. x \<in> set rows \<Longrightarrow> cov (g x) = cov x \<and> (cov x \<longrightarrow> key (g x) = key x)) \<Longrightarrow>
     unique_index cov key (map g rows) = unique_index cov key rows"
proof -
  assume g: "\<And>x. x \<in> set rows \<Longrightarrow> cov (g x) = cov x \<and> (cov x \<longrightarrow> key (g x) = key x)"
  then have "map key (filter cov (map g rows)) = map key (filter cov rows)" by (induction rows) auto
  then show ?thesis by (simp add: unique_index_def)
qed

lemma filter_key_one: "\<lbrakk>distinct (map key xs); r \<in> set xs\<rbrakk> \<Longrightarrow> length (filter (\<lambda>x. key x = key r) xs) = 1"
proof (induction xs)
  case (Cons x xs)
  have e: "filter (\<lambda>y. key y = key x) xs = []" using Cons.prems(1) by (simp add: filter_empty_conv) (metis imageI)
  show ?case
  proof (cases "r = x")
    case True
    then show ?thesis using e by simp
  next
    case False
    then have "r \<in> set xs" "key x \<noteq> key r" using Cons.prems by (auto simp: image_iff)
    then show ?thesis using Cons by simp
  qed
qed simp

lemma update_wagers_accepted:
  assumes "schema_ok db" "r \<in> set (wagers db)"
    "wager_values (f r) = None" "list_all (\<lambda>c. snd c (f r)) wager_checks" "prevent_wager_transaction_mutation r (f r) = None"
    "\<not> is_reversal r" "\<not> is_reversal (f r)" "wg_reference_transaction_id (f r) = None"
  shows "update_wagers (\<lambda>x. wg_id x = wg_id r) f db =
    Inr (1, db\<lparr>wagers := map (\<lambda>x. if wg_id x = wg_id r then f x else x) (wagers db)\<rparr>)"
proof -
  define g where "g = (\<lambda>x. if wg_id x = wg_id r then f x else x)"
  have u: "x = r" if "x \<in> set (wagers db)" "wg_id x = wg_id r" for x
    using schema_wager_unique [OF assms(1) that(1) assms(2)] that(2) by simp
  have k: "wg_id (f r) = wg_id r" "wg_provider_id (f r) = wg_provider_id r"
    "wg_external_transaction_id (f r) = wg_external_transaction_id r" "wg_idempotency_key (f r) = wg_idempotency_key r"
    "wg_type (f r) = wg_type r" "wg_wallet_id (f r) = wg_wallet_id r" "wg_currency (f r) = wg_currency r"
    using assms(5) by (auto simp: prevent_wager_transaction_mutation_def split: if_splits)
  have g: "g x = x \<or> x = r \<and> g x = f r" if "x \<in> set (wagers db)" for x using u [OF that] by (auto simp: g_def)
  have same: "wg_id (g x) = wg_id x \<and> wg_provider_id (g x) = wg_provider_id x \<and>
      wg_external_transaction_id (g x) = wg_external_transaction_id x \<and> wg_idempotency_key (g x) = wg_idempotency_key x \<and>
      wg_type (g x) = wg_type x \<and> wg_wallet_id (g x) = wg_wallet_id x \<and> is_reversal (g x) = is_reversal x \<and>
      (is_reversal x \<longrightarrow> wg_reference_transaction_id (g x) = wg_reference_transaction_id x)"
    if "x \<in> set (wagers db)" for x
    using g [OF that] k assms(6,7) by (elim disjE conjE) simp_all
  have x: "unique_index (\<lambda>r. is_reversal r \<and> wg_reference_transaction_id r \<noteq> None) wg_reference_transaction_id (map g (wagers db)) =
      unique_index (\<lambda>r. is_reversal r \<and> wg_reference_transaction_id r \<noteq> None) wg_reference_transaction_id (wagers db)"
    by (rule unique_index_map) (use same in auto)
  have i: "list_all (\<lambda>i. snd i (map g (wagers db))) wager_indexes"
    using assms(1) x by (simp add: schema_ok_def table_ok_def wager_indexes_def unique_index_map same del: not_None_eq)
  have "fk_wager_wallet db r" using assms(1,2) by (simp add: schema_ok_def list_all_iff)
  then have "fk_wager_wallet db (f r)" using k by (simp add: fk_wager_wallet_def)
  then have fk: "list_all (\<lambda>q. snd q (map g (wagers db)) (f r)) (wager_fks db)"
    using assms(8) by (simp add: wager_fks_def fk_wager_reference_def)
  have "distinct (map wg_id (wagers db))"
    using assms(1) by (simp add: schema_ok_def table_ok_def wager_indexes_def unique_index_def)
  then have n: "length (filter (\<lambda>x. wg_id x = wg_id r) (wagers db)) = 1" using assms(2) by (rule filter_key_one)
  have "sql_update (\<lambda>x. wg_id x = wg_id r) f wager_values prevent_wager_transaction_mutation wager_checks wager_indexes
      (wager_fks db) (wagers db) = Inr (1, map g (wagers db))"
    unfolding g_def n [symmetric]
    by (rule sql_update_accepted) (use u assms(3-5) i fk in \<open>auto simp: row_refused_None g_def\<close>)
  then show ?thesis by (simp add: update_wagers_def g_def)
qed

lemma update_wallets_accepted:
  assumes "schema_ok db" "r \<in> set (wallets db)" "m r" "\<And>x. m x \<Longrightarrow> wr_id x = wr_id r"
    "wallet_values (f r) = None" "list_all (\<lambda>c. snd c (f r)) wallet_checks" "enforce_wallet_update_rules r (f r) = None"
  shows "update_wallets m f db = Inr (1, db\<lparr>wallets := map (\<lambda>x. if m x then f x else x) (wallets db)\<rparr>)"
proof -
  define g where "g = (\<lambda>x. if m x then f x else x)"
  have u: "x = r" if "x \<in> set (wallets db)" "m x" for x
    using schema_wallet_unique [OF assms(1) that(1) assms(2)] assms(4) [OF that(2)] by simp
  have k: "wr_id (f r) = wr_id r" "wr_player_id (f r) = wr_player_id r" "wr_currency (f r) = wr_currency r"
    using assms(7) by (auto simp: enforce_wallet_update_rules_def split: if_splits)
  have g: "g x = x \<or> x = r \<and> g x = f r" if "x \<in> set (wallets db)" for x using u [OF that] by (auto simp: g_def)
  have same: "wr_id (g x) = wr_id x \<and> wr_player_id (g x) = wr_player_id x \<and> wr_currency (g x) = wr_currency x"
    if "x \<in> set (wallets db)" for x using g [OF that] k by (elim disjE conjE) simp_all
  have i: "list_all (\<lambda>i. snd i (map g (wallets db))) wallet_indexes"
    using assms(1) by (simp add: schema_ok_def table_ok_def wallet_indexes_def unique_index_map same)
  have "distinct (map wr_id (wallets db))"
    using assms(1) by (simp add: schema_ok_def table_ok_def wallet_indexes_def unique_index_def)
  then have "length (filter (\<lambda>x. wr_id x = wr_id r) (wallets db)) = 1" using assms(2) by (rule filter_key_one)
  moreover have "filter (\<lambda>x. wr_id x = wr_id r) (wallets db) = filter m (wallets db)"
    using u assms(3,4) schema_wallet_unique [OF assms(1) _ assms(2)] by (intro filter_cong refl) metis
  ultimately have n: "length (filter m (wallets db)) = 1" by simp
  have "sql_update m f wallet_values enforce_wallet_update_rules wallet_checks wallet_indexes [] (wallets db) =
      Inr (1, map g (wallets db))"
    unfolding g_def n [symmetric]
    by (rule sql_update_accepted) (use u assms(5-7) i in \<open>auto simp: row_refused_None g_def\<close>)
  then show ?thesis by (simp add: update_wallets_def g_def)
qed

end
