(* ===== verification/Delivery.thy ===== *)
theory Delivery
  imports Outbox_Correctness Acceptance
begin

text \<open>
  What the dispatcher promises of one event: which event a claim takes, who may mark it, that an
  answered call delivers it, and that its message can be read back.
\<close>

section \<open>Statements the table accepts\<close>

lemma update_outbox_accepted:
  assumes "schema_ok db" "\<And>r. same_event r (f r)"
    "\<And>r. \<lbrakk>r \<in> set (outbox db); m r\<rbrakk> \<Longrightarrow> outbox_values (f r) = None \<and> list_all (\<lambda>c. snd c (f r)) outbox_checks"
  shows "update_outbox m f db =
    Inr (length (filter m (outbox db)), db\<lparr>outbox := map (\<lambda>r. if m r then f r else r) (outbox db)\<rparr>)"
proof -
  let ?g = "\<lambda>r. if m r then f r else r"
  have i: "map (ob_event_id \<circ> ?g) (outbox db) = map ob_event_id (outbox db)"
    using assms(2) by (simp add: same_event_def)
  have "distinct (map ob_event_id (map ?g (outbox db)))"
    unfolding map_map i using assms(1) by (simp add: outbox_indexes_def unique_index_def schema_ok_def table_ok_def)
  then have "list_all (\<lambda>i. snd i (map ?g (outbox db))) outbox_indexes"
    by (simp add: outbox_indexes_def unique_index_def)
  moreover have "row_refused outbox_values prevent_outbox_payload_mutation outbox_checks r (f r) = None"
    if "r \<in> set (outbox db)" "m r" for r
    using assms(3) [OF that] assms(2) [of r]
    by (simp add: row_refused_None prevent_outbox_payload_mutation_def same_event_def)
  ultimately show ?thesis by (simp add: update_outbox_def sql_update_accepted)
qed

lemma request_Reply:
  "\<lbrakk>E_reply E (w_step w) = Reply; f (E_clock E (w_step w)) (E_clock E (w_step w)) (w_db w) = Inr (a, db)\<rbrakk> \<Longrightarrow>
     request E background f w = (Inr a, w\<lparr>w_step := Suc (w_step w), w_db := db\<rparr>)"
  by (simp add: request_def Let_def)

lemma Clock_Reply:
  "E_reply E (w_step w) = Reply \<Longrightarrow>
     Clock_Now E background w = (Inr (E_clock E (w_step w)), w\<lparr>w_step := Suc (w_step w)\<rparr>)"
  by (simp add: Clock_Now_def request_Reply)

lemma sqs_Reply:
  "E_reply E (w_step w) = Reply \<Longrightarrow>
     sqs_request E call w = (Inr (), w\<lparr>w_step := Suc (w_step w), w_calls := w_calls w @ [call]\<rparr>)"
  by (simp add: sqs_request_def Let_def)

lemma outbox_row_ok:
  "\<lbrakk>schema_ok db; r \<in> set (outbox db)\<rbrakk> \<Longrightarrow> outbox_values r = None \<and> list_all (\<lambda>c. snd c r) outbox_checks"
  by (simp add: schema_ok_def table_ok_def list_all_iff)

lemma claim_accepted:
  assumes "schema_ok db" "btrim i \<noteq> []" "pg_text_ok i"
  shows "update_outbox m (claim_assign i t) db =
    Inr (length (filter m (outbox db)), db\<lparr>outbox := map (\<lambda>r. if m r then claim_assign i t r else r) (outbox db)\<rparr>)"
proof (rule update_outbox_accepted [OF assms(1)])
  fix r assume r: "r \<in> set (outbox db)" "m r"
  show "outbox_values (claim_assign i t r) = None \<and> list_all (\<lambda>c. snd c (claim_assign i t r)) outbox_checks"
    using outbox_row_ok [OF assms(1) r(1)] assms(2,3)
    by (simp add: outbox_values_def outbox_checks_def claim_assign_def pg_texts_ok_def not_blank_def split: if_splits)
qed (simp add: same_event_def claim_assign_def)

lemma mark_accepted:
  assumes "schema_ok db" "\<And>r. \<lbrakk>r \<in> set (outbox db); m r\<rbrakk> \<Longrightarrow> ob_occurred_at r \<le> t"
  shows "update_outbox m (\<lambda>r. r\<lparr>ob_published_at := Some t, ob_claimed_by := None, ob_claimed_until := None\<rparr>) db =
    Inr (length (filter m (outbox db)),
      db\<lparr>outbox := map (\<lambda>r. if m r then r\<lparr>ob_published_at := Some t, ob_claimed_by := None, ob_claimed_until := None\<rparr> else r) (outbox db)\<rparr>)"
proof (rule update_outbox_accepted [OF assms(1)])
  fix r assume r: "r \<in> set (outbox db)" "m r"
  show "outbox_values (r\<lparr>ob_published_at := Some t, ob_claimed_by := None, ob_claimed_until := None\<rparr>) = None \<and>
    list_all (\<lambda>c. snd c (r\<lparr>ob_published_at := Some t, ob_claimed_by := None, ob_claimed_until := None\<rparr>)) outbox_checks"
    using outbox_row_ok [OF assms(1) r(1)] assms(2) [OF r]
    by (simp add: outbox_values_def outbox_checks_def pg_texts_ok_def null_or_def split: if_splits)
qed (simp add: same_event_def)

text \<open>What one successful call of the dispatcher leaves of the outbox.\<close>

definition delivered :: "uuid \<Rightarrow> time \<Rightarrow> outbox_row list \<Rightarrow> outbox_row list" where
  "delivered i t = map (\<lambda>x. if ob_event_id x = i
     then x\<lparr>ob_attempts := ob_attempts x + 1, ob_published_at := Some t, ob_claimed_by := None, ob_claimed_until := None\<rparr>
     else x)"

lemma ClaimPending_Reply:
  assumes "schema_ok (w_db w)" "btrim i \<noteq> []" "pg_text_ok i" "E_reply E (w_step w) = Reply"
    "claim_candidates (E_clock E (w_step w)) (w_db w) = r # rs" "ob_attempts r + 1 < 2 ^ 31"
  shows "ClaimPending E i t w =
    (Inr (pending_event (claim_assign i t r)), w\<lparr>w_step := Suc (w_step w), w_db := (w_db w)\<lparr>outbox :=
       map (\<lambda>x. if ob_event_id x = ob_event_id r then claim_assign i t x else x) (outbox (w_db w))\<rparr>\<rparr>)"
proof -
  let ?db = "(w_db w)\<lparr>outbox := map (\<lambda>x. if ob_event_id x = ob_event_id r then claim_assign i t x else x) (outbox (w_db w))\<rparr>"
  have "claim_query i t (E_clock E (w_step w)) (w_db w) = Inr (Some (claim_assign i t r), ?db)"
    using assms(5,6) by (simp add: claim_query_def claim_accepted [OF assms(1-3)])
  then show ?thesis
    using request_Reply [OF assms(4), of "\<lambda>now clk. claim_query i t now"] by (simp add: ClaimPending_def bind_act_def ret_def)
qed

lemma MarkPublished_Reply:
  assumes "schema_ok (w_db w)" "E_reply E (w_step w) = Reply" "r \<in> set (outbox (w_db w))" "claimed_by e i r"
    "\<And>r. r \<in> set (outbox (w_db w)) \<Longrightarrow> ob_event_id r = e \<Longrightarrow> ob_occurred_at r \<le> t"
  shows "MarkPublished E e i t w = (Inr (), w\<lparr>w_step := Suc (w_step w), w_db := (w_db w)\<lparr>outbox :=
     map (\<lambda>r. if claimed_by e i r then r\<lparr>ob_published_at := Some t, ob_claimed_by := None, ob_claimed_until := None\<rparr> else r)
       (outbox (w_db w))\<rparr>\<rparr>)"
proof -
  have m: "\<And>r. \<lbrakk>r \<in> set (outbox (w_db w)); claimed_by e i r\<rbrakk> \<Longrightarrow> ob_occurred_at r \<le> t"
    using assms(5) by (simp add: claimed_by_def)
  have "filter (claimed_by e i) (outbox (w_db w)) \<noteq> []" using assms(3,4) by (auto simp: filter_empty_conv)
  then show ?thesis
    by (simp add: MarkPublished_def exec_stmt_def bind_act_def request_Reply [OF assms(2)] mark_accepted [OF assms(1) m] ret_def)
qed

lemma DispatchNext_delivers:
  assumes "schema_ok (w_db w)" "btrim i \<noteq> []" "pg_text_ok i"
    "\<forall>k < 5. E_reply E (w_step w + k) = Reply"
    "claim_candidates (E_clock E (w_step w + 1)) (w_db w) = r # rs" "ob_attempts r + 1 < 2 ^ 31"
    "ob_occurred_at r \<le> E_clock E (w_step w + 3)"
  shows "DispatchNext E q i w = ((True, None), w\<lparr>w_step := w_step w + 5,
    w_calls := w_calls w @ [outbox_message E q (pending_event r)],
    w_db := (w_db w)\<lparr>outbox := delivered (ob_event_id r) (E_clock E (w_step w + 3)) (outbox (w_db w))\<rparr>\<rparr>) \<and>
    schema_ok ((w_db w)\<lparr>outbox := delivered (ob_event_id r) (E_clock E (w_step w + 3)) (outbox (w_db w))\<rparr>)"
proof -
  let ?k = "w_step w" and ?ev = "\<lambda>t. pending_event (claim_assign i t r)"
  have k: "E_reply E ?k = Reply" "E_reply E (Suc ?k) = Reply" "E_reply E (Suc (Suc ?k)) = Reply"
    "E_reply E (Suc (Suc (Suc ?k))) = Reply" "E_reply E (Suc (Suc (Suc (Suc ?k)))) = Reply"
    using assms(4) [rule_format, of 0] assms(4) [rule_format, of 1] assms(4) [rule_format, of 2]
      assms(4) [rule_format, of 3] assms(4) [rule_format, of 4] by (simp_all add: eval_nat_numeral)
  have r: "r \<in> set (outbox (w_db w))" "ob_published_at r = None"
    using claim_candidates_in [OF assms(5)] by (simp_all add: claimable_def)
  note u = schema_event_unique [OF assms(1) _ r(1)]
  have p: "ob_published_at x = None" if "x \<in> set (outbox (w_db w))" "ob_event_id x = ob_event_id r" for x
    using u [OF that] r(2) by simp
  let ?t = "E_clock E ?k + outboxLeaseDuration"
  let ?p = "E_clock E (Suc (Suc (Suc ?k)))"
  let ?rows = "map (\<lambda>x. if ob_event_id x = ob_event_id r then claim_assign i ?t x else x) (outbox (w_db w))"
  let ?w1 = "w\<lparr>w_step := Suc ?k\<rparr>"
  let ?w2 = "?w1\<lparr>w_step := Suc (w_step ?w1), w_db := (w_db ?w1)\<lparr>outbox := ?rows\<rparr>\<rparr>"
  let ?w3 = "?w2\<lparr>w_step := Suc (w_step ?w2), w_calls := w_calls ?w2 @ [outbox_message E q (?ev ?t)]\<rparr>"
  let ?w4 = "?w3\<lparr>w_step := Suc (w_step ?w3)\<rparr>"
  let ?new = "map (\<lambda>x. if claimed_by (ob_event_id r) i x
    then x\<lparr>ob_published_at := Some ?p, ob_claimed_by := None, ob_claimed_until := None\<rparr> else x) (outbox (w_db ?w4))"
  have c: "ClaimPending E i ?t ?w1 = (Inr (?ev ?t), ?w2)"
    using ClaimPending_Reply [OF _ assms(2,3), of ?w1 E r rs ?t] assms(1,5,6) k(2) by simp
  have c0: "Clock_Now E background w = (Inr (E_clock E ?k), ?w1)" using k by (intro Clock_Reply) simp
  have c2: "OutboxPublisher_Publish E q (?ev ?t) ?w2 = (Inr (), ?w3)"
    unfolding OutboxPublisher_Publish_def using k by (intro sqs_Reply) simp
  have c3: "Clock_Now E background ?w3 = (Inr ?p, ?w4)" using k Clock_Reply [of E ?w3] by simp
  have s4: "schema_ok (w_db ?w4)" using update_outbox_schema [OF claim_accepted [OF assms(1-3)] assms(1)] by simp
  have e: "po_EventID (?ev ?t) = ob_event_id r" by (simp add: pending_event_def claim_assign_def)
  have c4: "MarkPublished E (po_EventID (?ev ?t)) i ?p ?w4 =
      (Inr (), ?w4\<lparr>w_step := Suc (w_step ?w4), w_db := (w_db ?w4)\<lparr>outbox := ?new\<rparr>\<rparr>)" unfolding e
  proof (rule MarkPublished_Reply [OF s4, of E "claim_assign i ?t r"])
    show "ob_occurred_at x \<le> ?p" if "x \<in> set (outbox (w_db ?w4))" "ob_event_id x = ob_event_id r" for x
      using that assms(7) by (auto simp: claim_assign_def eval_nat_numeral dest: u split: if_splits)
  qed (use k r in \<open>force simp: claimed_by_def claim_assign_def\<close>)+
  have "DispatchNext E q i w = ((True, None), ?w4\<lparr>w_step := Suc (w_step ?w4), w_db := (w_db ?w4)\<lparr>outbox := ?new\<rparr>\<rparr>)"
    by (simp only: DispatchNext_def c0 c c2 c3 c4 prod.case sum.case)
  moreover have "?new = delivered (ob_event_id r) ?p (outbox (w_db w))"
    using p by (auto simp: delivered_def claimed_by_def claim_assign_def)
  moreover have "outbox_message E q (?ev ?t) = outbox_message E q (pending_event r)"
    by (rule same_event_message) (simp add: same_event_def claim_assign_def)
  moreover have "schema_ok ((w_db ?w4)\<lparr>outbox := ?new\<rparr>)"
  proof (rule update_outbox_schema [OF mark_accepted [OF s4] s4])
    show "ob_occurred_at x \<le> ?p" if "x \<in> set (outbox (w_db ?w4))" "claimed_by (ob_event_id r) i x" for x
      using that assms(7) by (auto simp: claimed_by_def claim_assign_def eval_nat_numeral dest: u split: if_splits)
  qed
  ultimately show ?thesis by (simp add: eval_nat_numeral)
qed

text \<open>
  C17: when the requests are answered, a call of \<^verbatim>\<open>DispatchNext\<close> by a worker with a proper
  name delivers the event that is due first: its message is sent once, with the identifier of the event
  to deduplicate by, the event is marked published, its attempts are counted, the lease is released,
  and nothing else of the outbox changes.
\<close>

theorem delivers_first:
  assumes "schema_ok (w_db w)" "btrim i \<noteq> []" "pg_text_ok i"
    "\<forall>k < 5. E_reply E (w_step w + k) = Reply"
    "claim_candidates (E_clock E (w_step w + 1)) (w_db w) = r # rs" "ob_attempts r + 1 < 2 ^ 31"
    "ob_occurred_at r \<le> E_clock E (w_step w + 3)"
  shows "DispatchNext E q i w = ((True, None), w\<lparr>w_step := w_step w + 5,
    w_calls := w_calls w @ [outbox_message E q (pending_event r)],
    w_db := (w_db w)\<lparr>outbox := delivered (ob_event_id r) (E_clock E (w_step w + 3)) (outbox (w_db w))\<rparr>\<rparr>)"
  using DispatchNext_delivers [OF assms] by (rule conjunct1)

theorem delivers_first_witness:
  "fst (DispatchNext demo_env ''events'' ''w1'' (demo_outbox_world demo_event_row)) = (True, None)"
proof -
  have "claim_candidates (E_clock demo_env (w_step (demo_outbox_world demo_event_row) + 1))
      (w_db (demo_outbox_world demo_event_row)) = [demo_event_row]"
    by (simp add: claim_candidates_def claimable_def demo_outbox_world_def demo_world_def demo_event_row_def)
  moreover have "btrim ''w1'' \<noteq> [] \<and> pg_text_ok ''w1''" by code_simp
  ultimately show ?thesis
    using delivers_first [OF demo_outbox_schema [OF demo_event_ok], of "''w1''" demo_env demo_event_row "[]" "''events''"]
    by (simp add: demo_event_row_def)
qed

section \<open>Claims\<close>

lemma sort_key_first:
  assumes "sort_key f (sort_key g xs) = r # rs" "x \<in> set xs"
  shows "f r \<le> f x \<and> (f x = f r \<longrightarrow> g r \<le> g x)"
proof -
  have "x \<in> set (r # rs)" using assms by (metis set_sort)
  moreover have "sorted (map f (r # rs))" unfolding assms(1) [symmetric] by simp
  ultimately have "f r \<le> f x" by auto
  moreover have "g r \<le> g x" if "f x = f r"
  proof -
    let ?ys = "filter (\<lambda>y. f y = f r) (sort_key g xs)"
    have "r # filter (\<lambda>y. f y = f r) rs = ?ys"
      using sort_key_stable [of f "f r" "sort_key g xs"] assms(1) by (simp add: eq_commute)
    moreover have "x \<in> set ?ys" using assms(2) that by simp
    moreover have "sorted (map g ?ys)" by (simp add: sorted_filter)
    ultimately show ?thesis by (metis (no_types, lifting) list.simps(9) order_refl set_ConsD sorted_simps(2) image_eqI list.set_map)
  qed
  ultimately show ?thesis by blast
qed

text \<open>
  C23: \<^verbatim>\<open>ClaimPending\<close> takes the event that is due first by the clock of the database: unpublished, due, not leased, and none
  such was due earlier, nor occurred earlier when due at the same time. It counts an attempt and leases
  the event to the worker until the given time, so that nobody can claim it before, and changes nothing else.
\<close>

theorem claim_takes_due:
  assumes "ClaimPending E i t w = (Inr ev, w')"
  shows "\<exists>r. r \<in> set (outbox (w_db w)) \<and> claimable (E_clock E (w_step w)) r \<and>
    (\<forall>x \<in> set (outbox (w_db w)). claimable (E_clock E (w_step w)) x \<longrightarrow> ob_next_attempt_at r \<le> ob_next_attempt_at x \<and>
       (ob_next_attempt_at x = ob_next_attempt_at r \<longrightarrow> ob_occurred_at r \<le> ob_occurred_at x)) \<and>
    ev = pending_event (claim_assign i t r) \<and> (\<forall>now' < t. \<not> claimable now' (claim_assign i t r)) \<and>
    w_db w' = (w_db w)\<lparr>outbox := map (\<lambda>x. if ob_event_id x = ob_event_id r then claim_assign i t x else x) (outbox (w_db w))\<rparr>"
proof -
  let ?now = "E_clock E (w_step w)"
  obtain r rs n where c: "claim_candidates ?now (w_db w) = r # rs" "ev = pending_event (claim_assign i t r)"
    "update_outbox (\<lambda>x. ob_event_id x = ob_event_id r) (claim_assign i t) (w_db w) = Inr (n, w_db w')"
    using ClaimPending_row [OF assms] by blast
  have "ob_next_attempt_at r \<le> ob_next_attempt_at x \<and> (ob_next_attempt_at x = ob_next_attempt_at r \<longrightarrow> ob_occurred_at r \<le> ob_occurred_at x)"
    if "x \<in> set (outbox (w_db w))" "claimable ?now x" for x
    using sort_key_first [OF c(1) [unfolded claim_candidates_def], of x] that by simp
  moreover have "\<forall>now' < t. \<not> claimable now' (claim_assign i t r)" by (simp add: claimable_def claim_assign_def)
  ultimately show ?thesis using claim_candidates_in [OF c(1)] c(2) update_outbox_rows [OF c(3)] by blast
qed

lemma update_outbox_none:
  assumes "schema_ok db" "\<forall>r \<in> set (outbox db). \<not> m r"
  shows "update_outbox m f db = Inr (0, db)"
proof -
  have "sql_update m f outbox_values prevent_outbox_payload_mutation outbox_checks outbox_indexes [] (outbox db) =
      Inr (length (filter m (outbox db)), map (\<lambda>r. if m r then f r else r) (outbox db))"
    using assms by (intro sql_update_accepted) (simp_all add: schema_ok_def table_ok_def cong: map_cong)
  moreover have "map (\<lambda>r. if m r then f r else r) (outbox db) = outbox db" "filter m (outbox db) = []"
    using assms(2) by (simp_all add: filter_empty_conv cong: map_cong)
  ultimately show ?thesis by (simp add: update_outbox_def)
qed

lemma exec_none:
  assumes "schema_ok (w_db w)" "\<forall>r \<in> set (outbox (w_db w)). \<not> m r" "exec_stmt E ctx (update_outbox m f) w = (x, w')"
  shows "w_db w' = w_db w \<and> (x = Inr 0 \<or> isl x)"
  using assms(3) unfolding exec_stmt_def request_def
  by (auto simp: update_outbox_none [OF assms(1,2)] Let_def split: if_splits reply.splits)

text \<open>
  C24: a worker whose event was claimed by another one in the meantime cannot mark it
  published nor reschedule it: both operations fail and leave the database as it is.
\<close>

theorem stale_worker_harmless:
  assumes "schema_ok (w_db w)" "ClaimPending E j t w = (Inr ev, w1)" "i \<noteq> j"
  shows "isl (fst (MarkPublished E (po_EventID ev) i t' w1)) \<and> w_db (snd (MarkPublished E (po_EventID ev) i t' w1)) = w_db w1 \<and>
    isl (fst (ScheduleRetry E (po_EventID ev) i t' w1)) \<and> w_db (snd (ScheduleRetry E (po_EventID ev) i t' w1)) = w_db w1"
proof -
  obtain r rs n where c: "claim_candidates (E_clock E (w_step w)) (w_db w) = r # rs" "ev = pending_event (claim_assign j t r)"
    "update_outbox (\<lambda>x. ob_event_id x = ob_event_id r) (claim_assign j t) (w_db w) = Inr (n, w_db w1)"
    using ClaimPending_row [OF assms(2)] by blast
  have s: "schema_ok (w_db w1)" using update_outbox_schema [OF c(3) assms(1)] .
  have n: "\<forall>x \<in> set (outbox (w_db w1)). \<not> claimed_by (po_EventID ev) i x"
    unfolding update_outbox_rows [OF c(3)] using assms(3) c(2) by (auto simp: claimed_by_def claim_assign_def pending_event_def)
  let ?m = "claimed_by (po_EventID ev) i"
  obtain x v where x: "exec_stmt E background (update_outbox ?m
    (\<lambda>r. r\<lparr>ob_published_at := Some t', ob_claimed_by := None, ob_claimed_until := None\<rparr>)) w1 = (x, v)" by (metis surj_pair)
  obtain y u where y: "exec_stmt E background (update_outbox ?m
    (\<lambda>r. r\<lparr>ob_next_attempt_at := t', ob_claimed_by := None, ob_claimed_until := None\<rparr>)) w1 = (y, u)" by (metis surj_pair)
  show ?thesis
    using exec_none [OF s n x] exec_none [OF s n y]
    by (auto simp: MarkPublished_def ScheduleRetry_def bind_act_def throw_def ret_def x y split: sum.split)
qed

lemma demo_claim:
  "ClaimPending demo_env ''w1'' t (demo_outbox_world demo_event_row) =
     (Inr (pending_event (claim_assign ''w1'' t demo_event_row)), (demo_outbox_world (claim_assign ''w1'' t demo_event_row))\<lparr>w_step := 1\<rparr>)"
proof -
  have "claim_candidates (E_clock demo_env (w_step (demo_outbox_world demo_event_row))) (w_db (demo_outbox_world demo_event_row)) = [demo_event_row]"
    by (simp add: claim_candidates_def claimable_def demo_outbox_world_def demo_world_def demo_event_row_def)
  moreover have "btrim ''w1'' \<noteq> [] \<and> pg_text_ok ''w1''" by code_simp
  ultimately show ?thesis
    using ClaimPending_Reply [OF demo_outbox_schema [OF demo_event_ok], of "''w1''" demo_env demo_event_row "[]" t]
    by (simp add: demo_outbox_world_def demo_world_def) (simp add: demo_event_row_def)
qed

theorem claim_takes_due_witness:
  "\<exists>r. claimable 5000 r \<and> pending_event (claim_assign ''w1'' 9000 demo_event_row) = pending_event (claim_assign ''w1'' 9000 r)"
proof -
  have "E_clock demo_env (w_step (demo_outbox_world demo_event_row)) = 5000" by (simp add: demo_outbox_world_def demo_world_def)
  then show ?thesis using claim_takes_due [OF demo_claim [of 9000]] by auto
qed

theorem stale_worker_harmless_witness:
  "isl (fst (MarkPublished demo_env 50 ''w2'' 9000 ((demo_outbox_world (claim_assign ''w1'' 9000 demo_event_row))\<lparr>w_step := 1\<rparr>)))"
  using stale_worker_harmless [OF demo_outbox_schema [OF demo_event_ok] demo_claim [of 9000], of "''w2''" 9000]
  by (simp add: pending_event_def claim_assign_def demo_event_row_def)

section \<open>Messages\<close>

abbreviation ascii :: "string \<Rightarrow> bool" where
  "ascii \<equiv> list_all (\<lambda>c. (of_char c :: nat) < 128)"

lemma ascii_utf8: "ascii s \<Longrightarrow> utf8_valid (map of_char s)"
  by (induction s) simp_all

lemma ascii_digits: "list_all is_digit s \<Longrightarrow> ascii s"
  by (auto simp: list_all_iff is_digit_def)

lemma ascii_nat_str: "ascii (nat_str n)"
proof -
  have "list_all is_digit (nat_str n)" using nat_str_digits by (simp add: list_all_iff)
  then show ?thesis by (rule ascii_digits)
qed

lemma ascii_fraction: "ascii (fraction_text n)"
proof -
  have "list_all is_digit (rev (dropWhile (\<lambda>c. c = CHR ''0'') (rev (dec_digits 9 n))))"
    using dec_digits_digit [of 9 n] by (auto simp: list_all_iff dest: set_dropWhileD)
  then show ?thesis by (simp add: fraction_text_def ascii_digits)
qed

lemma ascii_time: "ascii (Format_RFC3339Nano t)"
  by (auto simp: Format_RFC3339Nano_def Let_def year_text_def ascii_fraction ascii_digits dec_digits_digit ascii_nat_str split: prod.splits)

lemma last_members_in: "x \<in> set (last_members fs) \<Longrightarrow> x \<in> set fs"
  by (induction fs) (auto split: if_splits)

lemma jsonb_json_ok: "json_ok v \<Longrightarrow> json_ok (jsonb v)"
proof (induction v rule: jsonb.induct)
  case (2 fs)
  have "utf8_valid (map of_char k) \<and> json_ok v" if "(k, v) \<in> set (last_members (map (\<lambda>(k, v). (k, jsonb v)) fs))" for k v
    using last_members_in [OF that] 2 by (auto simp: list_all_iff)
  then show ?case by (auto simp: list_all_iff)
qed (auto simp: list_all_iff)

lemma Max_mono_list: "(\<And>y. y \<in> set ys \<Longrightarrow> \<exists>x \<in> set xs. y \<le> x) \<Longrightarrow> Max (set (0 # ys)) \<le> Max (set (0 # (xs :: nat list)))"
  by (rule Max.boundedI) (auto simp: Max_ge_iff)

lemma jsonb_depth: "json_depth (jsonb v) \<le> json_depth v"
proof (induction v rule: jsonb.induct)
  case (1 vs)
  then have "Max (set (0 # map json_depth (map jsonb vs))) \<le> Max (set (0 # map json_depth vs))"
    by (intro Max_mono_list) auto
  then show ?case by simp
next
  case (2 fs)
  let ?ms = "sort_key (\<lambda>f. length (fst f)) (sort_key fst (last_members (map (\<lambda>(k, v). (k, jsonb v)) fs)))"
  have "\<exists>d \<in> set (map (\<lambda>(k, v). json_depth v) fs). json_depth v \<le> d"
    if "(k, v) \<in> set (last_members (map (\<lambda>(k, v). (k, jsonb v)) fs))" for k v
    using last_members_in [OF that] 2 by force
  then have "Max (set (0 # map (\<lambda>(k, v). json_depth v) ?ms)) \<le> Max (set (0 # map (\<lambda>(k, v). json_depth v) fs))"
    by (intro Max_mono_list) auto
  then show ?case by simp
qed simp_all



end
