(* ===== verification/Ledger_Pages.thy ===== *)
theory Ledger_Pages
  imports Http_Api Delivery
begin

text \<open>
  Pagination of the ledger: following the cursors of \<^verbatim>\<open>GET /wallets/:walletId/ledger\<close> reads every entry once.
\<close>

section \<open>The order of the ledger\<close>

lemma sorted_lex:
  assumes "sorted (map f ys)" "\<And>k. sorted (map g (filter (\<lambda>x. f x = k) ys))"
  shows "sorted_wrt (\<lambda>a b. f a < f b \<or> f a = f b \<and> g a \<le> g b) ys"
  using assms
proof (induction ys)
  case (Cons y ys)
  have "f y < f z \<or> f y = f z \<and> g y \<le> g z" if z: "z \<in> set ys" for z
  proof (cases "f y = f z")
    case True
    have "sorted (map g (y # filter (\<lambda>x. f x = f y) ys))" using Cons.prems(2) [of "f y"] by simp
    then show ?thesis using z True by auto
  qed (use Cons.prems(1) z in auto)
  moreover have "sorted (map g (filter (\<lambda>x. f x = k) ys))" for k
    using Cons.prems(2) [of k] by (cases "f y = k") auto
  ultimately show ?case using Cons by simp
qed simp

lemma sort_key_lex:
  "sorted_wrt (\<lambda>a b. f a < f b \<or> f a = f b \<and> g a \<le> g b) (sort_key f (sort_key g xs))"
proof (rule sorted_lex)
  show "sorted (map g (filter (\<lambda>x. f x = k) (sort_key f (sort_key g xs))))" for k
    unfolding sort_key_stable by (rule sorted_filter) simp
qed simp

text \<open>Rows of the ledger, newest first; every row is before the cursor of those it follows.\<close>

abbreviation after :: "ledger_row \<Rightarrow> ledger_row \<Rightarrow> bool" where
  "after a b \<equiv> before_cursor (lr_created_at a) (lr_id a) b"

lemma ledger_order_sorted:
  assumes "distinct (map lr_id rows)"
  shows "sorted_wrt after (ledger_order rows)"
proof -
  let ?ys = "sort_key lr_created_at (sort_key lr_id rows)"
  have s: "sorted_wrt (\<lambda>a b. lr_created_at a < lr_created_at b \<or> lr_created_at a = lr_created_at b \<and> lr_id a \<le> lr_id b) ?ys"
    by (rule sort_key_lex)
  have "distinct (map lr_id ?ys)" using assms by (simp add: distinct_map)
  then have d: "sorted_wrt (\<lambda>a b. lr_id a \<noteq> lr_id b) ?ys" by (simp add: distinct_map distinct_conv_nth sorted_wrt_iff_nth_less inj_on_def)
  have "sorted_wrt (\<lambda>a b. after b a) ?ys"
    using s d by (auto simp: sorted_wrt_iff_nth_less before_cursor_def order_le_less)
  then show ?thesis by (simp add: ledger_order_def sorted_wrt_rev)
qed

lemma ledger_order_filter: "ledger_order (filter P rows) = filter P (ledger_order rows)"
  by (simp add: ledger_order_def filter_sort flip: rev_filter)

lemma set_ledger_order [simp]: "set (ledger_order rows) = set rows"
  by (simp add: ledger_order_def)

lemma filter_after:
  assumes "sorted_wrt after rows" "k < length rows"
  shows "filter (after (rows ! k)) rows = drop (Suc k) rows"
proof -
  have r: "rows = take (Suc k) rows @ drop (Suc k) rows" by simp
  have "\<not> after (rows ! k) x" if "x \<in> set (take (Suc k) rows)" for x
  proof -
    from that obtain i where i: "i \<le> k" "x = rows ! i" by (auto simp: in_set_conv_nth less_Suc_eq_le)
    show ?thesis
    proof (cases "i = k")
      case False
      then have "after x (rows ! k)" using assms i by (auto simp: sorted_wrt_iff_nth_less)
      then show ?thesis by (auto simp: before_cursor_def)
    qed (simp add: i before_cursor_def)
  qed
  moreover have "after (rows ! k) x" if "x \<in> set (drop (Suc k) rows)" for x
  proof -
    from that obtain i where "i < length (drop (Suc k) rows)" "drop (Suc k) rows ! i = x" unfolding in_set_conv_nth by blast
    then have "Suc k + i < length rows" "x = rows ! (Suc k + i)" by auto
    then show ?thesis using assms(1) by (auto simp: sorted_wrt_iff_nth_less)
  qed
  ultimately have "filter (after (rows ! k)) (take (Suc k) rows) = []" "filter (after (rows ! k)) (drop (Suc k) rows) = drop (Suc k) rows"
    by (auto simp: filter_empty_conv filter_id_conv)
  then show ?thesis by (subst r) (simp only: filter_append append_Nil)
qed

section \<open>Cursors\<close>

text \<open>Bytes JSON writes as they are.\<close>

definition json_plain :: "char \<Rightarrow> bool" where
  "json_plain c \<longleftrightarrow> (let b = of_char c :: nat in 32 \<le> b \<and> b < 128 \<and> b \<notin> {34, 92, 60, 62, 38})"

lemma json_escape_plain: "list_all json_plain s \<Longrightarrow> json_escape escape_html s = s"
proof (induction s)
  case (Cons c s)
  then have c: "json_plain c" and s: "json_escape escape_html s = s" by simp_all
  have "rune_len (map of_char (c # s)) = 1" using c by (simp add: rune_len_def json_plain_def Let_def)
  moreover have "escape_html (of_char c) = [c]"
    using c by (auto simp: escape_html_def escape_ascii_def json_plain_def Let_def)
  ultimately show ?case using s by (subst json_escape.simps) (simp add: Let_def)
qed (simp add: json_escape.simps)

lemma plain_digits: "list_all is_digit s \<Longrightarrow> list_all json_plain s"
  by (auto simp: list_all_iff is_digit_def json_plain_def Let_def)

lemma plain_time: "list_all json_plain (Format_RFC3339Nano t)"
proof -
  have n: "list_all json_plain (nat_str n)" for n
    using nat_str_digits [of n] by (intro plain_digits) (simp add: list_all_iff)
  have "list_all is_digit (rev (dropWhile (\<lambda>c. c = CHR ''0'') (rev (dec_digits 9 n))))" for n
    using dec_digits_digit [of 9 n] by (auto simp: list_all_iff dest: set_dropWhileD)
  then have f: "list_all json_plain (fraction_text n)" for n
    by (simp add: fraction_text_def plain_digits json_plain_def del: dec_digits.simps)
  have d: "list_all json_plain (dec_digits k n)" for k n by (simp add: plain_digits dec_digits_digit)
  have p: "list_all json_plain ''-:TZ''" by code_simp
  show ?thesis using p
    by (auto simp: Format_RFC3339Nano_def Let_def year_text_def n f d simp del: dec_digits.simps split: prod.split)
qed

lemma cursor_names:
  "fold_name (unquote (json_escape escape_html ''createdAt'')) = fold_name ''createdAt''"
  "fold_name (unquote (json_escape escape_html ''id'')) = fold_name ''id''"
  "fold_name ''createdAt'' \<noteq> fold_name ''id''"
  by code_simp+

definition uuid_text :: "'d Env \<Rightarrow> bool" where
  "uuid_text E \<longleftrightarrow> (\<forall>u. E_uuid_Parse E (E_uuid_String E u) = Some u \<and> ascii (E_uuid_String E u))"

lemma cursor_roundtrip:
  assumes "uuid_text E" "encodeLedgerCursor E entry = Inr s" "0 < entry_createdAt entry" "entry_id entry \<noteq> 0"
  shows "s \<noteq> [] \<and> decodeLedgerCursor E s = Some (Some (entry_createdAt entry, entry_id entry))"
proof -
  let ?t = "Format_RFC3339Nano (entry_createdAt entry)" and ?i = "E_uuid_String E (entry_id entry)"
  let ?j = "JObject [(''createdAt'', JString ?t), (''id'', JString ?i)]"
  have y: "year_of (entry_createdAt entry div nanos_per_day) \<le> 9999" and s: "s = base64_Encode (json_text ?j)"
    using assms(2) by (auto simp: encodeLedgerCursor_def Let_def split: if_splits)
  have a: "ascii ?t" "ascii ?i" "E_uuid_Parse E ?i = Some (entry_id entry)"
    using assms(1) ascii_time by (simp_all add: uuid_text_def)
  have "json_ok ?j" using a ascii_utf8 by simp
  then have p: "parse_json (json_text ?j) = Some (value_of ?j)" by (intro parse_json_text) (simp_all add: maxNestingDepth_def)
  have u: "unquote (json_escape escape_html ?i) = ?i"
    using json_escape_good [OF escape_html_good ascii_utf8 [OF a(2)]] by simp
  have t: "parse_RFC3339 (json_escape escape_html ?t) = Some (entry_createdAt entry)"
    unfolding json_escape_plain [OF plain_time] using assms(3) y by (intro parse_Format) simp_all
  have d: "decode_struct (cursor_fields E) (value_of ?j) \<lparr>lc_CreatedAt = 0, lc_ID = 0\<rparr> =
      Some \<lparr>lc_CreatedAt = entry_createdAt entry, lc_ID = entry_id entry\<rparr>"
    by (simp add: decode_struct_def cursor_fields_def cursor_names cursor_names(3) [symmetric] decode_time_def decode_uuid_def t u a)
  have "s \<noteq> []"
  proof
    assume "s = []"
    then have "base64_Decode s = Some []" by (simp add: base64_Decode_def)
    then have "json_text ?j = []" using base64_roundtrip [of "json_text ?j"] s by simp
    then show False using json_text_ne by blast
  qed
  then show ?thesis
    using p d assms(3,4) by (simp add: decodeLedgerCursor_def s base64_roundtrip)
qed

section \<open>Pages\<close>

definition ledger_rows :: "uuid \<Rightarrow> DB \<Rightarrow> ledger_row list" where
  "ledger_rows uid db = ledger_order (wallet_entries uid db)"

text \<open>The position of a reader that has seen the first \<open>n\<close> rows.\<close>

definition cursor_at :: "ledger_row list \<Rightarrow> nat \<Rightarrow> (time \<times> uuid) option" where
  "cursor_at rows n = (if n = 0 then None else Some (lr_created_at (rows ! (n - 1)), lr_id (rows ! (n - 1))))"

lemma distinct_entries: "schema_ok db \<Longrightarrow> distinct (map lr_id (wallet_entries uid db))"
  by (auto simp: schema_ok_def table_ok_def ledger_indexes_def unique_index_def wallet_entries_def
      distinct_map intro: inj_on_subset)

lemma page_rows:
  assumes "schema_ok db" "n \<le> length (ledger_rows uid db)"
  shows "ListByWallet_rows uid (map_option fst (cursor_at (ledger_rows uid db) n)) (map_option snd (cursor_at (ledger_rows uid db) n)) l db =
    take (nat l) (drop n (ledger_rows uid db))"
proof (cases n)
  case 0
  then show ?thesis by (simp add: ListByWallet_rows_def ledger_rows_def wallet_entries_def cursor_at_def)
next
  case (Suc k)
  let ?L = "ledger_rows uid db"
  have s: "sorted_wrt after ?L" unfolding ledger_rows_def by (rule ledger_order_sorted [OF distinct_entries [OF assms(1)]])
  have "filter (\<lambda>r. lr_wallet_id r = uid \<and> after (?L ! k) r) (ledger db) = filter (after (?L ! k)) (wallet_entries uid db)"
    by (simp add: wallet_entries_def conj_commute)
  then show ?thesis
    using filter_after [OF s, of k] assms(2) Suc
    by (simp add: ListByWallet_rows_def cursor_at_def ledger_order_filter) (simp add: ledger_rows_def)
qed

lemma scan_all_Inr: "scan_all f rs = Inr es \<longleftrightarrow> list_all2 (\<lambda>r e. f r = Inr e) rs es"
proof (induction rs arbitrary: es)
  case (Cons r rs)
  then show ?case by (cases es; cases "f r"; cases "scan_all f rs") (auto simp: Cons.IH [symmetric] list_all2_Cons1)
qed auto

lemma scan_ledger_fields:
  assumes "scan_ledger E r = Inr e"
  shows "entry_id e = lr_id r \<and> entry_createdAt e = lr_created_at r \<and> lr_id r \<noteq> 0"
  using assms by (auto simp: scan_ledger_def RehydrateWalletLedgerEntry_def buildWalletLedgerEntry_def
      split: sum.splits if_splits option.splits)

text \<open>What a reader of the ledger of a wallet can rely on.\<close>

definition ledger_readable :: "'d Env \<Rightarrow> string \<Rightarrow> uuid \<Rightarrow> 'd WalletLedgerEntry list \<Rightarrow> DB \<Rightarrow> bool" where
  "ledger_readable E walletId uid es db \<longleftrightarrow>
     schema_ok db \<and> parse_wallet_id E walletId = Inr uid \<and>
     (case find (\<lambda>r. wr_id r = uid) (wallets db) of None \<Rightarrow> False | Some r \<Rightarrow> \<not> isl (scanWallet E r)) \<and>
     list_all (\<lambda>r. 0 < lr_created_at r \<and> year_of (lr_created_at r div nanos_per_day) \<le> 9999) (wallet_entries uid db) \<and>
     scan_all (scan_ledger E) (ledger_rows uid db) = Inr es"

lemma FindByID_Reply:
  assumes "E_reply E (w_step w) = Reply" "find (\<lambda>r. wr_id r = uid) (wallets (w_db w)) = Some r" "\<not> isl (scanWallet E r)"
  shows "\<exists>wal. WalletRepository_FindByID E background uid w = (Inr wal, w\<lparr>w_step := Suc (w_step w)\<rparr>)"
proof -
  obtain wal where "scanWallet E r = Inr wal" using not_isl_Inr [OF assms(3)] by blast
  then show ?thesis
    using assms(1,2) by (simp add: WalletRepository_FindByID_def scan_row_def query_row_def query_def match_act_def
        bind_act_def request_Reply ret_def lift_sum_def)
qed

lemma ListLedger_page:
  assumes "\<And>k. E_reply E k = Reply" "ledger_readable E walletId uid es (w_db w)" "n \<le> length es" "0 \<le> l"
  shows "WalletService_ListLedger E background walletId (map_option fst (cursor_at (ledger_rows uid (w_db w)) n))
      (map_option snd (cursor_at (ledger_rows uid (w_db w)) n)) l w =
    (Inr (take (nat l) (drop n es)), w\<lparr>w_step := Suc (Suc (w_step w))\<rparr>)"
proof -
  let ?L = "ledger_rows uid (w_db w)"
  have es: "list_all2 (\<lambda>r e. scan_ledger E r = Inr e) ?L es" and s: "schema_ok (w_db w)" and p: "parse_wallet_id E walletId = Inr uid"
    using assms(2) by (simp_all add: ledger_readable_def scan_all_Inr)
  obtain r where r: "find (\<lambda>r. wr_id r = uid) (wallets (w_db w)) = Some r" "\<not> isl (scanWallet E r)"
    using assms(2) by (auto simp: ledger_readable_def split: option.splits)
  obtain wal where f: "WalletRepository_FindByID E background uid w = (Inr wal, w\<lparr>w_step := Suc (w_step w)\<rparr>)"
    using FindByID_Reply [OF assms(1) r] by blast
  have n: "n \<le> length ?L" using list_all2_lengthD [OF es] assms(3) by simp
  have "list_all2 (\<lambda>r e. scan_ledger E r = Inr e) (take (nat l) (drop n ?L)) (take (nat l) (drop n es))"
    using es by (intro list_all2_takeI list_all2_dropI)
  then have sc: "scan_all (scan_ledger E) (take (nat l) (drop n ?L)) = Inr (take (nat l) (drop n es))" by (simp add: scan_all_Inr)
  show ?thesis
    using f assms(4) by (simp add: WalletService_ListLedger_def bind_act_def lift_sum_def p ListByWallet_def
        request_Reply [OF assms(1)] page_rows [OF s n] sc)
qed

text \<open>One page: the next \<open>l\<close> entries, and a cursor to the position after them when more are left.\<close>

lemma ledger_page:
  assumes "\<And>k. E_reply E k = Reply" "uuid_text E" "ledger_readable E walletId uid es (w_db w)" "n \<le> length es"
    "ledger_limit (rq_limit rq) = Some l" "decodeLedgerCursor E (rq_cursor rq) = Some (cursor_at (ledger_rows uid (w_db w)) n)"
  obtains nx where "WalletHandler_Ledger E walletId rq w =
      (Inr (200, LedgerBody \<lparr>lrs_Entries = map entry_response (take (nat l) (drop n es)), lrs_NextCursor = nx\<rparr>),
       w\<lparr>w_step := Suc (Suc (w_step w))\<rparr>)"
    "nx = [] \<longleftrightarrow> length es \<le> n + nat l"
    "nx \<noteq> [] \<Longrightarrow> decodeLedgerCursor E nx = Some (cursor_at (ledger_rows uid (w_db w)) (n + nat l))"
proof -
  let ?L = "ledger_rows uid (w_db w)" and ?w = "w\<lparr>w_step := Suc (Suc (w_step w))\<rparr>"
  let ?page = "take (nat (l + 1)) (drop n es)"
  have l: "1 \<le> l" using assms(5) by (auto simp: ledger_limit_def defaultLedgerLimit_def split: if_splits option.splits)
  have es: "list_all2 (\<lambda>r e. scan_ledger E r = Inr e) ?L es" using assms(3) by (simp add: ledger_readable_def scan_all_Inr)
  have page: "take (nat l) ?page = take (nat l) (drop n es)" using l by (simp add: take_take min_def)
  have h: "WalletHandler_Ledger E walletId rq w = ledger_reply E l ?page ?w"
    using ListLedger_page [OF assms(1,3,4), of "l + 1"] l assms(5,6)
    by (simp add: WalletHandler_Ledger_def serve_def)
  have more: "l < int (length ?page) \<longleftrightarrow> n + nat l < length es" using l assms(4) by auto
  show thesis
  proof (cases "n + nat l < length es")
    case False
    then show ?thesis using that [of "[]"] h more page by (simp add: ledger_reply_def Let_def reply_def)
  next
    case True
    let ?k = "n + nat l - 1"
    have k: "?k < length es" "?k < length ?L" using True list_all2_lengthD [OF es] by auto
    have last: "last (take (nat l) (drop n es)) = es ! ?k" using True l by (subst last_conv_nth) (auto simp: min_def)
    note sc = list_all2_nthD [OF es k(2)]
    note f = scan_ledger_fields [OF sc]
    have "?L ! ?k \<in> set ?L" using k(2) by simp
    then have "?L ! ?k \<in> set (wallet_entries uid (w_db w))" by (simp add: ledger_rows_def)
    then have t: "0 < lr_created_at (?L ! ?k)" "year_of (lr_created_at (?L ! ?k) div nanos_per_day) \<le> 9999"
      using assms(3) by (auto simp: ledger_readable_def list_all_iff)
    moreover have "1 \<le> year_of (lr_created_at (?L ! ?k) div nanos_per_day)" using t(1) by (intro year_of_pos) (simp add: pos_imp_zdiv_nonneg_iff)
    ultimately obtain s where s: "encodeLedgerCursor E (es ! ?k) = Inr s" using f by (auto simp: encodeLedgerCursor_def Let_def)
    note c = cursor_roundtrip [OF assms(2) s]
    have "cursor_at ?L (n + nat l) = Some (lr_created_at (?L ! ?k), lr_id (?L ! ?k))" using l by (simp add: cursor_at_def)
    then show ?thesis
      using that [of s] h more page True last s c f t(1) by (simp add: ledger_reply_def Let_def reply_def)
  qed
qed

text \<open>A client that follows the cursors until there is none, through at most \<open>n\<close> pages.\<close>

fun follow_ledger ::
  "'d Env \<Rightarrow> string \<Rightarrow> nat \<Rightarrow> Request \<Rightarrow> World \<Rightarrow> 'd walletLedgerEntryResponse list option \<times> World" where
  "follow_ledger E walletId 0 rq w = (None, w)"
| "follow_ledger E walletId (Suc n) rq w =
     (case WalletHandler_Ledger E walletId rq w of
        (Inr (_, LedgerBody r), w') \<Rightarrow>
          if lrs_NextCursor r = [] then (Some (lrs_Entries r), w')
          else apfst (map_option ((@) (lrs_Entries r)))
                 (follow_ledger E walletId n (rq\<lparr>rq_cursor := lrs_NextCursor r\<rparr>) w')
      | (_, w') \<Rightarrow> (None, w'))"

lemma follow_from:
  assumes "\<And>k. E_reply E k = Reply" "uuid_text E" "ledger_limit (rq_limit rq) = Some l"
  shows "\<lbrakk>ledger_readable E walletId uid es (w_db w); n \<le> length es; length es - n < m;
      decodeLedgerCursor E (rq_cursor rq) = Some (cursor_at (ledger_rows uid (w_db w)) n)\<rbrakk> \<Longrightarrow>
    fst (follow_ledger E walletId m rq w) = Some (map entry_response (drop n es))"
  using assms(3)
proof (induction m arbitrary: n rq w)
  case (Suc m)
  have l: "1 \<le> l" using Suc.prems(5) by (auto simp: ledger_limit_def defaultLedgerLimit_def split: if_splits option.splits)
  obtain nx where p: "WalletHandler_Ledger E walletId rq w =
      (Inr (200, LedgerBody \<lparr>lrs_Entries = map entry_response (take (nat l) (drop n es)), lrs_NextCursor = nx\<rparr>),
       w\<lparr>w_step := Suc (Suc (w_step w))\<rparr>)"
    "nx = [] \<longleftrightarrow> length es \<le> n + nat l"
    "nx \<noteq> [] \<Longrightarrow> decodeLedgerCursor E nx = Some (cursor_at (ledger_rows uid (w_db w)) (n + nat l))"
    using ledger_page [OF assms(1,2) Suc.prems(1,2,5,4)] by blast
  show ?case
  proof (cases "nx = []")
    case True
    then show ?thesis using p by simp
  next
    case False
    then have n: "n + nat l \<le> length es" "length es - (n + nat l) < m" using p(2) Suc.prems(3) l by auto
    have "fst (follow_ledger E walletId m (rq\<lparr>rq_cursor := nx\<rparr>) (w\<lparr>w_step := Suc (Suc (w_step w))\<rparr>)) =
        Some (map entry_response (drop (n + nat l) es))"
      using Suc.prems(1,5) p(3) [OF False] n by (intro Suc.IH) simp_all
    moreover have "take (nat l) (drop n es) @ drop (n + nat l) es = drop n es"
      by (metis add.commute append_take_drop_id drop_drop)
    ultimately show ?thesis using False p(1) by (simp add: map_append [symmetric] del: map_append)
  qed
qed simp

text \<open>
  C15: the pages of the ledger are complete. A client that starts without a cursor and follows the
  cursors it is given, with any page size, gets every entry of the wallet once, newest first, and is done after as
  many pages as there are entries and one more.
\<close>

theorem ledger_pages:
  assumes "\<And>k. E_reply E k = Reply" "uuid_text E" "ledger_readable E walletId uid es (w_db w)"
    "ledger_limit (rq_limit rq) = Some l" "rq_cursor rq = []"
  shows "fst (follow_ledger E walletId (Suc (length es)) rq w) = Some (map entry_response es) \<and>
    map entry_id es = map lr_id (ledger_order (wallet_entries uid (w_db w)))"
proof
  show "fst (follow_ledger E walletId (Suc (length es)) rq w) = Some (map entry_response es)"
    using follow_from [OF assms(1,2,4,3), of 0 "Suc (length es)"] assms(5) by (simp add: decodeLedgerCursor_def cursor_at_def)
  have "list_all2 (\<lambda>r e. scan_ledger E r = Inr e) (ledger_rows uid (w_db w)) es"
    using assms(3) by (simp add: ledger_readable_def scan_all_Inr)
  then show "map entry_id es = map lr_id (ledger_order (wallet_entries uid (w_db w)))"
    by (fold ledger_rows_def) (induction rule: list_all2_induct, auto dest: scan_ledger_fields)
qed

theorem ledger_pages_witness:
  "\<exists>es. fst (follow_ledger demo_env ''7'' (Suc (length es))
       \<lparr>rq_Authorization = [], rq_CorrelationID = [], rq_IdempotencyKey = [], rq_limit = ''1'', rq_cursor = [],
        rq_WalletBody = None, rq_WagerBody = None\<rparr> demo_world) = Some (map entry_response es) \<and>
     map entry_id es = [32, 31]"
proof -
  have "\<not> isl (scan_all (scan_ledger demo_env) (ledger_rows 7 demo_db))" by code_simp
  then obtain es where es: "scan_all (scan_ledger demo_env) (ledger_rows 7 demo_db) = Inr es" using not_isl_Inr by blast
  have "case find (\<lambda>r. wr_id r = 7) (wallets demo_db) of None \<Rightarrow> False | Some r \<Rightarrow> \<not> isl (scanWallet demo_env r)"
    "case parse_wallet_id demo_env ''7'' of Inr u \<Rightarrow> u = 7 | _ \<Rightarrow> False"
    "list_all (\<lambda>r. 0 < lr_created_at r \<and> year_of (lr_created_at r div nanos_per_day) \<le> 9999) (wallet_entries 7 demo_db)"
    by code_simp+
  then have r: "ledger_readable demo_env ''7'' 7 es (w_db demo_world)"
    using demo_db_schema es by (auto simp: ledger_readable_def split: sum.splits)
  have d: "list_all is_digit (nat_str n)" for n using nat_str_digits [of n] by (simp add: list_all_iff)
  have u: "uuid_text demo_env"
    by (auto simp: uuid_text_def demo_env_def d nat_str_ne ascii_nat_str)
  have l: "ledger_limit ''1'' = Some 1" by code_simp
  have "map lr_id (ledger_order (wallet_entries 7 demo_db)) = [32, 31]" by code_simp
  then show ?thesis
    using ledger_pages [OF _ u r, of "\<lparr>rq_Authorization = [], rq_CorrelationID = [], rq_IdempotencyKey = [], rq_limit = ''1'',
      rq_cursor = [], rq_WalletBody = None, rq_WagerBody = None\<rparr>" 1] l by auto
qed

end
