(* ===== verification/Http_Correctness.thy ===== *)
theory Http_Correctness
  imports Http_Api Delivery
begin

text \<open>
  The HTTP interface: who may do what on the routes, and the contract of errors.
\<close>

section \<open>Access\<close>

text \<open>Operations that only read.\<close>

definition reads :: "'a act \<Rightarrow> bool" where
  "reads m \<longleftrightarrow> (\<forall>w r w'. m w = (r, w') \<longrightarrow> w_db w' = w_db w)"

named_theorems reading \<open>operations that only read\<close>

lemma reads_basic [reading]: "reads (ret a)" "reads (throw e)" "reads (lift_sum s)"
  by (auto simp: reads_def ret_def throw_def lift_sum_def)

lemma reads_bind [reading]: "\<lbrakk>reads m; \<And>a. reads (k a)\<rbrakk> \<Longrightarrow> reads (bind_act m k)"
  unfolding reads_def bind_act_def by (auto split: prod.splits sum.splits)

lemma reads_match [reading]: "\<lbrakk>reads m; \<And>e. reads (h e); \<And>a. reads (k a)\<rbrakk> \<Longrightarrow> reads (match_act m h k)"
  unfolding reads_def match_act_def by (auto split: prod.splits sum.splits)

lemma reads_if [reading]: "\<lbrakk>reads m; reads k\<rbrakk> \<Longrightarrow> reads (if b then m else k)"
  by simp

lemma reads_request [reading]:
  "(\<And>now clk db a db'. f now clk db = Inr (a, db') \<Longrightarrow> db' = db) \<Longrightarrow> reads (request E ctx f)"
  unfolding reads_def request_def by (auto simp: Let_def split: if_splits reply.splits sum.splits)

lemma reads_query [reading]: "reads (query E ctx q)" "reads (query_row E ctx q)"
  unfolding query_row_def query_def by (intro reading; auto split: option.split intro!: reading)+

lemma reads_wallets [reading]:
  "reads (WalletRepository_FindByID E ctx uid)" "reads (ListByWallet E ctx uid t u l)"
  "reads (ReconciliationSnapshot_of E ctx uid)"
  unfolding WalletRepository_FindByID_def scan_row_def ListByWallet_def ReconciliationSnapshot_of_def
  by (intro reading; auto simp: Let_def split: if_splits option.split prod.split sum.split intro!: reading)+

lemma reads_services [reading]:
  "reads (WalletService_Get E ctx i)" "reads (WalletService_ListLedger E ctx i t u l)" "reads (WalletService_Reconcile E ctx i)"
  unfolding WalletService_Get_def WalletService_ListLedger_def WalletService_Reconcile_def by (intro reading)+

lemma serve_reads:
  assumes "reads m" "\<And>a v. w_db (snd (k a v)) = w_db v"
  shows "w_db (snd (serve m k w)) = w_db w"
proof -
  obtain x v where x: "m w = (x, v)" by (metis surj_pair)
  then have "w_db v = w_db w" using assms(1) by (simp add: reads_def)
  then show ?thesis using assms(2) x by (cases x) (simp_all add: serve_def)
qed

lemma reply_db [simp]: "w_db (snd (reply a v)) = w_db v" "w_db (snd (fail e v)) = w_db v"
  by (simp_all add: reply_def fail_def)

lemma ledger_reply_db: "w_db (snd (ledger_reply E l es v)) = w_db v"
  by (auto simp: ledger_reply_def Let_def reply_def split: sum.split)

lemma wallet_queries:
  "w_db (snd (WalletHandler_Get E i w)) = w_db w"
  "w_db (snd (WalletHandler_Ledger E i rq w)) = w_db w"
  "w_db (snd (WalletHandler_Reconcile E i w)) = w_db w"
proof -
  show "w_db (snd (WalletHandler_Get E i w)) = w_db w"
    unfolding WalletHandler_Get_def by (rule serve_reads [OF reads_services(1)]) simp
  show "w_db (snd (WalletHandler_Ledger E i rq w)) = w_db w"
    unfolding WalletHandler_Ledger_def
    by (auto split: option.split intro: serve_reads [OF reads_services(2)] ledger_reply_db)
  show "w_db (snd (WalletHandler_Reconcile E i w)) = w_db w"
    unfolding WalletHandler_Reconcile_def by (rule serve_reads [OF reads_services(3)]) simp
qed

text \<open>What a request behind \<open>RequireProvider\<close> does, for the identity that sent it.\<close>

definition acts_as :: "'d Env \<Rightarrow> ReferenceRetryPolicy \<Rightarrow> Principal \<Rightarrow> World \<Rightarrow> (http_err + nat \<times> 'd body) \<times> World \<Rightarrow> bool" where
  "acts_as E P p w out \<longleftrightarrow>
     (w_db (snd out) = w_db w \<or>
        (\<exists>command md. cmd_ProviderID command = prin_ProviderID p \<and> snd out = snd (Process E P background command md w))) \<and>
     (\<forall>s t. fst out = Inr (s, TransactionBody t) \<longrightarrow> wres_ProviderID t = prin_ProviderID p)"

lemma create_acts_as: "acts_as E P p w (WagerHandler_Create E P c (Some p) rq w)"
proof (cases "rq_WagerBody rq")
  case None
  then show ?thesis by (simp add: acts_as_def WagerHandler_Create_def fail_def)
next
  case (Some req)
  define cmd where "cmd = \<lparr>cmd_ProviderID = prin_ProviderID p, cmd_ExternalTransactionID = cgr_ExternalTransactionID req,
    cmd_IdempotencyKey = rq_IdempotencyKey rq, cmd_WalletID = cgr_WalletID req,
    cmd_PlayerID = cgr_PlayerID req, cmd_RoundID = cgr_RoundID req, cmd_GameID = cgr_GameID req,
    cmd_Type = cgr_Kind req, cmd_Amount = mr_Amount (cgr_Money req), cmd_Currency = mr_Currency (cgr_Money req),
    cmd_ReferenceExternalTransactionID = cgr_ReferenceExternalTransactionID req\<rparr>"
  define md where "md = \<lparr>CorrelationID = c, CausationID = []\<rparr>"
  obtain x v where x: "Process E P background cmd md w = (x, v)" by (metis surj_pair)
  then have run: "\<exists>command md. cmd_ProviderID command = prin_ProviderID p \<and> v = snd (Process E P background command md w)"
    by (intro exI [of _ cmd] exI [of _ md]) (simp add: cmd_def)
  have stop: "acts_as E P p w (fail e w)" for e by (simp add: acts_as_def fail_def)
  have go: "acts_as E P p w (serve (Process E P background cmd md) (\<lambda>r. reply (h r, WagerBody (g r))) w)" for h g
    using run by (cases x) (simp_all add: acts_as_def serve_def reply_def x)
  show ?thesis
    using stop go by (simp add: WagerHandler_Create_def Some cmd_def [symmetric] md_def [symmetric])
qed

lemma get_acts_as:
  assumes "prin_ProviderID p \<noteq> []"
  shows "acts_as E P p w (WagerHandler_GetByID E (Some p) i w) \<and>
     w_db (snd (WagerHandler_GetByID E (Some p) i w)) = w_db w"
    "acts_as E P p w (WagerHandler_GetByExternalTransactionID E (Some p) q i w) \<and>
     w_db (snd (WagerHandler_GetByExternalTransactionID E (Some p) q i w)) = w_db w"
proof -
  obtain x v where x: "WagerService_GetByID E background (prin_ProviderID p) i w = (x, v)" by (metis surj_pair)
  show "acts_as E P p w (WagerHandler_GetByID E (Some p) i w) \<and>
     w_db (snd (WagerHandler_GetByID E (Some p) i w)) = w_db w"
    using GetByID_own [OF assms, where E = E and ctx = background and transactionID = i and w = w]
    by (cases x) (auto simp: acts_as_def WagerHandler_GetByID_def serve_def reply_def x)
  obtain y u where y: "WagerService_GetByExternalTransactionID E background q i w = (y, u)" by (metis surj_pair)
  have own: "wres_ProviderID (wagerResultFromTransaction t) = q" if "scanWager E r = Inr t" "wg_provider_id r = Some q" for r t
    using scanWager_provider [OF that(1)] that(2) by (simp add: wagerResultFromTransaction_def stringValue_def)
  show "acts_as E P p w (WagerHandler_GetByExternalTransactionID E (Some p) q i w) \<and>
     w_db (snd (WagerHandler_GetByExternalTransactionID E (Some p) q i w)) = w_db w"
  proof (cases "q = prin_ProviderID p")
    case True
    then show ?thesis
      using GetByExternalTransactionID_own [where E = E and ctx = background and providerID = q and externalID = i and w = w] y
      by (cases y) (auto simp: acts_as_def WagerHandler_GetByExternalTransactionID_def serve_def reply_def own)
  qed (simp add: acts_as_def WagerHandler_GetByExternalTransactionID_def fail_def)
qed

definition wallet_route :: "route \<Rightarrow> bool" where
  "wallet_route r =
     (case r of PostWallets \<Rightarrow> True | GetWallet i \<Rightarrow> True | GetLedger i \<Rightarrow> True | PostReconciliation i \<Rightarrow> True | _ \<Rightarrow> False)"

lemma dispatch_wallets:
  assumes "wallet_route r" "dispatch E P c p r rq w = (x, v)" "w_db v \<noteq> w_db w \<or> \<not> isl x"
  shows "IsInternal p \<and> (r \<noteq> PostWallets \<longrightarrow> w_db v = w_db w)"
  using assms wallet_queries [where E = E and w = w]
  by (cases r) (auto simp: wallet_route_def dispatch_def RequireInternal_def fail_def split: if_splits dest!: arg_cong [where f = snd])

lemma dispatch_wagers:
  assumes "\<not> wallet_route r" "dispatch E P c p r rq w = (x, v)"
  shows "IsProvider p \<and> acts_as E P p w (x, v) \<and> (r \<noteq> PostWagers \<longrightarrow> w_db v = w_db w) \<or> v = w \<and> isl x"
proof (cases "IsProvider p")
  case True
  then have n: "prin_ProviderID p \<noteq> []" by (simp add: IsProvider_def)
  show ?thesis
  proof (cases "r = PostWagers")
    case pw: True
    show ?thesis
      using assms True create_acts_as [where E = E and P = P and c = c and p = p and rq = rq and w = w] pw
      by (simp add: dispatch_def RequireProvider_def)
  next
    case False
    then have "acts_as E P p w (x, v) \<and> w_db (snd (x, v)) = w_db w"
      using assms True get_acts_as(1) [OF n, where E = E and P = P and w = w] get_acts_as(2) [OF n, where E = E and P = P and w = w]
      by (cases r) (simp_all add: wallet_route_def dispatch_def RequireProvider_def, (metis snd_conv)+)
    then show ?thesis using True by simp
  qed
next
  case False
  then show ?thesis
    using assms by (cases r) (auto simp: wallet_route_def dispatch_def RequireProvider_def fail_def)
qed

lemma Authenticate_Inr:
  "Authenticate idToken rq = Inr p \<Longrightarrow>
     \<exists>token. bearerToken (rq_Authorization rq) = Some token \<and> Verifier_Verify idToken token = Inr p"
  by (auto simp: Authenticate_def split: option.splits sum.splits)

lemma requestContext_db: "requestContext E rq w = (c, w1) \<Longrightarrow> w_db w1 = w_db w"
  by (auto simp: requestContext_def split: if_splits)

lemma handle_request_dispatch:
  assumes "handle_request E P idToken r rq w = (rs, w')"
  obtains c w1 e where "requestContext E rq w = (c, w1)" "Authenticate idToken rq = Inl e" "w' = w1"
      "rs = errorHandler c (ApiErr e)"
  | c w1 p x where "requestContext E rq w = (c, w1)" "Authenticate idToken rq = Inr p" "dispatch E P c p r rq w1 = (x, w')"
      "case x of Inl e \<Rightarrow> rs = errorHandler c e
       | Inr (status, b) \<Rightarrow> rs = \<lparr>rs_Status = status, rs_CorrelationID = c, rs_RetryAfter = None, rs_Body = b\<rparr>"
proof -
  obtain c w1 where c: "requestContext E rq w = (c, w1)" by (metis surj_pair)
  show ?thesis
  proof (cases "Authenticate idToken rq")
    case (Inl e)
    then show ?thesis using assms c that(1) by (simp add: handle_request_def)
  next
    case (Inr p)
    obtain x v where "dispatch E P c p r rq w1 = (x, v)" by (metis surj_pair)
    then show ?thesis
      using assms c Inr that(2) [of c w1 p x] by (cases x) (auto simp: handle_request_def split: prod.splits)
  qed
qed

definition error_body :: "'d body \<Rightarrow> bool" where
  "error_body b \<longleftrightarrow> (case b of ErrorBody code m d \<Rightarrow> True | _ \<Rightarrow> False)"

lemma errorHandler_body [simp]: "error_body (rs_Body (errorHandler c e))"
  by (simp add: error_body_def errorHandler_def Let_def)

lemma transaction_body [simp]: "\<not> error_body (TransactionBody t)"
  by (simp add: error_body_def)

text \<open>
  C14: nothing is shown and nothing changes without a verified identity that may use the
  route: the internal role for the wallets, a provider for the wager transactions. Only the two
  \<^verbatim>\<open>POST\<close> routes that create something change the database, the one for wagers exactly as
  \<^verbatim>\<open>Process\<close> does for a command of the provider that is authenticated, and a transaction that is shown
  belongs to that provider.
\<close>

theorem http_access:
  assumes "handle_request E P idToken r rq w = (rs, w')" "w_db w' \<noteq> w_db w \<or> \<not> error_body (rs_Body rs)"
  shows "\<exists>token p. bearerToken (rq_Authorization rq) = Some token \<and> Verifier_Verify idToken token = Inr p \<and>
    (if wallet_route r then IsInternal p \<and> (w_db w' = w_db w \<or> r = PostWallets)
     else IsProvider p \<and>
       (w_db w' = w_db w \<or> r = PostWagers \<and>
          (\<exists>command md w1. cmd_ProviderID command = prin_ProviderID p \<and> w_db w1 = w_db w \<and>
             w' = snd (Process E P background command md w1))) \<and>
       (\<forall>t. rs_Body rs = TransactionBody t \<longrightarrow> wres_ProviderID t = prin_ProviderID p))"
  using assms(1)
proof (cases rule: handle_request_dispatch)
  case (1 c w1 e)
  then show ?thesis using assms(2) requestContext_db [OF 1(1)] by simp
next
  case (2 c w1 p x)
  have w: "w_db w1 = w_db w" using requestContext_db [OF 2(1)] .
  have x: "w_db w' \<noteq> w_db w1 \<or> \<not> isl x"
    using assms(2) 2(4) w by (cases x) auto
  have t: "\<exists>s. x = Inr (s, TransactionBody t)" if "rs_Body rs = TransactionBody t" for t
  proof (cases x)
    case (Inl e)
    then have "error_body (rs_Body rs)" using 2(4) by simp
    then show ?thesis using that by simp
  qed (use that 2(4) in auto)
  show ?thesis
  proof (cases "wallet_route r")
    case True
    then show ?thesis using dispatch_wallets [OF True 2(3) x] Authenticate_Inr [OF 2(2)] w by auto
  next
    case False
    then have "IsProvider p" "acts_as E P p w1 (x, w')" "r \<noteq> PostWagers \<longrightarrow> w_db w' = w_db w1"
      using dispatch_wagers [OF False 2(3)] x by auto
    then show ?thesis using Authenticate_Inr [OF 2(2)] w t False unfolding acts_as_def by fastforce
  qed
qed

definition demo_token :: string where
  "demo_token = json_text (JObject [(''typ'', JString ''Bearer''), (''sub'', JString ''s''), (''azp'', JString ''ops''),
     (''realm_access'', JObject [(''roles'', JArray [JString ''internal''])])])"

definition demo_request :: Request where
  "demo_request = \<lparr>rq_Authorization = ''bearer t'', rq_CorrelationID = ''c-1'', rq_IdempotencyKey = [], rq_limit = [],
     rq_cursor = [], rq_WalletBody = None, rq_WagerBody = None\<rparr>"

lemma demo_bearer: "bearerToken (rq_Authorization demo_request) = Some ''t''" by code_simp

lemma demo_internal:
  "Verifier_Verify (\<lambda>t. Some demo_token) ''t'' =
     Inr \<lparr>prin_Subject = ''s'', prin_ClientID = ''ops'', prin_ProviderID = [], prin_Roles = [''internal'']\<rparr>"
  by code_simp

lemma demo_get:
  "\<not> error_body (rs_Body (fst (handle_request demo_env P (\<lambda>t. Some demo_token) (GetWallet ''7'') demo_request demo_world)))"
  by code_simp

theorem http_access_witness:
  "\<exists>token p. bearerToken (rq_Authorization demo_request) = Some token \<and>
     Verifier_Verify (\<lambda>t. Some demo_token) token = Inr p \<and> IsInternal p"
  using http_access [OF surjective_pairing, where E = demo_env and P = DefaultReferenceRetryPolicy and idToken = "\<lambda>t. Some demo_token"
    and r = "GetWallet ''7''" and rq = demo_request and w = demo_world] demo_get
  by (auto simp: wallet_route_def)

section \<open>Errors\<close>

text \<open>What an error response may say, all of it constant text.\<close>

definition contract :: "(nat \<times> string \<times> string) list" where
  "contract = map (\<lambda>e. (ae_Status e, ae_Code e, ae_Message e))
     [errInvalidPayload, errIdempotencyKeyRequired, errUnauthorized, errForbidden, errNotFound, errMethodNotAllowed,
      errWalletAlreadyExists, errIdempotencyConflict, errExternalTransactionConflict, errConflict, errPayloadTooLarge,
      errValidation, errServiceUnavailable, errInternal]"

definition public_details :: "string list" where
  "public_details = [[], ''playerId and initialBalance are required'', ''limit must be between 1 and 100'', ''invalid cursor'',
     ''providerId, externalTransactionId, playerId, walletId, roundId, gameId, kind and money are required''] @
     map snd validationErrors"

definition public_error :: "APIError \<Rightarrow> bool" where
  "public_error e \<longleftrightarrow> (ae_Status e, ae_Code e, ae_Message e) \<in> set contract \<and> ae_Details e \<in> set public_details"

lemma public_withDetails: "public_error e \<Longrightarrow> d \<in> set public_details \<Longrightarrow> public_error (withDetails e d)"
  by (simp add: public_error_def withDetails_def)

lemma public_withCause: "public_error e \<Longrightarrow> public_error (withCause e c)"
  by (simp add: public_error_def withCause_def)

lemma public_constants:
  "public_error errInvalidPayload" "public_error errIdempotencyKeyRequired" "public_error errUnauthorized"
  "public_error errForbidden" "public_error errNotFound" "public_error errMethodNotAllowed"
  "public_error errWalletAlreadyExists" "public_error errIdempotencyConflict" "public_error errExternalTransactionConflict"
  "public_error errConflict" "public_error errPayloadTooLarge" "public_error errValidation"
  "public_error errServiceUnavailable" "public_error errInternal"
  by code_simp+

lemma public_resolve:
  assumes "\<And>a. e = ApiErr a \<Longrightarrow> public_error a"
  shows "public_error (resolveError e)"
proof (cases e)
  case (ServiceErr s)
  have "snd v \<in> set public_details" if "find P validationErrors = Some v" for P v
    using that by (auto simp: public_details_def find_Some_iff)
  then show ?thesis
    by (auto simp: ServiceErr public_constants split: option.split intro!: public_withCause public_withDetails)
qed (auto simp: assms public_constants intro!: public_withCause)

text \<open>Handlers that answer within the contract.\<close>

definition answers :: "(nat \<times> 'd body) handler \<Rightarrow> bool" where
  "answers h \<longleftrightarrow>
     (\<forall>w. case fst (h w) of
        Inl e \<Rightarrow> (\<forall>a. e = ApiErr a \<longrightarrow> public_error a)
      | Inr (status, b) \<Rightarrow> status \<in> {200, 201, 202} \<and> \<not> error_body b)"

lemma answers_fail: "public_error e \<Longrightarrow> answers (fail e)"
  by (simp add: answers_def fail_def)

lemma answers_reply: "\<lbrakk>status \<in> {200, 201, 202}; \<not> error_body b\<rbrakk> \<Longrightarrow> answers (reply (status, b))"
  by (simp add: answers_def reply_def)

lemma answers_serve: "(\<And>a. answers (k a)) \<Longrightarrow> answers (serve m k)"
  unfolding answers_def
proof
  fix w
  assume k: "\<And>a. \<forall>w. case fst (k a w) of
        Inl e \<Rightarrow> (\<forall>a. e = ApiErr a \<longrightarrow> public_error a)
      | Inr (status, b) \<Rightarrow> status \<in> {200, 201, 202} \<and> \<not> error_body b"
  obtain x v where "m w = (x, v)" by (metis surj_pair)
  then show "case fst (serve m k w) of
        Inl e \<Rightarrow> (\<forall>a. e = ApiErr a \<longrightarrow> public_error a)
      | Inr (status, b) \<Rightarrow> status \<in> {200, 201, 202} \<and> \<not> error_body b"
    using k by (cases x) (simp_all add: serve_def)
qed

lemma answers_error: "answers (\<lambda>w. (Inl (ServiceErr e), w))"
  by (simp add: answers_def)

lemma details_public:
  "''playerId and initialBalance are required'' \<in> set public_details" "''limit must be between 1 and 100'' \<in> set public_details"
  "''invalid cursor'' \<in> set public_details"
  "''providerId, externalTransactionId, playerId, walletId, roundId, gameId, kind and money are required'' \<in> set public_details"
  unfolding public_details_def by (simp_all only: set_append list.set insert_iff Un_iff) simp_all

lemmas answering = answers_fail answers_reply answers_serve answers_error public_withDetails public_constants details_public

lemma answers_wallets:
  "answers (WalletHandler_Create E c rq)" "answers (WalletHandler_Get E i)" "answers (WalletHandler_Ledger E i rq)"
  "answers (WalletHandler_Reconcile E i)"
  unfolding WalletHandler_Create_def WalletHandler_Get_def WalletHandler_Ledger_def WalletHandler_Reconcile_def ledger_reply_def Let_def
  by (auto simp: error_body_def split: option.split sum.split intro!: answering)

lemma answers_wagers:
  "answers (WagerHandler_Create E P c p rq)" "answers (WagerHandler_GetByID E p i)"
  "answers (WagerHandler_GetByExternalTransactionID E p q i)"
  unfolding WagerHandler_Create_def WagerHandler_GetByID_def WagerHandler_GetByExternalTransactionID_def
  by (auto simp: error_body_def split: option.split intro!: answering split: if_splits)

lemma answers_dispatch: "answers (dispatch E P c p r rq)"
  by (cases r)
    (simp_all add: dispatch_def RequireInternal_def RequireProvider_def answers_wallets answers_wagers answers_fail public_constants)

definition business_errors :: "err list" where
  "business_errors =
     [AppErr ErrIdempotencyConflict, AppErr ErrExternalTransactionConflict, AppErr application_error.ErrWalletAlreadyExists,
      AppErr ErrAlreadyExists, AppErr ErrNotFound, AppErr ErrWalletNotFound] @ map fst validationErrors"

lemma status_service:
  "ae_Status (resolveError (ServiceErr e)) = 503 \<longleftrightarrow> IsTransient e"
  "ae_Status (resolveError (ServiceErr e)) = 500 \<longleftrightarrow> \<not> IsTransient e \<and> list_all (\<lambda>s. \<not> errors_Is e s) business_errors"
proof -
  note shown = errServiceUnavailable_def errIdempotencyConflict_def errExternalTransactionConflict_def
    errWalletAlreadyExists_def errConflict_def errNotFound_def errValidation_def errInternal_def
    newAPIError_def withCause_def withDetails_def
  have f: "find (\<lambda>v. errors_Is e (fst v)) validationErrors = None \<longleftrightarrow> list_all (\<lambda>s. \<not> errors_Is e s) (map fst validationErrors)"
    by (fastforce simp: find_None_iff list_all_iff)
  show "ae_Status (resolveError (ServiceErr e)) = 503 \<longleftrightarrow> IsTransient e"
    by (simp add: shown split: option.split)
  show "ae_Status (resolveError (ServiceErr e)) = 500 \<longleftrightarrow> \<not> IsTransient e \<and> list_all (\<lambda>s. \<not> errors_Is e s) business_errors"
    using f by (auto simp add: shown business_errors_def simp del: list.map split: option.split)
qed

lemma status_handler: "rs_Status (errorHandler c e) = ae_Status (resolveError e)"
  by (simp only: errorHandler_def Let_def Response.simps)

text \<open>
  C16: the error contract of the interface. Every response with an error has a status, a
  code, a message and details among the constants of the contract, so the text of an internal error is never
  shown; every other response has status 200, 201 or 202. \<^verbatim>\<open>Retry-After\<close> comes with status 503 and only
  then. An error of a service gives 503 exactly when it is transient, and 500 exactly when it is neither
  transient nor a business error.
\<close>

theorem error_contract:
  "(case rs_Body (fst (handle_request E P idToken r rq w)) of
      ErrorBody code message details \<Rightarrow>
        (rs_Status (fst (handle_request E P idToken r rq w)), code, message) \<in> set contract \<and> details \<in> set public_details
    | _ \<Rightarrow> rs_Status (fst (handle_request E P idToken r rq w)) \<in> {200, 201, 202}) \<and>
   (rs_RetryAfter (fst (handle_request E P idToken r rq w)) \<noteq> None \<longleftrightarrow>
      rs_Status (fst (handle_request E P idToken r rq w)) = 503) \<and>
   (rs_Status (errorHandler c (ServiceErr e)) = 503 \<longleftrightarrow> IsTransient e) \<and>
   (rs_Status (errorHandler c (ServiceErr e)) = 500 \<longleftrightarrow>
      \<not> IsTransient e \<and> list_all (\<lambda>s. \<not> errors_Is e s) business_errors)"
proof -
  obtain rs w' where h: "handle_request E P idToken r rq w = (rs, w')" by (metis surj_pair)
  have err: "(case rs_Body rs of ErrorBody code m d \<Rightarrow> (rs_Status rs, code, m) \<in> set contract \<and> d \<in> set public_details
      | _ \<Rightarrow> rs_Status rs \<in> {200, 201, 202}) \<and> (rs_RetryAfter rs \<noteq> None \<longleftrightarrow> rs_Status rs = 503)"
    if "rs = errorHandler c e" "\<And>a. e = ApiErr a \<Longrightarrow> public_error a" for c e
    using public_resolve [OF that(2)] by (simp add: that(1) errorHandler_def Let_def public_error_def)
  have "(case rs_Body rs of ErrorBody code m d \<Rightarrow> (rs_Status rs, code, m) \<in> set contract \<and> d \<in> set public_details
      | _ \<Rightarrow> rs_Status rs \<in> {200, 201, 202}) \<and> (rs_RetryAfter rs \<noteq> None \<longleftrightarrow> rs_Status rs = 503)"
    using h
  proof (cases rule: handle_request_dispatch)
    case (1 c w1 e)
    then have "public_error e" by (auto simp: Authenticate_def public_constants split: option.splits sum.splits)
    then show ?thesis using err [OF 1(4)] by simp
  next
    case (2 c w1 p x)
    have "case fst (dispatch E P c p r rq w1) of Inl e \<Rightarrow> (\<forall>a. e = ApiErr a \<longrightarrow> public_error a)
      | Inr (status, b) \<Rightarrow> status \<in> {200, 201, 202} \<and> \<not> error_body b"
      using answers_dispatch unfolding answers_def by (rule spec)
    then have a: "case x of Inl e \<Rightarrow> (\<forall>a. e = ApiErr a \<longrightarrow> public_error a)
      | Inr (status, b) \<Rightarrow> status \<in> {200, 201, 202} \<and> \<not> error_body b"
      unfolding 2(3) fst_conv .
    show ?thesis
    proof (cases x)
      case (Inl e)
      then show ?thesis using err [of c e] a 2(4) by simp
    next
      case (Inr y)
      then show ?thesis using a 2(4) by (cases y; cases "snd y") (auto simp: error_body_def)
    qed
  qed
  then show ?thesis unfolding h fst_conv by (simp only: status_handler status_service simp_thms)
qed

end
