(* ===== verification/Worker.thy ===== *)
theory Worker
  imports Outbox_Dispatcher Sqs_Consumer
begin

text \<open>
  The background loops: \<^verbatim>\<open>internal/worker\<close>, and the loop of the consumer in
  \<^verbatim>\<open>infrastructure/sqs/module.go\<close>. A loop runs a step over and over, so the model has a number of
  steps as fuel. The stop context is an argument: whether it is cancelled by a given step of the world.
  A pause is a step of the world too, the clocks of the environment say how long it was. Logging is
  left out, metrics are in \<open>Observability\<close>.
\<close>

section \<open>A loop\<close>

type_synonym outcome = "bool \<times> err option"

type_synonym step = "World \<Rightarrow> outcome \<times> World"

record Options =
  IdleDelay :: duration
  MinErrorDelay :: duration
  MaxErrorDelay :: duration

text \<open>The pause after a step, if any, and the next delay of an error.\<close>

definition loop_delay :: "Options \<Rightarrow> duration \<Rightarrow> outcome \<Rightarrow> duration option \<times> duration" where
  "loop_delay options errorDelay res =
     (if snd res \<noteq> None then (Some errorDelay, min (wrap64 (errorDelay * 2)) (MaxErrorDelay options))
      else if fst res then (None, MinErrorDelay options)
      else (Some (IdleDelay options), MinErrorDelay options))"

definition sleep :: "(nat \<Rightarrow> bool) \<Rightarrow> World \<Rightarrow> bool \<times> World" where
  "sleep stop w = (\<not> stop (Suc (w_step w)), w\<lparr>w_step := Suc (w_step w)\<rparr>)"

text \<open>
  At most \<open>n\<close> turns: the outcomes and pauses of the complete ones, whether the loop has returned, and
  the world.
\<close>

fun loop_run ::
  "Options \<Rightarrow> (nat \<Rightarrow> bool) \<Rightarrow> step \<Rightarrow> nat \<Rightarrow> duration \<Rightarrow> World \<Rightarrow> (outcome \<times> duration option) list \<times> bool \<times> World" where
  "loop_run options stop step 0 errorDelay w = ([], stop (w_step w), w)"
| "loop_run options stop step (Suc n) errorDelay w =
     (if stop (w_step w) then ([], True, w)
      else case step w of (res, w1) \<Rightarrow>
        if stop (w_step w1) then ([], True, w1)
        else case loop_delay options errorDelay res of
          (None, errorDelay') \<Rightarrow>
            (case loop_run options stop step n errorDelay' w1 of (turns, r) \<Rightarrow> ((res, None) # turns, r))
        | (Some delay, errorDelay') \<Rightarrow>
            (case sleep stop w1 of
               (False, w2) \<Rightarrow> ([(res, Some delay)], True, w2)
             | (True, w2) \<Rightarrow>
                 (case loop_run options stop step n errorDelay' w2 of (turns, r) \<Rightarrow> ((res, Some delay) # turns, r))))"

definition Loop_run ::
  "Options \<Rightarrow> (nat \<Rightarrow> bool) \<Rightarrow> step \<Rightarrow> nat \<Rightarrow> World \<Rightarrow> (outcome \<times> duration option) list \<times> bool \<times> World" where
  "Loop_run options stop step n w = loop_run options stop step n (MinErrorDelay options) w"

section \<open>Starting and stopping\<close>

text \<open>
  The state behind the mutex: the run whose cancel functions and channel are stored. Every started run
  has a number; \<open>lp_stopped\<close> and \<open>lp_cancelled\<close> are the runs whose stop and work contexts are cancelled.
\<close>

record Loop =
  lp_running :: "nat option"
  lp_started :: nat
  lp_stopped :: "nat set"
  lp_cancelled :: "nat set"

definition NewLoop :: Loop where
  "NewLoop = \<lparr>lp_running = None, lp_started = 0, lp_stopped = {}, lp_cancelled = {}\<rparr>"

definition Loop_Start :: "Loop \<Rightarrow> Loop" where
  "Loop_Start l =
     (case lp_running l of
        Some r \<Rightarrow> l
      | None \<Rightarrow> l\<lparr>lp_running := Some (lp_started l), lp_started := Suc (lp_started l)\<rparr>)"

text \<open>\<open>done\<close>: the run returns before the context of the caller ends, which otherwise gives the error.\<close>

definition Loop_Stop :: "bool \<Rightarrow> err \<Rightarrow> Loop \<Rightarrow> err option \<times> Loop" where
  "Loop_Stop in_time ctxErr l =
     (case lp_running l of
        None \<Rightarrow> (None, l)
      | Some r \<Rightarrow>
          (if in_time then None else Some ctxErr,
           l\<lparr>lp_running := None, lp_stopped := insert r (lp_stopped l), lp_cancelled := insert r (lp_cancelled l)\<rparr>))"

section \<open>The loops of the program\<close>

definition pollingOptions :: Options where
  "pollingOptions = \<lparr>IdleDelay = Second, MinErrorDelay = Second, MaxErrorDelay = 30 * Second\<rparr>"

definition consumerOptions :: Options where
  "consumerOptions = \<lparr>IdleDelay = 0, MinErrorDelay = Second, MaxErrorDelay = 30 * Second\<rparr>"

definition outbox_step :: "'d Env \<Rightarrow> string \<Rightarrow> string \<Rightarrow> step" where
  "outbox_step E queueURL workerID = DispatchNext E queueURL workerID"

definition reference_step :: "'d Env \<Rightarrow> ReferenceRetryPolicy \<Rightarrow> step" where
  "reference_step E P w =
     (case RetryNextPendingReference E P background w of
        ((None, e), w') \<Rightarrow> ((False, e), w')
      | ((Some retry, e), w') \<Rightarrow> ((True, e), w'))"

definition consumer_step :: "'d Env \<Rightarrow> Consumer \<Rightarrow> (nat \<Rightarrow> bool) \<Rightarrow> (nat \<Rightarrow> err + Message list) \<Rightarrow> step" where
  "consumer_step E c stop receive = PollOnce E c stop receive"

end
