(* ===== verification/Go_Float.thy ===== *)
theory Go_Float
  imports Prelude
begin

text \<open>
  The part of \<open>float64\<close> the code uses, as exact fractions that are rounded after every operation, and
  the conversions between durations and seconds of the package \<^verbatim>\<open>time\<close>.
\<close>

section \<open>Doubles without a sign\<close>

text \<open>
  Doubles, as numerator and denominator: \<open>float64\<close> is the nearest number with a mantissa of 53 bits, ties
  to even. The exponents here are far from their limits.
\<close>

function pow2_above :: "nat \<Rightarrow> nat \<Rightarrow> nat" where
  "pow2_above a b = (if a = 0 \<or> b \<le> a then 1 else 2 * pow2_above (2 * a) b)"
  by pat_completeness auto
termination
  by (relation "measure (\<lambda>(a, b). b - a)") auto

declare pow2_above.simps [simp del]

definition round_div :: "nat \<Rightarrow> nat \<Rightarrow> nat" where
  "round_div n d =
     (let q = n div d; r = n mod d in if 2 * r < d \<or> 2 * r = d \<and> even q then q else Suc q)"

definition float64 :: "nat \<times> nat \<Rightarrow> nat \<times> nat" where
  "float64 x =
     (let (n, d) = x; u = pow2_above n (2 ^ 52 * d); v = pow2_above (2 ^ 53 * d) (Suc n)
      in if n = 0 then (0, 1) else (round_div (n * u) (d * v) * v, u))"

definition float_mult :: "nat \<times> nat \<Rightarrow> nat \<times> nat \<Rightarrow> nat \<times> nat" where
  "float_mult x y = float64 (fst x * fst y, snd x * snd y)"

definition float_div :: "nat \<times> nat \<Rightarrow> nat \<times> nat \<Rightarrow> nat \<times> nat" where
  "float_div x y = float64 (fst x * snd y, snd x * fst y)"

text \<open>Whole numbers below \<open>2 ^ 53\<close> are exact.\<close>

lemma float64_exact: "n < 2 ^ 53 \<Longrightarrow> fst (float64 (n, 1)) = n * snd (float64 (n, 1))"
proof -
  assume n: "n < 2 ^ 53"
  have v: "pow2_above (2 ^ 53 * 1) (Suc n) = 1" using n by (subst pow2_above.simps) simp
  have r: "round_div m 1 = m" for m by (simp add: round_div_def Let_def)
  show ?thesis unfolding float64_def Let_def prod.case v by (simp add: r del: One_nat_def)
qed

lemma pow2_above_pos: "0 < pow2_above a b"
  by (induction a b rule: pow2_above.induct) (subst pow2_above.simps, auto)

lemma float64_pos: "0 < snd (float64 x)"
  by (simp add: float64_def Let_def pow2_above_pos split: prod.split)

section \<open>Doubles\<close>

type_synonym double = "int \<times> nat"

definition to_double :: "int \<Rightarrow> nat \<Rightarrow> double" where
  "to_double n d = (case float64 (nat \<bar>n\<bar>, d) of (a, b) \<Rightarrow> (sgn n * int a, b))"

definition double_add :: "double \<Rightarrow> double \<Rightarrow> double" where
  "double_add x y = to_double (fst x * int (snd y) + fst y * int (snd x)) (snd x * snd y)"

definition double_mult :: "double \<Rightarrow> double \<Rightarrow> double" where
  "double_mult x y = to_double (fst x * fst y) (snd x * snd y)"

text \<open>A double that is a whole number.\<close>

definition is_whole :: "double \<Rightarrow> int \<Rightarrow> bool" where
  "is_whole x n \<longleftrightarrow> 0 < snd x \<and> fst x = n * int (snd x)"

lemma to_double_whole: "\<bar>n\<bar> < 2 ^ 53 \<Longrightarrow> is_whole (to_double n 1) n"
proof -
  assume "\<bar>n\<bar> < 2 ^ 53"
  then have "nat \<bar>n\<bar> < 2 ^ 53" by simp
  then have "int (fst (float64 (nat \<bar>n\<bar>, 1))) = \<bar>n\<bar> * int (snd (float64 (nat \<bar>n\<bar>, 1)))"
    using float64_exact [of "nat \<bar>n\<bar>"] by simp
  then show ?thesis
    using float64_pos [of "(nat \<bar>n\<bar>, 1)"] by (auto simp: is_whole_def to_double_def case_prod_beta sgn_if)
qed

section \<open>Durations in seconds\<close>

text \<open>
  \<^verbatim>\<open>Duration.Seconds\<close>: the whole seconds and the rest, both divided towards zero.
\<close>

definition Seconds :: "duration \<Rightarrow> double" where
  "Seconds d =
     (let sec = sgn d * (\<bar>d\<bar> div Second); nsec = sgn d * (\<bar>d\<bar> mod Second)
      in double_add (to_double sec 1) (to_double nsec 1000000000))"

text \<open>
  The conversion \<^verbatim>\<open>time.Duration(x)\<close>: towards zero. Beyond 64 bits the language leaves the result open; it is
  the least number on the 64-bit processors of Intel and AMD.
\<close>

definition Duration_of_double :: "double \<Rightarrow> duration" where
  "Duration_of_double x =
     (let n = sgn (fst x) * (\<bar>fst x\<bar> div int (snd x)) in if in_int64 n then n else - (2 ^ 63))"

end
