(* ===== verification/Config.thy ===== *)
theory Config
  imports Go_Float Go_Text Wager_Service
begin

text \<open>
  The configuration: \<^verbatim>\<open>internal/config/config.go\<close> and \<^verbatim>\<open>referenceRetryPolicy\<close> of
  \<^verbatim>\<open>wiring/app.go\<close>. The environment variables are an argument, after a \<^verbatim>\<open>.env\<close> file was read into
  them; a variable that is not set is empty. The first two sections are what the code uses of \<^verbatim>\<open>time\<close>
  and \<^verbatim>\<open>log/slog\<close>.
\<close>

section \<open>Durations\<close>

text \<open>The digits after the point as far as they fit, and the power of ten that scales them.\<close>

fun leadingFraction :: "nat \<Rightarrow> nat \<times> nat \<Rightarrow> string \<Rightarrow> nat \<times> (nat \<times> nat)" where
  "leadingFraction x scale [] = (x, scale)"
| "leadingFraction x scale (c # cs) =
     (let y = x * 10 + digit_val c
      in if (2 ^ 63 - 1) div 10 < x \<or> 2 ^ 63 < y then (x, scale)
         else leadingFraction y (float_mult scale (10, 1)) cs)"

definition unitMap :: "string \<Rightarrow> nat option" where
  "unitMap = map_of
     [(''ns'', 1), (''us'', 1000), ([CHR 0xC2, CHR 0xB5, CHR ''s''], 1000), ([CHR 0xCE, CHR 0xBC, CHR ''s''], 1000),
      (''ms'', 1000000), (''s'', 1000000000), (''m'', 60 * 1000000000), (''h'', 3600 * 1000000000)]"

text \<open>One number with its unit, in nanoseconds, and the rest of the text.\<close>

definition duration_part :: "string \<Rightarrow> (nat \<times> string) option" where
  "duration_part s =
     (let whole = takeWhile is_digit s;
          s1 = dropWhile is_digit s;
          point = (s1 \<noteq> [] \<and> hd s1 = CHR ''.'');
          part = (if point then takeWhile is_digit (tl s1) else []);
          s2 = (if point then dropWhile is_digit (tl s1) else s1);
          unit = takeWhile (\<lambda>c. \<not> (c = CHR ''.'' \<or> is_digit c)) s2;
          rest = dropWhile (\<lambda>c. \<not> (c = CHR ''.'' \<or> is_digit c)) s2
      in if 2 ^ 63 < digits_val 0 whole \<or> whole = [] \<and> part = [] \<or> unit = [] then None
         else case unitMap unit of
                None \<Rightarrow> None
              | Some u \<Rightarrow>
                  if 2 ^ 63 div u < digits_val 0 whole then None
                  else let (f, scale) = leadingFraction 0 (1, 1) part;
                           x = float_mult (float64 (f, 1)) (float_div (float64 (u, 1)) scale);
                           v = digits_val 0 whole * u + (if f = 0 then 0 else fst x div snd x)
                       in if f \<noteq> 0 \<and> 2 ^ 63 < v then None else Some (v, rest))"

lemma length_dropWhile_less: "takeWhile P xs \<noteq> [] \<Longrightarrow> length (dropWhile P xs) < length xs"
  by (cases xs) (auto simp: less_Suc_eq_le length_dropWhile_le split: if_splits)

lemma duration_part_shorter: "duration_part s = Some (v, rest) \<Longrightarrow> length rest < length s"
proof -
  let ?s1 = "dropWhile is_digit s"
  let ?s2 = "if ?s1 \<noteq> [] \<and> hd ?s1 = CHR ''.'' then dropWhile is_digit (tl ?s1) else ?s1"
  let ?P = "\<lambda>c. \<not> (c = CHR ''.'' \<or> is_digit c)"
  assume a: "duration_part s = Some (v, rest)"
  then have "rest = dropWhile ?P ?s2" "takeWhile ?P ?s2 \<noteq> []"
    unfolding duration_part_def Let_def by (auto split: if_splits option.splits prod.splits)
  then have "length rest < length ?s2" using length_dropWhile_less by metis
  moreover have "length ?s2 \<le> length s"
    using length_dropWhile_le [of is_digit s] length_dropWhile_le [of is_digit "tl ?s1"] by (auto intro: le_trans)
  ultimately show ?thesis by linarith
qed

text \<open>The sum of the parts, a 64-bit number that may not exceed \<open>2 ^ 63\<close>.\<close>

function duration_sum :: "nat \<Rightarrow> string \<Rightarrow> nat option" where
  "duration_sum d s =
     (if s = [] then Some d
      else case duration_part s of
             None \<Rightarrow> None
           | Some (v, rest) \<Rightarrow>
               if 2 ^ 63 < (d + v) mod 2 ^ 64 then None else duration_sum ((d + v) mod 2 ^ 64) rest)"
  by pat_completeness auto
termination
  by (relation "measure (\<lambda>(d, s). length s)") (auto dest: duration_part_shorter)

declare duration_sum.simps [simp del]

definition ParseDuration :: "string \<Rightarrow> duration option" where
  "ParseDuration s =
     (let neg = (s \<noteq> [] \<and> hd s = CHR ''-'');
          s1 = (if s \<noteq> [] \<and> (hd s = CHR ''-'' \<or> hd s = CHR ''+'') then tl s else s)
      in if s1 = ''0'' then Some 0
         else if s1 = [] then None
         else case duration_sum 0 s1 of
                None \<Rightarrow> None
              | Some d \<Rightarrow>
                  if neg then Some (wrap64 (- wrap64 (int d)))
                  else if 2 ^ 63 - 1 < d then None else Some (int d))"

section \<open>Levels\<close>

text \<open>
  \<^verbatim>\<open>slog.Level.UnmarshalText\<close>: a name without regard to case, and an offset. The dotless i is the only
  character outside of ASCII that becomes a letter of a name in upper case.
\<close>

fun dotless :: "string \<Rightarrow> string" where
  "dotless [] = []"
| "dotless (c # cs) =
     (if c = CHR 0xC4 \<and> cs \<noteq> [] \<and> hd cs = CHR 0xB1 then CHR ''i'' # dotless (tl cs) else c # dotless cs)"

definition parse_level :: "string \<Rightarrow> int option" where
  "parse_level s =
     (let sign = (\<lambda>c. c = CHR ''+'' \<or> c = CHR ''-'');
          name = map lower (dotless (takeWhile (\<lambda>c. \<not> sign c) s));
          suffix = dropWhile (\<lambda>c. \<not> sign c) s;
          level = map_of [(''debug'', -4), (''info'', 0), (''warn'', 4), (''error'', 8)] name
      in case (if suffix = [] then Some 0 else Atoi suffix) of
           None \<Rightarrow> None
         | Some offset \<Rightarrow> map_option (\<lambda>l. wrap64 (l + offset)) level)"

section \<open>The configuration\<close>

record Config =
  LogLevel :: int
  HTTPAddr :: string
  DatabaseURL :: string
  KeycloakIssuerURL :: string
  KeycloakJWKSURL :: string
  KeycloakAudience :: string
  AWSRegion :: string
  SQSEndpoint :: string
  SQSQueueURL :: string
  SQSDLQURL :: string
  SQSEventQueueURL :: string
  SQSAllowedProviders :: "string list"
  ReferenceRetryInitialDelay :: duration
  ReferenceRetryMaxDelay :: duration
  ReferenceTTL :: duration

fun split_on :: "char \<Rightarrow> string \<Rightarrow> string list" where
  "split_on sep [] = [[]]"
| "split_on sep (c # cs) =
     (if c = sep then [] # split_on sep cs
      else (c # hd (split_on sep cs)) # tl (split_on sep cs))"

definition splitList :: "string \<Rightarrow> string list" where
  "splitList raw = filter (\<lambda>v. v \<noteq> []) (map TrimSpace (split_on CHR '','' raw))"

definition envOrDefault :: "(string \<Rightarrow> string) \<Rightarrow> string \<Rightarrow> string \<Rightarrow> string" where
  "envOrDefault getenv name fallback =
     (let value = TrimSpace (getenv name) in if value \<noteq> [] then value else fallback)"

definition durationEnv :: "(string \<Rightarrow> string) \<Rightarrow> string \<Rightarrow> duration \<Rightarrow> err + duration" where
  "durationEnv getenv name fallback =
     (let raw = getenv name
      in if raw = [] then Inr fallback
         else case ParseDuration raw of
                None \<Rightarrow> Inl (OtherError (name @ '' must be a positive duration''))
              | Some value \<Rightarrow> if value \<le> 0 then Inl (OtherError (name @ '' must be a positive duration'')) else Inr value)"

definition required :: "(string \<Rightarrow> string) \<Rightarrow> string \<Rightarrow> err + string" where
  "required getenv name =
     (if getenv name = [] then Inl (OtherError (name @ '' environment variable not set'')) else Inr (getenv name))"

definition and_then :: "err + 'a \<Rightarrow> ('a \<Rightarrow> err + 'b) \<Rightarrow> err + 'b" where
  "and_then x k = (case x of Inl e \<Rightarrow> Inl e | Inr a \<Rightarrow> k a)"

definition Load :: "(string \<Rightarrow> string) \<Rightarrow> err + Config" where
  "Load getenv =
     and_then (required getenv ''DATABASE_URL'') (\<lambda>databaseURL.
     let httpAddr = (if getenv ''HTTP_PORT'' = [] then ''8080'' else getenv ''HTTP_PORT'') in
     and_then (required getenv ''KEYCLOAK_ISSUER_URL'') (\<lambda>keycloakIssuerURL.
     and_then (required getenv ''KEYCLOAK_JWKS_URL'') (\<lambda>keycloakJWKSURL.
     and_then (required getenv ''KEYCLOAK_AUDIENCE'') (\<lambda>keycloakAudience.
     and_then (required getenv ''AWS_REGION'') (\<lambda>awsRegion.
     and_then (required getenv ''SQS_ENDPOINT'') (\<lambda>sqsEndpoint.
     and_then (required getenv ''SQS_WAGER_QUEUE_URL'') (\<lambda>sqsQueueURL.
     and_then (required getenv ''SQS_WAGER_DLQ_URL'') (\<lambda>sqsDLQURL.
     if getenv ''SQS_EVENT_QUEUE_URL'' = [] then Inl (OtherError ''SQS_EVENT_QUEUE_URL is required'') else
     let allowedProviders = splitList (getenv ''SQS_ALLOWED_PROVIDERS'') in
     if allowedProviders = [] then Inl (OtherError ''SQS_ALLOWED_PROVIDERS environment variable not set'') else
     case parse_level (envOrDefault getenv ''LOG_LEVEL'' ''info'') of
       None \<Rightarrow> Inl (OtherError ''LOG_LEVEL must be debug, info, warn or error'')
     | Some logLevel \<Rightarrow>
     and_then (durationEnv getenv ''REFERENCE_RETRY_INITIAL_DELAY'' (5 * Second)) (\<lambda>initialDelay.
     and_then (durationEnv getenv ''REFERENCE_RETRY_MAX_DELAY'' (5 * Minute)) (\<lambda>maxDelay.
     and_then (durationEnv getenv ''REFERENCE_TTL'' (24 * Hour)) (\<lambda>ttl.
     Inr \<lparr>LogLevel = logLevel, HTTPAddr = CHR '':'' # httpAddr, DatabaseURL = databaseURL,
          KeycloakIssuerURL = keycloakIssuerURL, KeycloakJWKSURL = keycloakJWKSURL,
          KeycloakAudience = keycloakAudience, AWSRegion = awsRegion, SQSEndpoint = sqsEndpoint,
          SQSQueueURL = sqsQueueURL, SQSDLQURL = sqsDLQURL, SQSEventQueueURL = getenv ''SQS_EVENT_QUEUE_URL'',
          SQSAllowedProviders = allowedProviders, ReferenceRetryInitialDelay = initialDelay,
          ReferenceRetryMaxDelay = maxDelay, ReferenceTTL = ttl\<rparr>)))))))))))"

definition referenceRetryPolicy :: "Config \<Rightarrow> ReferenceRetryPolicy" where
  "referenceRetryPolicy cfg =
     \<lparr>InitialDelay = ReferenceRetryInitialDelay cfg, MaxDelay = ReferenceRetryMaxDelay cfg, TTL = ReferenceTTL cfg\<rparr>"

end
