(* ===== verification/Worker_Correctness.thy ===== *)
theory Worker_Correctness
  imports Worker Config Delivery
begin

text \<open>
  The background loops: their pauses, one run at a time, the delivery of everything that is due, and
  the schedule a loaded configuration gives.
\<close>

section \<open>Pauses\<close>

text \<open>The failures in a row at the end of a sequence of outcomes.\<close>

definition failures :: "outcome list \<Rightarrow> nat" where
  "failures os = length (takeWhile (\<lambda>r. snd r \<noteq> None) (rev os))"

text \<open>The pause after the last of a sequence of outcomes, by what they are.\<close>

definition pause_after :: "Options \<Rightarrow> outcome list \<Rightarrow> outcome \<Rightarrow> duration option" where
  "pause_after options before res =
     (case res of
        (found, Some e) \<Rightarrow> Some (min (MinErrorDelay options * 2 ^ failures before) (MaxErrorDelay options))
      | (True, None) \<Rightarrow> None
      | (False, None) \<Rightarrow> Some (IdleDelay options))"

fun pauses_from :: "Options \<Rightarrow> outcome list \<Rightarrow> outcome list \<Rightarrow> duration option list" where
  "pauses_from options before [] = []"
| "pauses_from options before (res # os) = pause_after options before res # pauses_from options (before @ [res]) os"

lemma failures_simps: "failures [] = 0" "failures (os @ [r]) = (if snd r \<noteq> None then Suc (failures os) else 0)"
  by (simp_all add: failures_def)

lemma loop_pauses:
  assumes "0 < MinErrorDelay options" "MinErrorDelay options \<le> MaxErrorDelay options" "MaxErrorDelay options < 2 ^ 62"
    "d = min (MinErrorDelay options * 2 ^ failures before) (MaxErrorDelay options)"
    "loop_run options stop step n d w = (turns, r)"
  shows "map snd turns = pauses_from options before (map fst turns)"
  using assms(4,5)
proof (induction n arbitrary: d w before turns r)
  case (Suc n)
  obtain res w1 where s: "step w = (res, w1)" by (metis surj_pair)
  obtain p d' where l: "loop_delay options d res = (p, d')" by (metis surj_pair)
  have d': "d' = min (MinErrorDelay options * 2 ^ failures (before @ [res])) (MaxErrorDelay options)"
  proof (cases "snd res")
    case None
    then show ?thesis using l assms(2) by (auto simp: loop_delay_def failures_simps split: if_splits)
  next
    case (Some e)
    have "0 < d" "d < 2 ^ 62" using assms(1-3) Suc.prems(1) by (auto simp: min_def)
    then have "wrap64 (d * 2) = d * 2" by (intro wrap64_id) (simp add: in_int64_def)
    moreover have "min (min x m * 2) m = min (x * 2) m" if "0 < m" for x m :: int using that by (auto simp: min_def)
    ultimately show ?thesis using l Some assms(1,2) Suc.prems(1) by (auto simp: loop_delay_def failures_simps mult.assoc mult.commute)
  qed
  have p: "p = pause_after options before res"
    using l Suc.prems(1) by (cases res; cases "fst res"; cases "snd res") (auto simp: loop_delay_def pause_after_def)
  show ?case
  proof (cases "stop (w_step w) \<or> stop (w_step w1)")
    case True
    then show ?thesis using Suc.prems(2) s by (cases "stop (w_step w)") auto
  next
    case False
    note run = Suc.prems(2) [symmetric]
    obtain ts q where t: "loop_run options stop step n d' w1 = (ts, q)" by (metis surj_pair)
    obtain us u where u: "loop_run options stop step n d' (snd (sleep stop w1)) = (us, u)" by (metis surj_pair)
    show ?thesis
    proof (cases p)
      case None
      then have "turns = (res, None) # ts" using run False s l t by simp
      then show ?thesis using Suc.IH [OF d' t] p None by simp
    next
      case (Some x)
      then have "turns = (res, Some x) # us \<or> turns = [(res, Some x)]"
        using run False s l u by (cases "sleep stop w1"; cases "fst (sleep stop w1)") simp_all
      then show ?thesis using Suc.IH [OF d' u] p Some by auto
    qed
  qed
qed simp

text \<open>
  C19: the pauses of a loop. After a failure it waits for the least delay, doubled with every
  failure in a row before and at most the greatest delay; after work that was found it does not wait, and
  without work it waits for the idle delay; either ends the row of failures.
\<close>

theorem worker_pauses:
  assumes "0 < MinErrorDelay options" "MinErrorDelay options \<le> MaxErrorDelay options" "MaxErrorDelay options < 2 ^ 62"
  shows "map snd (fst (Loop_run options stop step n w)) = pauses_from options [] (map fst (fst (Loop_run options stop step n w)))"
proof -
  obtain turns r where t: "loop_run options stop step n (MinErrorDelay options) w = (turns, r)" by (metis surj_pair)
  show ?thesis
    using loop_pauses [OF assms _ t, of "[]"] assms(2) t by (simp add: Loop_run_def failures_simps)
qed

theorem worker_pauses_witness:
  "map snd (fst (Loop_run pollingOptions (\<lambda>k. False) (\<lambda>w. ((False, Some (OtherError [])), w)) 6 demo_world)) =
     map Some [Second, 2 * Second, 4 * Second, 8 * Second, 16 * Second, 30 * Second]"
proof -
  let ?run = "Loop_run pollingOptions (\<lambda>k. False) (\<lambda>w. ((False, Some (OtherError [])), w)) 6 demo_world"
  have "map fst (fst ?run) = replicate 6 (False, Some (OtherError []))"
    by code_simp
  moreover have "map snd (fst ?run) = pauses_from pollingOptions [] (map fst (fst ?run))"
    by (rule worker_pauses) (simp_all add: pollingOptions_def)
  moreover have "pauses_from pollingOptions [] (replicate 6 (False, Some (OtherError []))) =
     map Some [Second, 2 * Second, 4 * Second, 8 * Second, 16 * Second, 30 * Second]"
    by code_simp
  ultimately show ?thesis by simp
qed

section \<open>One run at a time\<close>

datatype loop_call = CallStart | CallStop bool err

fun do_call :: "loop_call \<Rightarrow> Loop \<Rightarrow> Loop" where
  "do_call CallStart l = Loop_Start l"
| "do_call (CallStop in_time e) l = snd (Loop_Stop in_time e l)"

text \<open>Whatever the calls, every run that was started is stopped, save the one the loop holds.\<close>

definition loop_ok :: "Loop \<Rightarrow> bool" where
  "loop_ok l \<longleftrightarrow> set_option (lp_running l) \<subseteq> {..<lp_started l} \<and>
     lp_stopped l = {..<lp_started l} - set_option (lp_running l) \<and> lp_cancelled l = lp_stopped l"

lemma one_run: "loop_ok (fold do_call calls NewLoop)"
proof (induction calls rule: rev_induct)
  case (snoc c cs)
  then show ?case
    by (cases c) (auto simp: loop_ok_def Loop_Start_def Loop_Stop_def split: option.split)
qed (simp add: NewLoop_def loop_ok_def)

section \<open>The outbox is drained\<close>

text \<open>Events the dispatcher can deliver: few attempts, and none from the future.\<close>

definition deliverable :: "'d Env \<Rightarrow> World \<Rightarrow> bool" where
  "deliverable E w \<longleftrightarrow> schema_ok (w_db w) \<and>
     (\<forall>r \<in> set (outbox (w_db w)). ob_published_at r = None \<longrightarrow>
        ob_attempts r + 1 < 2 ^ 31 \<and> ob_occurred_at r \<le> E_clock E (w_step w))"

definition waiting :: "World \<Rightarrow> nat" where
  "waiting w = length (filter (\<lambda>r. ob_published_at r = None) (outbox (w_db w)))"

text \<open>The event of a row is published, and its message was sent.\<close>

definition sent :: "'d Env \<Rightarrow> string \<Rightarrow> outbox_row \<Rightarrow> World \<Rightarrow> bool" where
  "sent E q r w \<longleftrightarrow> outbox_message E q (pending_event r) \<in> set (w_calls w) \<and>
     (\<exists>x \<in> set (outbox (w_db w)). ob_event_id x = ob_event_id r \<and> ob_published_at x \<noteq> None)"

locale answered =
  fixes E :: "'d Env" and q :: string and i :: string
  assumes replies: "\<And>k. E_reply E k = Reply"
    and clock: "\<And>k. E_clock E k \<le> E_clock E (Suc k)"
    and worker: "btrim i \<noteq> []" "pg_text_ok i"
begin

lemma clock_mono: "k \<le> l \<Longrightarrow> E_clock E k \<le> E_clock E l"
  using clock by (rule lift_Suc_mono_le)

lemma claimable_later: "\<lbrakk>claimable (E_clock E k) r; k \<le> l\<rbrakk> \<Longrightarrow> claimable (E_clock E l) r"
  using clock_mono [of k l] by (auto simp: claimable_def split: option.splits)

lemma nothing_due:
  assumes "claim_candidates (E_clock E (w_step w + 1)) (w_db w) = []"
  shows "DispatchNext E q i w = ((False, None), w\<lparr>w_step := w_step w + 2\<rparr>)"
proof -
  let ?w1 = "w\<lparr>w_step := Suc (w_step w)\<rparr>"
  have "ClaimPending E i t ?w1 = (Inl (AppErr ErrNotFound), ?w1\<lparr>w_step := Suc (w_step ?w1)\<rparr>)" for t
    using request_Reply [OF replies, of "\<lambda>now clk. claim_query i t now" ?w1 None "w_db w"] assms
    by (simp add: ClaimPending_def bind_act_def claim_query_def throw_def)
  then show ?thesis using Clock_Reply [of E w, OF replies] by (simp add: DispatchNext_def)
qed

lemma turn:
  assumes "deliverable E w"
  obtains (idle) "claim_candidates (E_clock E (w_step w + 1)) (w_db w) = []"
      "DispatchNext E q i w = ((False, None), w\<lparr>w_step := w_step w + 2\<rparr>)" 
  | (found) r t where "r \<in> set (outbox (w_db w))" "ob_published_at r = None"
      "DispatchNext E q i w = ((True, None), w\<lparr>w_step := w_step w + 5,
         w_calls := w_calls w @ [outbox_message E q (pending_event r)],
         w_db := (w_db w)\<lparr>outbox := delivered (ob_event_id r) t (outbox (w_db w))\<rparr>\<rparr>)"
      "schema_ok ((w_db w)\<lparr>outbox := delivered (ob_event_id r) t (outbox (w_db w))\<rparr>)"
proof (cases "claim_candidates (E_clock E (w_step w + 1)) (w_db w)")
  case Nil
  then show thesis using nothing_due that(1) by blast
next
  case (Cons r rs)
  have r: "r \<in> set (outbox (w_db w))" "ob_published_at r = None"
    using claim_candidates_in [OF Cons] by (simp_all add: claimable_def)
  have "schema_ok (w_db w)" "ob_attempts r + 1 < 2 ^ 31" "ob_occurred_at r \<le> E_clock E (w_step w)"
    using assms r by (simp_all add: deliverable_def)
  moreover have "ob_occurred_at r \<le> E_clock E (w_step w + 3)"
    using calculation(3) clock_mono [of "w_step w" "w_step w + 3"] by simp
  ultimately show thesis
    using DispatchNext_delivers [OF _ worker _ Cons, of q] replies that(2) [OF r] by blast
qed

lemma deliverable_later: "\<lbrakk>deliverable E w; w_step w \<le> k\<rbrakk> \<Longrightarrow> deliverable E (w\<lparr>w_step := k\<rparr>)"
  using clock_mono [of "w_step w" k] by (fastforce simp: deliverable_def)

lemma found_deliverable:
  assumes "deliverable E w" "schema_ok ((w_db w)\<lparr>outbox := delivered e t (outbox (w_db w))\<rparr>)"
  shows "deliverable E (w\<lparr>w_step := w_step w + 5, w_calls := cs, w_db := (w_db w)\<lparr>outbox := delivered e t (outbox (w_db w))\<rparr>\<rparr>)"
proof -
  have "E_clock E (w_step w) \<le> E_clock E (w_step w + 5)" by (rule clock_mono) simp
  then show ?thesis using assms by (fastforce simp: deliverable_def delivered_def)
qed

lemma delivered_published:
  assumes "x \<in> set xs" "ob_published_at x \<noteq> None \<or> ob_event_id x = e"
  shows "\<exists>y \<in> set (delivered e t xs). ob_event_id y = ob_event_id x \<and> ob_published_at y \<noteq> None"
proof -
  let ?f = "\<lambda>x. if ob_event_id x = e
    then x\<lparr>ob_attempts := ob_attempts x + 1, ob_published_at := Some t, ob_claimed_by := None, ob_claimed_until := None\<rparr> else x"
  have "?f x \<in> set (delivered e t xs)" unfolding delivered_def using assms(1) by simp
  moreover have "ob_event_id (?f x) = ob_event_id x \<and> ob_published_at (?f x) \<noteq> None" using assms(2) by auto
  ultimately show ?thesis by blast
qed

lemma sent_stays:
  assumes "deliverable E w" "sent E q r w"
  shows "sent E q r (snd (snd (loop_run options (\<lambda>k. False) (outbox_step E q i) n d w)))"
  using assms
proof (induction n arbitrary: d w)
  case (Suc n)
  show ?case using Suc.prems(1)
  proof (cases rule: turn)
    case idle
    let ?w2 = "w\<lparr>w_step := Suc (w_step w + 2)\<rparr>"
    have "deliverable E ?w2" "sent E q r ?w2" using Suc.prems deliverable_later [OF Suc.prems(1)] by (simp_all add: sent_def)
    then show ?thesis
      using Suc.IH [of ?w2] idle(2) by (simp add: outbox_step_def loop_delay_def sleep_def case_prod_beta)
  next
    case (found r' t)
    let ?w1 = "w\<lparr>w_step := w_step w + 5, w_calls := w_calls w @ [outbox_message E q (pending_event r')],
         w_db := (w_db w)\<lparr>outbox := delivered (ob_event_id r') t (outbox (w_db w))\<rparr>\<rparr>"
    obtain x where x: "x \<in> set (outbox (w_db w))" "ob_event_id x = ob_event_id r" "ob_published_at x \<noteq> None"
      using Suc.prems(2) unfolding sent_def by blast
    have "sent E q r ?w1" using Suc.prems(2) delivered_published [OF x(1), of "ob_event_id r'" t] x(2,3) by (simp add: sent_def)
    moreover have "deliverable E ?w1" by (rule found_deliverable [OF Suc.prems(1) found(4)])
    ultimately show ?thesis
      using Suc.IH [of ?w1] found(3) by (simp add: outbox_step_def loop_delay_def case_prod_beta)
  qed
qed simp

lemma fewer_unpublished:
  "x \<in> set xs \<Longrightarrow> ob_published_at x = None \<Longrightarrow>
     length (filter (\<lambda>r. ob_published_at r = None) (delivered (ob_event_id x) t xs)) <
     length (filter (\<lambda>r. ob_published_at r = None) xs)"
proof (induction xs)
  case (Cons y ys)
  have "length (filter (\<lambda>r. ob_published_at r = None) (delivered e t ys)) \<le> length (filter (\<lambda>r. ob_published_at r = None) ys)" for e
    by (induction ys) (auto simp: delivered_def)
  then show ?case using Cons by (cases "x = y") (auto simp: delivered_def le_imp_less_Suc)
qed simp

lemma drained:
  assumes "deliverable E w" "r \<in> set (outbox (w_db w))" "claimable (E_clock E (w_step w)) r" "waiting w \<le> n"
  shows "sent E q r (snd (snd (loop_run options (\<lambda>k. False) (outbox_step E q i) n d w)))"
  using assms
proof (induction n arbitrary: d w)
  case 0
  then show ?case by (auto simp: waiting_def claimable_def filter_empty_conv)
next
  case (Suc n)
  show ?case using Suc.prems(1)
  proof (cases rule: turn)
    case idle
    have "claimable (E_clock E (w_step w + 1)) r" using claimable_later [OF Suc.prems(3)] by simp
    then have "r \<in> set (claim_candidates (E_clock E (w_step w + 1)) (w_db w))" using Suc.prems(2) by (simp add: claim_candidates_def)
    then show ?thesis using idle(1) by simp
  next
    case (found r' t)
    let ?w1 = "w\<lparr>w_step := w_step w + 5, w_calls := w_calls w @ [outbox_message E q (pending_event r')],
         w_db := (w_db w)\<lparr>outbox := delivered (ob_event_id r') t (outbox (w_db w))\<rparr>\<rparr>"
    have d: "deliverable E ?w1" by (rule found_deliverable [OF Suc.prems(1) found(4)])
    have "sent E q r (snd (snd (loop_run options (\<lambda>k. False) (outbox_step E q i) n d ?w1)))" for d
    proof (cases "ob_event_id r = ob_event_id r'")
      case True
      then have "r = r'" using schema_event_unique [OF _ Suc.prems(2) found(1)] Suc.prems(1) by (simp add: deliverable_def)
      then have "sent E q r ?w1" using delivered_published [OF found(1), of "ob_event_id r'" t] by (simp add: sent_def)
      then show ?thesis by (rule sent_stays [OF d])
    next
      case False
      then have "r \<in> set (outbox (w_db ?w1))" using Suc.prems(2) by (force simp: delivered_def)
      moreover have "claimable (E_clock E (w_step ?w1)) r" using claimable_later [OF Suc.prems(3)] by simp
      moreover have "waiting ?w1 \<le> n" using fewer_unpublished [OF found(1,2), of t] Suc.prems(4) by (simp add: waiting_def)
      ultimately show ?thesis using Suc.IH [OF d] by simp
    qed
    then show ?thesis using found(3) by (simp add: outbox_step_def loop_delay_def case_prod_beta)
  qed
qed

end

text \<open>
  C18: the outbox is drained. When requests are answered and the loop of the dispatcher is not
  stopped, every event that is due at the start is published, and its message sent, after as many turns as there
  are unpublished events, however many events become due in the meantime.
\<close>

theorem outbox_drained:
  assumes "\<And>k. E_reply E k = Reply" "\<And>k. E_clock E k \<le> E_clock E (Suc k)" "btrim i \<noteq> []" "pg_text_ok i"
    "deliverable E w" "r \<in> set (outbox (w_db w))" "claimable (E_clock E (w_step w)) r" "waiting w \<le> n"
  shows "sent E q r (snd (snd (Loop_run pollingOptions (\<lambda>k. False) (outbox_step E q i) n w)))"
  unfolding Loop_run_def by (rule answered.drained [OF answered.intro [OF assms(1-4)] assms(5-8)])

interpretation demo_node: answered demo_env "''events''" "''w1''"
proof (rule answered.intro)
  have "btrim ''w1'' \<noteq> [] \<and> pg_text_ok ''w1''" by code_simp
  then show "btrim ''w1'' \<noteq> []" "pg_text_ok ''w1''" by simp_all
qed simp_all

theorem outbox_drained_witness:
  "sent demo_env ''events'' demo_event_row
     (snd (snd (Loop_run pollingOptions (\<lambda>k. False) (outbox_step demo_env ''events'' ''w1'') 1 (demo_outbox_world demo_event_row))))"
proof (rule outbox_drained [OF demo_node.replies demo_node.clock demo_node.worker])
  show "deliverable demo_env (demo_outbox_world demo_event_row)"
    using demo_outbox_schema [OF demo_event_ok] by (simp add: deliverable_def demo_outbox_world_def) (simp add: demo_event_row_def demo_world_def)
qed (simp_all add: waiting_def claimable_def demo_outbox_world_def demo_world_def demo_event_row_def)

section \<open>The schedule of a configuration\<close>

lemma durationEnv_pos: "\<lbrakk>durationEnv getenv name d = Inr x; 0 < d\<rbrakk> \<Longrightarrow> 0 < x"
  by (auto simp: durationEnv_def Let_def split: if_splits option.splits)

lemma and_then_Inr: "and_then x k = Inr b \<longleftrightarrow> (\<exists>a. x = Inr a \<and> k a = Inr b)"
  by (cases x) (simp_all add: and_then_def)

lemma Load_durations:
  assumes "Load getenv = Inr cfg"
  shows "0 < ReferenceRetryInitialDelay cfg" "0 < ReferenceRetryMaxDelay cfg" "0 < ReferenceTTL cfg"
  using assms unfolding Load_def
  by (auto simp: and_then_Inr Let_def split: if_splits option.splits dest: durationEnv_pos)

lemma delay_closed:
  assumes "0 < InitialDelay p" "MaxDelay p \<le> 2 ^ 62"
  shows "policy_delay p n = min (InitialDelay p * 2 ^ nat (n - 1)) (MaxDelay p)"
proof (cases "InitialDelay p \<le> 2 ^ 62")
  case True
  then show ?thesis using delay_loop_doubles [of "InitialDelay p" "MaxDelay p" 1 n] assms by (simp add: policy_delay_def)
next
  case False
  then have "delay_loop 1 n (InitialDelay p) (MaxDelay p) = InitialDelay p" using assms(2) by (subst delay_loop.simps) simp
  moreover have "InitialDelay p * 1 \<le> InitialDelay p * 2 ^ nat (n - 1)" using assms(1) by (intro mult_left_mono) simp_all
  ultimately show ?thesis using False assms(2) unfolding policy_delay_def by linarith
qed


definition demo_getenv :: "string \<Rightarrow> string" where
  "demo_getenv name =
     (if name = ''REFERENCE_RETRY_INITIAL_DELAY'' then ''2s''
      else if name = ''REFERENCE_RETRY_MAX_DELAY'' then ''90s''
      else if name = ''REFERENCE_TTL'' \<or> name = ''LOG_LEVEL'' \<or> name = ''HTTP_PORT'' then []
      else ''x'')"

lemma demo_Load:
  "case Load demo_getenv of Inl e \<Rightarrow> False
   | Inr cfg \<Rightarrow> ReferenceRetryInitialDelay cfg = 2 * Second \<and> ReferenceRetryMaxDelay cfg = 90 * Second \<and>
       SQSAllowedProviders cfg = [''x''] \<and> HTTPAddr cfg = '':8080'' \<and> LogLevel cfg = 0"
proof -
  have "ParseDuration ''2s'' = Some (2 * Second)" "ParseDuration ''90s'' = Some (90 * Second)"
    "parse_level ''info'' = Some 0" "splitList ''x'' = [''x'']"
    by code_simp+
  then show ?thesis
    by (simp add: Load_def required_def and_then_def durationEnv_def envOrDefault_def demo_getenv_def)
qed


end
