(* ===== verification/Health.thy ===== *)
theory Health
  imports Go_Text Tx_Manager
begin

text \<open>
  The health endpoints: \<^verbatim>\<open>transport/http/health_handler.go\<close>, \<^verbatim>\<open>sqs/health.go\<close> and
  \<^verbatim>\<open>readinessChecks\<close> of \<^verbatim>\<open>wiring/app.go\<close>. A check is a request that changes nothing; the timeout of
  the checks is one of the ways the environment fails a request.
\<close>

type_synonym check = "World \<Rightarrow> err option \<times> World"

record ReadinessCheck =
  rc_Name :: string
  rc_Check :: check

record healthResponse =
  hr_Status :: string
  hr_Checks :: "string \<rightharpoonup> string"

definition Live :: "nat \<times> healthResponse" where
  "Live = (200, \<lparr>hr_Status = ''ok'', hr_Checks = Map.empty\<rparr>)"

fun ready_loop :: "ReadinessCheck list \<Rightarrow> nat \<times> healthResponse \<Rightarrow> World \<Rightarrow> (nat \<times> healthResponse) \<times> World" where
  "ready_loop [] r w = (r, w)"
| "ready_loop (c # cs) (status, response) w =
     (case rc_Check c w of
        (Some e, w') \<Rightarrow>
          ready_loop cs (503, response\<lparr>hr_Status := ''not_ready'', hr_Checks := (hr_Checks response)(rc_Name c \<mapsto> ''unavailable'')\<rparr>) w'
      | (None, w') \<Rightarrow>
          ready_loop cs (status, response\<lparr>hr_Checks := (hr_Checks response)(rc_Name c \<mapsto> ''ok'')\<rparr>) w')"

definition Ready :: "ReadinessCheck list \<Rightarrow> World \<Rightarrow> (nat \<times> healthResponse) \<times> World" where
  "Ready checks w = ready_loop checks (200, \<lparr>hr_Status = ''ready'', hr_Checks = Map.empty\<rparr>) w"

text \<open>A request that only asks for an answer.\<close>

definition ping :: "'d Env \<Rightarrow> check" where
  "ping E w =
     (case E_reply E (w_step w) of
        Reply \<Rightarrow> None
      | Fail e \<Rightarrow> Some (InfraErr (fail_error e))
      | LostReply e \<Rightarrow> Some (InfraErr (lost_error e)), w\<lparr>w_step := Suc (w_step w)\<rparr>)"

text \<open>\<^verbatim>\<open>HealthChecker.Check\<close>: the wager queue, then the event queue.\<close>

definition HealthChecker_Check :: "'d Env \<Rightarrow> check" where
  "HealthChecker_Check E w =
     (case ping E w of (Some e, w1) \<Rightarrow> (Some e, w1) | (None, w1) \<Rightarrow> ping E w1)"

text \<open>\<open>depth\<close> is the attribute the queue service returns.\<close>

definition DLQDepth :: "'d Env \<Rightarrow> string \<Rightarrow> World \<Rightarrow> (err + int) \<times> World" where
  "DLQDepth E depth w =
     (case ping E w of
        (Some e, w1) \<Rightarrow> (Inl e, w1)
      | (None, w1) \<Rightarrow>
          (case Atoi depth of
             None \<Rightarrow> (Inl (OtherError ''strconv.ParseInt''), w1)
           | Some n \<Rightarrow> (Inr n, w1)))"

definition readinessChecks :: "'d Env \<Rightarrow> ReadinessCheck list" where
  "readinessChecks E =
     [\<lparr>rc_Name = ''postgres'', rc_Check = ping E\<rparr>, \<lparr>rc_Name = ''sqs'', rc_Check = HealthChecker_Check E\<rparr>]"

text \<open>
  The program is ready exactly when the database and both queues answer, and says which does not.
\<close>

lemma ready_when_answered:
  "fst (fst (Ready (readinessChecks E) w)) = (if \<forall>k < 3. E_reply E (w_step w + k) = Reply then 200 else 503)"
  "hr_Checks (snd (fst (Ready (readinessChecks E) w))) ''postgres'' =
     Some (if E_reply E (w_step w) = Reply then ''ok'' else ''unavailable'')"
proof -
  have "(\<forall>k < 3. E_reply E (w_step w + k) = Reply) \<longleftrightarrow>
      E_reply E (w_step w) = Reply \<and> E_reply E (Suc (w_step w)) = Reply \<and> E_reply E (Suc (Suc (w_step w))) = Reply"
    by (auto simp: numeral_3_eq_3 less_Suc_eq)
  then show "fst (fst (Ready (readinessChecks E) w)) = (if \<forall>k < 3. E_reply E (w_step w + k) = Reply then 200 else 503)"
    by (simp add: Ready_def readinessChecks_def HealthChecker_Check_def ping_def split: reply.split)
  show "hr_Checks (snd (fst (Ready (readinessChecks E) w))) ''postgres'' =
     Some (if E_reply E (w_step w) = Reply then ''ok'' else ''unavailable'')"
    by (simp add: Ready_def readinessChecks_def HealthChecker_Check_def ping_def split: reply.split)
qed

end
