(* ===== verification/Transports.thy ===== *)
theory Transports
  imports Http_Api System
begin

text \<open>
  The two transports together: an operation that was stored is not carried out again, whichever way
  it arrives.
\<close>

text \<open>A provider's key that is stored stays stored.\<close>

definition known_key :: "string \<Rightarrow> string \<Rightarrow> DB \<Rightarrow> bool" where
  "known_key p k db \<longleftrightarrow> schema_ok db \<and>
     (\<exists>r \<in> set (wagers db). wg_provider_id r = Some p \<and> wg_idempotency_key r = Some k)"

lemma known_key_kept:
  assumes "known_key p k db" "statements db db'"
  shows "known_key p k db'"
proof -
  obtain r where r: "r \<in> set (wagers db)" "wg_provider_id r = Some p" "wg_idempotency_key r = Some k"
    using assms(1) unfolding known_key_def by blast
  then obtain i where i: "i < length (wagers db)" "wagers db ! i = r" by (auto simp: in_set_conv_nth)
  have "extends same_wager (wagers db) (wagers db')" using statements_history [OF assms(2)] by (simp add: history_def)
  then have "i < length (wagers db')" "same_wager r (wagers db' ! i)" using i by (auto simp: extends_nth)
  moreover have "schema_ok db'" using statements_schema_ok [OF assms(2)] assms(1) unfolding known_key_def by blast
  ultimately show ?thesis
    using r unfolding known_key_def same_wager_def by (intro conjI bexI [of _ "wagers db' ! i"]) simp_all
qed

lemma known_key_stays:
  assumes "known_key p k (w_db w)" "(service_step E P)\<^sup>*\<^sup>* w w'"
  shows "known_key p k (w_db w')"
  using assms(2,1)
  by (induction rule: rtranclp_induct) (auto intro: known_key_kept service_step_statements)

lemma known_key_statements:
  assumes "known_key p k (w_db w)" "only_statements m" "m w = (x, w')"
  shows "known_key p k (w_db w')"
  using known_key_kept [OF assms(1) only_statementsD(1) [OF assms(2,3)]] .

text \<open>A command that is accepted stores its key.\<close>

lemma process_body_key:
  assumes "process_body E P req md ctx w = (Inr res, w')" "schema_ok (w_db w)"
  shows "known_key (cmd_ProviderID (req_command req)) (cmd_IdempotencyKey (req_command req)) (w_db w')"
  using assms(1)
proof (cases rule: process_body_Inr)
  case (replay now i t v v' e)
  have "w_db w' = w_db v'" using resolveExistingTransaction_db [OF replay(7)] .
  then show ?thesis using resolveExisting_Inr [OF replay(7)] replay(6) assms(2) unfolding known_key_def by metis
next
  case (new now i t v v1 wal v2 v3 now' t')
  obtain r where r: "wager_row_of E t = Inr r" "insert_wager r (w_db v) = Inr (1, w_db v1)"
    "w_db v1 = (w_db v)\<lparr>wagers := wagers (w_db v) @ [r]\<rparr>"
    using WagerRepository_Create_Inr [OF new(4)] .
  have "schema_ok (w_db v1)" using insert_wager_schema [OF r(2)] assms(2) new(3) by simp
  moreover have "wg_provider_id r = Some (cmd_ProviderID (req_command req))" "wg_idempotency_key r = Some (cmd_IdempotencyKey (req_command req))"
    using NewExternal_identifiers [OF new(1)] wager_row_of_identifiers [OF r(1)] new(2) by (simp_all add: nullableString_def)
  ultimately have "known_key (cmd_ProviderID (req_command req)) (cmd_IdempotencyKey (req_command req)) (w_db v1)"
    using r(3) by (simp add: known_key_def)
  moreover have "only_statements (lockWallet E ctx t)" by (intro effects)
  note known_key_statements [OF _ this new(5)]
  ultimately have "known_key (cmd_ProviderID (req_command req)) (cmd_IdempotencyKey (req_command req)) (w_db v3)"
    using new(6) by simp
  then show ?thesis using known_key_statements [OF _ effects_processNew new(7)] by blast
qed

lemma accepted_key:
  assumes "Process E P background command md w = (Inr res, w')" "schema_ok (w_db w)"
  shows "known_key (cmd_ProviderID command) (cmd_IdempotencyKey command) (w_db w')"
proof -
  obtain req where q: "parseWagerRequest E command = Inr req" "in_transaction E background (process_body E P req md) w = (Inr res, w')"
    using assms(1) by (auto simp: Process_def split: if_splits sum.splits)
  obtain v v' where "w_db v = w_db w" "process_body E P req md tx_context v = (Inr res, v')" "w_db w' = w_db v'"
    using within_InrD [OF q(2)] .
  then show ?thesis using process_body_key [of E P req md tx_context v res v'] assms(2) parseWagerRequest_InrD(1) [OF q(1)] by simp
qed

lemma create_known_key:
  assumes "known_key (prin_ProviderID p) (rq_IdempotencyKey rq) (w_db w)"
  shows "w_db (snd (WagerHandler_Create E P c (Some p) rq w)) = w_db w"
proof (cases "rq_WagerBody rq")
  case None
  then show ?thesis by (simp add: WagerHandler_Create_def fail_def)
next
  case (Some req)
  obtain r where r: "schema_ok (w_db w)" "r \<in> set (wagers (w_db w))" "wg_provider_id r = Some (prin_ProviderID p)"
    "wg_idempotency_key r = Some (rq_IdempotencyKey rq)"
    using assms unfolding known_key_def by blast
  have same: "w_db w' = w_db w" if "Process E P background command md w = (x, w')" "cmd_ProviderID command = prin_ProviderID p"
    "cmd_IdempotencyKey command = rq_IdempotencyKey rq" for command md x w'
    using conjunct1 [OF Process_known_key [OF r(1,2) _ _ that(1)]] r(3,4) that(2,3) by simp
  have go: "w_db (snd (serve (Process E P background command md) (\<lambda>a. reply (h a, WagerBody (g a))) w)) = w_db w"
    if "cmd_ProviderID command = prin_ProviderID p" "cmd_IdempotencyKey command = rq_IdempotencyKey rq" for command md h g
  proof -
    obtain x v where x: "Process E P background command md w = (x, v)" by (metis surj_pair)
    show ?thesis using same [OF x that] by (cases x) (simp_all add: serve_def reply_def x)
  qed
  show ?thesis
    by (auto simp: WagerHandler_Create_def Some fail_def intro!: go)
qed

text \<open>What a message may change besides the inbox.\<close>

definition business :: "DB \<Rightarrow> wallet_row list \<times> wager_row list \<times> ledger_row list \<times> outbox_row list" where
  "business db = (wallets db, wagers db, ledger db, outbox db)"

lemma business_inbox:
  "insert_inbox r db = Inr (n, db') \<Longrightarrow> business db' = business db"
  "update_inbox m f db = Inr (n, db') \<Longrightarrow> business db' = business db"
  by (auto simp: insert_inbox_def update_inbox_def business_def apsnd_map_sum_Inr)

lemma handle_body_known_key:
  assumes "handle_body E P m h tx_context w = (Inr a, w')"
    "known_key (md_ProviderID (me_Data m)) (md_IdempotencyKey (me_Data m)) (w_db w)"
  shows "business (w_db w') = business (w_db w)"
proof -
  have reg: "business (w_db v) = business (w_db w) \<and> schema_ok (w_db v)"
    if "InboxRepository_Register E tx_context wagerConsumerName (me_MessageID m) h w = (y, v)" for y v
    using Register_effect [OF that] assms(2) business_inbox(1) insert_inbox_schema unfolding known_key_def by metis
  show ?thesis using assms(1)
  proof (cases rule: handle_body_Inr)
    case duplicate
    then show ?thesis using reg by blast
  next
    case (new v res v2 t v3)
    obtain req where q: "parseWagerRequest E (wagerMessageToCommand (me_Data m)) = Inr req"
      "process_body E P req (message_metadata m) tx_context v = (Inr res, v2)"
      using Process_nested_Inr [OF new(2)] .
    have c: "req_command req = wagerMessageToCommand (me_Data m)" using parseWagerRequest_InrD(1) [OF q(1)] .
    obtain r where r: "r \<in> set (wagers (w_db v))" "wg_provider_id r = Some (md_ProviderID (me_Data m))"
      "wg_idempotency_key r = Some (md_IdempotencyKey (me_Data m))"
      using reg [OF new(1)] assms(2) unfolding known_key_def business_def by auto
    have "w_db v2 = w_db v"
      using process_body_known_key(1) [OF q(2) _ r(1)] reg [OF new(1)] r(2,3) c by (simp add: wagerMessageToCommand_def)
    moreover have "w_db v3 = w_db v2" using Clock_Now_Inr [OF new(3)] by simp
    ultimately show ?thesis using business_inbox(2) [OF Complete_effect [OF new(4)]] reg [OF new(1)] by simp
  qed
qed

lemma Handle_known_key:
  assumes "parseWagerMessage body = Inr m"
    "known_key (md_ProviderID (me_Data m)) (md_IdempotencyKey (me_Data m)) (w_db w)"
  shows "business (w_db (snd (Handle E P allowed tid body w))) = business (w_db w)"
proof -
  obtain x v where t: "in_transaction E background (handle_body E P m (hashMessage body)) w = (x, v)" by (metis surj_pair)
  have "business (w_db v) = business (w_db w)"
  proof (cases x)
    case (Inl e)
    then show ?thesis using within_InlD [OF t [unfolded Inl]] handle_body_known_key assms(2) by metis
  next
    case (Inr a)
    show ?thesis using within_InrD [OF t [unfolded Inr]] handle_body_known_key assms(2) by metis
  qed
  then show ?thesis using assms(1) t by (auto simp: Handle_def throw_def bind_act_def ret_def split: sum.split)
qed

lemma request_known_key:
  assumes "known_key (cgr_ProviderID req) (rq_IdempotencyKey rq) (w_db w)" "rq_WagerBody rq = Some req"
  shows "w_db (snd (handle_request E P idToken PostWagers rq w)) = w_db w"
proof -
  obtain c w1 where c: "requestContext E rq w = (c, w1)" by (metis surj_pair)
  then have w1: "w_db w1 = w_db w" by (auto simp: requestContext_def split: if_splits)
  have "w_db (snd (dispatch E P c p PostWagers rq w1)) = w_db w" for p
  proof (cases "IsProvider p \<and> cgr_ProviderID req = prin_ProviderID p")
    case True
    then show ?thesis
      using create_known_key [of p rq w1 E P c] assms w1 by (simp add: dispatch_def RequireProvider_def)
  next
    case False
    then show ?thesis
      using w1 by (auto simp: dispatch_def RequireProvider_def WagerHandler_Create_def assms(2) fail_def)
  qed
  then show ?thesis
    using w1 by (auto simp: handle_request_def c split: prod.split sum.split dest: arg_cong [where f = "\<lambda>x. w_db (snd x)"])
qed

text \<open>
  C10: an operation takes effect once over both transports. Once a transaction of a
  provider is stored under an idempotency key, as \<open>accepted_key\<close> shows of every accepted command, then whatever the program does in between, a
  \<^verbatim>\<open>POST /wagering/transactions\<close> with that provider and key leaves the database as it is, whoever sends it, and
  a message with them leaves the wallets, the transactions, the ledger and the outbox as they are; only the inbox
  records the message.
\<close>

theorem once_across_transports:
  assumes "known_key p k (w_db w)" "(service_step E P)\<^sup>*\<^sup>* w w2"
    "rq_WagerBody rq = Some req" "cgr_ProviderID req = p" "rq_IdempotencyKey rq = k"
    "parseWagerMessage body = Inr m" "md_ProviderID (me_Data m) = p" "md_IdempotencyKey (me_Data m) = k"
  shows "w_db (snd (handle_request E P idToken PostWagers rq w2)) = w_db w2 \<and>
    business (w_db (snd (Handle E P allowed tid body w2))) = business (w_db w2)"
proof
  note k = known_key_stays [OF assms(1,2)]
  show "w_db (snd (handle_request E P idToken PostWagers rq w2)) = w_db w2"
    by (rule request_known_key [OF _ assms(3)]) (simp add: assms(4,5) k)
  show "business (w_db (snd (Handle E P allowed tid body w2))) = business (w_db w2)"
    by (rule Handle_known_key [OF assms(6)]) (simp add: assms(7,8) k)
qed

definition demo_wager_request :: Request where
  "demo_wager_request =
     \<lparr>rq_Authorization = ''Bearer t'', rq_CorrelationID = [], rq_IdempotencyKey = ''k1'', rq_limit = [], rq_cursor = [],
      rq_WalletBody = None,
      rq_WagerBody = Some \<lparr>cgr_ProviderID = ''prov'', cgr_ExternalTransactionID = ''e9'', cgr_PlayerID = ''9'',
        cgr_WalletID = ''7'', cgr_RoundID = ''r1'', cgr_GameID = ''g1'', cgr_Kind = ''BET'',
        cgr_Money = \<lparr>mr_Amount = ''10.00'', mr_Currency = ''BRL''\<rparr>, cgr_ReferenceExternalTransactionID = []\<rparr>\<rparr>"

definition demo_wager_message :: string where
  "demo_wager_message = json_text (JObject [(''messageId'', JString ''m9''), (''type'', JString ''WagerTransactionRequested''),
     (''occurredAt'', JString ''2024-01-01T00:00:00Z''),
     (''data'', JObject [(''providerId'', JString ''prov''), (''idempotencyKey'', JString ''k1'')])])"

lemma demo_wager_message_parsed:
  "case parseWagerMessage demo_wager_message of
     Inr m \<Rightarrow> md_ProviderID (me_Data m) = ''prov'' \<and> md_IdempotencyKey (me_Data m) = ''k1'' | _ \<Rightarrow> False"
  by code_simp

theorem once_across_transports_witness:
  "w_db (snd (handle_request demo_env DefaultReferenceRetryPolicy (\<lambda>t. None) PostWagers demo_wager_request demo_world)) = demo_db \<and>
   business (w_db (snd (Handle demo_env DefaultReferenceRetryPolicy [''prov''] ''t9'' demo_wager_message demo_world))) = business demo_db"
proof -
  obtain m where m: "parseWagerMessage demo_wager_message = Inr m" "md_ProviderID (me_Data m) = ''prov''"
    "md_IdempotencyKey (me_Data m) = ''k1''"
    using demo_wager_message_parsed by (cases "parseWagerMessage demo_wager_message") auto
  have "known_key ''prov'' ''k1'' (w_db demo_world)"
    unfolding known_key_def demo_db_simps using demo_db_schema demo_db_simps(2,4,5) by blast
  from once_across_transports [OF this rtranclp.rtrancl_refl _ _ _ m(1,2,3), where rq = demo_wager_request and req = "the (rq_WagerBody demo_wager_request)"]
  show ?thesis by (simp add: demo_wager_request_def)
qed

end
