(* ===== verification/Retry_Correctness.thy ===== *)
theory Retry_Correctness
  imports System
begin

text \<open>
  The retry of pending references: what each of its outcomes leaves in the database.
\<close>

section \<open>Final rows\<close>

text \<open>A transaction in the database that is in a final state stays as it is.\<close>

definition finished :: "uuid \<Rightarrow> WagerTransactionStatus \<Rightarrow> DB \<Rightarrow> bool" where
  "finished i s db \<longleftrightarrow> IsTerminal s \<and> (\<exists>r \<in> set (wagers db). wg_id r = i \<and> wg_status r = s)"

lemma finished_kept: "\<lbrakk>finished i s db; statements db db'\<rbrakk> \<Longrightarrow> finished i s db'"
proof -
  assume a: "finished i s db" "statements db db'"
  obtain r where r: "r \<in> set (wagers db)" "wg_id r = i" "wg_status r = s" "IsTerminal s"
    using a(1) unfolding finished_def by blast
  then obtain k where k: "k < length (wagers db)" "wagers db ! k = r" by (auto simp: in_set_conv_nth)
  have "extends same_wager (wagers db) (wagers db')" using statements_history [OF a(2)] by (simp add: history_def)
  then have "k < length (wagers db')" "same_wager r (wagers db' ! k)" using k by (auto simp: extends_nth)
  moreover have "wagers db' ! k = r" using calculation(2) r(3,4) by (simp add: same_wager_def)
  ultimately have "r \<in> set (wagers db')" using nth_mem [of k "wagers db'"] by simp
  then show ?thesis using r unfolding finished_def by blast
qed

lemma finished_after:
  "\<lbrakk>only_statements m; m w = (x, w'); finished i s (w_db w)\<rbrakk> \<Longrightarrow> finished i s (w_db w')"
  using finished_kept only_statementsD(1) by blast

lemma Update_finishes:
  assumes "WagerRepository_Update E ctx t w = (Inr (), w')" "IsTerminal (tx_status t)"
  shows "finished (tx_id t) (tx_status t) (w_db w')"
proof -
  obtain b a n where "wagerBalanceBefore E t = Inr b" "wagerBalanceAfter E t = Inr a"
    and u: "w_db w' = (w_db w)\<lparr>wagers := map (\<lambda>r. if wg_id r = tx_id t then wager_assign t b a r else r) (wagers (w_db w))\<rparr>"
    "update_wagers (\<lambda>r. wg_id r = tx_id t) (wager_assign t b a) (w_db w) = Inr (n, w_db w')" "n \<noteq> 0"
    using WagerRepository_Update_Inr [OF assms(1)] .
  then have "filter (\<lambda>r. wg_id r = tx_id t) (wagers (w_db w)) \<noteq> []" using update_wagers_1(2) [OF u(2)] by auto
  then obtain r where r: "r \<in> set (wagers (w_db w))" "wg_id r = tx_id t" by (auto simp: filter_empty_conv)
  have "wager_assign t b a r \<in> set (wagers (w_db w'))" unfolding u(1) using r by force
  moreover have "wg_id (wager_assign t b a r) = tx_id t \<and> wg_status (wager_assign t b a r) = tx_status t"
    using r(2) by (simp add: wager_assign_def)
  ultimately show ?thesis using assms(2) unfolding finished_def by blast
qed

text \<open>What \<open>reject\<close> and \<open>settle\<close> return is in the database, in a final state.\<close>

definition finishes :: "'d WagerTransaction act \<Rightarrow> 'd WagerTransaction \<Rightarrow> bool" where
  "finishes m t \<longleftrightarrow> (\<forall>w t' w'. m w = (Inr t', w') \<longrightarrow>
     finished (tx_id t) (tx_status t') (w_db w') \<and> tx_id t' = tx_id t \<and> tx_status t' \<in> {PROCESSED, REJECTED})"

lemma finishesD:
  "\<lbrakk>finishes m t; m w = (Inr t', w')\<rbrakk> \<Longrightarrow>
     finished (tx_id t) (tx_status t') (w_db w') \<and> tx_id t' = tx_id t \<and> tx_status t' \<in> {PROCESSED, REJECTED}"
  unfolding finishes_def by blast

lemma reject_finishes: "finishes (reject E ctx t rej md now) t"
  unfolding finishes_def
proof (intro allI impI)
  fix w t' w' assume "reject E ctx t rej md now w = (Inr t', w')"
  then obtain v where m: "MarkRejected t (rejection_code rej) (rejection_message rej) now = Inr t'"
    and u: "WagerRepository_Update E ctx t' w = (Inr (), v)" and e: "createRejectedEvent E ctx t' md now v = (Inr (), w')"
    by (auto simp: reject_def bind_act_Inr)
  have t: "tx_id t' = tx_id t" "tx_status t' = REJECTED"
    using completeWithFailure_InrD(1) [OF m [unfolded MarkRejected_def]] by simp_all
  have "finished (tx_id t') (tx_status t') (w_db v)" by (rule Update_finishes [OF u]) (simp add: t IsTerminal_def)
  from finished_after [OF effects_events(3) e this] show "finished (tx_id t) (tx_status t') (w_db w') \<and> tx_id t' = tx_id t \<and> tx_status t' \<in> {PROCESSED, REJECTED}"
    using t by simp
qed

context runtime
begin

lemma applyMovement_finishes: "finishes (applyMovement E ctx wal t md now) t"
  unfolding finishes_def
proof (intro allI impI)
  fix w t' w' assume a: "applyMovement E ctx wal t md now w = (Inr t', w')"
  have ok: "finished (tx_id t) (tx_status t') (w_db v) \<and> tx_id t' = tx_id t \<and> tx_status t' = PROCESSED"
    if "MarkProcessed (E_decimal E) t b b' now = Inr t'" "WagerRepository_Update E ctx t' u = (Inr (), v)" for b b' u v
    using MarkProcessed_InrD(1) [OF that(1)] Update_finishes [OF that(2)] by (simp add: IsTerminal_def)
  show "finished (tx_id t) (tx_status t') (w_db w') \<and> tx_id t' = tx_id t \<and> tx_status t' \<in> {PROCESSED, REJECTED}"
    using a
  proof (cases rule: applyMovement_Inr)
    case (none v)
    note d = ok [OF none(2,3)]
    show ?thesis using finished_after [OF effects_events(1) none(4) conjunct1 [OF d]] d by simp
  next
    case (rejected rej)
    then show ?thesis by (rule finishesD [OF reject_finishes])
  next
    case (moved dir wal' v1 v2 v3 v4 v5 i e)
    note d = ok [OF moved(3,5)]
    have "w_db v3 = w_db v2" using moved(6) by (simp add: uuid_New_Inr)
    then have "finished (tx_id t) (tx_status t') (w_db v3)" using conjunct1 [OF d] by (simp only:)
    note finished_after [OF effects_ledger(1) moved(8) this]
    note finished_after [OF effects_events(1) moved(9) this]
    note finished_after [OF effects_events(2) moved(10) this]
    then show ?thesis using d by simp
  qed
qed

lemma settle_finishes: "finishes (settle E ctx wal t md now) t"
  unfolding finishes_def
proof (intro allI impI)
  fix w t' w' assume a: "settle E ctx wal t md now w = (Inr t', w')"
  show "finished (tx_id t) (tx_status t') (w_db w') \<and> tx_id t' = tx_id t \<and> tx_status t' \<in> {PROCESSED, REJECTED}"
  proof (cases "RequiresReference (tx_type t)")
    case False
    then have "applyMovement E ctx wal t md now w = (Inr t', w')" using a by (simp add: settle_def)
    then show ?thesis by (rule finishesD [OF applyMovement_finishes])
  next
    case True
    obtain d v where "(if d then reject E ctx t \<lparr>rejection_code = FailureCodeDuplicateReversal,
       rejection_message = ''referenced transaction already has a successful direct reversal''\<rparr> md now
       else applyMovement E ctx wal t md now) v = (Inr t', w')"
      using a True by (auto simp: settle_def bind_act_Inr)
    then show ?thesis using finishesD [OF reject_finishes] finishesD [OF applyMovement_finishes] by (cases d) simp_all
  qed
qed

end

section \<open>A retry\<close>

text \<open>A row that is scheduled once more.\<close>

definition rescheduled :: "int \<Rightarrow> time \<Rightarrow> time \<Rightarrow> wager_row \<Rightarrow> wager_row" where
  "rescheduled n next clk r =
     r\<lparr>wg_reference_retry_count := n, wg_next_reference_attempt_at := Some next, wg_updated_at := clk\<rparr>"

lemma Schedule_effect:
  assumes "SchedulePendingReferenceRetry E ctx i n next w = (Inr u, w')"
  shows "\<exists>clk. w_db w' = (w_db w)\<lparr>wagers := map (\<lambda>r. if wg_id r = i \<and> wg_status r = PENDING_REFERENCE
    then rescheduled n next clk r else r) (wagers (w_db w))\<rparr>"
proof -
  obtain k where k: "request E ctx (\<lambda>now clk db. if 2 ^ 31 \<le> n \<or> n < - (2 ^ 31) then Inl (PgError ''22003'' [])
      else update_wagers (\<lambda>r. wg_id r = i \<and> wg_status r = PENDING_REFERENCE) (rescheduled n next clk) db) w = (Inr k, w')"
    using assms unfolding SchedulePendingReferenceRetry_def bind_act_Inr rescheduled_def by (auto split: if_splits)
  then have "update_wagers (\<lambda>r. wg_id r = i \<and> wg_status r = PENDING_REFERENCE) (rescheduled n next (E_clock E (w_step w))) (w_db w) =
      Inr (k, w_db w')"
    using request_Inr [OF k] by (auto split: if_splits)
  from update_wagers_1(1) [OF this] show ?thesis by blast
qed

text \<open>The outcome of a retry of the work of row \<open>r\<close>.\<close>

definition retried :: "'d Env \<Rightarrow> ReferenceRetryPolicy \<Rightarrow> wager_row \<Rightarrow> DB \<Rightarrow> WagerTransactionStatus \<Rightarrow> DB \<Rightarrow> bool" where
  "retried E P r db s db' \<longleftrightarrow>
     s \<in> {PROCESSED, REJECTED} \<and> finished (wg_id r) s db' \<or>
     s = PENDING_REFERENCE \<and> (\<exists>k clk expiresAt. wg_reference_expires_at r = Some expiresAt \<and> E_clock E k < expiresAt \<and>
       db' = db\<lparr>wagers := map (\<lambda>x. if wg_id x = wg_id r \<and> wg_status x = PENDING_REFERENCE
         then rescheduled (wg_reference_retry_count r + 1)
           (policy_nextAttemptAt P (E_clock E k) expiresAt (2 + wg_reference_retry_count r)) clk x else x) (wagers db)\<rparr>)"

context runtime
begin

lemma retryPendingReference_outcome:
  assumes "retryPendingReference E P ctx work w = (Inr t', w')" "tx_id (work_Transaction work) = wg_id r"
    "tx_status (work_Transaction work) = PENDING_REFERENCE"
    "work_RetryCount work = wg_reference_retry_count r" "wg_reference_expires_at r = Some (work_ExpiresAt work)"
  shows "tx_id t' = wg_id r \<and> retried E P r (w_db w) (tx_status t') (w_db w')"
proof -
  let ?t = "work_Transaction work" and ?md = "work_Metadata work"
  obtain wal v1 now v2 where l: "lockWallet E ctx ?t w = (Inr wal, v1)" and c: "Clock_Now E ctx v1 = (Inr now, v2)"
    and k: "(if \<not> now < work_ExpiresAt work then reject E ctx ?t \<lparr>rejection_code = FailureCodeReferenceNotFound,
                 rejection_message = ''referenced transaction was not processed before expiration''\<rparr> ?md now
         else bind_act (resolveReference E ctx ?t now) (\<lambda>outcome.
              case outcome of
                Rejection r \<Rightarrow> reject E ctx ?t r ?md now
              | NotAvailable \<Rightarrow>
                  (let retryCount = work_RetryCount work + 1
                   in bind_act (SchedulePendingReferenceRetry E ctx (tx_id ?t) retryCount
                        (policy_nextAttemptAt P now (work_ExpiresAt work) (retryCount + 1))) (\<lambda>_. ret ?t))
              | Available t \<Rightarrow> settle E ctx wal t ?md now)) v2 = (Inr t', w')"
    using assms(1) unfolding retryPendingReference_def Let_def bind_act_Inr by blast
  have db: "w_db v2 = w_db w" and now: "now = E_clock E (w_step v1)"
    using Clock_Now_Inr [OF c] lockWallet_Inr(2) [OF l] by simp_all
  have fin: "tx_id t' = wg_id r \<and> retried E P r (w_db w) (tx_status t') (w_db w')"
    if "finishes m t" "m v = (Inr t', w')" "tx_id t = tx_id ?t" for m v t
    using finishesD [OF that(1,2)] that(3) assms(2) unfolding retried_def by simp
  show ?thesis
  proof (cases "now < work_ExpiresAt work")
    case False
    then show ?thesis using k fin [OF reject_finishes] by simp
  next
    case True
    obtain out v where o: "resolveReference E ctx ?t now v2 = (Inr out, v)"
      and k': "(case out of Rejection r \<Rightarrow> reject E ctx ?t r ?md now
              | NotAvailable \<Rightarrow> bind_act (SchedulePendingReferenceRetry E ctx (tx_id ?t) (work_RetryCount work + 1)
                        (policy_nextAttemptAt P now (work_ExpiresAt work) (2 + work_RetryCount work))) (\<lambda>_. ret ?t)
              | Available t \<Rightarrow> settle E ctx wal t ?md now) v = (Inr t', w')"
      using k True by (auto simp: bind_act_Inr Let_def)
    show ?thesis
    proof (cases out)
      case (Rejection x)
      then show ?thesis using k' fin [OF reject_finishes] by simp
    next
      case (Available t1)
      obtain ref where "ResolveReference (E_decimal E) ?t (Some ref) now = Inr t1"
        using resolveReference_Inr(2) [OF o Available] by blast
      then have "tx_id t1 = tx_id ?t" using ResolveReference_InrD by fastforce
      then show ?thesis using k' Available fin [OF settle_finishes] by simp
    next
      case NotAvailable
      then have "SchedulePendingReferenceRetry E ctx (tx_id ?t) (work_RetryCount work + 1)
          (policy_nextAttemptAt P now (work_ExpiresAt work) (2 + work_RetryCount work)) v = (Inr (), w')" "t' = ?t"
        using k' by (auto simp: bind_act_Inr)
      moreover from Schedule_effect [OF this(1)] obtain clk where
        "w_db w' = (w_db v)\<lparr>wagers := map (\<lambda>x. if wg_id x = tx_id ?t \<and> wg_status x = PENDING_REFERENCE
          then rescheduled (work_RetryCount work + 1) (policy_nextAttemptAt P now (work_ExpiresAt work) (2 + work_RetryCount work)) clk x
          else x) (wagers (w_db v))\<rparr>" by blast
      then have "retried E P r (w_db w) PENDING_REFERENCE (w_db w')" unfolding retried_def
        by (intro disjI2 conjI [OF refl] exI [of _ "w_step v1"] exI [of _ clk] exI [of _ "work_ExpiresAt work"])
          (use True in \<open>simp add: assms(2,4,5) now db resolveReference_Inr(1) [OF o]\<close>)
      ultimately show ?thesis using assms(2,3) by simp
    qed
  qed
qed

text \<open>The work that is claimed is the pending reference that is due first.\<close>

lemma FindDue_Inr:
  assumes "FindDuePendingReferenceForUpdate E ctx now w = (Inr work, w')" "db_inv E (w_db w)"
  obtains r rs where "due_rows now (w_db w) = r # rs" "tx_id (work_Transaction work) = wg_id r"
    "tx_status (work_Transaction work) = PENDING_REFERENCE" "work_RetryCount work = wg_reference_retry_count r"
    "wg_reference_expires_at r = Some (work_ExpiresAt work)" "w_db w' = w_db w"
proof -
  let ?q = "\<lambda>db. case due_rows now db of [] \<Rightarrow> None | r # _ \<Rightarrow> Some r"
  obtain r v where q: "query_row E ctx ?q w = (Inr r, v)"
    and f: "WagerRepository_FindByID E ctx (wg_id r) v = (Inr (work_Transaction work), w')"
    and e: "wg_reference_expires_at r = Some (work_ExpiresAt work)" "work_RetryCount work = wg_reference_retry_count r"
    using assms(1) unfolding FindDuePendingReferenceForUpdate_def scanPendingReferenceWork_def match_act_Inr
    by (auto simp: bind_act_Inr split: option.splits)
  have v: "w_db v = w_db w" using query_row_db [OF q] .
  obtain rs where rs: "due_rows now (w_db w) = r # rs"
    using query_row_Inr [OF q] by (auto split: list.splits)
  have "r \<in> set (due_rows now (w_db w))" using rs by simp
  then have r: "r \<in> set (wagers (w_db w))" "wg_status r = PENDING_REFERENCE" by (simp_all add: due_rows_def)
  obtain x where x: "x \<in> set (wagers (w_db v))" "scanWager E x = Inr (work_Transaction work)" "wg_id x = wg_id r"
    "w' = v\<lparr>w_step := Suc (w_step v)\<rparr>"
    using WagerRepository_FindByID_Inr [OF f] by metis
  have "x = r" using schema_wager_unique [of "w_db w" x r] assms(2) x(1,3) r(1) v by (simp add: db_inv_def)
  then show thesis using that [OF rs] representsD [OF scanWager_InrD(1) [OF x(2)]] r(2) e v x(4) by simp
qed

end

section \<open>Errors of a retry\<close>

text \<open>The reply to some request is lost, so a transaction may be carried out although its caller sees an error.\<close>

definition reply_lost :: "'d Env \<Rightarrow> bool" where
  "reply_lost E \<longleftrightarrow> (\<exists>k i. E_reply E k = LostReply i)"

text \<open>What the captured variable holds after the attempts of a transaction.\<close>

lemma run_tx_captured:
  assumes "\<And>v c x c' v'. \<lbrakk>w_db v = w_db w; Q c; fn tx_context c v = ((x, c'), v')\<rbrakk> \<Longrightarrow> Q c'"
    and "run_tx E fn c w = ((r, c'), w')" "Q c"
  shows "Q c'"
proof -
  obtain b v where b: "begin_tx E w = (b, v)" by (metis surj_pair)
  show ?thesis
  proof (cases b)
    case (Inl e)
    then show ?thesis using assms(2,3) b by (simp add: run_tx_def)
  next
    case (Inr u)
    obtain x d v2 where f: "fn tx_context c v = ((x, d), v2)" by (metis surj_pair)
    have "c' = d" using assms(2) b Inr f by (auto simp: run_tx_def split: sum.splits prod.splits option.splits)
    then show ?thesis using assms(1) [OF begin_tx_db [OF b] assms(3) f] by simp
  qed
qed

lemma tx_attempts_captured:
  "\<lbrakk>tx_attempts n E fn c w = ((r, c'), w'); Q c;
    \<And>v c x c' v'. \<lbrakk>w_db v = w_db w; Q c; fn tx_context c v = ((x, c'), v')\<rbrakk> \<Longrightarrow> Q c'\<rbrakk> \<Longrightarrow> Q c'"
proof (induction n E fn c w rule: tx_attempts.induct)
  case (1 left E fn c w)
  obtain s c1 v1 where run: "run_tx E fn c w = ((s, c1), v1)" by (metis surj_pair)
  have q: "Q c1" using run_tx_captured [of w Q fn, OF "1.prems"(3) run "1.prems"(2)] .
  show ?case
  proof (cases "\<exists>e. s = Inl e \<and> isRetryableConflict e \<and> \<not> left \<le> 1 \<and> fst (waitRetry E v1)")
    case True
    then obtain e where e: "s = Inl e" "isRetryableConflict e" "\<not> left \<le> 1" "fst (waitRetry E v1)" by blast
    obtain v2 where w2: "waitRetry E v1 = (True, v2)" using e(4) by (cases "waitRetry E v1") auto
    have db: "w_db v2 = w_db w"
      using w2 run_tx_retryable [OF run [unfolded e(1)] e(2)] by (auto simp: waitRetry_def)
    have t: "tx_attempts (left - 1) E fn c1 v2 = ((r, c'), w')"
      using "1.prems"(1) run e w2 by (simp add: tx_attempts.simps [of left])
    show ?thesis
    proof (rule "1.IH" [OF run [symmetric] refl e(1) _ w2 [symmetric] refl t q])
      show "\<not> (\<not> isRetryableConflict e \<or> left \<le> 1)" using e(2,3) by simp
      show "Q c'" if "w_db v = w_db v2" "Q c" "fn tx_context c v = ((x, c'), v')" for v c x c' v'
        by (rule "1.prems"(3) [OF _ that(2,3)]) (simp only: that(1) db)
    qed
  next
    case False
    then have "c' = c1"
      using "1.prems"(1) run
      by (cases s) (auto simp: tx_attempts.simps [of left] waitRetry_def split: if_splits prod.splits bool.splits)
    then show ?thesis using q by simp
  qed
qed

lemma WithinTransaction_captured:
  assumes "WithinTransaction E background fn c w = ((r, c'), w')" "Q c"
    "\<And>v c x c' v'. \<lbrakk>w_db v = w_db w; Q c; fn tx_context c v = ((x, c'), v')\<rbrakk> \<Longrightarrow> Q c'"
  shows "Q c'"
proof -
  obtain s where "tx_attempts maxTransactionAttempts E fn c w = ((s, c'), w')"
    using assms(1) by (auto simp: WithinTransaction_def split: prod.splits sum.splits)
  from tx_attempts_captured [of _ E fn c w s c' w' Q, OF this assms(2,3)] show ?thesis .
qed

context runtime
begin

text \<open>A transaction that is marked failed is in the database in that state.\<close>

lemma fail_body_outcome:
  assumes "fail_body E i ctx w = (Inr x, w')"
  shows "case x of None \<Rightarrow> w_db w' = w_db w
    | Some t \<Rightarrow> tx_id t = i \<and> tx_status t = FAILED \<and> finished i FAILED (w_db w')"
proof (cases x)
  case None
  then obtain e where "FindPendingReferenceForUpdate E ctx i w = (Inl e, w')"
    using assms unfolding fail_body_def match_act_Inr bind_act_Inr by (auto split: if_splits)
  from scanPendingReferenceWork_db [OF this [unfolded FindPendingReferenceForUpdate_def] query_row_db] None
  show ?thesis by simp
next
  case (Some t)
  then obtain work v now u where f: "FindPendingReferenceForUpdate E ctx i w = (Inr work, v)"
      and m: "MarkFailed (work_Transaction work) FailureCodeProcessingFailed
         ''transaction could not be processed; see service logs'' now = Inr t"
      and u: "WagerRepository_Update E ctx t u = (Inr (), w')"
    using assms unfolding fail_body_def match_act_Inr bind_act_Inr by (auto split: if_splits)
  obtain r v1 where q: "query_row E ctx (\<lambda>db. find (\<lambda>r. wg_id r = i \<and> wg_status r = PENDING_REFERENCE) (wagers db)) w = (Inr r, v1)"
    and g: "WagerRepository_FindByID E ctx (wg_id r) v1 = (Inr (work_Transaction work), v)"
    using f unfolding FindPendingReferenceForUpdate_def scanPendingReferenceWork_def match_act_Inr
    by (auto simp: bind_act_Inr split: option.splits)
  have "wg_id r = i" using in_set_find [OF conjunct1 [OF query_row_Inr [OF q]]] by simp
  moreover obtain y where "scanWager E y = Inr (work_Transaction work)" "wg_id y = wg_id r"
    using WagerRepository_FindByID_Inr [OF g] by metis
  ultimately have "tx_id (work_Transaction work) = i" using representsD scanWager_InrD(1) by metis
  then have "tx_id t = i \<and> tx_status t = FAILED" using completeWithFailure_InrD(1) [OF m [unfolded MarkFailed_def]] by simp
  then show ?thesis using Update_finishes [OF u] Some by (simp add: IsTerminal_def)
qed

lemma failPendingReference_outcome:
  assumes "failPendingReference E background i w = (x, w')"
  shows "case x of Inr (Some t) \<Rightarrow> tx_id t = i \<and> tx_status t = FAILED \<and> finished i FAILED (w_db w')
    | _ \<Rightarrow> w_db w' = w_db w \<or> reply_lost E"
proof (cases x)
  case (Inl e)
  then show ?thesis
    using within_InlD [of E "fail_body E i" w e w'] assms unfolding failPendingReference_def reply_lost_def by auto
next
  case (Inr y)
  then obtain v v' where v: "w_db v = w_db w" "fail_body E i tx_context v = (Inr y, v')" "w_db w' = w_db v'"
    using within_InrD [of E "fail_body E i" w y w'] assms unfolding failPendingReference_def by metis
  show ?thesis using fail_body_outcome [OF v(2)] v(1,3) Inr by (auto split: option.splits)
qed

lemma retry_body_captured:
  assumes "retry_body E P ctx c v = ((x, Some t), v')" "db_inv E (w_db v)"
  shows "\<exists>k r rs. due_rows (E_clock E k) (w_db v) = r # rs \<and> tx_id t = wg_id r"
proof -
  obtain now w1 work w2 y where s: "Clock_Now E ctx v = (Inr now, w1)"
    "FindDuePendingReferenceForUpdate E ctx now w1 = (Inr work, w2)"
    "retryPendingReference E P ctx work w2 = (y, v')" "case y of Inl e \<Rightarrow> t = work_Transaction work | Inr t' \<Rightarrow> t = t'"
    using assms(1) unfolding retry_body_def by (auto split: prod.splits sum.splits if_splits)
  have w1: "w_db w1 = w_db v" and n: "now = E_clock E (w_step v)" using Clock_Now_Inr [OF s(1)] by simp_all
  obtain r rs where r: "due_rows now (w_db w1) = r # rs" "tx_id (work_Transaction work) = wg_id r"
    "tx_status (work_Transaction work) = PENDING_REFERENCE" "work_RetryCount work = wg_reference_retry_count r"
    "wg_reference_expires_at r = Some (work_ExpiresAt work)" "w_db w2 = w_db w1"
    using FindDue_Inr [OF s(2)] assms(2) w1 by metis
  have "tx_id t = wg_id r"
  proof (cases y)
    case (Inr t')
    then show ?thesis using retryPendingReference_outcome [OF s(3) [unfolded Inr] r(2-5)] s(4) by simp
  qed (use s(4) r(2) in simp)
  moreover have "due_rows (E_clock E (w_step v)) (w_db v) = r # rs" using r(1) w1 n by simp
  ultimately show ?thesis by blast
qed

text \<open>When nothing is found, nothing is due.\<close>

lemma query_row_Inl:
  assumes "query_row E ctx q w = (Inl e, w')" "q (w_db w) \<noteq> None"
  shows "\<exists>i. e = InfraErr i \<and> i \<noteq> ErrNoRows"
proof -
  have "fail_error i \<noteq> ErrNoRows" "lost_error i \<noteq> ErrNoRows" for i by (cases i; simp)+
  then have "query E ctx q w = (Inl e', v) \<Longrightarrow> \<exists>i. e' = InfraErr i \<and> i \<noteq> ErrNoRows" for e' v
    by (auto simp: query_def request_def Let_def split: if_splits reply.splits)
  moreover have "query E ctx q w = (Inr a, v) \<Longrightarrow> a \<noteq> None" for a v using query_Inr assms(2) by metis
  ultimately show ?thesis
    using assms(1) by (auto simp: query_row_def bind_act_def ret_def split: prod.splits sum.splits option.splits)
qed

lemma FindByID_known:
  assumes "WagerRepository_FindByID E ctx i w = (Inl e, w')" "rows_ok E (w_db w)" "r \<in> set (wagers (w_db w))" "wg_id r = i"
  shows "\<not> errors_Is e (AppErr ErrNotFound)"
proof -
  let ?q = "\<lambda>db. find (\<lambda>r. wg_id r = i) (wagers db)"
  obtain x where x: "?q (w_db w) = Some x" using assms(3,4) by (cases "?q (w_db w)") (auto simp: find_None_iff)
  then have "x \<in> set (wagers (w_db w))" using in_set_find by metis
  then obtain t where t: "scanWager E x = Inr t" using assms(2) by (auto simp: rows_ok_def)
  obtain a v where a: "query_row E ctx ?q w = (a, v)" by (metis surj_pair)
  show ?thesis
  proof (cases a)
    case (Inl e')
    from query_row_Inl [OF a [unfolded Inl]] x obtain k where "e' = InfraErr k" "k \<noteq> ErrNoRows" by auto
    then show ?thesis using assms(1) a Inl by (simp add: WagerRepository_FindByID_def scan_row_def match_act_def not_found_def)
  next
    case (Inr y)
    then have "y = x" using query_row_Inr [OF a [unfolded Inr]] x by simp
    then show ?thesis using assms(1) a Inr t by (simp add: WagerRepository_FindByID_def scan_row_def match_act_def)
  qed
qed

lemma FindDue_none:
  assumes "FindDuePendingReferenceForUpdate E ctx now w = (Inl e, w')" "errors_Is e (AppErr ErrNotFound)" "rows_ok E (w_db w)"
  shows "due_rows now (w_db w) = []"
proof (rule ccontr)
  let ?q = "\<lambda>db. case due_rows now db of [] \<Rightarrow> None | r # _ \<Rightarrow> Some r"
  assume "due_rows now (w_db w) \<noteq> []"
  then obtain r rs where r: "due_rows now (w_db w) = r # rs" by (cases "due_rows now (w_db w)") auto
  then have "r \<in> set (due_rows now (w_db w))" by simp
  then have in_db: "r \<in> set (wagers (w_db w))" by (simp add: due_rows_def)
  obtain a v where a: "query_row E ctx ?q w = (a, v)" by (metis surj_pair)
  show False
  proof (cases a)
    case (Inl e')
    from query_row_Inl [OF a [unfolded Inl]] r obtain k where "e' = InfraErr k" "k \<noteq> ErrNoRows" by auto
    then show False using assms(1,2) a Inl
      by (simp add: FindDuePendingReferenceForUpdate_def scanPendingReferenceWork_def match_act_def not_found_def)
  next
    case (Inr y)
    then have y: "y = r" "w_db v = w_db w" using query_row_Inr [OF a [unfolded Inr]] r by simp_all
    show False
    proof (cases "wg_reference_expires_at r")
      case None
      then show False using assms(1,2) a Inr y
        by (simp add: FindDuePendingReferenceForUpdate_def scanPendingReferenceWork_def match_act_def)
    next
      case (Some t)
      then have "WagerRepository_FindByID E ctx (wg_id r) v = (Inl e, w')" using assms(1) a Inr y
        by (auto simp: FindDuePendingReferenceForUpdate_def scanPendingReferenceWork_def match_act_def bind_act_def
            split: prod.splits sum.splits)
      then show False using FindByID_known assms(2,3) in_db y(2) by metis
    qed
  qed
qed

end

context runtime
begin

lemma retry_success:
  assumes "db_inv E (w_db w)" "RetryNextPendingReference E P background w = ((Some retry, None), w')"
  shows "\<exists>k r rs. due_rows (E_clock E k) (w_db w) = r # rs \<and> prr_TransactionID retry = wg_id r \<and>
    retried E P r (w_db w) (prr_Status retry) (w_db w')"
proof -
  obtain a claimed where W: "WithinTransaction E background (retry_body E P) None w = ((Inr a, Some claimed), w')"
    and c: "retry = pendingReferenceRetry claimed"
    using assms(2) unfolding RetryNextPendingReference_def by (auto simp: Let_def split: prod.splits sum.splits option.splits if_splits)
  obtain v v' c0 where v: "w_db v = w_db w" "retry_body E P tx_context c0 v = ((Inr a, Some claimed), v')" "w_db w' = w_db v'"
    using WithinTransaction_InrD [OF W] .
  obtain now w1 work w2 where s: "Clock_Now E tx_context v = (Inr now, w1)"
    "FindDuePendingReferenceForUpdate E tx_context now w1 = (Inr work, w2)"
    "retryPendingReference E P tx_context work w2 = (Inr claimed, v')"
    using v(2) unfolding retry_body_def by (auto split: prod.splits sum.splits if_splits)
  have w1: "w_db w1 = w_db w" and n: "now = E_clock E (w_step v)" using Clock_Now_Inr [OF s(1)] v(1) by simp_all
  obtain r rs where r: "due_rows now (w_db w1) = r # rs" "tx_id (work_Transaction work) = wg_id r"
    "tx_status (work_Transaction work) = PENDING_REFERENCE" "work_RetryCount work = wg_reference_retry_count r"
    "wg_reference_expires_at r = Some (work_ExpiresAt work)" "w_db w2 = w_db w1"
    using FindDue_Inr [OF s(2)] assms(1) w1 by metis
  have "tx_id claimed = wg_id r \<and> retried E P r (w_db w2) (tx_status claimed) (w_db v')"
    by (rule retryPendingReference_outcome [OF s(3) r(2-5)])
  then have "prr_TransactionID retry = wg_id r \<and> retried E P r (w_db w) (prr_Status retry) (w_db w')"
    using r(6) w1 v(3) c by (simp add: pendingReferenceRetry_def)
  moreover have "due_rows (E_clock E (w_step v)) (w_db w) = r # rs" using r(1) w1 n by simp
  ultimately show ?thesis by blast
qed

lemma retry_none:
  assumes "db_inv E (w_db w)" "RetryNextPendingReference E P background w = ((None, err), w')"
  shows "if err = None then w_db w' = w_db w \<and> (\<exists>k. due_rows (E_clock E k) (w_db w) = [])
    else w_db w' = w_db w \<or> reply_lost E"
proof -
  obtain x where W: "WithinTransaction E background (retry_body E P) None w = ((x, None), w')"
    and x: "err = (case x of Inl e \<Rightarrow> Some e | Inr _ \<Rightarrow> None)"
    using assms(2) unfolding RetryNextPendingReference_def by (auto simp: Let_def split: prod.splits sum.splits option.splits if_splits)
  show ?thesis
  proof (cases x)
    case (Inl e)
    then show ?thesis using WithinTransaction_InlD [OF W [unfolded Inl]] x unfolding reply_lost_def by auto
  next
    case (Inr u)
    obtain v v' c0 where v: "w_db v = w_db w" "retry_body E P tx_context c0 v = ((Inr u, None), v')" "w_db w' = w_db v'"
      using WithinTransaction_InrD [OF W [unfolded Inr]] .
    obtain now w1 e where s: "Clock_Now E tx_context v = (Inr now, w1)"
      "FindDuePendingReferenceForUpdate E tx_context now w1 = (Inl e, v')" "errors_Is e (AppErr ErrNotFound)"
      using v(2) unfolding retry_body_def by (auto split: prod.splits sum.splits if_splits)
    have w1: "w_db w1 = w_db w" and n: "now = E_clock E (w_step v)" using Clock_Now_Inr [OF s(1)] v(1) by simp_all
    have "w_db v' = w_db w1"
      by (rule scanPendingReferenceWork_db [OF s(2) [unfolded FindDuePendingReferenceForUpdate_def] query_row_db])
    moreover have "due_rows now (w_db w1) = []" using FindDue_none [OF s(2,3)] assms(1) w1 by (simp add: db_inv_def)
    ultimately have "w_db w' = w_db w" "due_rows (E_clock E (w_step v)) (w_db w) = []" using w1 n v(3) by simp_all
    then show ?thesis using x Inr by auto
  qed
qed

lemma retry_failure:
  assumes "db_inv E (w_db w)" "RetryNextPendingReference E P background w = ((Some retry, Some e), w')"
  shows "\<exists>k r rs. due_rows (E_clock E k) (w_db w) = r # rs \<and> prr_TransactionID retry = wg_id r \<and>
    (prr_Status retry = FAILED \<and> finished (wg_id r) FAILED (w_db w') \<or>
     prr_Status retry = PENDING_REFERENCE \<and> (w_db w' = w_db w \<or> reply_lost E))"
proof -
  obtain e0 claimed w1 where W: "WithinTransaction E background (retry_body E P) None w = ((Inl e0, Some claimed), w1)"
    using assms(2) unfolding RetryNextPendingReference_def by (auto simp: Let_def split: prod.splits sum.splits option.splits)
  let ?w2 = "w1\<lparr>w_step := Suc (w_step w1)\<rparr>"
  have db1: "w_db w1 = w_db w \<or> reply_lost E" using WithinTransaction_InlD [OF W] unfolding reply_lost_def by auto
  have "Some claimed = None \<or> (\<exists>t k r rs. Some claimed = Some t \<and> due_rows (E_clock E k) (w_db w) = r # rs \<and> tx_id t = wg_id r)"
  proof (rule WithinTransaction_captured [OF W])
    fix v c x c' v'
    assume v: "w_db v = w_db w" "retry_body E P tx_context c v = ((x, c'), v')"
    show "c' = None \<or> (\<exists>t k r rs. c' = Some t \<and> due_rows (E_clock E k) (w_db w) = r # rs \<and> tx_id t = wg_id r)"
      using retry_body_captured [of P tx_context c v x] v assms(1) by (cases c') auto
  qed simp
  then obtain k r rs where r: "due_rows (E_clock E k) (w_db w) = r # rs" "tx_id claimed = wg_id r" by auto
  obtain y w3 where f: "failPendingReference E background (tx_id claimed) ?w2 = (y, w3)" by (metis surj_pair)
  have "prr_TransactionID retry = wg_id r \<and> (prr_Status retry = FAILED \<and> finished (wg_id r) FAILED (w_db w') \<or>
     prr_Status retry = PENDING_REFERENCE \<and> (w_db w' = w_db w \<or> reply_lost E))"
  proof (cases "E_ctx_done E (w_step w1) \<or> IsTransient e0")
    case True
    then show ?thesis using assms(2) W r(2) db1 by (auto simp: RetryNextPendingReference_def Let_def)
  next
    case False
    then show ?thesis
      using assms(2) W f r(2) db1 failPendingReference_outcome [OF f]
      by (auto simp: RetryNextPendingReference_def Let_def pendingReferenceRetry_def split: sum.splits option.splits)
  qed
  then show ?thesis using r(1) by blast
qed

end

text \<open>
  C22: every outcome of a retry. When it says that nothing is pending, nothing is due and nothing changed.
  When it names a transaction, that is the pending reference that was due first. Without an error it is now in a final
  state, or scheduled once more: only before its expiration by the clock of the database, with one more attempt counted, the next one as the policy
  says, and nothing else changed. With an error it is stored as failed, or still pending with nothing changed, unless
  the reply to a request was lost.
\<close>

theorem retry_outcome:
  assumes "runtime E val" "db_inv E (w_db w)" "RetryNextPendingReference E P background w = ((answer, err), w')"
  shows "case answer of
     None \<Rightarrow>
       (if err = None then w_db w' = w_db w \<and> (\<exists>k. due_rows (E_clock E k) (w_db w) = [])
        else w_db w' = w_db w \<or> reply_lost E)
   | Some retry \<Rightarrow> \<exists>k r rs. due_rows (E_clock E k) (w_db w) = r # rs \<and> prr_TransactionID retry = wg_id r \<and>
       (if err = None then retried E P r (w_db w) (prr_Status retry) (w_db w')
        else prr_Status retry = FAILED \<and> finished (wg_id r) FAILED (w_db w') \<or>
             prr_Status retry = PENDING_REFERENCE \<and> (w_db w' = w_db w \<or> reply_lost E))"
proof (cases answer)
  case None
  then show ?thesis using runtime.retry_none [OF assms(1,2) assms(3) [unfolded None]] by simp
next
  case (Some retry)
  show ?thesis
  proof (cases err)
    case None
    then show ?thesis using runtime.retry_success [OF assms(1,2) assms(3) [unfolded Some None]] Some by simp
  next
    case e: (Some e)
    then show ?thesis using runtime.retry_failure [OF assms(1,2) assms(3) [unfolded Some e]] Some by simp
  qed
qed

definition demo_pending_row :: wager_row where
  "demo_pending_row =
     demo_bet_row\<lparr>wg_id := 22, wg_external_transaction_id := Some ''e2'', wg_idempotency_key := Some ''k2'',
      wg_type := REFUND, wg_status := PENDING_REFERENCE, wg_balance_before := None, wg_balance_after := None,
      wg_completed_at := None, wg_reference_external_transaction_id := Some ''e7'', 
      wg_next_reference_attempt_at := Some 3000, wg_reference_expires_at := Some 900000, wg_created_at := 2000,
      wg_updated_at := 2000, wg_reference_correlation_id := Some ''c''\<rparr>"

definition demo_pending_world :: World where
  "demo_pending_world = demo_world\<lparr>w_db := demo_db\<lparr>wagers := wagers demo_db @ [demo_pending_row]\<rparr>\<rparr>"

lemma demo_pending_schema: "schema_ok (w_db demo_pending_world)"
  by code_simp

lemma demo_pending_inv: "db_inv demo_env (w_db demo_pending_world)"
proof -
  have "list_all (\<lambda>r. \<not> isl (scanWallet demo_env r)) (wallets (w_db demo_pending_world))"
    "list_all (\<lambda>r. \<not> isl (scanWager demo_env r)) (wagers (w_db demo_pending_world))"
    by code_simp+
  then have "rows_ok demo_env (w_db demo_pending_world)" by (auto simp: rows_ok_def list_all_iff dest!: not_isl_Inr)
  moreover have "ledger_inv (w_db demo_pending_world)" "movement_inv (w_db demo_pending_world)" by code_simp+
  ultimately show ?thesis using demo_pending_schema by (simp add: db_inv_def)
qed

lemma demo_retry:
  "fst (RetryNextPendingReference demo_env DefaultReferenceRetryPolicy background demo_pending_world) =
     (Some \<lparr>prr_TransactionID = 22, prr_Kind = REFUND, prr_Status = PENDING_REFERENCE, prr_FailureCode = []\<rparr>, None)"
  by code_simp

lemma demo_retry_run:
  "\<exists>w'. RetryNextPendingReference demo_env DefaultReferenceRetryPolicy background demo_pending_world =
     ((Some \<lparr>prr_TransactionID = 22, prr_Kind = REFUND, prr_Status = PENDING_REFERENCE, prr_FailureCode = []\<rparr>, None), w')"
  using demo_retry by (metis fst_conv surj_pair)

theorem retry_outcome_witness:
  "\<exists>k r rs (w' :: World). due_rows (E_clock demo_env k) (w_db demo_pending_world) = r # rs \<and> wg_id r = 22 \<and>
     retried demo_env DefaultReferenceRetryPolicy r (w_db demo_pending_world) PENDING_REFERENCE (w_db w')"
proof -
  obtain w' where w': "RetryNextPendingReference demo_env DefaultReferenceRetryPolicy background demo_pending_world =
     ((Some \<lparr>prr_TransactionID = 22, prr_Kind = REFUND, prr_Status = PENDING_REFERENCE, prr_FailureCode = []\<rparr>, None), w')"
    using demo_retry_run by blast
  obtain k r rs where r: "due_rows (E_clock demo_env k) (w_db demo_pending_world) = r # rs" "22 = wg_id r"
    "retried demo_env DefaultReferenceRetryPolicy r (w_db demo_pending_world) PENDING_REFERENCE (w_db w')"
    using retry_outcome [OF demo.runtime_axioms demo_pending_inv w'] by auto
  have "wg_id r = 22" using r(2) by simp
  then show ?thesis using r(1,3) by blast
qed

end
