(* ===== verification/Observability.thy ===== *)
theory Observability
  imports Go_Float Worker Wallet_Service Consumer_Correctness
begin

text \<open>
  The operational metrics: \<^verbatim>\<open>observability/metrics.go\<close> and the operations that record them. A counter is
  how often it was incremented for its labels; a histogram is the list of what it observed, which the library
  sorts into buckets. The pointer \<^verbatim>\<open>*Metrics\<close> is an option, \<open>None\<close> when it is nil.
\<close>

section \<open>Counters\<close>

record Metrics =
  wagerOutcomes :: "string \<times> string \<times> string \<Rightarrow> nat"
  idempotentReplays :: "string \<Rightarrow> nat"
  conflicts :: "string \<Rightarrow> nat"
  processingDuration :: "string \<Rightarrow> double list"
  transactionRetries :: "string \<Rightarrow> nat"
  sqsMessages :: "string \<Rightarrow> nat"
  outboxPublications :: "string \<Rightarrow> nat"
  reconciliationDivergences :: nat

definition NewMetrics :: Metrics where
  "NewMetrics =
     \<lparr>wagerOutcomes = (\<lambda>_. 0), idempotentReplays = (\<lambda>_. 0), conflicts = (\<lambda>_. 0), processingDuration = (\<lambda>_. []),
      transactionRetries = (\<lambda>_. 0), sqsMessages = (\<lambda>_. 0), outboxPublications = (\<lambda>_. 0),
      reconciliationDivergences = 0\<rparr>"

definition Inc :: "'l \<Rightarrow> ('l \<Rightarrow> nat) \<Rightarrow> 'l \<Rightarrow> nat" where
  "Inc l c = c(l := Suc (c l))"

definition Observe :: "'l \<Rightarrow> double \<Rightarrow> ('l \<Rightarrow> double list) \<Rightarrow> 'l \<Rightarrow> double list" where
  "Observe l x h = h(l := h l @ [x])"

definition ObserveWager ::
  "Metrics option \<Rightarrow> string \<Rightarrow> string \<Rightarrow> string \<Rightarrow> bool \<Rightarrow> duration \<Rightarrow> Metrics option" where
  "ObserveWager m source kind status replay d =
     map_option (\<lambda>m.
       (let m1 = m\<lparr>wagerOutcomes := Inc (source, kind, status) (wagerOutcomes m),
                   processingDuration := Observe source (Seconds d) (processingDuration m)\<rparr>
        in if replay then m1\<lparr>idempotentReplays := Inc source (idempotentReplays m1)\<rparr> else m1)) m"

definition CountReplay :: "Metrics option \<Rightarrow> string \<Rightarrow> Metrics option" where
  "CountReplay m source = map_option (\<lambda>m. m\<lparr>idempotentReplays := Inc source (idempotentReplays m)\<rparr>) m"

definition CountConflict :: "Metrics option \<Rightarrow> string \<Rightarrow> Metrics option" where
  "CountConflict m reason = map_option (\<lambda>m. m\<lparr>conflicts := Inc reason (conflicts m)\<rparr>) m"

definition CountTransactionRetry :: "Metrics option \<Rightarrow> string \<Rightarrow> Metrics option" where
  "CountTransactionRetry m sqlstate = map_option (\<lambda>m. m\<lparr>transactionRetries := Inc sqlstate (transactionRetries m)\<rparr>) m"

definition CountSQSMessage :: "Metrics option \<Rightarrow> string \<Rightarrow> Metrics option" where
  "CountSQSMessage m result = map_option (\<lambda>m. m\<lparr>sqsMessages := Inc result (sqsMessages m)\<rparr>) m"

definition CountOutboxPublication :: "Metrics option \<Rightarrow> string \<Rightarrow> Metrics option" where
  "CountOutboxPublication m result = map_option (\<lambda>m. m\<lparr>outboxPublications := Inc result (outboxPublications m)\<rparr>) m"

definition CountReconciliationDivergence :: "Metrics option \<Rightarrow> Metrics option" where
  "CountReconciliationDivergence m =
     map_option (\<lambda>m. m\<lparr>reconciliationDivergences := Suc (reconciliationDivergences m)\<rparr>) m"

section \<open>What the handlers record\<close>

text \<open>The conversion \<^verbatim>\<open>string(status)\<close>.\<close>

fun string_of_status :: "WagerTransactionStatus \<Rightarrow> string" where
  "string_of_status PENDING = ''PENDING''"
| "string_of_status PENDING_REFERENCE = ''PENDING_REFERENCE''"
| "string_of_status PROCESSED = ''PROCESSED''"
| "string_of_status REJECTED = ''REJECTED''"
| "string_of_status FAILED = ''FAILED''"
| "string_of_status (UnknownStatus s) = s"

text \<open>The method \<^verbatim>\<open>countConflict\<close> of both handlers.\<close>

definition countConflict :: "Metrics option \<Rightarrow> err \<Rightarrow> Metrics option" where
  "countConflict m e =
     (if errors_Is e (AppErr ErrIdempotencyConflict) then CountConflict m ''idempotency_key''
      else if errors_Is e (AppErr ErrExternalTransactionConflict) then CountConflict m ''external_transaction''
      else m)"

text \<open>After \<^verbatim>\<open>Process\<close> in \<^verbatim>\<open>WagerHandler.Create\<close>, for a request of a kind that took a time.\<close>

definition create_metrics ::
  "Metrics option \<Rightarrow> string \<Rightarrow> duration \<Rightarrow> err + 'd ProcessWagerResult \<Rightarrow> Metrics option" where
  "create_metrics m kind d answer =
     (case answer of
        Inl e \<Rightarrow> countConflict m e
      | Inr result \<Rightarrow> ObserveWager m ''http'' kind (string_of_status (pr_Status result)) (pr_IdempotentReplay result) d)"

text \<open>After the service in \<^verbatim>\<open>WalletHandler.Reconcile\<close>.\<close>

definition reconcile_metrics :: "Metrics option \<Rightarrow> err + 'd WalletReconciliationResult \<Rightarrow> Metrics option" where
  "reconcile_metrics m answer =
     (case answer of
        Inl e \<Rightarrow> m
      | Inr result \<Rightarrow> if \<not> rec_Consistent result then CountReconciliationDivergence m else m)"

section \<open>The consumer with its counters\<close>

text \<open>
  The operations of \<open>Sqs_Consumer\<close> once more, with the metrics they record. \<open>since i j\<close> is what the local
  clock measures from step \<open>i\<close> to step \<open>j\<close>.
\<close>

definition Handle_metered ::
  "'d Env \<Rightarrow> ReferenceRetryPolicy \<Rightarrow> string list \<Rightarrow> (nat \<Rightarrow> nat \<Rightarrow> duration) \<Rightarrow> string \<Rightarrow> string \<Rightarrow>
   Metrics option \<Rightarrow> World \<Rightarrow> (err + unit) \<times> Metrics option \<times> World" where
  "Handle_metered E P allowedProviders since transportMessageID body m w =
     (if TrimSpace transportMessageID = [] then (Inl (SqsErr ErrInvalidMessageID), m, w)
      else case parseWagerMessage body of
             Inl e \<Rightarrow> (Inl e, m, w)
           | Inr message \<Rightarrow>
               if md_ProviderID (me_Data message) \<notin> set allowedProviders then (Inl (SqsErr ErrProviderNotAllowed), m, w)
               else case in_transaction E background (handle_body E P message (hashMessage body)) w of
                      (Inl e, w') \<Rightarrow> (Inl e, countConflict m e, w')
                    | (Inr None, w') \<Rightarrow> (Inr (), CountReplay m ''sqs_inbox'', w')
                    | (Inr (Some result), w') \<Rightarrow>
                        (Inr (),
                         ObserveWager m ''sqs'' (md_Kind (me_Data message)) (string_of_status (pr_Status result))
                           (pr_IdempotentReplay result) (since (w_step w) (w_step w')),
                         w'))"

definition processMessage_metered ::
  "'d Env \<Rightarrow> Consumer \<Rightarrow> (nat \<Rightarrow> nat \<Rightarrow> duration) \<Rightarrow> Message \<Rightarrow> Metrics option \<Rightarrow> World \<Rightarrow>
   (err + unit) \<times> Metrics option \<times> World" where
  "processMessage_metered E c since message m w =
     (case Handle_metered E (cs_policy c) (cs_allowedProviders c) since (sm_MessageId message) (sm_Body message) m w of
        (Inr _, m1, w1) \<Rightarrow>
          (case sqs_request E (DeleteMessage (cs_queueURL c) (sm_ReceiptHandle message)) w1 of
             (x, w2) \<Rightarrow> (x, CountSQSMessage m1 ''processed'', w2))
      | (Inl e, m1, w1) \<Rightarrow>
          if isTransient e
          then (Inl e, CountSQSMessage m1 ''retried'', release E c (\<lambda>_. retryDelay message) [message] w1)
          else (case moveToDLQ E c message e w1 of (x, w2) \<Rightarrow> (x, CountSQSMessage m1 ''dead_lettered'', w2)))"

fun poll_loop_metered ::
  "'d Env \<Rightarrow> Consumer \<Rightarrow> (nat \<Rightarrow> nat \<Rightarrow> duration) \<Rightarrow> (nat \<Rightarrow> bool) \<Rightarrow> bool \<Rightarrow> Message list \<Rightarrow> Metrics option \<Rightarrow> World \<Rightarrow>
   (bool \<times> err option) \<times> Metrics option \<times> World" where
  "poll_loop_metered E c since stop received [] m w = ((received, None), m, w)"
| "poll_loop_metered E c since stop received (message # messages) m w =
     (if stop (w_step w)
      then ((True, None), foldr (\<lambda>_ m. CountSQSMessage m ''released'') (message # messages) m,
            release E c (\<lambda>_. 0) (message # messages) w)
      else case processMessage_metered E c since message m w of
             (Inl e, m1, w1) \<Rightarrow> ((True, Some e), m1, release E c retryDelay messages w1)
           | (Inr _, m1, w1) \<Rightarrow> poll_loop_metered E c since stop received messages m1 w1)"

definition PollOnce_metered ::
  "'d Env \<Rightarrow> Consumer \<Rightarrow> (nat \<Rightarrow> nat \<Rightarrow> duration) \<Rightarrow> (nat \<Rightarrow> bool) \<Rightarrow> (nat \<Rightarrow> err + Message list) \<Rightarrow>
   Metrics option \<Rightarrow> World \<Rightarrow> (bool \<times> err option) \<times> Metrics option \<times> World" where
  "PollOnce_metered E c since stop receive m w =
     (let w1 = w\<lparr>w_step := Suc (w_step w)\<rparr>
      in case receive (w_step w) of
           Inl e \<Rightarrow> if stop (w_step w1) then ((False, None), m, w1) else ((False, Some e), m, w1)
         | Inr messages \<Rightarrow> poll_loop_metered E c since stop (messages \<noteq> []) messages m w1)"

section \<open>The workers with their counters\<close>

definition outbox_step_metered ::
  "'d Env \<Rightarrow> string \<Rightarrow> string \<Rightarrow> Metrics option \<Rightarrow> World \<Rightarrow> outcome \<times> Metrics option \<times> World" where
  "outbox_step_metered E queueURL workerID m w =
     (case DispatchNext E queueURL workerID w of
        ((found, err), w') \<Rightarrow>
          ((found, err),
           if err \<noteq> None then CountOutboxPublication m ''failed''
           else if found then CountOutboxPublication m ''published'' else m,
           w'))"

definition reference_step_metered ::
  "'d Env \<Rightarrow> ReferenceRetryPolicy \<Rightarrow> (nat \<Rightarrow> nat \<Rightarrow> duration) \<Rightarrow> Metrics option \<Rightarrow> World \<Rightarrow> outcome \<times> Metrics option \<times> World" where
  "reference_step_metered E P since m w =
     (case RetryNextPendingReference E P background w of
        ((None, err), w') \<Rightarrow> ((False, err), m, w')
      | ((Some retry, err), w') \<Rightarrow>
          ((True, err),
           if IsTerminal (prr_Status retry)
           then ObserveWager m ''pending_reference'' (string_of_type (prr_Kind retry)) (string_of_status (prr_Status retry))
                  False (since (w_step w) (w_step w'))
           else m,
           w'))"

section \<open>The transaction manager with its counter\<close>

text \<open>The function \<^verbatim>\<open>onRetry\<close> is the one \<^verbatim>\<open>newObservedTransactionManager\<close> sets.\<close>

fun tx_attempts_metered ::
  "nat \<Rightarrow> 'd Env \<Rightarrow> ('a, 'c) closure \<Rightarrow> 'c \<Rightarrow> Metrics option \<Rightarrow> World \<Rightarrow> ((err + 'a) \<times> 'c) \<times> Metrics option \<times> World" where
  "tx_attempts_metered left E fn c m w =
     (case run_tx E fn c w of
        ((Inr a, c'), w') \<Rightarrow> ((Inr a, c'), m, w')
      | ((Inl e, c'), w') \<Rightarrow>
          if \<not> isRetryableConflict e \<or> left \<le> 1 then ((Inl e, c'), m, w')
          else (let m1 = CountTransactionRetry m (sqlState e)
                in case waitRetry E w' of
                     (False, w2) \<Rightarrow> ((Inl e, c'), m1, w2)
                   | (True, w2) \<Rightarrow> tx_attempts_metered (left - 1) E fn c' m1 w2))"

declare tx_attempts_metered.simps [simp del]

definition WithinTransaction_metered ::
  "'d Env \<Rightarrow> Context \<Rightarrow> ('a, 'c) closure \<Rightarrow> 'c \<Rightarrow> Metrics option \<Rightarrow> World \<Rightarrow> ((err + 'a) \<times> 'c) \<times> Metrics option \<times> World" where
  "WithinTransaction_metered E ctx fn c m w =
     (if in_tx ctx then (case fn ctx c w of (r, w') \<Rightarrow> (r, m, w'))
      else (case tx_attempts_metered maxTransactionAttempts E fn c m w of
              ((Inr a, c'), m', w') \<Rightarrow> ((Inr a, c'), m', w')
            | ((Inl e, c'), m', w') \<Rightarrow>
                ((Inl (if isUnavailable e then Wrapped (AppErr ErrUnavailable) e else e), c'), m', w')))"

section \<open>What the counters say\<close>

text \<open>The handler does what it does without metrics, and leaves the counter of the messages alone.\<close>

definition message_counts :: "Metrics option \<Rightarrow> (string \<Rightarrow> nat) option" where
  "message_counts m = map_option sqsMessages m"

lemma message_counts_other [simp]:
  "message_counts (countConflict m e) = message_counts m"
  "message_counts (CountReplay m l) = message_counts m"
  "message_counts (ObserveWager m source kind status replay d) = message_counts m"
  by (cases m; simp add: message_counts_def countConflict_def CountConflict_def CountReplay_def ObserveWager_def Let_def)+

lemma Handle_metered_plain:
  "Handle_metered E P allowed since tid body m w = (x, m', w') \<Longrightarrow>
     Handle E P allowed tid body w = (x, w') \<and> message_counts m' = message_counts m"
  unfolding Handle_metered_def Handle_def
  by (auto simp: throw_def ret_def bind_act_def
    split: if_splits sum.splits prod.splits option.splits)

text \<open>The messages a poll counted, by the results of the messages.\<close>

definition counted :: "string list \<Rightarrow> Metrics option \<Rightarrow> Metrics option \<Rightarrow> bool" where
  "counted results m m' \<longleftrightarrow>
     message_counts m' = map_option (\<lambda>counts l. counts l + count_list results l) (message_counts m)"

lemma counted_Nil: "counted [] m m' \<longleftrightarrow> message_counts m' = message_counts m"
  by (cases m; cases m') (auto simp: counted_def message_counts_def)

lemma counted_Cons: "counted [r] m m1 \<Longrightarrow> counted rs m1 m' \<Longrightarrow> counted (r # rs) m m'"
  by (cases m; cases m1; cases m') (auto simp: counted_def message_counts_def fun_eq_iff)

lemma counted_CountSQSMessage:
  "message_counts m1 = message_counts m \<Longrightarrow> counted [r] m (CountSQSMessage m1 r)"
  by (cases m; cases m1) (auto simp: counted_def message_counts_def CountSQSMessage_def Inc_def)

lemma counted_released:
  "counted (replicate (length ms) r) m (foldr (\<lambda>_ m. CountSQSMessage m r) ms m)"
proof (induction ms)
  case (Cons x ms)
  have "counted rs m m1 \<Longrightarrow> counted (r # rs) m (CountSQSMessage m1 r)" for rs m1
    by (cases m; cases m1) (auto simp: counted_def message_counts_def CountSQSMessage_def Inc_def fun_eq_iff)
  then show ?case using Cons by simp
qed (simp add: counted_Nil)

lemma processMessage_metered_plain:
  assumes "processMessage_metered E c since message m w = (x, m', w')"
  shows "processMessage E c message w = (x, w')" "\<exists>r. counted [r] m m' \<and>
    r \<in> {''processed'', ''retried'', ''dead_lettered''} \<and> (r = ''retried'' \<longrightarrow> isl x)"
proof -
  obtain a m1 w1 where h: "Handle_metered E (cs_policy c) (cs_allowedProviders c) since (sm_MessageId message) (sm_Body message) m w = (a, m1, w1)"
    by (metis prod_cases3)
  note p = Handle_metered_plain [OF h]
  show "processMessage E c message w = (x, w')"
    using assms p h by (auto simp: processMessage_metered_def processMessage_def split: sum.splits prod.splits if_splits)
  show "\<exists>r. counted [r] m m' \<and> r \<in> {''processed'', ''retried'', ''dead_lettered''} \<and> (r = ''retried'' \<longrightarrow> isl x)"
  proof (cases a)
    case (Inr u)
    then have "m' = CountSQSMessage m1 ''processed''" using assms h by (auto simp: processMessage_metered_def split: prod.splits)
    then show ?thesis using counted_CountSQSMessage p by (intro exI [of _ "''processed''"]) simp
  next
    case (Inl e)
    show ?thesis
    proof (cases "isTransient e")
      case True
      then have "m' = CountSQSMessage m1 ''retried''" "isl x" using assms h Inl by (auto simp: processMessage_metered_def)
      then show ?thesis using counted_CountSQSMessage p by (intro exI [of _ "''retried''"]) simp
    next
      case False
      then have "m' = CountSQSMessage m1 ''dead_lettered''" using assms h Inl by (auto simp: processMessage_metered_def split: prod.splits)
      then show ?thesis using counted_CountSQSMessage p by (intro exI [of _ "''dead_lettered''"]) simp
    qed
  qed
qed

text \<open>
  The results of a batch: messages that were settled, then either the rest handed back, or one whose
  handling met an error.
\<close>

definition batch_results :: "nat \<Rightarrow> err option \<Rightarrow> string list \<Rightarrow> bool" where
  "batch_results n e results \<longleftrightarrow>
     (\<exists>settled last. results = settled @ last \<and> set settled \<subseteq> {''processed'', ''dead_lettered''} \<and>
        (if e = None then last = replicate (n - length settled) ''released'' \<and> length settled \<le> n
         else length settled < n \<and> length last = 1 \<and> set last \<subseteq> {''processed'', ''retried'', ''dead_lettered''}))"

lemma batch_results_Cons:
  "r \<in> {''processed'', ''dead_lettered''} \<Longrightarrow> batch_results n e results \<Longrightarrow> batch_results (Suc n) e (r # results)"
proof -
  assume r: "r \<in> {''processed'', ''dead_lettered''}" and "batch_results n e results"
  then obtain settled last where b: "results = settled @ last" "set settled \<subseteq> {''processed'', ''dead_lettered''}"
    "if e = None then last = replicate (n - length settled) ''released'' \<and> length settled \<le> n
     else length settled < n \<and> length last = 1 \<and> set last \<subseteq> {''processed'', ''retried'', ''dead_lettered''}"
    unfolding batch_results_def by blast
  show ?thesis
    unfolding batch_results_def by (intro exI [of _ "r # settled"] exI [of _ last]) (use r b in auto)
qed

lemma poll_loop_metered_plain:
  "poll_loop_metered E c since stop received ms m w = (r, m', w') \<Longrightarrow>
     poll_loop E c stop received ms w = (r, w') \<and>
     (\<exists>results. counted results m m' \<and> batch_results (length ms) (snd r) results)"
proof (induction ms arbitrary: m w)
  case Nil
  then show ?case by (auto simp: batch_results_def counted_Nil intro!: exI [of _ "[]"])
next
  case (Cons message ms)
  show ?case
  proof (cases "stop (w_step w)")
    case True
    have "batch_results (length (message # ms)) None (replicate (length (message # ms)) ''released'')"
      unfolding batch_results_def by (intro exI [of _ "[]"] exI conjI) auto
    then show ?thesis using Cons.prems True counted_released [of "message # ms" "''released''" m] by auto
  next
    case False
    obtain x m1 w1 where p: "processMessage_metered E c since message m w = (x, m1, w1)" by (metis prod_cases3)
    obtain l where l: "counted [l] m m1" "l \<in> {''processed'', ''retried'', ''dead_lettered''}" "l = ''retried'' \<longrightarrow> isl x"
      using processMessage_metered_plain(2) [OF p] by blast
    note q = processMessage_metered_plain(1) [OF p]
    show ?thesis
    proof (cases x)
      case (Inl e)
      have "batch_results (length (message # ms)) (Some e) [l]"
        unfolding batch_results_def by (intro exI [of _ "[]"] exI [of _ "[l]"]) (use l in auto)
      then show ?thesis using Cons.prems False p q l(1) Inl by auto
    next
      case (Inr u)
      then have s: "poll_loop_metered E c since stop received ms m1 w1 = (r, m', w')" using Cons.prems False p by simp
      obtain results where rs: "counted results m1 m'" "batch_results (length ms) (snd r) results"
        using Cons.IH [OF s] by blast
      have "l \<in> {''processed'', ''dead_lettered''}" using l Inr by auto
      then have "batch_results (length (message # ms)) (snd r) (l # results)" using batch_results_Cons rs(2) by simp
      then show ?thesis using Cons.IH [OF s] counted_Cons [OF l(1) rs(1)] False q Inr by auto
    qed
  qed
qed



text \<open>The workers too do what they do without metrics; the publisher counts every event it claimed.\<close>

lemma outbox_step_metered_plain:
  assumes "outbox_step_metered E q i m w = ((found, e), m', w')"
  shows "outbox_step E q i w = ((found, e), w')"
    "map_option outboxPublications m' = map_option (\<lambda>M l. outboxPublications M l +
       (if l = ''failed'' \<and> e \<noteq> None \<or> l = ''published'' \<and> found \<and> e = None then 1 else 0)) m"
proof -
  show "outbox_step E q i w = ((found, e), w')"
    using assms by (auto simp: outbox_step_metered_def outbox_step_def split: prod.splits if_splits)
  have "m' = (if e \<noteq> None then CountOutboxPublication m ''failed'' else if found then CountOutboxPublication m ''published'' else m)"
    using assms by (auto simp: outbox_step_metered_def split: prod.splits if_splits)
  then show "map_option outboxPublications m' = map_option (\<lambda>M l. outboxPublications M l +
       (if l = ''failed'' \<and> e \<noteq> None \<or> l = ''published'' \<and> found \<and> e = None then 1 else 0)) m"
    by (cases m) (auto simp: CountOutboxPublication_def Inc_def fun_eq_iff)
qed

lemma reference_step_metered_plain:
  "reference_step_metered E P since m w = (res, m', w') \<Longrightarrow> reference_step E P w = (res, w')"
  by (auto simp: reference_step_metered_def reference_step_def split: prod.splits option.splits)

text \<open>
  A transaction does what it does without metrics, and counts each of its retries, at most two, under the state of the
  conflict.
\<close>

lemma tx_attempts_metered_plain:
  "tx_attempts_metered n E fn c m w = (r, m', w') \<Longrightarrow>
     tx_attempts n E fn c w = (r, w') \<and>
     (\<exists>states. length states \<le> n - 1 \<and> set states \<subseteq> {''40001'', ''40P01''} \<and>
        map_option transactionRetries m' = map_option (\<lambda>M l. transactionRetries M l + count_list states l) m)"
proof (induction n E fn c m w rule: tx_attempts_metered.induct)
  case (1 left E fn c m w)
  obtain s c1 v1 where run: "run_tx E fn c w = ((s, c1), v1)" by (metis surj_pair)
  show ?case
  proof (cases "\<exists>e. s = Inl e \<and> isRetryableConflict e \<and> \<not> left \<le> 1")
    case False
    then have "r = (s, c1) \<and> m' = m \<and> w' = v1 \<and> tx_attempts left E fn c w = (r, w')"
      using "1.prems" run by (cases s) (auto simp: tx_attempts_metered.simps [of left] tx_attempts.simps [of left])
    then show ?thesis by (intro conjI exI [of _ "[]"]) auto
  next
    case True
    then obtain e where e: "s = Inl e" "isRetryableConflict e" "\<not> left \<le> 1" by blast
    have l: "sqlState e \<in> {''40001'', ''40P01''}"
      using e(2) by (auto simp: isRetryableConflict_def sqlState_def split: option.splits)
    let ?m1 = "CountTransactionRetry m (sqlState e)"
    have m1: "map_option transactionRetries ?m1 = map_option (\<lambda>M l. transactionRetries M l + count_list [sqlState e] l) m"
      by (cases m) (auto simp: CountTransactionRetry_def Inc_def)
    obtain b v2 where w2: "waitRetry E v1 = (b, v2)" by (metis surj_pair)
    show ?thesis
    proof (cases b)
      case False
      then have "r = (Inl e, c1)" "m' = ?m1" "tx_attempts left E fn c w = (r, w')"
        using "1.prems" run e w2 by (auto simp: tx_attempts_metered.simps [of left] tx_attempts.simps [of left])
      then show ?thesis using m1 l e(3) by (intro conjI exI [of _ "[sqlState e]"]) auto
    next
      case True
      then have b: "b = True" by simp
      have rec: "tx_attempts_metered (left - 1) E fn c1 ?m1 v2 = (r, m', w')"
        and t: "tx_attempts left E fn c w = tx_attempts (left - 1) E fn c1 v2"
        using "1.prems" run e w2 b by (simp_all add: tx_attempts_metered.simps [of left] tx_attempts.simps [of left])
      have "tx_attempts (left - 1) E fn c1 v2 = (r, w') \<and>
        (\<exists>states. length states \<le> left - 1 - 1 \<and> set states \<subseteq> {''40001'', ''40P01''} \<and>
          map_option transactionRetries m' = map_option (\<lambda>M l. transactionRetries M l + count_list states l) ?m1)"
        by (rule "1.IH" [OF run [symmetric] refl e(1) _ refl w2 [symmetric] b rec]) (use e in simp)
      then obtain states where st: "tx_attempts (left - 1) E fn c1 v2 = (r, w')" "length states \<le> left - 1 - 1"
        "set states \<subseteq> {''40001'', ''40P01''}"
        "map_option transactionRetries m' = map_option (\<lambda>M l. transactionRetries M l + count_list states l) ?m1" by blast
      have "map_option transactionRetries m' = map_option (\<lambda>M l. transactionRetries M l + count_list (sqlState e # states) l) m"
        using st(4) by (cases m; cases m') (auto simp: CountTransactionRetry_def Inc_def fun_eq_iff)
      then show ?thesis using t st(1-3) l e(3) by (intro conjI exI [of _ "sqlState e # states"]) auto
    qed
  qed
qed

lemma WithinTransaction_metered_plain:
  assumes "WithinTransaction_metered E background fn c m w = (r, m', w')"
  shows "WithinTransaction E background fn c w = (r, w') \<and>
    (\<exists>states. length states \<le> 2 \<and> set states \<subseteq> {''40001'', ''40P01''} \<and>
       map_option transactionRetries m' = map_option (\<lambda>M l. transactionRetries M l + count_list states l) m)"
proof -
  obtain x c1 m1 w1 where t: "tx_attempts_metered maxTransactionAttempts E fn c m w = ((x, c1), m1, w1)" by (metis surj_pair)
  then have "WithinTransaction E background fn c w = (r, w') \<and> m' = m1"
    using assms tx_attempts_metered_plain [OF t]
    by (auto simp: WithinTransaction_metered_def WithinTransaction_def split: sum.splits)
  then show ?thesis using tx_attempts_metered_plain [OF t] by (simp add: maxTransactionAttempts_def)
qed

end
