(* ===== verification/Backlog.thy ===== *)
theory Backlog
  imports Go_Float Health
begin

text \<open>
  The connection pool and the backlog it reports: \<^verbatim>\<open>postgres/pool.go\<close>, \<^verbatim>\<open>postgres/backlog_repository.go\<close>,
  the collector of \<^verbatim>\<open>observability/metrics.go\<close> and \<^verbatim>\<open>registerBacklogMetrics\<close> of \<^verbatim>\<open>wiring/app.go\<close>. The timeout
  of a scrape is one of the ways the environment fails a request.
\<close>

section \<open>The pool\<close>

text \<open>
  A pool is its runtime parameters and whether it was closed. Parsing the address and making the pool are
  the work of \<^verbatim>\<open>pgxpool\<close>, the arguments \<open>parse\<close> (the parameters of the address) and \<open>connect\<close>.
\<close>

record Pool =
  pool_RuntimeParams :: "string \<rightharpoonup> string"
  pool_closed :: bool

definition runtimeParams :: "(string \<rightharpoonup> string) \<Rightarrow> (string \<rightharpoonup> string)" where
  "runtimeParams params =
     params(''application_name'' \<mapsto> ''junglegaming'', ''lock_timeout'' \<mapsto> ''5s'', ''statement_timeout'' \<mapsto> ''15s'',
            ''idle_in_transaction_session_timeout'' \<mapsto> ''30s'')"

definition NewPool ::
  "(string \<Rightarrow> err + (string \<rightharpoonup> string)) \<Rightarrow> ((string \<rightharpoonup> string) \<Rightarrow> err option) \<Rightarrow> string \<Rightarrow> err + Pool" where
  "NewPool parse connect databaseURL =
     (case parse databaseURL of
        Inl e \<Rightarrow> Inl (Wrapped (OtherError ''failed to parse database url'') e)
      | Inr params \<Rightarrow>
          (case connect (runtimeParams params) of
             Some e \<Rightarrow> Inl (Wrapped (OtherError ''failed to connect to database'') e)
           | None \<Rightarrow> Inr \<lparr>pool_RuntimeParams = runtimeParams params, pool_closed = False\<rparr>))"

text \<open>The hooks of the life cycle.\<close>

definition Pool_OnStart :: "'d Env \<Rightarrow> Pool \<Rightarrow> World \<Rightarrow> err option \<times> Pool \<times> World" where
  "Pool_OnStart E pool w =
     (case ping E w of
        (Some e, w1) \<Rightarrow> (Some (Wrapped (OtherError ''ping database failed'') e), pool\<lparr>pool_closed := True\<rparr>, w1)
      | (None, w1) \<Rightarrow> (None, pool, w1))"

definition Pool_OnStop :: "Pool \<Rightarrow> err option \<times> Pool" where
  "Pool_OnStop pool = (None, pool\<lparr>pool_closed := True\<rparr>)"

text \<open>A program that starts has an open pool, whose waits are bounded whatever the address says.\<close>

lemma started_pool:
  assumes "NewPool parse connect url = Inr pool" "Pool_OnStart E pool w = (e, pool', w')"
  shows "(e = None \<longleftrightarrow> \<not> pool_closed pool') \<and> (e = None \<longleftrightarrow> E_reply E (w_step w) = Reply)"
    "pool_RuntimeParams pool' ''lock_timeout'' = Some ''5s''" "pool_RuntimeParams pool' ''statement_timeout'' = Some ''15s''"
  using assms by (auto simp: NewPool_def Pool_OnStart_def runtimeParams_def ping_def split: sum.splits option.splits reply.splits prod.splits)

section \<open>The backlog\<close>

record Backlog =
  OutboxPending :: int
  OutboxOldestPendingAge :: duration
  PendingReferences :: int

text \<open>The record of the metrics has one field more.\<close>

record ReportedBacklog = Backlog +
  DeadLetteredMessages :: int

definition unpublished :: "DB \<Rightarrow> outbox_row list" where
  "unpublished db = filter (\<lambda>r. ob_published_at r = None) (outbox db)"

text \<open>
  The age in seconds the query computes: the time of the database less the oldest event, a numeric that is cast to
  \<open>float8\<close>; zero when there is none.
\<close>

definition oldestSecond :: "time \<Rightarrow> DB \<Rightarrow> double" where
  "oldestSecond clk db =
     (case map ob_occurred_at (unpublished db) of
        [] \<Rightarrow> (0, 1)
      | t # ts \<Rightarrow> to_double (clk - fold min ts t) 1000000000)"

definition BacklogRepository_Read :: "'d Env \<Rightarrow> Backlog act" where
  "BacklogRepository_Read E =
     bind_act
       (request E background (\<lambda>now clk db.
          Inr ((int (length (unpublished db)), oldestSecond clk db,
                int (length (filter (\<lambda>r. wg_status r = PENDING_REFERENCE) (wagers db)))), db)))
       (\<lambda>(pending, oldest, references).
          ret \<lparr>OutboxPending = pending,
               OutboxOldestPendingAge = Duration_of_double (double_mult oldest (to_double Second 1)),
               PendingReferences = references\<rparr>)"

text \<open>What \<^verbatim>\<open>registerBacklogMetrics\<close> reads; \<open>depth\<close> is the attribute the queue service returns.\<close>

definition backlog_read :: "'d Env \<Rightarrow> string \<Rightarrow> ReportedBacklog act" where
  "backlog_read E depth =
     bind_act (BacklogRepository_Read E) (\<lambda>stored.
     bind_act (DLQDepth E depth) (\<lambda>deadLettered.
     ret \<lparr>OutboxPending = OutboxPending stored, OutboxOldestPendingAge = OutboxOldestPendingAge stored,
          PendingReferences = PendingReferences stored, DeadLetteredMessages = deadLettered\<rparr>))"

text \<open>The gauges of a scrape, by their names.\<close>

definition Collect :: "ReportedBacklog act \<Rightarrow> World \<Rightarrow> (string \<times> double) list \<times> World" where
  "Collect read w =
     (case read w of
        (Inl e, w') \<Rightarrow> ([], w')
      | (Inr backlog, w') \<Rightarrow>
          ([(''outbox_pending_events'', to_double (OutboxPending backlog) 1),
            (''outbox_oldest_pending_age_seconds'', Seconds (OutboxOldestPendingAge backlog)),
            (''pending_reference_transactions'', to_double (PendingReferences backlog) 1),
            (''sqs_dlq_messages'', to_double (DeadLetteredMessages backlog) 1)], w'))"

section \<open>What a scrape reports\<close>

lemma Read_Inr:
  assumes "BacklogRepository_Read E w = (Inr b, w')"
  shows "OutboxPending b = int (length (unpublished (w_db w)))"
    "PendingReferences b = int (length (filter (\<lambda>r. wg_status r = PENDING_REFERENCE) (wagers (w_db w))))"
    "unpublished (w_db w) = [] \<Longrightarrow> OutboxOldestPendingAge b = 0"
    "w_db w' = w_db w"
proof -
  have c: "b = \<lparr>OutboxPending = int (length (unpublished (w_db w))),
      OutboxOldestPendingAge = Duration_of_double (double_mult (oldestSecond (E_clock E (w_step w)) (w_db w)) (to_double Second 1)),
      PendingReferences = int (length (filter (\<lambda>r. wg_status r = PENDING_REFERENCE) (wagers (w_db w))))\<rparr> \<and>
    w_db w' = w_db w"
    using assms unfolding BacklogRepository_Read_def bind_act_Inr
    by (auto simp: ret_def case_prod_beta dest!: request_Inr)
  show "OutboxPending b = int (length (unpublished (w_db w)))"
    "PendingReferences b = int (length (filter (\<lambda>r. wg_status r = PENDING_REFERENCE) (wagers (w_db w))))"
    "w_db w' = w_db w" using c by simp_all
  have "Duration_of_double (double_mult (0, 1) (to_double Second 1)) = 0" by code_simp
  then show "OutboxOldestPendingAge b = 0" if "unpublished (w_db w) = []" using c that by (simp add: oldestSecond_def)
qed

text \<open>A scrape reports all four gauges or none, and changes nothing but the step.\<close>

lemma DLQDepth_Inr: "DLQDepth E depth w = (Inr n, w') \<Longrightarrow> Atoi depth = Some n"
  by (auto simp: DLQDepth_def split: prod.splits option.splits)

lemma backlog_read_Inr:
  assumes "backlog_read E depth w = (Inr b, w')"
  shows "OutboxPending b = int (length (unpublished (w_db w)))"
    "PendingReferences b = int (length (filter (\<lambda>r. wg_status r = PENDING_REFERENCE) (wagers (w_db w))))"
    "unpublished (w_db w) = [] \<Longrightarrow> OutboxOldestPendingAge b = 0" "Atoi depth = Some (DeadLetteredMessages b)"
proof -
  obtain s w1 where r: "BacklogRepository_Read E w = (Inr s, w1)" "OutboxPending b = OutboxPending s"
    "OutboxOldestPendingAge b = OutboxOldestPendingAge s" "PendingReferences b = PendingReferences s"
    "Atoi depth = Some (DeadLetteredMessages b)"
    using assms unfolding backlog_read_def bind_act_Inr
    by (auto simp: ret_def dest: DLQDepth_Inr)
  then show "OutboxPending b = int (length (unpublished (w_db w)))"
    "PendingReferences b = int (length (filter (\<lambda>r. wg_status r = PENDING_REFERENCE) (wagers (w_db w))))"
    "unpublished (w_db w) = [] \<Longrightarrow> OutboxOldestPendingAge b = 0" "Atoi depth = Some (DeadLetteredMessages b)"
    using Read_Inr [OF r(1)] by simp_all
qed

lemma scrape:
  assumes "Collect (backlog_read E depth) w = (gauges, w')" "length (outbox (w_db w)) < 2 ^ 53" "length (wagers (w_db w)) < 2 ^ 53"
  shows "gauges = [] \<or>
    (\<exists>pending age references dead n. gauges =
       [(''outbox_pending_events'', pending), (''outbox_oldest_pending_age_seconds'', age),
        (''pending_reference_transactions'', references), (''sqs_dlq_messages'', dead)] \<and>
       is_whole pending (int (length (unpublished (w_db w)))) \<and>
       is_whole references (int (length (filter (\<lambda>r. wg_status r = PENDING_REFERENCE) (wagers (w_db w))))) \<and>
       (unpublished (w_db w) = [] \<longrightarrow> is_whole age 0) \<and> Atoi depth = Some n \<and> dead = to_double n 1)"
proof (cases "backlog_read E depth w")
  case (Pair x w1)
  show ?thesis
  proof (cases x)
    case (Inl e)
    then show ?thesis using assms(1) Pair by (simp add: Collect_def)
  next
    case (Inr b)
    note b = backlog_read_Inr [OF Pair [unfolded Inr]]
    have "length (unpublished (w_db w)) < 2 ^ 53" using assms(2) length_filter_le le_less_trans unfolding unpublished_def by blast
    then have p: "is_whole (to_double (OutboxPending b) 1) (int (length (unpublished (w_db w))))"
      using to_double_whole [of "int (length (unpublished (w_db w)))"] b(1) by simp
    have "length (filter (\<lambda>r. wg_status r = PENDING_REFERENCE) (wagers (w_db w))) < 2 ^ 53"
      using assms(3) length_filter_le le_less_trans by blast
    then have q: "is_whole (to_double (PendingReferences b) 1) (int (length (filter (\<lambda>r. wg_status r = PENDING_REFERENCE) (wagers (w_db w)))))"
      using to_double_whole [of "int (length (filter (\<lambda>r. wg_status r = PENDING_REFERENCE) (wagers (w_db w))))"] b(2) by simp
    have "is_whole (Seconds 0) 0" by code_simp
    then have a: "unpublished (w_db w) = [] \<longrightarrow> is_whole (Seconds (OutboxOldestPendingAge b)) 0" using b(3) by simp
    have g: "gauges = [(''outbox_pending_events'', to_double (OutboxPending b) 1),
        (''outbox_oldest_pending_age_seconds'', Seconds (OutboxOldestPendingAge b)),
        (''pending_reference_transactions'', to_double (PendingReferences b) 1),
        (''sqs_dlq_messages'', to_double (DeadLetteredMessages b) 1)]"
      using assms(1) Pair Inr by (simp add: Collect_def)
    show ?thesis by (intro disjI2 exI conjI) (rule g, rule p, rule q, rule a, rule b(4), rule refl)
  qed
qed

end
