(* ===== verification/Bet_Steps.thy ===== *)
theory Bet_Steps
  imports Acceptance Domain_Correctness
begin

text \<open>
  The steps of a transaction that processes a bet, when the database answers every request: each repository call
  the service makes goes through, and with which rows.
\<close>

section \<open>A transaction whose requests are answered\<close>

abbreviation txw :: "sqs_call list \<Rightarrow> time \<Rightarrow> nat \<Rightarrow> DB \<Rightarrow> World" where
  "txw c ts n db \<equiv> \<lparr>w_db = db, w_calls = c, w_step = n, w_aborted = False, w_tx_start = ts\<rparr>"

lemma bind_act_step: "m w = (Inr a, w') \<Longrightarrow> bind_act m k w = k a w'"
  by (simp add: bind_act_def)

lemma bind_lift: "bind_act (lift_sum (Inr a)) k w = k a w"
  by (simp add: bind_act_def lift_sum_def)

lemma match_act_step: "m w = (Inr a, w') \<Longrightarrow> match_act m h k w = k a w'"
  by (simp add: match_act_def)

definition no_zero_byte :: "string \<Rightarrow> bool" where
  "no_zero_byte s = list_all (\<lambda>c. c \<noteq> CHR 0x00) s"

locale answering = runtime +
  assumes answered: "E_reply E k = Reply"
    and clock_mono: "E_clock E k \<le> E_clock E (Suc k)"
    and uuid_bytes: "no_zero_byte (E_uuid_String E u)"
begin

lemma request_step:
  "request E tx_context f (txw c ts n db) =
     (case f ts (E_clock E n) db of
        Inl e \<Rightarrow> (Inl (InfraErr e), (txw c ts (Suc n) db)\<lparr>w_aborted := True\<rparr>)
      | Inr (a, db') \<Rightarrow> (Inr a, txw c ts (Suc n) db'))"
  by (simp add: request_def answered split: sum.split)

lemma exec_step:
  "exec_stmt E tx_context f (txw c ts n db) =
     (case f db of
        Inl e \<Rightarrow> (Inl (InfraErr e), (txw c ts (Suc n) db)\<lparr>w_aborted := True\<rparr>)
      | Inr (a, db') \<Rightarrow> (Inr a, txw c ts (Suc n) db'))"
  by (simp add: exec_stmt_def request_step)

lemma Clock_step: "Clock_Now E tx_context (txw c ts n db) = (Inr (E_clock E n), txw c ts (Suc n) db)"
  by (simp add: Clock_Now_def request_step)

lemma uuid_step: "uuid_New E (txw c ts n db) = (Inr (E_uuid E n), txw c ts (Suc n) db)"
  by (simp add: uuid_New_def)

lemma clock_le: "E_clock E k \<le> E_clock E (k + j)"
proof (induction j)
  case (Suc j)
  then show ?case using clock_mono [of "k + j"] by simp
qed simp

lemma Create_step:
  assumes "wager_row_of E t = Inr r" "insert_wager r db = Inr (1, db')"
  shows "WagerRepository_Create E tx_context t (txw c ts n db) = (Inr (), txw c ts (Suc n) db')"
  using assms by (simp add: WagerRepository_Create_def match_act_def exec_step ret_def)

lemma Update_step:
  assumes "wagerBalanceBefore E t = Inr b" "wagerBalanceAfter E t = Inr a"
    "update_wagers (\<lambda>r. wg_id r = tx_id t) (wager_assign t b a) db = Inr (1, db')"
  shows "WagerRepository_Update E tx_context t (txw c ts n db) = (Inr (), txw c ts (Suc n) db')"
  using assms by (simp add: WagerRepository_Update_def bind_act_def exec_step ret_def)

lemma wallet_Update_step:
  assumes "numeric_arg E (wallet_balance wal) = Inr b" "in_int64 (wallet_version wal - 1)"
    "update_wallets (\<lambda>r. wr_id r = wallet_id wal \<and> wr_version r = wallet_version wal - 1) (wallet_assign wal b) db = Inr (1, db')"
  shows "WalletRepository_Update E tx_context wal (txw c ts n db) = (Inr (), txw c ts (Suc n) db')"
  using assms by (simp add: WalletRepository_Update_def bind_act_def exec_step ret_def)

lemma ledger_Create_step:
  assumes "ledger_row_of E e = Inr r" "insert_ledger r db = Inr (1, db')"
  shows "WalletLedgerRepository_Create E tx_context e (txw c ts n db) = (Inr (), txw c ts (Suc n) db')"
  using assms by (simp add: WalletLedgerRepository_Create_def bind_act_def exec_step ret_def)

lemma lockWallet_step:
  assumes "find (\<lambda>r. wr_id r = tx_walletID t) (wallets db) = Some r" "scanWallet E r = Inr wal"
    "wallet_playerID wal = tx_playerID t" "money_currency (wallet_balance wal) = money_currency (tx_amount t)"
  shows "lockWallet E tx_context t (txw c ts n db) = (Inr wal, txw c ts (Suc n) db)"
  using assms
  by (simp add: lockWallet_def WalletRepository_FindByIDForUpdate_def scan_row_def query_row_def query_def match_act_def
      bind_act_def request_step ret_def lift_sum_def Currency_Equal_def)

end

section \<open>The row of a bet\<close>

text \<open>The row \<^verbatim>\<open>Create\<close> inserts, and which \<^verbatim>\<open>Update\<close> leaves behind.\<close>

definition bet_row :: "('d \<Rightarrow> rat) \<Rightarrow> 'd WagerTransaction \<Rightarrow> wager_row" where
  "bet_row val tx =
     \<lparr>wg_id = tx_id tx, wg_provider_id = nullableString (tx_providerID tx),
      wg_external_transaction_id = nullableString (tx_externalTransactionID tx),
      wg_idempotency_key = nullableString (tx_idempotencyKey tx),
      wg_payload_hash = nullableString (tx_payloadHash tx), wg_wallet_id = tx_walletID tx, wg_player_id = tx_playerID tx,
      wg_round_id = nullableString (tx_roundID tx), wg_game_id = nullableString (tx_gameID tx), wg_type = tx_type tx,
      wg_amount = cents val (tx_amount tx), wg_currency = Currency_Code (money_currency (tx_amount tx)),
      wg_reference_external_transaction_id = nullableString (tx_referenceExternalTransactionID tx),
      wg_reference_transaction_id = nullableUUID (tx_referenceTransactionID tx),
      wg_reference_transaction_type = nullableWagerType (tx_referenceTransactionType tx), wg_status = tx_status tx,
      wg_failure_code = nullableString (tx_failureCode tx), wg_failure_message = nullableString (tx_failureMessage tx),
      wg_balance_before = map_option (cents val) (tx_balanceBefore tx),
      wg_balance_after = map_option (cents val) (tx_balanceAfter tx), wg_next_reference_attempt_at = None,
      wg_reference_expires_at = None, wg_created_at = tx_createdAt tx, wg_updated_at = tx_updatedAt tx,
      wg_completed_at = tx_completedAt tx, wg_reference_retry_count = 0, wg_reference_correlation_id = None,
      wg_reference_causation_id = None\<rparr>"

context runtime
begin

lemma wager_row_of_bet: "tx_wf (E_decimal E) val t \<Longrightarrow> wager_row_of E t = Inr (bet_row val t)"
  by (simp add: wager_row_of_def tx_wf_numeric bet_row_def)

end

lemma wager_assign_bet:
  "same_business_fields t t' \<Longrightarrow>
     wager_assign t' (map_option (cents val) (tx_balanceBefore t')) (map_option (cents val) (tx_balanceAfter t')) (bet_row val t) =
       bet_row val t'"
  by (simp add: wager_assign_def bet_row_def same_business_fields_def)

text \<open>Texts the database takes.\<close>

lemma plain_text: "(\<And>c. c \<in> set s \<Longrightarrow> plain_byte c) \<Longrightarrow> pg_text_ok s"
proof -
  have "list_all (\<lambda>c. c \<noteq> CHR 0x00) s \<and> utf8_valid (map of_char s)" if "\<forall>c \<in> set s. plain_byte c"
    using that by (induction s) (auto simp: plain_byte_def)
  then show "(\<And>c. c \<in> set s \<Longrightarrow> plain_byte c) \<Longrightarrow> pg_text_ok s" by (simp add: pg_text_ok_def)
qed

lemma currency_text: "Currency_IsValid c \<Longrightarrow> pg_text_ok (currency_code c) \<and> length (currency_code c) = 3"
  by (auto simp: Currency_IsValid_def currencyCodePattern_def list_all_iff is_upper_def plain_byte_def intro!: plain_text)

lemma dropWhile_blanks: "dropWhile (\<lambda>c. c = CHR '' '') s = [] \<Longrightarrow> trim_left s = []"
proof (induction s)
  case (Cons c s)
  then have c: "c = CHR '' ''" "dropWhile (\<lambda>c. c = CHR '' '') s = []" by (auto split: if_splits)
  have "ascii_space (of_char c)" by (simp add: c(1) ascii_space_def)
  then have "space_prefix (c # s) = 1" by (cases "c # s" rule: space_prefix.cases) simp_all
  then have "trim_left (c # s) = trim_left s" by (simp add: trim_left.simps [of "c # s"])
  then show ?case using Cons.IH c(2) by simp
qed simp

text \<open>A text that is not blank for Go is not blank for the database.\<close>

lemma btrim_TrimSpace: "TrimSpace s \<noteq> [] \<Longrightarrow> btrim s \<noteq> []"
proof
  let ?P = "\<lambda>c. c = CHR '' ''"
  assume t: "TrimSpace s \<noteq> []" and b: "btrim s = []"
  have "dropWhile ?P (rev (dropWhile ?P s)) = []" using b unfolding btrim_def by (rule rev_is_Nil_conv [THEN iffD1])
  then have all: "\<forall>c \<in> set (dropWhile ?P s). ?P c" unfolding dropWhile_eq_Nil_conv set_rev .
  have "dropWhile ?P s = []"
  proof (rule ccontr)
    assume n: "dropWhile ?P s \<noteq> []"
    from bspec [OF all hd_in_set [OF n]] hd_dropWhile [OF n] show False by (rule notE [rotated])
  qed
  then show False using t dropWhile_blanks [of s] unfolding TrimSpace_def by (metis rev.simps(1) trim_left_rev_Nil)
qed

lemma not_blank_nullable: "TrimSpace s \<noteq> [] \<Longrightarrow> not_blank (nullableString s)"
  using btrim_TrimSpace [of s] by (auto simp: not_blank_def nullableString_def)

text \<open>A bet without a reference whose texts the database takes.\<close>

definition plain_bet :: "'d WagerTransaction \<Rightarrow> bool" where
  "plain_bet t \<longleftrightarrow>
     tx_type t = BET \<and> tx_referenceExternalTransactionID t = [] \<and> tx_referenceTransactionID t = uuid_Nil \<and>
     tx_referenceTransactionType t = NoType \<and>
     list_all pg_text_ok [tx_providerID t, tx_externalTransactionID t, tx_idempotencyKey t, tx_payloadHash t,
       tx_roundID t, tx_gameID t, tx_failureCode t, tx_failureMessage t]"

context decimal_pkg
begin

lemma plain_bet_values:
  assumes "tx_wf D val t" "plain_bet t"
  shows "wager_values (bet_row val t) = None"
proof -
  have w: "money_ok D val (tx_amount t)" "balance_ok D val (money_currency (tx_amount t)) (tx_balanceBefore t)"
    "balance_ok D val (money_currency (tx_amount t)) (tx_balanceAfter t)" "Status_IsValid (tx_status t)"
    using assms(1) tx_ok_status by (auto simp: tx_wf_def)
  have n: "numeric_20_2 (cents val m)" if "money_ok D val m" for m
    using that by (simp add: numeric_20_2_def money_ok_iff)
  have b: "null_or numeric_20_2 (map_option (cents val) x)" if "balance_ok D val c x" for c x
    using that n by (auto simp: null_or_def balance_ok_def split: option.splits)
  have c: "pg_text_ok (Currency_Code (money_currency (tx_amount t)))" "length (Currency_Code (money_currency (tx_amount t))) = 3"
    using w(1) currency_text by (simp_all add: money_ok_iff Currency_Code_def)
  have e: "pg_text_ok []" by (simp add: pg_text_ok_def)
  have ns: "pg_texts_ok [nullableString x]" if "pg_text_ok x" for x
    using that by (simp add: pg_texts_ok_def nullableString_def)
  show ?thesis
    using assms(2) w(4) n [OF w(1)] b [OF w(2)] b [OF w(3)] c ns e
    by (simp add: wager_values_def bet_row_def plain_bet_def nullableUUID_def nullableWagerType_def type_simps pg_texts_ok_def
        null_or_def [of Type_IsValid])
qed

lemma plain_bet_checks:
  assumes "tx_wf D val t" "plain_bet t" "tx_status t \<noteq> PENDING_REFERENCE"
    "\<And>b a. \<lbrakk>tx_balanceBefore t = Some b; tx_balanceAfter t = Some a\<rbrakk> \<Longrightarrow> cents val a = cents val b - cents val (tx_amount t)"
  shows "list_all (\<lambda>c. snd c (bet_row val t)) wager_checks"
proof -
  have bet: "tx_type t = BET" "tx_referenceExternalTransactionID t = []" "tx_referenceTransactionID t = 0"
    "tx_referenceTransactionType t = NoType" using assms(2) by (simp_all add: plain_bet_def)
  have ok: "external_core D t" "status_core D (tx_status t) t" "money_ok D val (tx_amount t)"
    using assms(1) bet(1) by (simp_all add: tx_wf_def tx_ok_external)
  have pos: "0 < cents val (tx_amount t)"
    using ok(1,3) bet(1) sign_cents [of "tx_amount t"] by (auto simp: external_core_def validateWagerAmount_def money_ok_def split: if_splits)
  have cur: "currencyCodePattern (Currency_Code (money_currency (tx_amount t)))"
    using ok(3) by (simp add: money_ok_iff Currency_IsValid_def Currency_Code_def)
  have origin: "chk_origin (bet_row val t)"
    using ok(1) bet(1) not_blank_nullable by (simp add: chk_origin_def bet_row_def external_core_def)
  have code: "not_blank (wg_failure_code (bet_row val t))" if "tx_status t = REJECTED \<or> tx_status t = FAILED"
    using ok(2) that not_blank_nullable by (auto simp: bet_row_def)
  have null: "nullableString [] = None" "nullableUUID 0 = None" "nullableWagerType NoType = None"
    by (simp_all add: nullableString_def nullableUUID_def nullableWagerType_def)
  have bal: "null_or (\<lambda>b. 0 \<le> b) (map_option (cents val) x)" if "balance_ok D val c x" for c x
    using that by (auto simp: null_or_def balance_ok_def split: option.splits)
  have b: "null_or (\<lambda>b. 0 \<le> b) (wg_balance_before (bet_row val t))" "null_or (\<lambda>b. 0 \<le> b) (wg_balance_after (bet_row val t))"
    using assms(1) by (auto simp: bet_row_def tx_wf_def intro: bal)
  have st: "chk_status_fields (bet_row val t)" "chk_wager_timestamps (bet_row val t)"
    using ok(1,2) code assms(3) null
    by (cases "tx_status t"; auto simp: chk_status_fields_def chk_wager_timestamps_def null_or_def bet_row_def external_core_def)+
  have res: "chk_processed_result (bet_row val t)"
    using ok(2) assms(4) bet by (auto simp: chk_processed_result_def bet_row_def)
  have rest: "chk_pending_reference (bet_row val t)" "chk_processed_reference (bet_row val t)"
    "chk_reference_by_type (bet_row val t)" "chk_reference_pair (bet_row val t)"
    using bet assms(3) null
    by (simp_all add: chk_pending_reference_def chk_processed_reference_def chk_reference_by_type_def chk_reference_pair_def bet_row_def)
  show ?thesis
    unfolding wager_checks_def using origin b st res rest pos cur bet null
    by (simp add: null_or_def) (simp add: bet_row_def null_or_def)
qed

end

section \<open>The events of a bet\<close>

definition metadata_ok :: "CommandMetadata \<Rightarrow> bool" where
  "metadata_ok md \<longleftrightarrow>
     TrimSpace (CorrelationID md) \<noteq> [] \<and> pg_text_ok (CorrelationID md) \<and> pg_text_ok (CausationID md) \<and>
     (CausationID md = [] \<or> TrimSpace (CausationID md) \<noteq> [])"

lemma zero_byte_simps:
  "pg_text_ok s \<Longrightarrow> list_all (\<lambda>c. c \<noteq> CHR 0x00) s"
  "no_zero_byte s \<Longrightarrow> list_all (\<lambda>c. c \<noteq> CHR 0x00) s"
  by (simp_all add: pg_text_ok_def no_zero_byte_def)

lemma nat_str_bytes: "list_all (\<lambda>c. c \<noteq> CHR 0x00) (nat_str n)"
  using nat_str_digits [of n] by (auto simp: list_all_iff is_digit_def)

lemma digit_char_byte: "n < 10 \<Longrightarrow> digit_char n \<noteq> CHR 0x00"
  by (auto simp: digit_char_def dest!: arg_cong [where f = "of_char :: char \<Rightarrow> nat"])

lemma fixed2_bytes: "list_all (\<lambda>c. c \<noteq> CHR 0x00) (fixed2 n)"
  using nat_str_bytes by (simp add: fixed2_def digit_char_byte)

context answering
begin

lemma json_money_ok:
  assumes "money_ok (E_decimal E) val m"
  shows "\<exists>j. json_money E m = Inr j \<and> jsonb_ok j"
proof -
  have "Money_IsValid (E_decimal E) m" "whole_cents val m" "Currency_IsValid (money_currency m)"
    using assms by (simp_all add: money_ok_def) (use assms in \<open>simp add: money_ok_iff\<close>)
  then show ?thesis
    using currency_text [of "money_currency m"] zero_byte_simps(1)
    by (simp add: json_money_def Money_MarshalJSON_def Money_Amount_fixed2 fixed2_bytes Currency_Code_def)
qed

lemma json_moneys_ok:
  "list_all (\<lambda>m. money_ok (E_decimal E) val (snd m)) ms \<Longrightarrow>
     \<exists>js. json_moneys E ms = Inr js \<and> list_all (\<lambda>f. jsonb_ok (snd f)) js"
proof (induction ms)
  case (Cons m ms)
  obtain name v where m: "m = (name, v)" by (cases m)
  obtain j js where "json_money E v = Inr j" "jsonb_ok j" "json_moneys E ms = Inr js" "list_all (\<lambda>f. jsonb_ok (snd f)) js"
    using Cons json_money_ok [of v] by (auto simp: m)
  then show ?case by (simp add: m)
qed simp

lemma json_uuid_ok: "jsonb_ok (json_uuid E u)"
  using uuid_bytes zero_byte_simps(2) by (simp add: json_uuid_def)

lemma omitempty_ok: "list_all (\<lambda>c. c \<noteq> CHR 0x00) s \<Longrightarrow> list_all (\<lambda>f. jsonb_ok (snd f)) (omitempty name s)"
  by (simp add: omitempty_def)

text \<open>An event is written when its data can be.\<close>

lemma event_step:
  assumes "metadata_ok md" "schema_ok db" "marshal d = Inr j" "jsonb_ok j" "pg_text_ok ty" "btrim ty \<noteq> []"
    "E_uuid E n \<notin> ob_event_id ` set (outbox db)"
  obtains e where "bind_act (newEvent E ty agg md now d) (\<lambda>ev. OutboxRepository_Create E tx_context (Envelope marshal ev)) (txw c ts n db) =
      (Inr (), txw c ts (Suc (Suc n)) (db\<lparr>outbox := outbox db @ [e]\<rparr>))" "ob_event_id e = E_uuid E n"
    "schema_ok (db\<lparr>outbox := outbox db @ [e]\<rparr>)"
proof -
  let ?e = "\<lparr>ob_event_id = E_uuid E n, ob_event_type = ty, ob_aggregate_id = agg, ob_correlation_id = CorrelationID md,
      ob_causation_id = nullableString (CausationID md), ob_version = 1, ob_payload = j, ob_occurred_at = now, ob_attempts = 0,
      ob_next_attempt_at = ts, ob_claimed_by = None, ob_claimed_until = None, ob_published_at = None, ob_created_at = ts\<rparr>"
  have v: "outbox_values ?e = None"
    using assms(1,4,5) by (simp add: outbox_values_def pg_texts_ok_def metadata_ok_def nullableString_def)
  have k: "list_all (\<lambda>c. snd c ?e) outbox_checks"
    using assms(1,6) btrim_TrimSpace by (auto simp: outbox_checks_def metadata_ok_def nullableString_def null_or_def)
  have i: "insert_outbox ?e db = Inr (1, db\<lparr>outbox := outbox db @ [?e]\<rparr>)"
    using insert_outbox_accepted [OF assms(2) v k] assms(7) by force
  show thesis
  proof (rule that [of ?e])
    show "bind_act (newEvent E ty agg md now d) (\<lambda>ev. OutboxRepository_Create E tx_context (Envelope marshal ev)) (txw c ts n db) =
      (Inr (), txw c ts (Suc (Suc n)) (db\<lparr>outbox := outbox db @ [?e]\<rparr>))"
      using i assms(3)
      by (simp add: newEvent_def bind_act_def uuid_step ret_def OutboxRepository_Create_def Envelope_def lift_sum_def request_step eventVersion_def)
    show "schema_ok (db\<lparr>outbox := outbox db @ [?e]\<rparr>)" by (rule insert_outbox_schema [OF i assms(2)])
  qed simp
qed

lemma text_constants:
  "list_all (\<lambda>s. pg_text_ok s \<and> btrim s \<noteq> [])
     [EventTypeWagerTransactionProcessed, EventTypeWagerTransactionRejected, EventTypeWalletBalanceChanged,
      FailureCodeBetInsufficientFunds, ''insufficient funds for bet'', ''BET'', ''DEBIT'']"
  by code_simp

lemma rejected_event_step:
  assumes "metadata_ok md" "schema_ok db" "plain_bet t" "money_ok (E_decimal E) val (tx_amount t)"
    "E_uuid E n \<notin> ob_event_id ` set (outbox db)"
  obtains e where "createRejectedEvent E tx_context t md now (txw c ts n db) =
      (Inr (), txw c ts (Suc (Suc n)) (db\<lparr>outbox := outbox db @ [e]\<rparr>))" "ob_event_id e = E_uuid E n"
    "schema_ok (db\<lparr>outbox := outbox db @ [e]\<rparr>)"
proof -
  let ?d = "\<lparr>rd_TransactionID = tx_id t, rd_ProviderID = tx_providerID t, rd_ExternalTransactionID = tx_externalTransactionID t,
        rd_WalletID = tx_walletID t, rd_PlayerID = tx_playerID t, rd_RoundID = tx_roundID t, rd_GameID = tx_gameID t,
        rd_Kind = tx_type t, rd_Money = tx_amount t, rd_FailureCode = tx_failureCode t, rd_FailureMessage = tx_failureMessage t\<rparr>"
  obtain js where js: "json_moneys E [(''money'', tx_amount t)] = Inr js" "list_all (\<lambda>f. jsonb_ok (snd f)) js"
    using json_moneys_ok [of "[(''money'', tx_amount t)]"] assms(4) by auto
  obtain j where j: "marshal_rejected E ?d = Inr j" "jsonb_ok j"
    using js assms(3) text_constants zero_byte_simps(1)
    by (simp add: marshal_rejected_def json_uuid_ok omitempty_ok plain_bet_def del: json_moneys.simps)
  show thesis
  proof (rule event_step [where marshal = "marshal_rejected E" and d = ?d and j = j and md = md and db = db
        and ty = EventTypeWagerTransactionRejected and n = n and agg = "tx_id t" and now = now and c = c and ts = ts])
    fix e assume e: "bind_act (newEvent E EventTypeWagerTransactionRejected (tx_id t) md now ?d)
        (\<lambda>ev. OutboxRepository_Create E tx_context (Envelope (marshal_rejected E) ev)) (txw c ts n db) =
        (Inr (), txw c ts (Suc (Suc n)) (db\<lparr>outbox := outbox db @ [e]\<rparr>))"
      "ob_event_id e = E_uuid E n" "schema_ok (db\<lparr>outbox := outbox db @ [e]\<rparr>)"
    show thesis
      by (rule that [OF _ e(2,3)]) (use e(1) in \<open>simp add: createRejectedEvent_def NewWagerTransactionRejectedEvent_def\<close>)
  qed (use assms(1,2,5) j text_constants in simp_all)
qed

text \<open>A bet in flight is written back in its final state.\<close>

lemma bet_Update_step:
  assumes "schema_ok db" "bet_row val t \<in> set (wagers db)" "tx_status t = PENDING" "plain_bet t" "same_business_fields t t'"
    "tx_wf (E_decimal E) val t'" "plain_bet t'" "tx_status t' \<noteq> PENDING_REFERENCE"
    "\<And>b a. \<lbrakk>tx_balanceBefore t' = Some b; tx_balanceAfter t' = Some a\<rbrakk> \<Longrightarrow> cents val a = cents val b - cents val (tx_amount t')"
  obtains rows where "WagerRepository_Update E tx_context t' (txw c ts n db) = (Inr (), txw c ts (Suc n) (db\<lparr>wagers := rows\<rparr>))"
    "schema_ok (db\<lparr>wagers := rows\<rparr>)" "bet_row val t' \<in> set rows"
proof -
  let ?b = "map_option (cents val) (tx_balanceBefore t')" and ?a = "map_option (cents val) (tx_balanceAfter t')"
  let ?r = "bet_row val t" and ?f = "wager_assign t' (map_option (cents val) (tx_balanceBefore t')) (map_option (cents val) (tx_balanceAfter t'))"
  let ?rows = "map (\<lambda>x. if wg_id x = wg_id ?r then ?f x else x) (wagers db)"
  have f: "?f ?r = bet_row val t'" by (rule wager_assign_bet [OF assms(5)])
  have id: "wg_id ?r = tx_id t'" using assms(5) by (simp add: bet_row_def same_business_fields_def)
  have trig: "prevent_wager_transaction_mutation ?r (?f ?r) = None"
    unfolding f using assms(3,5)
    by (simp add: prevent_wager_transaction_mutation_def bet_row_def same_business_fields_def IsTerminal_def)
  have nr: "\<not> is_reversal ?r" "\<not> is_reversal (?f ?r)" "wg_reference_transaction_id (?f ?r) = None"
    unfolding f using assms(4,7) by (simp_all add: is_reversal_def bet_row_def plain_bet_def nullableUUID_def)
  have u: "update_wagers (\<lambda>x. wg_id x = wg_id ?r) ?f db = Inr (1, db\<lparr>wagers := ?rows\<rparr>)"
  proof (rule update_wagers_accepted [where r = ?r and f = ?f and db = db])
    show "wager_values (?f ?r) = None" unfolding f by (rule plain_bet_values [OF assms(6,7)])
    show "list_all (\<lambda>c. snd c (?f ?r)) wager_checks" unfolding f by (rule plain_bet_checks [OF assms(6,7,8,9)])
  qed (fact assms(1,2) trig nr)+
  show thesis
  proof (rule that [of ?rows])
    show "WagerRepository_Update E tx_context t' (txw c ts n db) = (Inr (), txw c ts (Suc n) (db\<lparr>wagers := ?rows\<rparr>))"
      using u tx_wf_numeric(2,3) [OF assms(6)] unfolding id by (intro Update_step) simp_all
    show "schema_ok (db\<lparr>wagers := ?rows\<rparr>)" by (rule update_wagers_schema [OF u assms(1)])
    have "?f ?r \<in> set ?rows" using assms(2) by force
    then show "bet_row val t' \<in> set ?rows" unfolding f .
  qed
qed

lemma reject_step:
  assumes db: "schema_ok db" "bet_row val t \<in> set (wagers db)" and t: "tx_status t = PENDING" "plain_bet t" "tx_wf (E_decimal E) val t"
    and now: "0 < now" "tx_updatedAt t \<le> now" and md: "metadata_ok md" and new: "E_uuid E (Suc n) \<notin> ob_event_id ` set (outbox db)"
  obtains t' db' where "reject E tx_context t (insufficientFundsRejection t) md now (txw c ts n db) = (Inr t', txw c ts (n + 3) db')"
    "tx_status t' = REJECTED" "tx_failureCode t' = FailureCodeBetInsufficientFunds" "tx_balanceBefore t' = None"
    "bet_row val t' \<in> set (wagers db')" "wallets db' = wallets db" "ledger db' = ledger db" "tx_id t' = tx_id t"
proof -
  let ?t' = "t\<lparr>tx_status := REJECTED, tx_updatedAt := now, tx_failureCode := FailureCodeBetInsufficientFunds,
      tx_failureMessage := ''insufficient funds for bet'', tx_completedAt := Some now\<rparr>"
  have rej: "insufficientFundsRejection t = \<lparr>rejection_code = FailureCodeBetInsufficientFunds,
            rejection_message = ''insufficient funds for bet''\<rparr>"
    using t(2) by (simp add: insufficientFundsRejection_def plain_bet_def)
  have trim: "TrimSpace FailureCodeBetInsufficientFunds \<noteq> []" by code_simp
  have m: "MarkRejected t FailureCodeBetInsufficientFunds ''insufficient funds for bet'' now = Inr ?t'"
    using t(1,2) now trim
    by (simp add: MarkRejected_def completeWithFailure_def transitionTo_def IsTerminal_def Status_IsValid_def validateTimestamp_def
        isAllowedWagerTransition_def plain_bet_def)
  note wf = MarkRejected_wf [OF m t(3)]
  have none: "tx_balanceBefore t = None"
    using t(1,3) tx_ok_external [of t "E_decimal E"] t(2) by (simp add: tx_wf_def plain_bet_def)
  have pb: "plain_bet ?t'" using t(2) text_constants by (simp add: plain_bet_def)
  have st: "tx_status ?t' \<noteq> PENDING_REFERENCE" by simp
  have bal: "cents val a = cents val b - cents val (tx_amount ?t')"
    if "tx_balanceBefore ?t' = Some b" "tx_balanceAfter ?t' = Some a" for a b using that none by simp
  obtain rows where u: "WagerRepository_Update E tx_context ?t' (txw c ts n db) = (Inr (), txw c ts (Suc n) (db\<lparr>wagers := rows\<rparr>))"
    "schema_ok (db\<lparr>wagers := rows\<rparr>)" "bet_row val ?t' \<in> set rows"
    using bet_Update_step [OF db t(1,2) wf(2,1) pb st bal] by metis
  have am: "money_ok (E_decimal E) val (tx_amount ?t')" using wf(1) by (simp add: tx_wf_def)
  obtain e where e: "createRejectedEvent E tx_context ?t' md now (txw c ts (Suc n) (db\<lparr>wagers := rows\<rparr>)) =
      (Inr (), txw c ts (Suc (Suc (Suc n))) (db\<lparr>wagers := rows, outbox := outbox db @ [e]\<rparr>))"
    using rejected_event_step [OF md u(2) pb am, of "Suc n" now c ts] new by auto
  show thesis
  proof (rule that [of ?t' "db\<lparr>wagers := rows, outbox := outbox db @ [e]\<rparr>"])
    show "reject E tx_context t (insufficientFundsRejection t) md now (txw c ts n db) =
        (Inr ?t', txw c ts (n + 3) (db\<lparr>wagers := rows, outbox := outbox db @ [e]\<rparr>))"
      by (simp add: reject_def rej m lift_sum_def bind_act_def u(1) e ret_def numeral_3_eq_3)
  qed (use none u(3) in simp_all)
qed

lemma processed_event_step:
  assumes "metadata_ok md" "schema_ok db" "plain_bet t" "money_ok (E_decimal E) val (tx_amount t)"
    "tx_balanceBefore t = Some b" "tx_balanceAfter t = Some a" "money_ok (E_decimal E) val b" "money_ok (E_decimal E) val a"
    "E_uuid E n \<notin> ob_event_id ` set (outbox db)"
  obtains e where "createProcessedEvent E tx_context t md now (txw c ts n db) =
      (Inr (), txw c ts (Suc (Suc n)) (db\<lparr>outbox := outbox db @ [e]\<rparr>))" "ob_event_id e = E_uuid E n"
    "schema_ok (db\<lparr>outbox := outbox db @ [e]\<rparr>)"
proof -
  obtain d where d: "processedEventData t = Inr d" "pd_TransactionID d = tx_id t" "pd_ProviderID d = tx_providerID t"
    "pd_ExternalTransactionID d = tx_externalTransactionID t" "pd_RoundID d = tx_roundID t" "pd_GameID d = tx_gameID t"
    "pd_Kind d = tx_type t" "pd_Money d = tx_amount t" "pd_BalanceBefore d = b" "pd_BalanceAfter d = a"
    by (simp add: processedEventData_def assms(5,6))
  obtain js where js: "json_moneys E [(''money'', tx_amount t), (''balanceBefore'', b), (''balanceAfter'', a)] = Inr js"
    "list_all (\<lambda>f. jsonb_ok (snd f)) js"
    using json_moneys_ok [of "[(''money'', tx_amount t), (''balanceBefore'', b), (''balanceAfter'', a)]"] assms(4,7,8) by auto
  obtain j where j: "marshal_processed E d = Inr j" "jsonb_ok j"
    using js assms(3) text_constants zero_byte_simps(1)
    by (simp add: marshal_processed_def d json_uuid_ok omitempty_ok plain_bet_def del: json_moneys.simps split: option.split)
  show thesis
  proof (rule event_step [where marshal = "marshal_processed E" and d = d and j = j and md = md and db = db
        and ty = EventTypeWagerTransactionProcessed and n = n and agg = "tx_id t" and now = now and c = c and ts = ts])
    fix e assume e: "bind_act (newEvent E EventTypeWagerTransactionProcessed (tx_id t) md now d)
        (\<lambda>ev. OutboxRepository_Create E tx_context (Envelope (marshal_processed E) ev)) (txw c ts n db) =
        (Inr (), txw c ts (Suc (Suc n)) (db\<lparr>outbox := outbox db @ [e]\<rparr>))"
      "ob_event_id e = E_uuid E n" "schema_ok (db\<lparr>outbox := outbox db @ [e]\<rparr>)"
    show thesis
      by (rule that [OF _ e(2,3)])
        (use e(1) in \<open>simp add: createProcessedEvent_def bind_lift d NewWagerTransactionProcessedEvent_def\<close>)
  qed (use assms(1,2,9) j text_constants in simp_all)
qed

lemma balance_event_step:
  assumes "metadata_ok md" "schema_ok db" "entry_ok (E_decimal E) val en" "entry_direction en = DEBIT"
    "E_uuid E n \<notin> ob_event_id ` set (outbox db)"
  obtains e where "createBalanceChangedEvent E tx_context wal en md now (txw c ts n db) =
      (Inr (), txw c ts (Suc (Suc n)) (db\<lparr>outbox := outbox db @ [e]\<rparr>))"
proof -
  let ?d = "balanceChangedEventData wal en"
  let ?ms = "[(''money'', entry_amount en), (''balanceBefore'', entry_balanceBefore en), (''balanceAfter'', entry_balanceAfter en)]"
  obtain js where js: "json_moneys E ?ms = Inr js" "list_all (\<lambda>f. jsonb_ok (snd f)) js"
    using json_moneys_ok [of ?ms] assms(3) by (auto simp: entry_ok_def)
  obtain j where j: "marshal_balance_changed E ?d = Inr j" "jsonb_ok j"
    using js assms(4) text_constants zero_byte_simps(1)
    by (simp add: marshal_balance_changed_def balanceChangedEventData_def json_uuid_ok del: json_moneys.simps)
  show thesis
  proof (rule event_step [where marshal = "marshal_balance_changed E" and d = ?d and j = j and md = md and db = db
        and ty = EventTypeWalletBalanceChanged and n = n and agg = "bd_WalletID ?d" and now = now and c = c and ts = ts])
    fix e assume e: "bind_act (newEvent E EventTypeWalletBalanceChanged (bd_WalletID ?d) md now ?d)
        (\<lambda>ev. OutboxRepository_Create E tx_context (Envelope (marshal_balance_changed E) ev)) (txw c ts n db) =
        (Inr (), txw c ts (Suc (Suc n)) (db\<lparr>outbox := outbox db @ [e]\<rparr>))"
    show thesis
      by (rule that [of e]) (use e in \<open>simp add: createBalanceChangedEvent_def NewWalletBalanceChangedEvent_def\<close>)
  qed (use assms(1,2,5) j text_constants in simp_all)
qed

text \<open>The wallet after a movement is written back.\<close>

lemma wallet_moved_step:
  assumes db: "schema_ok db" "r0 \<in> set (wallets db)" "scanWallet E r0 = Inr wal"
    and mv: "Wallet_Move (E_decimal E) dir wal amount now = Inr wal'" "money_ok (E_decimal E) val amount"
    and ver: "wr_version r0 + 1 < 2 ^ 63"
  defines "rows \<equiv> map (\<lambda>x. if wr_id x = wr_id r0 then wallet_assign wal' (cents val (wallet_balance wal')) x else x) (wallets db)"
  shows "WalletRepository_Update E tx_context wal' (txw c ts n db) = (Inr (), txw c ts (Suc n) (db\<lparr>wallets := rows\<rparr>))"
    "schema_ok (db\<lparr>wallets := rows\<rparr>)"
proof -
  note s = scanWallet_InrD [OF db(3)]
  have wok: "wallet_ok (E_decimal E) val wal" using s(8) ver by simp
  note m = Move_InrD [OF mv(1) wok mv(2)]
  have ver': "wallet_version wal + 1 < 2 ^ 63" using ver s(3) by simp
  note k = movement_wallet_ok [OF mv(1) wok mv(2) ver']
  have id: "wallet_id wal' = wr_id r0" "wallet_version wal' = wr_version r0 + 1" using Wallet_Move_id [OF mv(1)] s(1,3) k(2) by simp_all
  let ?b = "cents val (wallet_balance wal')"
  let ?m = "\<lambda>r. wr_id r = wallet_id wal' \<and> wr_version r = wallet_version wal' - 1"
  let ?f = "wallet_assign wal' ?b"
  have now: "wallet_updatedAt wal' = now" "wallet_createdAt wal' = wallet_createdAt wal" by (subst m(1), simp add: applyBalance_def)+
  have b: "0 \<le> ?b" "?b \<le> max_cents" "?b \<noteq> wr_balance r0" using m(2,5,6,7,10) s(7) by (cases dir; auto simp: money_ok_iff)+
  have cur: "currencyCodePattern (wr_currency r0)" "pg_text_ok (wr_currency r0)" "length (wr_currency r0) = 3"
    using s(6,9) currency_text [of "money_currency (wallet_balance wal)"]
    by (simp_all add: money_ok_iff Currency_IsValid_def Currency_Code_def)
  have v: "1 \<le> wr_version r0" using wok s(3) by (simp add: wallet_ok_def)
  have u: "update_wallets ?m ?f db = Inr (1, db\<lparr>wallets := map (\<lambda>x. if ?m x then ?f x else x) (wallets db)\<rparr>)"
  proof (rule update_wallets_accepted [OF db(1,2)])
    show "wallet_values (?f r0) = None"
      using b cur v ver id by (simp add: wallet_values_def wallet_assign_def numeric_20_2_def in_int64_def)
    show "list_all (\<lambda>c. snd c (?f r0)) wallet_checks"
      using b(1) cur(1) v id now m(9) s(4,5) wok by (simp add: wallet_checks_def wallet_assign_def wallet_ok_def)
    show "enforce_wallet_update_rules r0 (?f r0) = None"
      using b(3) id by (simp add: enforce_wallet_update_rules_def wallet_assign_def)
  qed (use id in simp_all)
  have "map (\<lambda>x. if ?m x then ?f x else x) (wallets db) = rows"
    unfolding rows_def using schema_wallet_unique [OF db(1) _ db(2)] id by (intro map_cong refl) auto
  then have u': "update_wallets ?m ?f db = Inr (1, db\<lparr>wallets := rows\<rparr>)" using u by simp
  show "WalletRepository_Update E tx_context wal' (txw c ts n db) = (Inr (), txw c ts (Suc n) (db\<lparr>wallets := rows\<rparr>))"
    by (rule wallet_Update_step [OF _ _ u']) (use m(2) id v ver in \<open>simp_all add: numeric_arg_ok money_ok_def in_int64_def\<close>)
  show "schema_ok (db\<lparr>wallets := rows\<rparr>)" by (rule update_wallets_schema [OF u' db(1)])
qed

lemma entry_step:
  assumes "schema_ok db" "entry_ok (E_decimal E) val en"
    "\<forall>x \<in> set (ledger db). lr_id x \<noteq> entry_id en \<and> lr_transaction_id x \<noteq> entry_transactionID en"
    "\<exists>x \<in> set (wallets db). wr_id x = entry_walletID en \<and> wr_currency x = Currency_Code (money_currency (entry_amount en))"
    "\<exists>x \<in> set (wagers db). wg_id x = entry_transactionID en \<and> wg_wallet_id x = entry_walletID en \<and>
        wg_currency x = Currency_Code (money_currency (entry_amount en))"
  obtains l where "WalletLedgerRepository_Create E tx_context en (txw c ts n db) =
      (Inr (), txw c ts (Suc n) (db\<lparr>ledger := ledger db @ [l]\<rparr>))" "schema_ok (db\<lparr>ledger := ledger db @ [l]\<rparr>)"
    "lr_amount l = cents val (entry_amount en)" "lr_transaction_id l = entry_transactionID en" "lr_direction l = entry_direction en"
    "lr_balance_before l = cents val (entry_balanceBefore en)" "lr_balance_after l = cents val (entry_balanceAfter en)"
proof -
  have m: "money_ok (E_decimal E) val (entry_amount en)" "money_ok (E_decimal E) val (entry_balanceBefore en)"
    "money_ok (E_decimal E) val (entry_balanceAfter en)" using assms(2) by (simp_all add: entry_ok_def)
  have num: "numeric_arg E x = Inr (cents val x) \<and> numeric_20_2 (cents val x)" if "money_ok (E_decimal E) val x" for x
    using that by (auto simp: numeric_arg_ok money_ok_iff numeric_20_2_def)
  have cur: "currencyCodePattern (Currency_Code (money_currency (entry_amount en)))"
    "pg_text_ok (Currency_Code (money_currency (entry_amount en)))" "length (Currency_Code (money_currency (entry_amount en))) = 3"
    using m(1) currency_text [of "money_currency (entry_amount en)"]
    by (simp_all add: money_ok_iff Currency_IsValid_def Currency_Code_def)
  obtain l where l: "ledger_row_of E en = Inr l" using num [OF m(1)] num [OF m(2)] num [OF m(3)] by (simp add: ledger_row_of_def)
  note f = ledger_row_of_ok [OF l assms(2)]
  have g: "lr_id l = entry_id en" "lr_currency l = Currency_Code (money_currency (entry_amount en))"
    using l num [OF m(1)] num [OF m(2)] num [OF m(3)] by (auto simp: ledger_row_of_def)
  have i: "insert_ledger l db = Inr (1, db\<lparr>ledger := ledger db @ [l]\<rparr>)"
  proof (rule insert_ledger_accepted [OF assms(1)])
    show "ledger_values l = None"
      using f g cur num [OF m(1)] num [OF m(2)] num [OF m(3)] assms(2) by (simp add: ledger_values_def entry_ok_def)
    show "list_all (\<lambda>c. snd c l) ledger_checks"
      using f g cur assms(2) by (cases "entry_direction en") (simp_all add: ledger_checks_def entry_ok_def)
  qed (use assms(3-5) f g in \<open>auto simp: fk_ledger_wallet_def fk_ledger_transaction_def list_ex_iff\<close>)
  show thesis by (rule that [OF ledger_Create_step [OF l i] insert_ledger_schema [OF i assms(1)] f(4,2,3,5,6)])
qed

end

end
