(* ===== verification/Bet_Settlement.thy ===== *)
theory Bet_Settlement
  imports Bet_Steps Storage_Correctness
begin

text \<open>
  What becomes of a bet: a command that meets the rules of the domain, for a wallet the database holds, is
  decided by \<^verbatim>\<open>Process\<close> when the database answers every request.
\<close>

section \<open>The decision\<close>

text \<open>
  What a decided bet says and leaves behind, for the row of its wallet and the hundredths of its amount: a
  processed bet took the amount from the balance and wrote it to the ledger, a rejected one moved nothing.
\<close>

definition bet_decided :: "('d \<Rightarrow> rat) \<Rightarrow> wallet_row \<Rightarrow> int \<Rightarrow> 'd ProcessWagerResult \<Rightarrow> DB \<Rightarrow> DB \<Rightarrow> bool" where
  "bet_decided val r amount res db db' \<longleftrightarrow>
     \<not> pr_IdempotentReplay res \<and>
     (\<exists>x \<in> set (wagers db'). wg_id x = pr_TransactionID res \<and> wg_status x = pr_Status res) \<and>
     (if amount \<le> wr_balance r
      then pr_Status res = PROCESSED \<and>
        map_option (cents val) (pr_BalanceBefore res) = Some (wr_balance r) \<and>
        map_option (cents val) (pr_BalanceAfter res) = Some (wr_balance r - amount) \<and>
        (\<exists>t. wallets db' = map (\<lambda>x. if wr_id x = wr_id r
            then x\<lparr>wr_balance := wr_balance r - amount, wr_version := wr_version r + 1, wr_updated_at := t\<rparr> else x) (wallets db)) \<and>
        (\<exists>l. ledger db' = ledger db @ [l] \<and> lr_transaction_id l = pr_TransactionID res \<and> lr_direction l = DEBIT \<and>
           lr_amount l = amount)
      else pr_Status res = REJECTED \<and> pr_FailureCode res = FailureCodeBetInsufficientFunds \<and>
        wallets db' = wallets db \<and> ledger db' = ledger db)"

text \<open>The pending transaction of a bet.\<close>

definition bet_new :: "'d wagerRequest \<Rightarrow> uuid \<Rightarrow> time \<Rightarrow> 'd WagerTransaction" where
  "bet_new req uid t =
     \<lparr>tx_id = uid, tx_providerID = cmd_ProviderID (req_command req),
      tx_externalTransactionID = cmd_ExternalTransactionID (req_command req), tx_idempotencyKey = cmd_IdempotencyKey (req_command req),
      tx_payloadHash = req_payloadHash req, tx_walletID = req_walletID req, tx_playerID = req_playerID req,
      tx_roundID = cmd_RoundID (req_command req), tx_gameID = cmd_GameID (req_command req), tx_type = BET, tx_amount = req_amount req,
      tx_referenceExternalTransactionID = [], tx_referenceTransactionID = uuid_Nil, tx_referenceTransactionType = NoType,
      tx_status = PENDING, tx_failureCode = [], tx_failureMessage = [], tx_balanceBefore = None, tx_balanceAfter = None,
      tx_createdAt = t, tx_updatedAt = t, tx_completedAt = None\<rparr>"

text \<open>What \<^verbatim>\<open>applyMovement\<close> needs of the database and the bet.\<close>

definition bet_ready :: "'d Env \<Rightarrow> ('d \<Rightarrow> rat) \<Rightarrow> DB \<Rightarrow> 'd WagerTransaction \<Rightarrow> 'd Wallet \<Rightarrow> wallet_row \<Rightarrow> time \<Rightarrow> nat \<Rightarrow> bool" where
  "bet_ready E val db t wal r now n \<longleftrightarrow>
     schema_ok db \<and> bet_row val t \<in> set (wagers db) \<and> r \<in> set (wallets db) \<and> scanWallet E r = Inr wal \<and>
     tx_status t = PENDING \<and> plain_bet t \<and> tx_wf (E_decimal E) val t \<and> tx_walletID t = wr_id r \<and>
     money_currency (wallet_balance wal) = money_currency (tx_amount t) \<and>
     0 < now \<and> tx_updatedAt t \<le> now \<and> wr_updated_at r \<le> now \<and> wr_version r + 1 < 2 ^ 63 \<and>
     (\<forall>x \<in> set (ledger db). lr_id x \<noteq> E_uuid E (n + 2) \<and> lr_transaction_id x \<noteq> tx_id t) \<and> E_uuid E (n + 2) \<noteq> 0 \<and>
     E_uuid E (n + 1) \<notin> ob_event_id ` set (outbox db) \<and> E_uuid E (n + 4) \<notin> ob_event_id ` set (outbox db) \<and>
     E_uuid E (n + 6) \<notin> ob_event_id ` set (outbox db) \<and> E_uuid E (n + 4) \<noteq> E_uuid E (n + 6)"

context answering
begin

text \<open>The bet a debit processes.\<close>

abbreviation bet_after :: "'d WagerTransaction \<Rightarrow> 'd Wallet \<Rightarrow> 'd Wallet \<Rightarrow> time \<Rightarrow> 'd WagerTransaction" where
  "bet_after t wal wal' now \<equiv>
     t\<lparr>tx_status := PROCESSED, tx_updatedAt := now, tx_balanceBefore := Some (wallet_balance wal),
       tx_balanceAfter := Some (wallet_balance wal'), tx_completedAt := Some now\<rparr>"

lemma bet_processed:
  assumes wok: "wallet_ok (E_decimal E) val wal" and t: "tx_status t = PENDING" "plain_bet t" "tx_wf (E_decimal E) val t"
    and mv: "Wallet_Move (E_decimal E) DEBIT wal (tx_amount t) now = Inr wal'" and now: "tx_updatedAt t \<le> now"
  shows "MarkProcessed (E_decimal E) t (wallet_balance wal) (wallet_balance wal') now = Inr (bet_after t wal wal' now)"
    "tx_wf (E_decimal E) val (bet_after t wal wal' now)" "plain_bet (bet_after t wal wal' now)"
    "same_business_fields t (bet_after t wal wal' now)"
    "money_ok (E_decimal E) val (tx_amount t)" "money_ok (E_decimal E) val (wallet_balance wal')"
    "cents val (wallet_balance wal') = cents val (wallet_balance wal) - cents val (tx_amount t)"
proof -
  show am: "money_ok (E_decimal E) val (tx_amount t)" using t(3) by (simp add: tx_wf_def)
  note m = Move_InrD [OF mv wok am]
  show "money_ok (E_decimal E) val (wallet_balance wal')" by (rule m(2))
  show "cents val (wallet_balance wal') = cents val (wallet_balance wal) - cents val (tx_amount t)" using m(5) by simp
  have bet: "tx_type t = BET" "tx_referenceExternalTransactionID t = []" "tx_referenceTransactionID t = 0"
    using t(2) by (simp_all add: plain_bet_def)
  have "validateObservedBalances (E_decimal E) t (wallet_balance wal) (wallet_balance wal') = None"
    using m wallet_okD [OF wok] sign_cents bet(1)
    by (simp add: validateObservedBalances_def Currency_Equal_def money_ok_def)
  then show mp: "MarkProcessed (E_decimal E) t (wallet_balance wal) (wallet_balance wal') now = Inr (bet_after t wal wal' now)"
    using t(1) bet m(8) now
    by (simp add: MarkProcessed_def validateReferenceReady_def transitionTo_def IsTerminal_def Status_IsValid_def
        validateTimestamp_def isAllowedWagerTransition_def type_simps)
  show "tx_wf (E_decimal E) val (bet_after t wal wal' now)" "same_business_fields t (bet_after t wal wal' now)"
    using MarkProcessed_wf [OF mp t(3) wallet_okD(1) [OF wok] m(2)] by simp_all
  show "plain_bet (bet_after t wal wal' now)" using t(2) by (simp add: plain_bet_def)
qed

text \<open>The writes of the wallet and the bet.\<close>

lemma bet_rows_step:
  assumes db: "schema_ok db" "bet_row val t \<in> set (wagers db)" "r \<in> set (wallets db)" "scanWallet E r = Inr wal"
    and t: "tx_status t = PENDING" "plain_bet t" "tx_wf (E_decimal E) val t" "tx_walletID t = wr_id r"
    and mv: "Wallet_Move (E_decimal E) DEBIT wal (tx_amount t) now = Inr wal'" and now: "tx_updatedAt t \<le> now"
    and ver: "wr_version r + 1 < 2 ^ 63"
  defines "wrows \<equiv> map (\<lambda>x. if wr_id x = wr_id r then wallet_assign wal' (cents val (wallet_balance wal')) x else x) (wallets db)"
  obtains rows where
    "WalletRepository_Update E tx_context wal' (txw c ts n db) = (Inr (), txw c ts (Suc n) (db\<lparr>wallets := wrows\<rparr>))"
    "WagerRepository_Update E tx_context (bet_after t wal wal' now) (txw c ts (Suc n) (db\<lparr>wallets := wrows\<rparr>)) =
       (Inr (), txw c ts (n + 2) (db\<lparr>wallets := wrows, wagers := rows\<rparr>))"
    "schema_ok (db\<lparr>wallets := wrows, wagers := rows\<rparr>)" "bet_row val (bet_after t wal wal' now) \<in> set rows"
    "\<exists>x \<in> set wrows. wr_id x = wr_id r \<and> wr_currency x = wr_currency r"
proof -
  have wok: "wallet_ok (E_decimal E) val wal" using scanWallet_InrD(8) [OF db(4)] ver by simp
  note p = bet_processed [OF wok t(1-3) mv now]
  note w = wallet_moved_step [OF db(1,3,4) mv p(5) ver, folded wrows_def]
  let ?t = "bet_after t wal wal' now"
  have in1: "bet_row val t \<in> set (wagers (db\<lparr>wallets := wrows\<rparr>))" using db(2) by simp
  have st: "tx_status ?t \<noteq> PENDING_REFERENCE" by simp
  have bal: "cents val a = cents val b - cents val (tx_amount ?t)"
    if "tx_balanceBefore ?t = Some b" "tx_balanceAfter ?t = Some a" for a b using that p(7) by simp
  obtain rows where u: "WagerRepository_Update E tx_context ?t (txw c ts (Suc n) (db\<lparr>wallets := wrows\<rparr>)) =
      (Inr (), txw c ts (Suc (Suc n)) (db\<lparr>wallets := wrows, wagers := rows\<rparr>))"
    "schema_ok (db\<lparr>wallets := wrows, wagers := rows\<rparr>)" "bet_row val ?t \<in> set rows"
    by (rule bet_Update_step [where n = "Suc n" and c = c and ts = ts, OF w(2) in1 t(1,2) p(4,2,3) st bal])
  have "wallet_assign wal' (cents val (wallet_balance wal')) r \<in> set wrows" using db(3) by (force simp: wrows_def)
  from this have "\<exists>x \<in> set wrows. wr_id x = wr_id r \<and> wr_currency x = wr_currency r"
    by (rule bexI [rotated]) (simp add: wallet_assign_def)
  with u w(1) that [of rows] show thesis by simp
qed

text \<open>The ledger entry and the events.\<close>

lemma bet_entry_step:
  assumes db: "schema_ok db" "bet_row val t' \<in> set (wagers db)"
      "\<exists>x \<in> set (wallets db). wr_id x = wallet_id wal \<and> wr_currency x = Currency_Code (money_currency (wallet_balance wal))"
    and t': "tx_walletID t' = wallet_id wal" "tx_id t' \<noteq> 0" "money_ok (E_decimal E) val (tx_amount t')" "plain_bet t'"
      "tx_balanceBefore t' = Some (wallet_balance wal)" "tx_balanceAfter t' = Some (wallet_balance wal')"
    and wok: "wallet_ok (E_decimal E) val wal" and mv: "Wallet_Move (E_decimal E) DEBIT wal (tx_amount t') now = Inr wal'"
    and md: "metadata_ok md"
    and new: "\<forall>x \<in> set (ledger db). lr_id x \<noteq> uid \<and> lr_transaction_id x \<noteq> tx_id t'" "uid \<noteq> 0"
      "E_uuid E (n + 1) \<notin> ob_event_id ` set (outbox db)" "E_uuid E (n + 3) \<notin> ob_event_id ` set (outbox db)"
      "E_uuid E (n + 1) \<noteq> E_uuid E (n + 3)"
  obtains en l evs where "NewWalletLedgerEntry (E_decimal E) uid (wallet_id wal') (tx_id t') DEBIT (tx_amount t')
      (wallet_balance wal) (wallet_balance wal') now = Inr en"
    "bind_act (WalletLedgerRepository_Create E tx_context en) (\<lambda>_. bind_act (createProcessedEvent E tx_context t' md now) (\<lambda>_.
       bind_act (createBalanceChangedEvent E tx_context wal' en md now) (\<lambda>_. ret t'))) (txw c ts n db) =
       (Inr t', txw c ts (n + 5) (db\<lparr>ledger := ledger db @ [l], outbox := outbox db @ evs\<rparr>))"
    "lr_transaction_id l = tx_id t'" "lr_direction l = DEBIT" "lr_amount l = cents val (tx_amount t')"
proof -
  note m = Move_InrD [OF mv wok t'(3)]
  obtain en where en: "NewWalletLedgerEntry (E_decimal E) uid (wallet_id wal') (tx_id t') DEBIT (tx_amount t')
      (wallet_balance wal) (wallet_balance wal') now = Inr en" "entry_ok (E_decimal E) val en"
    using movement_entry [OF mv wok t'(3) new(2) t'(2)] by auto
  have ef: "entry_id en = uid" "entry_walletID en = wallet_id wal" "entry_transactionID en = tx_id t'"
    "entry_direction en = DEBIT" "entry_amount en = tx_amount t'"
    using iffD1 [OF build_entry_iff [OF t'(3) wallet_okD(1) [OF wok] m(2)] en(1) [unfolded NewWalletLedgerEntry_def]]
      Wallet_Move_id [OF mv] by auto
  have e1: "\<forall>x \<in> set (ledger db). lr_id x \<noteq> entry_id en \<and> lr_transaction_id x \<noteq> entry_transactionID en"
    using new(1) ef by simp
  have e2: "\<exists>x \<in> set (wallets db). wr_id x = entry_walletID en \<and> wr_currency x = Currency_Code (money_currency (entry_amount en))"
    using db(3) ef m(4) by simp
  have e3: "\<exists>x \<in> set (wagers db). wg_id x = entry_transactionID en \<and> wg_wallet_id x = entry_walletID en \<and>
        wg_currency x = Currency_Code (money_currency (entry_amount en))"
    using db(2) ef t'(1) by (intro bexI [of _ "bet_row val t'"]) (simp_all add: bet_row_def)
  obtain l where l: "WalletLedgerRepository_Create E tx_context en (txw c ts n db) =
      (Inr (), txw c ts (Suc n) (db\<lparr>ledger := ledger db @ [l]\<rparr>))" "schema_ok (db\<lparr>ledger := ledger db @ [l]\<rparr>)"
    "lr_amount l = cents val (entry_amount en)" "lr_transaction_id l = entry_transactionID en" "lr_direction l = entry_direction en"
    using entry_step [OF db(1) en(2) e1 e2 e3, of c n ts] by metis
  let ?db1 = "db\<lparr>ledger := ledger db @ [l]\<rparr>"
  obtain ev where ev: "createProcessedEvent E tx_context t' md now (txw c ts (Suc n) ?db1) =
      (Inr (), txw c ts (Suc (Suc (Suc n))) (?db1\<lparr>outbox := outbox ?db1 @ [ev]\<rparr>))" "ob_event_id ev = E_uuid E (Suc n)"
    "schema_ok (?db1\<lparr>outbox := outbox ?db1 @ [ev]\<rparr>)"
    by (rule processed_event_step [where n = "Suc n" and now = now and c = c and ts = ts,
        OF md l(2) t'(4,3,5,6) wallet_okD(1) [OF wok] m(2)]) (use new(3) in simp_all)
  obtain ev2 where ev2: "createBalanceChangedEvent E tx_context wal' en md now (txw c ts (n + 3) (?db1\<lparr>outbox := outbox ?db1 @ [ev]\<rparr>)) =
      (Inr (), txw c ts (n + 5) (?db1\<lparr>outbox := outbox ?db1 @ [ev, ev2]\<rparr>))"
    by (rule balance_event_step [where n = "n + 3" and now = now and c = c and ts = ts and wal = wal', OF md ev(3) en(2) ef(4)])
      (use new(4,5) ev(2) in \<open>simp_all add: numeral_eq_Suc\<close>)
  show thesis
    by (rule that [where en = en and l = l and evs = "[ev, ev2]"]) (use en(1) l ev(1) ev2 ef in \<open>simp_all add: bind_act_def ret_def numeral_3_eq_3\<close>)
qed

lemma Debit_decides:
  assumes "wallet_ok (E_decimal E) val wal" "money_ok (E_decimal E) val a" "0 < cents val a"
    "money_currency (wallet_balance wal) = money_currency a" "t \<noteq> 0" "wallet_updatedAt wal \<le> t"
  shows "cents val (wallet_balance wal) < cents val a \<Longrightarrow>
      Wallet_Move (E_decimal E) DEBIT wal a t = Inl (DomainErr ErrInsufficientFunds)"
    "cents val a \<le> cents val (wallet_balance wal) \<Longrightarrow> \<exists>wal'. Wallet_Move (E_decimal E) DEBIT wal a t = Inr wal'"
proof -
  have "validateMovement (E_decimal E) wal a t = None"
    using assms by (simp add: validateMovement_ok)
  then show "cents val (wallet_balance wal) < cents val a \<Longrightarrow>
      Wallet_Move (E_decimal E) DEBIT wal a t = Inl (DomainErr ErrInsufficientFunds)"
    "cents val a \<le> cents val (wallet_balance wal) \<Longrightarrow> \<exists>wal'. Wallet_Move (E_decimal E) DEBIT wal a t = Inr wal'"
    using assms(1,2) by (simp_all add: Wallet_Move_def Debit_ok)
qed

lemma bet_ready_wallet:
  assumes "bet_ready E val db t wal r now n"
  shows "wallet_ok (E_decimal E) val wal" "cents val (wallet_balance wal) = wr_balance r" "wallet_id wal = wr_id r"
    "wr_currency r = Currency_Code (money_currency (wallet_balance wal))" "wallet_updatedAt wal \<le> now"
    "money_ok (E_decimal E) val (tx_amount t)" "0 < cents val (tx_amount t)" "tx_id t \<noteq> 0" "tx_type t = BET"
proof -
  have s: "scanWallet E r = Inr wal" "wr_version r + 1 < 2 ^ 63" "wr_updated_at r \<le> now" "plain_bet t"
    "tx_wf (E_decimal E) val t" using assms by (simp_all add: bet_ready_def)
  note d = scanWallet_InrD [OF s(1)]
  show "wallet_ok (E_decimal E) val wal" "cents val (wallet_balance wal) = wr_balance r" "wallet_id wal = wr_id r"
    "wr_currency r = Currency_Code (money_currency (wallet_balance wal))" "wallet_updatedAt wal \<le> now"
    using d s(2,3) by simp_all
  show bet: "tx_type t = BET" using s(4) by (simp add: plain_bet_def)
  show am: "money_ok (E_decimal E) val (tx_amount t)" using s(5) by (simp add: tx_wf_def)
  have "external_core (E_decimal E) t" using s(5) bet by (simp add: tx_wf_def tx_ok_external)
  then show "tx_id t \<noteq> 0" "0 < cents val (tx_amount t)"
    using bet am sign_cents [of "tx_amount t"]
    by (auto simp: external_core_def validateWagerAmount_def money_ok_def split: if_splits)
qed

lemma moved_row:
  assumes rd: "bet_ready E val db t wal r now n" and mv: "Wallet_Move (E_decimal E) DEBIT wal (tx_amount t) now = Inr wal'"
    and b: "cents val (wallet_balance wal') = cents val (wallet_balance wal) - cents val (tx_amount t)"
  shows "wallet_assign wal' (cents val (wallet_balance wal')) x =
      x\<lparr>wr_balance := wr_balance r - cents val (tx_amount t), wr_version := wr_version r + 1, wr_updated_at := wallet_updatedAt wal'\<rparr>"
proof -
  have "scanWallet E r = Inr wal" "wr_version r + 1 < 2 ^ 63" using rd by (simp_all add: bet_ready_def)
  then show ?thesis
    using b bet_ready_wallet(2) [OF rd] movement_wallet_ok(2) [OF mv bet_ready_wallet(1,6) [OF rd]] scanWallet_InrD(3)
    by (simp add: wallet_assign_def)
qed

lemma bet_accepted:
  assumes rd: "bet_ready E val db t wal r now n" and md: "metadata_ok md" and funds: "cents val (tx_amount t) \<le> wr_balance r"
  obtains t' db' where "applyMovement E tx_context wal t md now (txw c ts n db) = (Inr t', txw c ts (n + 8) db')"
    "bet_decided val r (cents val (tx_amount t)) (resultFromWager t' False) db db'"
proof -
  note w = bet_ready_wallet [OF rd]
  have f: "schema_ok db" "bet_row val t \<in> set (wagers db)" "r \<in> set (wallets db)" "scanWallet E r = Inr wal"
    "tx_status t = PENDING" "plain_bet t" "tx_wf (E_decimal E) val t" "tx_walletID t = wr_id r"
    "money_currency (wallet_balance wal) = money_currency (tx_amount t)" "0 < now" "tx_updatedAt t \<le> now" "wr_version r + 1 < 2 ^ 63"
    using rd by (simp_all add: bet_ready_def)
  obtain wal' where mv: "Wallet_Move (E_decimal E) DEBIT wal (tx_amount t) now = Inr wal'"
    using Debit_decides(2) [OF w(1,6,7) f(9) _ w(5)] funds w(2) f(10) by auto
  note p = bet_processed [OF w(1) f(5-7) mv f(11)]
  let ?t = "bet_after t wal wal' now"
  let ?wrows = "map (\<lambda>x. if wr_id x = wr_id r then wallet_assign wal' (cents val (wallet_balance wal')) x else x) (wallets db)"
  obtain rows where u: "WalletRepository_Update E tx_context wal' (txw c ts n db) = (Inr (), txw c ts (Suc n) (db\<lparr>wallets := ?wrows\<rparr>))"
    "WagerRepository_Update E tx_context ?t (txw c ts (Suc n) (db\<lparr>wallets := ?wrows\<rparr>)) =
       (Inr (), txw c ts (n + 2) (db\<lparr>wallets := ?wrows, wagers := rows\<rparr>))"
    "schema_ok (db\<lparr>wallets := ?wrows, wagers := rows\<rparr>)" "bet_row val ?t \<in> set rows"
    "\<exists>x \<in> set ?wrows. wr_id x = wr_id r \<and> wr_currency x = wr_currency r"
    by (rule bet_rows_step [where c = c and ts = ts and n = n, OF f(1-8) mv f(11,12)])
  let ?db = "db\<lparr>wallets := ?wrows, wagers := rows\<rparr>"
  obtain en l evs where en: "NewWalletLedgerEntry (E_decimal E) (E_uuid E (n + 2)) (wallet_id wal') (tx_id t) DEBIT (tx_amount t)
      (wallet_balance wal) (wallet_balance wal') now = Inr en"
    "bind_act (WalletLedgerRepository_Create E tx_context en) (\<lambda>_. bind_act (createProcessedEvent E tx_context ?t md now) (\<lambda>_.
       bind_act (createBalanceChangedEvent E tx_context wal' en md now) (\<lambda>_. ret ?t))) (txw c ts (n + 3) ?db) =
       (Inr ?t, txw c ts (n + 8) (?db\<lparr>ledger := ledger db @ [l], outbox := outbox db @ evs\<rparr>))"
    "lr_transaction_id l = tx_id t" "lr_direction l = DEBIT" "lr_amount l = cents val (tx_amount t)"
    by (rule bet_entry_step [where c = c and ts = ts and n = "n + 3" and uid = "E_uuid E (n + 2)" and db = ?db and t' = ?t
          and wal = wal and wal' = wal' and now = now and md = md])
      (use u rd md mv p(3) w in \<open>simp_all add: bet_ready_def numeral_eq_Suc\<close>)
  show thesis
  proof (rule that [of ?t "?db\<lparr>ledger := ledger db @ [l], outbox := outbox db @ evs\<rparr>"])
    have dir: "MovementDirection t = Inr (DEBIT, True)" by (simp add: MovementDirection_def w(9))
    have plus: "n + 3 = Suc (Suc (Suc n))" "n + 2 = Suc (Suc n)" by simp_all
    show "applyMovement E tx_context wal t md now (txw c ts n db) =
        (Inr ?t, txw c ts (n + 8) (?db\<lparr>ledger := ledger db @ [l], outbox := outbox db @ evs\<rparr>))"
      using en(2) [unfolded plus] unfolding applyMovement_def dir bind_lift prod.case Let_def
      by (simp add: match_act_def lift_sum_def mv bind_act_step [OF refl] bind_act_def [of "lift_sum x" for x] p(1)
          bind_act_def [of "WalletRepository_Update E tx_context wal'"] u(1) bind_act_def [of "WagerRepository_Update E tx_context x" for x]
          u(2) bind_act_def [of "uuid_New E"] uuid_step en(1) [unfolded plus])
    show "bet_decided val r (cents val (tx_amount t)) (resultFromWager ?t False) db
        (?db\<lparr>ledger := ledger db @ [l], outbox := outbox db @ evs\<rparr>)"
      using u(4) en(3-5) p(7) w(2) funds moved_row [OF rd mv p(7)]
      by (auto simp: bet_decided_def resultFromWager_def bet_row_def intro!: bexI [of _ "bet_row val ?t"])
  qed
qed

lemma bet_refused:
  assumes rd: "bet_ready E val db t wal r now n" and md: "metadata_ok md" and funds: "wr_balance r < cents val (tx_amount t)"
  obtains t' db' where "applyMovement E tx_context wal t md now (txw c ts n db) = (Inr t', txw c ts (n + 3) db')"
    "bet_decided val r (cents val (tx_amount t)) (resultFromWager t' False) db db'"
proof -
  note w = bet_ready_wallet [OF rd]
  have f: "schema_ok db" "bet_row val t \<in> set (wagers db)" "tx_status t = PENDING" "plain_bet t" "tx_wf (E_decimal E) val t"
    "0 < now" "tx_updatedAt t \<le> now" "money_currency (wallet_balance wal) = money_currency (tx_amount t)"
    "E_uuid E (Suc n) \<notin> ob_event_id ` set (outbox db)"
    using rd by (simp_all add: bet_ready_def)
  have mv: "Wallet_Move (E_decimal E) DEBIT wal (tx_amount t) now = Inl (DomainErr ErrInsufficientFunds)"
    using Debit_decides(1) [OF w(1,6,7) f(8) _ w(5)] funds w(2) f(6) by simp
  obtain t' db' where r: "reject E tx_context t (insufficientFundsRejection t) md now (txw c ts n db) = (Inr t', txw c ts (n + 3) db')"
    "tx_status t' = REJECTED" "tx_failureCode t' = FailureCodeBetInsufficientFunds" "tx_balanceBefore t' = None"
    "bet_row val t' \<in> set (wagers db')" "wallets db' = wallets db" "ledger db' = ledger db" "tx_id t' = tx_id t"
    by (rule reject_step [where c = c and ts = ts, OF f(1-7) md f(9)])
  show thesis
  proof (rule that [of t' db'])
    have dir: "MovementDirection t = Inr (DEBIT, True)" by (simp add: MovementDirection_def w(9))
    show "applyMovement E tx_context wal t md now (txw c ts n db) = (Inr t', txw c ts (n + 3) db')"
      unfolding applyMovement_def dir bind_lift prod.case Let_def
      by (simp add: match_act_def lift_sum_def mv r(1))
    show "bet_decided val r (cents val (tx_amount t)) (resultFromWager t' False) db db'"
      using r(2-8) funds by (auto simp: bet_decided_def resultFromWager_def bet_row_def intro!: bexI [of _ "bet_row val t'"])
  qed
qed

end

text \<open>A bet as a provider may send it.\<close>

definition bet_request :: "'d Env \<Rightarrow> ProcessWagerCommand \<Rightarrow> 'd wagerRequest \<Rightarrow> bool" where
  "bet_request E command req \<longleftrightarrow>
     parseWagerRequest E command = Inr req \<and> cmd_Type command = ''BET'' \<and> cmd_ReferenceExternalTransactionID command = [] \<and>
     list_all (\<lambda>s. isValidIdentifier s \<and> pg_text_ok s)
       [cmd_ProviderID command, cmd_ExternalTransactionID command, cmd_IdempotencyKey command, cmd_RoundID command, cmd_GameID command] \<and>
     Money_IsPositive (E_decimal E) (req_amount req)"

text \<open>The database does not know the provider's identifiers of the command.\<close>

definition new_to :: "DB \<Rightarrow> ProcessWagerCommand \<Rightarrow> bool" where
  "new_to db command \<longleftrightarrow>
     (\<forall>x \<in> set (wagers db). wg_provider_id x = Some (cmd_ProviderID command) \<longrightarrow>
        wg_external_transaction_id x \<noteq> Some (cmd_ExternalTransactionID command) \<and>
        wg_idempotency_key x \<noteq> Some (cmd_IdempotencyKey command))"

text \<open>The identifiers the next draws give are new.\<close>

definition fresh_ids :: "'d Env \<Rightarrow> nat \<Rightarrow> DB \<Rightarrow> bool" where
  "fresh_ids E k db \<longleftrightarrow>
     distinct (map (E_uuid E) [k ..< k + 13]) \<and>
     list_all (\<lambda>i. E_uuid E i \<noteq> uuid_Nil \<and> E_uuid E i \<notin> wg_id ` set (wagers db) \<and> E_uuid E i \<notin> lr_id ` set (ledger db) \<and>
       E_uuid E i \<notin> ob_event_id ` set (outbox db)) [k ..< k + 13]"

lemma fresh_idsD:
  assumes "fresh_ids E k db" "i < 13"
  shows "E_uuid E (k + i) \<noteq> 0" "E_uuid E (k + i) \<notin> wg_id ` set (wagers db)" "E_uuid E (k + i) \<notin> lr_id ` set (ledger db)"
    "E_uuid E (k + i) \<notin> ob_event_id ` set (outbox db)"
proof -
  have "k + i \<in> set [k ..< k + 13]" using assms(2) unfolding set_upt by simp
  from bspec [OF assms(1) [unfolded fresh_ids_def list_all_iff, THEN conjunct2] this]
  show "E_uuid E (k + i) \<noteq> 0" "E_uuid E (k + i) \<notin> wg_id ` set (wagers db)" "E_uuid E (k + i) \<notin> lr_id ` set (ledger db)"
    "E_uuid E (k + i) \<notin> ob_event_id ` set (outbox db)" by simp_all
qed

lemma fresh_ids_distinct:
  assumes "fresh_ids E k db" "i < 13" "j < 13" "i \<noteq> j"
  shows "E_uuid E (k + i) \<noteq> E_uuid E (k + j)"
proof
  assume e: "E_uuid E (k + i) = E_uuid E (k + j)"
  have "inj_on (E_uuid E) {k ..< k + 13}" using assms(1) unfolding fresh_ids_def distinct_map set_upt by blast
  from inj_onD [OF this e] show False using assms(2-4) by simp
qed

lemma fresh_ids_movement:
  assumes "fresh_ids E k db"
  shows "E_uuid E (k + 6 + 2) \<noteq> 0" "E_uuid E (k + 6 + 2) \<notin> lr_id ` set (ledger db)"
    "E_uuid E (k + 6 + 1) \<notin> ob_event_id ` set (outbox db)" "E_uuid E (k + 6 + 4) \<notin> ob_event_id ` set (outbox db)"
    "E_uuid E (k + 6 + 6) \<notin> ob_event_id ` set (outbox db)" "E_uuid E (k + 6 + 4) \<noteq> E_uuid E (k + 6 + 6)"
  using fresh_idsD(1,3) [OF assms, of 8] fresh_idsD(4) [OF assms, of 7] fresh_idsD(4) [OF assms, of 10]
    fresh_idsD(4) [OF assms, of 12] fresh_ids_distinct [OF assms, of 10 12] by (simp_all add: add.commute)

lemma find_unique: "\<lbrakk>r \<in> set xs; P r; \<And>x. \<lbrakk>x \<in> set xs; P x\<rbrakk> \<Longrightarrow> x = r\<rbrakk> \<Longrightarrow> find P xs = Some r"
proof -
  assume r: "r \<in> set xs" "P r" and u: "\<And>x. \<lbrakk>x \<in> set xs; P x\<rbrakk> \<Longrightarrow> x = r"
  obtain y where y: "find P xs = Some y" using r by (cases "find P xs") (auto simp: find_None_iff)
  have "y = r" using in_set_find [OF y] by (intro u) simp_all
  then show ?thesis using y by simp
qed

context answering
begin

lemma newTransaction_step:
  assumes req: "bet_request E command req" and new: "E_uuid E n \<noteq> 0" and t: "t \<noteq> 0"
  shows "newTransaction E req t (txw c ts n db) = (Inr (bet_new req (E_uuid E n) t), txw c ts (Suc n) db)"
    "tx_wf (E_decimal E) val (bet_new req (E_uuid E n) t)" "plain_bet (bet_new req (E_uuid E n) t)"
proof -
  note p = parseWagerRequest_InrD [of E command req]
  have pr: "parseWagerRequest E command = Inr req" and bt: "cmd_Type command = ''BET''" "cmd_ReferenceExternalTransactionID command = []"
    and ids: "isValidIdentifier (cmd_ProviderID command)" "isValidIdentifier (cmd_ExternalTransactionID command)"
      "isValidIdentifier (cmd_IdempotencyKey command)" "isValidIdentifier (cmd_RoundID command)" "isValidIdentifier (cmd_GameID command)"
    and texts: "pg_text_ok (cmd_ProviderID command)" "pg_text_ok (cmd_ExternalTransactionID command)"
      "pg_text_ok (cmd_IdempotencyKey command)" "pg_text_ok (cmd_RoundID command)" "pg_text_ok (cmd_GameID command)"
    and pos: "Money_IsPositive (E_decimal E) (req_amount req)" using req by (simp_all add: bet_request_def)
  have bet: "type_of_string ''BET'' = BET" by code_simp
  have am: "money_ok (E_decimal E) val (req_amount req)" using parsed_amount_ok [OF pr] .
  have hash: "TrimSpace (req_payloadHash req) \<noteq> []" "pg_text_ok (req_payloadHash req)"
    using request_hash_TrimSpace [of E req] length_request_hash [of E req] request_hash_plain [of _ E req] p(10) [OF pr]
    by (auto intro!: plain_text)
  have ne: "cmd_ExternalTransactionID command \<noteq> []" using ids(2) by (auto simp: isValidIdentifier_def)
  let ?p = "\<lparr>np_ID = E_uuid E n, np_ProviderID = cmd_ProviderID (req_command req),
        np_ExternalTransactionID = cmd_ExternalTransactionID (req_command req),
        np_IdempotencyKey = cmd_IdempotencyKey (req_command req), np_PayloadHash = req_payloadHash req,
        np_WalletID = req_walletID req, np_PlayerID = req_playerID req, np_RoundID = cmd_RoundID (req_command req),
        np_GameID = cmd_GameID (req_command req), np_Type = req_transactionType req, np_Amount = req_amount req,
        np_ReferenceExternalTransactionID = cmd_ReferenceExternalTransactionID (req_command req), np_CreatedAt = t\<rparr>"
  have n: "NewExternalWagerTransaction (E_decimal E) ?p = Inr (bet_new req (E_uuid E n) t)"
    using p [OF pr] bt bet ids pos am hash ne new t
    by (simp add: NewExternalWagerTransaction_def validateExternalWager_def validateWagerAmount_def validateExternalReference_def
        type_simps money_ok_def bet_new_def maxIdentifierLength_def)
  show "newTransaction E req t (txw c ts n db) = (Inr (bet_new req (E_uuid E n) t), txw c ts (Suc n) db)"
    using n by (simp add: newTransaction_def bind_act_def uuid_step lift_sum_def)
  show "tx_wf (E_decimal E) val (bet_new req (E_uuid E n) t)" using NewExternal_wf(1) [OF n] am by simp
  show "plain_bet (bet_new req (E_uuid E n) t)"
    using texts hash p(1) [OF pr] by (simp add: plain_bet_def bet_new_def pg_text_ok_def)
qed

lemma bet_inserted:
  assumes db: "schema_ok db" "fresh_ids E k db" "new_to db command" and req: "bet_request E command req"
    and r: "r \<in> set (wallets db)" "wr_id r = req_walletID req" "wr_currency r = Currency_Code (money_currency (req_amount req))"
    and t: "t = bet_new req (E_uuid E (k + 2)) now" "tx_wf (E_decimal E) val t" "plain_bet t"
  shows "WagerRepository_Create E tx_context t (txw c ts n db) = (Inr (), txw c ts (Suc n) (db\<lparr>wagers := wagers db @ [bet_row val t]\<rparr>))"
    "schema_ok (db\<lparr>wagers := wagers db @ [bet_row val t]\<rparr>)"
proof -
  have cmd: "req_command req = command" using req parseWagerRequest_InrD(1) by (auto simp: bet_request_def)
  have st: "tx_status t \<noteq> PENDING_REFERENCE" by (simp add: t(1) bet_new_def)
  have ne: "cmd_ProviderID command \<noteq> []" "cmd_ExternalTransactionID command \<noteq> []" "cmd_IdempotencyKey command \<noteq> []"
    using req by (auto simp: bet_request_def isValidIdentifier_def)
  let ?x = "bet_row val t"
  have x: "wg_type ?x \<noteq> OPENING" "\<not> is_reversal ?x" "wg_id ?x = E_uuid E (k + 2)" "wg_reference_transaction_id ?x = None"
    "wg_provider_id ?x = Some (cmd_ProviderID command)" "wg_external_transaction_id ?x = Some (cmd_ExternalTransactionID command)"
    "wg_idempotency_key ?x = Some (cmd_IdempotencyKey command)"
    using ne by (simp_all add: bet_row_def t(1) bet_new_def is_reversal_def nullableUUID_def nullableString_def cmd)
  have "fk_wager_wallet db ?x"
    using r by (auto simp: fk_wager_wallet_def list_ex_iff bet_row_def t(1) bet_new_def)
  then have i: "insert_wager ?x db = Inr (1, db\<lparr>wagers := wagers db @ [?x]\<rparr>)"
    using insert_wager_accepted [OF db(1) plain_bet_values [OF t(2,3)] plain_bet_checks [OF t(2,3) st] x(1,2)]
      fresh_idsD(2) [OF db(2), of 2] db(3) x by (force simp: new_to_def t(1) bet_new_def)
  show "WagerRepository_Create E tx_context t (txw c ts n db) = (Inr (), txw c ts (Suc n) (db\<lparr>wagers := wagers db @ [bet_row val t]\<rparr>))"
    by (rule Create_step [OF wager_row_of_bet [OF t(2)] i])
  show "schema_ok (db\<lparr>wagers := wagers db @ [bet_row val t]\<rparr>)" by (rule insert_wager_schema [OF i db(1)])
qed

text \<open>The steps up to the movement.\<close>

lemma bet_started:
  assumes db: "db_inv E db" "fresh_ids E k db" "new_to db command" and req: "bet_request E command req"
    and r: "r \<in> set (wallets db)" "wr_id r = req_walletID req" "wr_player_id r = req_playerID req"
      "wr_currency r = Currency_Code (money_currency (req_amount req))" "wr_version r + 1 < 2 ^ 63" "wr_updated_at r \<le> E_clock E k"
  obtains t wal db1 where "bet_ready E val db1 t wal r (E_clock E (k + 5)) (k + 6)" "tx_amount t = req_amount req"
    "wallets db1 = wallets db" "ledger db1 = ledger db"
    "process_body E P req md tx_context (txw c ts (Suc k) db) =
      bind_act (applyMovement E tx_context wal t md (E_clock E (k + 5))) (\<lambda>t. ret (resultFromWager t False)) (txw c ts (k + 6) db1)"
proof -
  have sch: "schema_ok db" and rows: "\<exists>wal. scanWallet E r = Inr wal" using db(1) r(1) by (auto simp: db_inv_def rows_ok_def)
  let ?t0 = "E_clock E (Suc k)" and ?now = "E_clock E (k + 5)"
  define t where "t = bet_new req (E_uuid E (k + 2)) ?t0"
  have t0: "?t0 \<noteq> 0" "0 < ?now" using clock_pos [of "Suc k"] clock_pos [of "k + 5"] by simp_all
  note n = newTransaction_step [OF req fresh_idsD(1) [OF db(2), of 2] t0(1), folded t_def]
  have two: "(2::nat) < 13" by simp
  let ?db1 = "db\<lparr>wagers := wagers db @ [bet_row val t]\<rparr>"
  note i = bet_inserted [OF sch db(2,3) req r(1,2,4) t_def n(2) [OF two] n(3) [OF two]]
  obtain wal where wal: "scanWallet E r = Inr wal" using rows by blast
  note s = scanWallet_InrD [OF wal]
  have cur: "money_currency (wallet_balance wal) = money_currency (tx_amount t)"
    using s(6) r(4) by (simp add: t_def bet_new_def Currency_Code_def)
  have find: "find (\<lambda>x. wr_id x = tx_walletID t) (wallets ?db1) = Some r"
  proof (rule find_unique)
    show "x = r" if "x \<in> set (wallets ?db1)" "wr_id x = tx_walletID t" for x
      by (rule schema_wallet_unique [OF sch _ r(1)]) (use that r(2) in \<open>simp_all add: t_def bet_new_def\<close>)
  qed (use r(1,2) in \<open>simp_all add: t_def bet_new_def\<close>)
  have pl: "wallet_playerID wal = tx_playerID t" using s(2) r(3) by (simp add: t_def bet_new_def)
  have led: "lr_transaction_id l \<noteq> tx_id t" if l: "l \<in> set (ledger db)" for l
  proof -
    obtain x where "x \<in> set (wagers db)" "wg_id x = lr_transaction_id l"
      by (rule schema_ledger_wager [OF sch l])
    then have "lr_transaction_id l \<in> wg_id ` set (wagers db)" by (metis imageI)
    moreover have "tx_id t = E_uuid E (k + 2)" by (simp add: t_def bet_new_def)
    ultimately show ?thesis using fresh_idsD(2) [OF db(2) two] by metis
  qed
  note f = fresh_ids_movement [OF db(2)]
  have led': "\<forall>x \<in> set (ledger db). lr_id x \<noteq> E_uuid E (k + 6 + 2) \<and> lr_transaction_id x \<noteq> tx_id t"
    using led f(2) by (metis imageI)
  have time: "tx_updatedAt t \<le> ?now" "wr_updated_at r \<le> ?now"
    using clock_le [of "Suc k" 4] order_trans [OF r(6) clock_le [of k 5]] by (simp_all add: t_def bet_new_def numeral_eq_Suc)
  have tf: "tx_status t = PENDING" "tx_walletID t = wr_id r" using r(2) by (simp_all add: t_def bet_new_def)
  have rd: "bet_ready E val ?db1 t wal r ?now (k + 6)"
    unfolding bet_ready_def using i(2) r(1,5) wal n(2,3) [OF two] cur t0(2) time tf led' f by (simp del: add_2_eq_Suc')
  show thesis
  proof (rule that [OF rd])
    show "process_body E P req md tx_context (txw c ts (Suc k) db) =
      bind_act (applyMovement E tx_context wal t md ?now) (\<lambda>t. ret (resultFromWager t False)) (txw c ts (k + 6) ?db1)"
      using n(1) [where c = c and ts = ts and db = db, OF two] i(1) [where c = c and ts = ts and n = "k + 3"]
        lockWallet_step [where c = c and ts = ts and n = "k + 4", OF find wal pl cur]
      by (simp add: process_body_def bind_act_def match_act_def Clock_step numeral_eq_Suc processNew_def settle_def
          t_def bet_new_def RequiresReference_def)
  qed (simp_all add: t_def bet_new_def)
qed

lemma bet_body_decides:
  assumes "db_inv E db" "fresh_ids E k db" "new_to db command" "bet_request E command req"
    "r \<in> set (wallets db)" "wr_id r = req_walletID req" "wr_player_id r = req_playerID req"
    "wr_currency r = Currency_Code (money_currency (req_amount req))" "wr_version r + 1 < 2 ^ 63" "wr_updated_at r \<le> E_clock E k"
    and md: "metadata_ok md"
  obtains res j db' where "process_body E P req md tx_context (txw c ts (Suc k) db) = (Inr res, txw c ts j db')"
    "bet_decided val r (cents val (req_amount req)) res db db'"
proof -
  obtain t wal db1 where b: "bet_ready E val db1 t wal r (E_clock E (k + 5)) (k + 6)" "tx_amount t = req_amount req"
    "wallets db1 = wallets db" "ledger db1 = ledger db"
    "process_body E P req md tx_context (txw c ts (Suc k) db) =
      bind_act (applyMovement E tx_context wal t md (E_clock E (k + 5))) (\<lambda>t. ret (resultFromWager t False)) (txw c ts (k + 6) db1)"
    by (rule bet_started [where P = P and md = md and c = c and ts = ts, OF assms(1-10)])
  obtain t' db' j where "applyMovement E tx_context wal t md (E_clock E (k + 5)) (txw c ts (k + 6) db1) = (Inr t', txw c ts j db')"
    "bet_decided val r (cents val (tx_amount t)) (resultFromWager t' False) db1 db'"
  proof (cases "cents val (tx_amount t) \<le> wr_balance r")
    case True
    show thesis by (rule bet_accepted [where c = c and ts = ts, OF b(1) md True]) (rule that)
  next
    case False
    then have "wr_balance r < cents val (tx_amount t)" by simp
    then show thesis by (rule bet_refused [where c = c and ts = ts, OF b(1) md]) (rule that)
  qed
  note d = this
  show thesis
  proof (rule that)
    show "process_body E P req md tx_context (txw c ts (Suc k) db) = (Inr (resultFromWager t' False), txw c ts j db')"
      using b(5) d(1) by (simp add: bind_act_def ret_def)
    show "bet_decided val r (cents val (req_amount req)) (resultFromWager t' False) db db'"
      unfolding bet_decided_def by (rule d(2) [unfolded bet_decided_def b(2-4)])
  qed
qed

lemma commit_step:
  assumes "m tx_context (txw (w_calls w) (E_clock E (w_step w)) (Suc (w_step w)) (w_db w)) = (Inr a, txw c ts j db)"
  shows "in_transaction E background m w = (Inr a, txw c ts (Suc j) db)"
proof -
  have "begin_tx E w = (Inr (), txw (w_calls w) (E_clock E (w_step w)) (Suc (w_step w)) (w_db w))"
    by (cases w) (simp add: begin_tx_def request_def answered)
  then have "run_tx E (closure_of m) () w = ((Inr a, ()), txw c ts (Suc j) db)"
    using assms by (simp add: run_tx_def closure_of_def commit_tx_def answered)
  then show ?thesis
    by (simp add: in_transaction_def WithinTransaction_def tx_attempts.simps [of maxTransactionAttempts])
qed

lemma Process_decides_bet:
  assumes "db_inv E (w_db w)" "fresh_ids E (w_step w) (w_db w)" "new_to (w_db w) command" "bet_request E command req"
    "r \<in> set (wallets (w_db w))" "wr_id r = req_walletID req" "wr_player_id r = req_playerID req"
    "wr_currency r = Currency_Code (money_currency (req_amount req))" "wr_version r + 1 < 2 ^ 63"
    "wr_updated_at r \<le> E_clock E (w_step w)" "metadata_ok md"
  shows "\<exists>res w'. Process E P background command md w = (Inr res, w') \<and>
    bet_decided val r (cents val (req_amount req)) res (w_db w) (w_db w')"
proof -
  obtain res j db' where b: "process_body E P req md tx_context (txw (w_calls w) (E_clock E (w_step w)) (Suc (w_step w)) (w_db w)) =
      (Inr res, txw (w_calls w) (E_clock E (w_step w)) j db')"
    "bet_decided val r (cents val (req_amount req)) res (w_db w) db'"
    by (rule bet_body_decides [where P = P and c = "w_calls w" and ts = "E_clock E (w_step w)", OF assms])
  have "Process E P background command md w = (Inr res, txw (w_calls w) (E_clock E (w_step w)) (Suc j) db')"
    using commit_step [where m = "process_body E P req md", OF b(1)] assms(4,11) by (simp add: Process_def bet_request_def metadata_ok_def)
  then show ?thesis using b(2) by auto
qed

end

interpretation answering_demo: answering demo_env fixed_val
  by unfold_locales (simp_all add: no_zero_byte_def demo_env_def nat_str_bytes)

text \<open>
  C3: a valid bet is decided. When the database answers, its clock does not run backwards and the
  identifiers drawn are new, \<^verbatim>\<open>Process\<close> succeeds on a bet that meets the rules of the domain, for a wallet of its
  player and currency that is stored: if the balance covers the amount, the bet is processed, exactly the amount leaves
  the balance and one debit is written to the ledger; otherwise the bet is rejected for insufficient funds and nothing moves.
\<close>

theorem bet_is_decided:
  assumes "runtime E val" "\<And>k. E_reply E k = Reply" "\<And>k. E_clock E k \<le> E_clock E (Suc k)"
    "\<And>u. no_zero_byte (E_uuid_String E u)"
    and "db_inv E (w_db w)" "fresh_ids E (w_step w) (w_db w)" "new_to (w_db w) command" "bet_request E command req"
    "r \<in> set (wallets (w_db w))" "wr_id r = req_walletID req" "wr_player_id r = req_playerID req"
    "wr_currency r = Currency_Code (money_currency (req_amount req))" "wr_version r + 1 < 2 ^ 63"
    "wr_updated_at r \<le> E_clock E (w_step w)" "metadata_ok md"
  shows "\<exists>res w'. Process E P background command md w = (Inr res, w') \<and>
    bet_decided val r (cents val (req_amount req)) res (w_db w) (w_db w')"
proof -
  have "answering E val" using assms(1-4) by (simp add: answering_def answering_axioms_def)
  from answering.Process_decides_bet [OF this assms(5-15)] show ?thesis .
qed

abbreviation demo_new_bet :: ProcessWagerCommand where
  "demo_new_bet \<equiv> demo_command\<lparr>cmd_ExternalTransactionID := ''e2'', cmd_IdempotencyKey := ''k2''\<rparr>"

lemma demo_new_bet_request:
  obtains req where "bet_request demo_env demo_new_bet req" "req_walletID req = 7" "req_playerID req = 9"
    "Currency_Code (money_currency (req_amount req)) = ''BRL''" "cents fixed_val (req_amount req) = 2550"
proof -
  let ?c = "\<lparr>currency_code = ''BRL''\<rparr>" and ?m = "\<lparr>money_amount = (2550, 2), money_currency = \<lparr>currency_code = ''BRL''\<rparr>\<rparr> :: fixed Money"
  have p: "E_uuid_Parse demo_env ''7'' = Some 7" "E_uuid_Parse demo_env ''9'' = Some 9" "NewCurrency ''BRL'' = Inr ?c"
    "ParseMoney fixed_decimal ''25.50'' ?c = Inr ?m" "type_of_string ''BET'' = BET" "Money_IsPositive fixed_decimal ?m"
    by code_simp+
  have i: "list_all (\<lambda>s. isValidIdentifier s \<and> pg_text_ok s) [''prov'', ''e2'', ''k2'', ''r1'', ''g1'']" by code_simp
  obtain req where req: "parseWagerRequest demo_env demo_new_bet = Inr req" "req_walletID req = 7" "req_playerID req = 9" "req_amount req = ?m"
    using p by (simp add: parseWagerRequest_def demo_command_def Let_def Type_IsExternal_def type_simps)
  then have "bet_request demo_env demo_new_bet req" using p i by (simp add: bet_request_def demo_command_def)
  with req that show thesis by (simp add: Currency_Code_def cents_def)
qed

theorem bet_is_decided_witness:
  "\<exists>res (w' :: World). Process demo_env DefaultReferenceRetryPolicy background demo_new_bet demo_metadata demo_world = (Inr res, w') \<and>
     bet_decided fixed_val demo_wallet_row 2550 res demo_db (w_db w')"
proof -
  obtain req where req: "bet_request demo_env demo_new_bet req" "req_walletID req = 7" "req_playerID req = 9"
    "Currency_Code (money_currency (req_amount req)) = ''BRL''" "cents fixed_val (req_amount req) = 2550"
    using demo_new_bet_request .
  have u: "[0 ..< 13] = [0::nat, 1, 2, 3, 4, 5, 6, 7, 8, 9, 10, 11, 12]" by code_simp
  have f1: "fresh_ids demo_env 0 demo_db"
    by (simp add: fresh_ids_def demo_env_def demo_db_def u demo_bet_row_def demo_opening_row_def)
  have f2: "new_to demo_db demo_new_bet" by code_simp
  have f3: "metadata_ok demo_metadata" by code_simp
  note f = f1 f2 f3
  have inv: "db_inv demo_env demo_db" using demo_db_inv .
  show ?thesis
    using bet_is_decided [OF demo.runtime_axioms, where command = demo_new_bet and req = req and r = demo_wallet_row
        and md = demo_metadata and w = demo_world and P = DefaultReferenceRetryPolicy]
      req f inv answering_demo.uuid_bytes by (simp add: demo_wallet_row_def demo_world_def demo_db_def)
qed

end
