(* ===== verification/Spec2Isabelle.thy ===== *)
theory Spec2Isabelle
  imports Consumer_Correctness Ledger_Pages Http_Correctness Worker_Correctness Health Transports Retry_Correctness Observability Backlog Bet_Settlement
begin

text \<open>
  A wallet and wager service: a verification library of the Go program under \<^verbatim>\<open>src/\<close>.

  The program keeps the wallets of players and processes the wager transactions (bets, wins, losses,
  refunds, rollbacks) game providers send, over HTTP and from a queue. A command is parsed and
  hashed, then processed in one database transaction: the transaction row and its idempotency key
  are inserted, the wallet row is locked, the reference of a refund or rollback is resolved, the
  domain objects compute the movement, and the wallet, the transaction, a ledger entry and the
  events of the outbox are written. A reference that has not arrived yet leaves the transaction
  pending, and a worker retries it until it expires.

  \<^bold>\<open>Theories, from the bottom up.\<close>

  \<^item> \<open>Prelude\<close>: the Go standard library the code uses (64-bit wrap-around, \<^verbatim>\<open>strings.TrimSpace\<close>,
    decimal text), instants in nanoseconds, generic lemmas. \<open>Errors\<close>: \<^verbatim>\<open>domain/errors.go\<close>,
    \<^verbatim>\<open>application/errors.go\<close>, \<^verbatim>\<open>postgres/errors.go\<close>, \<^verbatim>\<open>sqs/errors.go\<close>; errors are values, wrapping is a
    constructor.
  \<^item> \<open>Money\<close>, \<open>Wallet\<close>, \<open>Wager_Transaction\<close>: \<^verbatim>\<open>internal/domain\<close>. Structs are records, one
    definition per function or method, a method that changes its receiver returns it updated. The
    package \<^verbatim>\<open>shopspring/decimal\<close> is a parameter: the locale \<open>decimal_pkg\<close> has its operations and
    documented laws, \<open>Fixed_Decimal\<close> a concrete instance.
  \<^item> \<open>Database\<close>: the schema the migrations leave in force as executable statements: checks, unique
    indexes, foreign keys and triggers; amounts are stored in hundredths.
  \<^item> \<open>Tx_Manager\<close>: the effects. A program \<open>'a act\<close> takes a world (the database and a counter of
    requests) to an error or a value and a new world. The environment \<open>Env\<close> is arbitrary: it chooses
    clocks, identifiers, and for each request whether it is answered, fails, or is carried out with
    its answer lost. \<open>WithinTransaction\<close> is \<^verbatim>\<open>transaction_manager.go\<close> with its three attempts. The
    locale \<open>unit_of_work\<close> is its contract with the bodies of transactions.
  \<^item> \<open>Events\<close>, \<open>Repositories\<close>: \<^verbatim>\<open>application/events.go\<close> and the repositories of
    \<^verbatim>\<open>infrastructure/postgres\<close>. The locale \<open>runtime\<close> is what the lemmas assume of the environment.
  \<^item> \<open>Sha256\<close>, \<open>Wager_Request\<close>, \<open>Wager_Service\<close>, \<open>Wallet_Service\<close>: \<^verbatim>\<open>internal/application\<close>, one
    definition per function; the closures passed to \<^verbatim>\<open>WithinTransaction\<close> are definitions of their own.

  \<^item> \<open>Go_Time\<close>, \<open>Go_JSON\<close>: what the code uses of \<^verbatim>\<open>time\<close> (the civil calendar, RFC 3339) and
    \<^verbatim>\<open>encoding/json\<close> (printing, parsing, decoding into structs).
  \<^item> \<open>Outbox_Dispatcher\<close>: the delivery of events, \<^verbatim>\<open>outbox_dispatcher_service.go\<close>,
    \<^verbatim>\<open>outbox_dispatcher_repository.go\<close> and \<^verbatim>\<open>sqs/outbox_publisher.go\<close>. Calls of the queue service are
    recorded in the world and are not undone by a rollback.
  \<^item> \<open>Sqs_Consumer\<close>: wager messages, \<^verbatim>\<open>wager_message.go\<close>, \<^verbatim>\<open>wager_handler.go\<close>, \<^verbatim>\<open>consumer.go\<close> and
    \<^verbatim>\<open>publisher.go\<close> of \<^verbatim>\<open>infrastructure/sqs\<close>. What a receive returns and when to stop are arguments.
  \<^item> \<open>Go_Text\<close>: \<^verbatim>\<open>strconv.Atoi\<close>, \<^verbatim>\<open>strings.Fields\<close>, \<^verbatim>\<open>strings.EqualFold\<close>, \<^verbatim>\<open>strings.ToValidUTF8\<close> and the raw
    URL form of \<^verbatim>\<open>encoding/base64\<close>. \<open>Auth\<close>: \<^verbatim>\<open>auth/principal.go\<close> and \<^verbatim>\<open>keycloak/verifier.go\<close>; the claims of
    a token with a good signature are an argument. \<open>Http_Api\<close>: \<^verbatim>\<open>internal/transport/http\<close>, from a request and
    its route to the response; \<open>handle_request\<close> composes the middleware, the guards of the route and the handler.
  \<^item> \<open>Worker\<close>: \<^verbatim>\<open>internal/worker\<close>, the loop with its pauses and the three loops of the program. \<open>Config\<close>:
    \<^verbatim>\<open>internal/config\<close>, with \<^verbatim>\<open>time.ParseDuration\<close> and the levels of \<^verbatim>\<open>log/slog\<close>. \<open>Health\<close>: the health
    endpoints and their checks.
  \<^item> \<open>Go_Float\<close>: doubles. \<open>Observability\<close>: \<^verbatim>\<open>observability/metrics.go\<close>, and the consumer, the handlers, the
    workers and the transaction manager once more with the metrics they record. \<open>Backlog\<close>: \<^verbatim>\<open>postgres/pool.go\<close>,
    \<^verbatim>\<open>postgres/backlog_repository.go\<close> and the gauges of a scrape.

  \<^bold>\<open>Lemmas.\<close> \<open>Domain_Correctness\<close>: money is exact, movements are exact, the life cycle of a
  transaction and its rehydration. \<open>Storage_Correctness\<close>: transactions are atomic, statements keep the
  schema, rows are read back as they were written. \<open>Wager_Invariant\<close>: every operation keeps the
  financial invariant \<open>db_inv\<close>. \<open>Event_Correctness\<close>: the outbox. \<open>Service_Correctness\<close>: idempotency,
  reconciliation, isolation of providers, the retry policy. \<open>Effects\<close>: whatever happens, an operation
  is a sequence of statements. \<open>System\<close>: runs of the whole service from an empty database.
  \<open>JSON_Correctness\<close>: printed JSON is parsed back. \<open>Outbox_Correctness\<close>: any number of dispatchers, one
  request at a time, interleaved with the services and with crashes. \<open>Delivery\<close>: claims and their
  leases, the delivery of one event, its message. \<open>Message_Handling\<close>, \<open>Consumer_Correctness\<close>: a message
  takes effect once and is not lost, and the three retry schedules. \<open>Ledger_Pages\<close>: cursors are read back as they
  were written and the pages of a ledger are complete. \<open>Http_Correctness\<close>: who may do what over HTTP, and what
  an error response may say. \<open>Worker_Correctness\<close>: the pauses of a loop, one run at a time, the outbox is drained,
  and the retry schedule of a configuration. \<open>Transports\<close>: one idempotency key over HTTP and from the queue.
  \<open>Retry_Correctness\<close>: every outcome of the retry of a pending reference. \<open>Observability\<close>: metrics change nothing and
  count every message. \<open>Acceptance\<close>: the statements the schema accepts. \<open>Bet_Steps\<close>, \<open>Bet_Settlement\<close>: when requests are
  answered (the locale \<open>answering\<close>) every step of a valid bet succeeds, so that the bet is processed or rejected for
  insufficient funds, with its exact effect.

  \<^bold>\<open>Bounds.\<close> A transaction makes three attempts as in the code and every other loop is structural or
  has a measure, but for two. The background loops run until they are stopped: their fuel is a number of turns, the
  pauses are right for every number, and as many turns as there are unpublished events are enough to deliver those
  that are due. The JSON parser has fuel too, two steps per byte of the text and one more: each
  of its calls but those that open a list consumes a byte, and \<open>parse_json_text\<close> shows that every
  printed text is parsed within it. Durations wrap at 64 bits. Amounts have at most 20 digits,
  two of them decimals, as in the code.

  \<^bold>\<open>Not modelled.\<close> Transactions run one after the other, which is what the row locks, the unique
  indexes and the retried serialization failures give the code; interleavings inside a transaction
  are not. Logging, dependency injection, the listening socket, and the verification
  of the signature, issuer, audience and expiry of tokens by the OIDC library are left out. Fiber is a library: a
  request is what the handlers ask of it, and the body it binds an argument.
\<close>

end
